(* ===== verification/Prelude.thy ===== *)
theory Prelude
  imports Complex_Main "HOL-Library.Multiset"
begin

text \<open>
  Shared foundations of the development: the result-and-state combinators that every store
  operation and every HTTP handler is written with, the Hoare-style judgements used to reason
  about them, the generic table operations that SQL statements translate to, and the contract of
  the sorting routines of the Go library.

  A Go function that may fail and that acts on a state \<open>'s\<close> is a function
  \<open>'s \<Rightarrow> ('e + 'a) \<times> 's\<close>: \<open>Inl e\<close> is the error return (or, in a handler, the response that
  was written before an early \<open>return\<close>), \<open>Inr x\<close> the result.
\<close>

section \<open>Automation collections\<close>

named_theorems pres \<open>rules that show an operation keeps a state predicate\<close>
named_theorems ens \<open>rules that show a post-condition of an operation\<close>
named_theorems wf_simps \<open>unfolding of the well-formedness predicates\<close>

section \<open>Results with state\<close>

type_synonym ('s, 'e, 'a) action = "'s \<Rightarrow> ('e + 'a) \<times> 's"

definition okE :: "'a \<Rightarrow> ('s, 'e, 'a) action" where
  "okE x s = (Inr x, s)"

definition raiseE :: "'e \<Rightarrow> ('s, 'e, 'a) action" where
  "raiseE e s = (Inl e, s)"

text \<open>\<open>tryE m h k\<close> is Go's \<open>x, err := m(); if err != nil { h(err) } else { k(x) }\<close>.\<close>

definition tryE ::
  "('s, 'e, 'a) action \<Rightarrow> ('e \<Rightarrow> ('s, 'f, 'b) action) \<Rightarrow> ('a \<Rightarrow> ('s, 'f, 'b) action)
   \<Rightarrow> ('s, 'f, 'b) action" where
  "tryE m h k s = (case m s of (Inl e, s') \<Rightarrow> h e s' | (Inr x, s') \<Rightarrow> k x s')"

text \<open>\<open>bindE m k\<close> passes an error on unchanged (\<open>if err != nil { return err }\<close>).\<close>

definition bindE :: "('s, 'e, 'a) action \<Rightarrow> ('a \<Rightarrow> ('s, 'e, 'b) action) \<Rightarrow> ('s, 'e, 'b) action" where
  "bindE m k = tryE m raiseE k"

text \<open>\<open>mapErrE f m\<close> wraps the error (\<open>return fmt.Errorf(..., err)\<close>).\<close>

definition mapErrE :: "('e \<Rightarrow> 'f) \<Rightarrow> ('s, 'e, 'a) action \<Rightarrow> ('s, 'f, 'a) action" where
  "mapErrE f m = tryE m (\<lambda>e. raiseE (f e)) okE"

definition getE :: "('s \<Rightarrow> 'a) \<Rightarrow> ('s, 'e, 'a) action" where
  "getE f s = (Inr (f s), s)"

definition modifyE :: "('s \<Rightarrow> 's) \<Rightarrow> ('s, 'e, unit) action" where
  "modifyE f s = (Inr (), f s)"

text \<open>A loop over a slice whose body may return early with an error.\<close>

primrec forE :: "'a list \<Rightarrow> ('a \<Rightarrow> ('s, 'e, unit) action) \<Rightarrow> ('s, 'e, unit) action" where
  "forE [] f = okE ()"
| "forE (x # xs) f = bindE (f x) (\<lambda>_. forE xs f)"

text \<open>A loop that threads an accumulator.\<close>

primrec foldE :: "('a \<Rightarrow> 'b \<Rightarrow> ('s, 'e, 'b) action) \<Rightarrow> 'a list \<Rightarrow> 'b \<Rightarrow> ('s, 'e, 'b) action" where
  "foldE f [] b = okE b"
| "foldE f (x # xs) b = bindE (f x b) (\<lambda>b'. foldE f xs b')"

lemmas action_defs = okE_def raiseE_def tryE_def bindE_def mapErrE_def getE_def modifyE_def

lemma tryE_okE [simp]: "tryE (okE x) h k = k x"
  by (simp add: fun_eq_iff tryE_def okE_def)

lemma tryE_raiseE [simp]: "tryE (raiseE e) h k = h e"
  by (simp add: fun_eq_iff tryE_def raiseE_def)

lemma bindE_okE [simp]: "bindE (okE x) k = k x"
  by (simp add: bindE_def)

lemma bindE_raiseE [simp]: "bindE (raiseE e) k = raiseE e"
  by (simp add: bindE_def)

lemma tryE_Inl: "m s = (Inl e, s') \<Longrightarrow> tryE m h k s = h e s'"
  by (simp add: tryE_def)

lemma tryE_Inr: "m s = (Inr x, s') \<Longrightarrow> tryE m h k s = k x s'"
  by (simp add: tryE_def)

lemma bindE_Inl: "m s = (Inl e, s') \<Longrightarrow> bindE m k s = (Inl e, s')"
  by (simp add: bindE_def tryE_def raiseE_def)

lemma bindE_Inr: "m s = (Inr x, s') \<Longrightarrow> bindE m k s = k x s'"
  by (simp add: bindE_def tryE_def)

lemma bindE_InrD:
  "bindE m k s = (Inr y, s'') \<Longrightarrow> \<exists>x s'. m s = (Inr x, s') \<and> k x s' = (Inr y, s'')"
  by (auto simp: bindE_def tryE_def raiseE_def split: prod.splits sum.splits)

lemma bindE_InrE:
  assumes "bindE m k s = (Inr y, s'')"
  obtains x s' where "m s = (Inr x, s')" and "k x s' = (Inr y, s'')"
  using bindE_InrD [OF assms] by blast

lemma mapErrE_InrD: "mapErrE f m s = (Inr x, s') \<Longrightarrow> m s = (Inr x, s')"
  by (auto simp: mapErrE_def tryE_def raiseE_def okE_def split: prod.splits sum.splits)

lemma tryE_cases:
  assumes "tryE m h k s = r"
  obtains (Error) e s' where "m s = (Inl e, s')" and "h e s' = r"
  | (Result) x s' where "m s = (Inr x, s')" and "k x s' = r"
  using assms by (auto simp: tryE_def split: prod.splits sum.splits)

lemma bindE_assoc: "bindE (bindE m f) g = bindE m (\<lambda>x. bindE (f x) g)"
  by (auto simp: fun_eq_iff bindE_def tryE_def raiseE_def split: prod.splits sum.splits)

section \<open>Preservation of a state predicate\<close>

definition preserves :: "('s \<Rightarrow> bool) \<Rightarrow> ('s \<Rightarrow> 'r \<times> 's) \<Rightarrow> bool" where
  "preserves P m \<longleftrightarrow> (\<forall>s. P s \<longrightarrow> P (snd (m s)))"

lemma preservesI: "(\<And>s. P s \<Longrightarrow> P (snd (m s))) \<Longrightarrow> preserves P m"
  by (simp add: preserves_def)

lemma preservesD: "preserves P m \<Longrightarrow> P s \<Longrightarrow> m s = (r, s') \<Longrightarrow> P s'"
  by (metis preserves_def snd_conv)

lemma preserves_okE [pres]: "preserves P (okE x)"
  by (simp add: preserves_def okE_def)

lemma preserves_raiseE [pres]: "preserves P (raiseE e)"
  by (simp add: preserves_def raiseE_def)

lemma preserves_getE [pres]: "preserves P (getE f)"
  by (simp add: preserves_def getE_def)

lemma preserves_modifyE [pres]: "(\<And>s. P s \<Longrightarrow> P (f s)) \<Longrightarrow> preserves P (modifyE f)"
  by (simp add: preserves_def modifyE_def)

lemma preserves_tryE [pres]:
  "preserves P m \<Longrightarrow> (\<And>e. preserves P (h e)) \<Longrightarrow> (\<And>x. preserves P (k x)) \<Longrightarrow> preserves P (tryE m h k)"
  by (fastforce simp: preserves_def tryE_def split: prod.splits sum.splits)

lemma preserves_bindE [pres]:
  "preserves P m \<Longrightarrow> (\<And>x. preserves P (k x)) \<Longrightarrow> preserves P (bindE m k)"
  by (simp add: bindE_def preserves_tryE preserves_raiseE)

lemma preserves_mapErrE [pres]: "preserves P m \<Longrightarrow> preserves P (mapErrE f m)"
  by (simp add: mapErrE_def preserves_tryE preserves_raiseE preserves_okE)

lemma preserves_if [pres]:
  "(b \<Longrightarrow> preserves P m) \<Longrightarrow> (\<not> b \<Longrightarrow> preserves P n) \<Longrightarrow> preserves P (if b then m else n)"
  by simp

lemma preserves_case_option [pres]:
  "preserves P m \<Longrightarrow> (\<And>y. preserves P (k y)) \<Longrightarrow> preserves P (case x of None \<Rightarrow> m | Some y \<Rightarrow> k y)"
  by (cases x) auto

lemma preserves_case_prod [pres]:
  "(\<And>a b. preserves P (k a b)) \<Longrightarrow> preserves P (case x of (a, b) \<Rightarrow> k a b)"
  by (cases x) auto

lemma preserves_forE [pres]: "(\<And>x. preserves P (f x)) \<Longrightarrow> preserves P (forE xs f)"
  by (induction xs) (auto intro: pres)

lemma preserves_foldE [pres]: "(\<And>x b. preserves P (f x b)) \<Longrightarrow> preserves P (foldE f xs b)"
  by (induction xs arbitrary: b) (auto intro: pres)

section \<open>Pre- and post-conditions\<close>

definition ensures :: "('s \<Rightarrow> bool) \<Rightarrow> ('s, 'e, 'a) action \<Rightarrow> ('a \<Rightarrow> 's \<Rightarrow> bool) \<Rightarrow> bool" where
  "ensures P m Q \<longleftrightarrow> (\<forall>s x s'. P s \<longrightarrow> m s = (Inr x, s') \<longrightarrow> Q x s')"

lemma ensuresI: "(\<And>s x s'. P s \<Longrightarrow> m s = (Inr x, s') \<Longrightarrow> Q x s') \<Longrightarrow> ensures P m Q"
  by (simp add: ensures_def)

lemma ensuresD: "ensures P m Q \<Longrightarrow> P s \<Longrightarrow> m s = (Inr x, s') \<Longrightarrow> Q x s'"
  by (simp add: ensures_def)

lemma ensures_okE [ens]: "(\<And>s. P s \<Longrightarrow> Q x s) \<Longrightarrow> ensures P (okE x) Q"
  by (simp add: ensures_def okE_def)

lemma ensures_raiseE [ens]: "ensures P (raiseE e) Q"
  by (simp add: ensures_def raiseE_def)

lemma ensures_bindE:
  "ensures P m R \<Longrightarrow> (\<And>x. ensures (R x) (k x) Q) \<Longrightarrow> ensures P (bindE m k) Q"
  unfolding ensures_def by (blast dest: bindE_InrD)

lemma ensures_if [ens]:
  "(b \<Longrightarrow> ensures P m Q) \<Longrightarrow> (\<not> b \<Longrightarrow> ensures P n Q) \<Longrightarrow> ensures P (if b then m else n) Q"
  by simp

section \<open>Tables\<close>

text \<open>
  A table is the list of its rows in insertion order. A statement's \<open>WHERE\<close> clause is a
  predicate; the number of rows it selects is what GORM reports as \<open>RowsAffected\<close>.
\<close>

definition sql_update :: "('r \<Rightarrow> bool) \<Rightarrow> ('r \<Rightarrow> 'r) \<Rightarrow> 'r list \<Rightarrow> 'r list" where
  "sql_update p f t = map (\<lambda>r. if p r then f r else r) t"

definition sql_delete :: "('r \<Rightarrow> bool) \<Rightarrow> 'r list \<Rightarrow> 'r list" where
  "sql_delete p t = filter (\<lambda>r. \<not> p r) t"

definition sql_count :: "('r \<Rightarrow> bool) \<Rightarrow> 'r list \<Rightarrow> nat" where
  "sql_count p t = length (filter p t)"

definition sql_exists :: "('r \<Rightarrow> bool) \<Rightarrow> 'r list \<Rightarrow> bool" where
  "sql_exists p t = list_ex p t"

definition sql_take :: "('r \<Rightarrow> bool) \<Rightarrow> 'r list \<Rightarrow> 'r option" where
  "sql_take p t = List.find p t"

text \<open>\<open>ORDER BY k ASC\<close> and \<open>ORDER BY k DESC\<close>; SQL leaves the order of ties open, table order is used.\<close>

definition order_asc :: "('r \<Rightarrow> 'k::linorder) \<Rightarrow> 'r list \<Rightarrow> 'r list" where
  "order_asc k t = sort_key k t"

definition order_desc :: "('r \<Rightarrow> 'k::linorder) \<Rightarrow> 'r list \<Rightarrow> 'r list" where
  "order_desc k t = rev (sort_key k (rev t))"

lemma sql_count_0_iff [simp]: "sql_count p t = 0 \<longleftrightarrow> (\<forall>r\<in>set t. \<not> p r)"
  by (simp add: sql_count_def filter_empty_conv)

lemma sql_exists_iff: "sql_exists p t \<longleftrightarrow> (\<exists>r\<in>set t. p r)"
  by (simp add: sql_exists_def list_ex_iff)

lemma sql_update_append [simp]: "sql_update p f (xs @ ys) = sql_update p f xs @ sql_update p f ys"
  by (simp add: sql_update_def)

lemma sql_delete_append [simp]: "sql_delete p (xs @ ys) = sql_delete p xs @ sql_delete p ys"
  by (simp add: sql_delete_def)

lemma sql_update_Cons [simp]: "sql_update p f (x # xs) = (if p x then f x else x) # sql_update p f xs"
  by (simp add: sql_update_def)

lemma sql_delete_Cons [simp]: "sql_delete p (x # xs) = (if p x then sql_delete p xs else x # sql_delete p xs)"
  by (simp add: sql_delete_def)

lemma sql_update_none: "\<forall>x\<in>set xs. \<not> p x \<Longrightarrow> sql_update p f xs = xs"
  by (auto simp: sql_update_def intro!: map_idI)

lemma sql_delete_none: "\<forall>x\<in>set xs. \<not> p x \<Longrightarrow> sql_delete p xs = xs"
  by (simp add: sql_delete_def)

lemma sql_exists_key [simp]: "sql_exists (\<lambda>r. k r = a) t \<longleftrightarrow> a \<in> k ` set t"
  by (auto simp: sql_exists_iff)

lemma sql_exists_key2 [simp]:
  "sql_exists (\<lambda>r. k r = a \<and> k' r = b) t \<longleftrightarrow> (a, b) \<in> (\<lambda>r. (k r, k' r)) ` set t"
  by (auto simp: sql_exists_iff)

lemma set_sql_delete: "set (sql_delete p t) = {r \<in> set t. \<not> p r}"
  by (simp add: sql_delete_def)

lemma set_sql_update: "set (sql_update p f t) = (\<lambda>r. if p r then f r else r) ` set t"
  by (simp add: sql_update_def)

lemma ball_sql_delete [simp]: "(\<forall>x\<in>set (sql_delete p t). P x) \<longleftrightarrow> (\<forall>x\<in>set t. \<not> p x \<longrightarrow> P x)"
  by (auto simp: set_sql_delete)

lemma bex_sql_delete [simp]: "(\<exists>x\<in>set (sql_delete p t). P x) \<longleftrightarrow> (\<exists>x\<in>set t. \<not> p x \<and> P x)"
  by (auto simp: set_sql_delete)

lemma ball_sql_update [simp]:
  "(\<forall>x\<in>set (sql_update p f t). P x) \<longleftrightarrow> (\<forall>x\<in>set t. P (if p x then f x else x))"
  by (auto simp: set_sql_update)

text \<open>The keys left by a statement that selects by key, and by one that leaves the key alone.\<close>

lemma keys_sql_delete [simp]: "k ` set (sql_delete (\<lambda>r. k r = a) t) = k ` set t - {a}"
  by (auto simp: set_sql_delete)

lemma keys_sql_delete_in [simp]: "k ` set (sql_delete (\<lambda>r. k r \<in> A) t) = k ` set t - A"
  by (auto simp: set_sql_delete)

lemma keys_sql_delete_fst [simp]:
  "(\<lambda>r. (k r, k' r)) ` set (sql_delete (\<lambda>r. k r = a) t) = {x \<in> (\<lambda>r. (k r, k' r)) ` set t. fst x \<noteq> a}"
  unfolding set_sql_delete image_def by auto

lemma keys_sql_update [simp]:
  "(\<And>r. p r \<Longrightarrow> k (f r) = k r) \<Longrightarrow> k ` set (sql_update p f t) = k ` set t"
  unfolding sql_update_def by (induction t) auto

lemma filter_sql_update [simp]:
  "(\<And>r. p r \<Longrightarrow> q (f r) = q r) \<Longrightarrow> filter q (sql_update p f t) = sql_update p f (filter q t)"
  by (induction t) (auto simp: sql_update_def)

lemma distinct_filter_delete:
  "distinct (map k (filter q t)) \<Longrightarrow> distinct (map k (filter q (sql_delete p t)))"
  by (induction t) (auto simp: sql_delete_def)

lemma distinct_filter_replace:
  assumes "distinct (map k (filter q (xs @ x # ys)))" and "q y \<Longrightarrow> k y \<notin> k ` (set xs \<union> set ys)"
  shows "distinct (map k (filter q (xs @ y # ys)))"
proof -
  have "set (filter q zs) \<subseteq> set zs" for zs by auto
  with assms show ?thesis by (cases "q x"; cases "q y") (auto simp: image_Un)
qed

lemma map_sql_update [simp]:
  "(\<And>r. p r \<Longrightarrow> k (f r) = k r) \<Longrightarrow> map k (sql_update p f t) = map k t"
  by (simp add: sql_update_def)

lemma set_order_asc [simp]: "set (order_asc k t) = set t"
  by (simp add: order_asc_def)

lemma set_order_desc [simp]: "set (order_desc k t) = set t"
  by (simp add: order_desc_def)

lemma sorted_order_asc: "sorted (map k (order_asc k t))"
  by (simp add: order_asc_def)

lemma sorted_order_desc: "sorted (rev (map k (order_desc k t)))"
  by (simp add: order_desc_def rev_map)

lemma distinct_map_delete: "distinct (map k t) \<Longrightarrow> distinct (map k (sql_delete p t))"
  by (simp add: sql_delete_def distinct_map_filter)

lemma sql_take_Some: "sql_take p t = Some r \<Longrightarrow> r \<in> set t \<and> p r"
  by (auto simp: sql_take_def find_Some_iff)

lemma sql_take_None: "sql_take p t = None \<longleftrightarrow> (\<forall>r\<in>set t. \<not> p r)"
  by (auto simp: sql_take_def find_None_iff)

lemma sql_take_unique:
  assumes "distinct (map k t)" and "r \<in> set t" and "p r" and "\<And>r'. r' \<in> set t \<Longrightarrow> p r' \<Longrightarrow> k r' = k r"
  shows "sql_take p t = Some r"
proof (cases "sql_take p t")
  case None
  with assms show ?thesis by (auto simp: sql_take_None)
next
  case (Some r')
  then have "r' \<in> set t" "p r'" by (auto dest: sql_take_Some)
  with assms have "k r' = k r" by blast
  with assms(1,2) \<open>r' \<in> set t\<close> have "r' = r" by (meson distinct_map inj_onD)
  with Some show ?thesis by simp
qed

text \<open>A lookup by key in a table with unique keys, after the statements that change the table.\<close>

lemma sql_take_key_iff:
  assumes "distinct (map k t)"
  shows "sql_take (\<lambda>r. k r = a) t = Some r \<longleftrightarrow> r \<in> set t \<and> k r = a"
  using assms sql_take_Some [of "\<lambda>r. k r = a" t r] sql_take_unique [of k t r "\<lambda>r. k r = a"]
  by auto

lemma sql_take_update_key:
  assumes "\<And>r. p r \<Longrightarrow> k (f r) = k r"
  shows "sql_take (\<lambda>r. k r = a) (sql_update p f t) =
         map_option (\<lambda>r. if p r then f r else r) (sql_take (\<lambda>r. k r = a) t)"
  using assms by (induction t) (auto simp: sql_take_def sql_update_def)

lemma sql_take_delete_other:
  assumes "\<And>r. k r = a \<Longrightarrow> \<not> p r"
  shows "sql_take (\<lambda>r. k r = a) (sql_delete p t) = sql_take (\<lambda>r. k r = a) t"
  using assms by (induction t) (auto simp: sql_take_def sql_delete_def)

text \<open>The one row a key selects, and what an update and a delete of it make of the table.\<close>

lemma sql_update_at_key:
  assumes "distinct (map k t)" and "sql_take (\<lambda>r. k r = a) t = Some r"
  shows "\<exists>xs ys. t = xs @ r # ys \<and> sql_update (\<lambda>r. k r = a) f t = xs @ f r # ys \<and>
           sql_delete (\<lambda>r. k r = a) t = xs @ ys"
proof -
  have r: "r \<in> set t" "k r = a" using sql_take_Some [OF assms(2)] by auto
  then obtain xs ys where t: "t = xs @ r # ys" by (meson split_list)
  have "a \<notin> k ` set xs" "a \<notin> k ` set ys" using assms(1) r(2) unfolding t by auto
  then have xs: "\<forall>x\<in>set xs. k x \<noteq> a" and ys: "\<forall>x\<in>set ys. k x \<noteq> a" by blast+
  have "sql_update (\<lambda>r. k r = a) f t = xs @ f r # ys" "sql_delete (\<lambda>r. k r = a) t = xs @ ys"
    unfolding t using r(2) by (simp_all add: sql_update_none [OF xs] sql_update_none [OF ys]
      sql_delete_none [OF xs] sql_delete_none [OF ys])
  with t show ?thesis by blast
qed

section \<open>Sorting\<close>

text \<open>
  \<open>sort.Slice\<close> returns some permutation of the slice that is in order; it is not stable, so the
  order of elements that compare equal is left open. A definition that sorts takes the routine as a
  parameter and its properties assume this documented contract.
\<close>

definition sort_contract :: "('a \<Rightarrow> 'a \<Rightarrow> bool) \<Rightarrow> ('a list \<Rightarrow> 'a list) \<Rightarrow> bool" where
  "sort_contract le f \<longleftrightarrow> (\<forall>xs. mset (f xs) = mset xs \<and> sorted_wrt le (f xs))"

lemma sort_contract_set: "sort_contract le f \<Longrightarrow> set (f xs) = set xs"
  unfolding sort_contract_def by (metis mset_eq_setD)

lemma sort_contract_sort_key: "sort_contract (\<lambda>x y. k x \<le> k y) (sort_key k)"
  unfolding sort_contract_def using sorted_wrt_map [of "(\<le>)" k] sorted_sort_key [of k]
  by (auto simp: sorted_wrt_map)

end
