(* ===== verification/GoStrings.thy ===== *)
theory GoStrings
  imports Prelude
begin

text \<open>
  The parts of Go's \<open>strings\<close>, \<open>strconv\<close>, \<open>regexp\<close> and \<open>path/filepath\<close> packages that the server
  uses, on strings as byte lists. A multi-byte UTF-8 sequence holds no byte below 128, so the byte
  view and Go's rune view agree on every ASCII character these functions look for.
\<close>

section \<open>strings\<close>

definition HasPrefix :: "string \<Rightarrow> string \<Rightarrow> bool" where
  "HasPrefix s p \<longleftrightarrow> take (length p) s = p"

definition HasSuffix :: "string \<Rightarrow> string \<Rightarrow> bool" where
  "HasSuffix s p \<longleftrightarrow> length p \<le> length s \<and> drop (length s - length p) s = p"

fun Contains :: "string \<Rightarrow> string \<Rightarrow> bool" where
  "Contains [] p = (p = [])"
| "Contains (c # s) p = (HasPrefix (c # s) p \<or> Contains s p)"

definition TrimPrefix :: "string \<Rightarrow> string \<Rightarrow> string" where
  "TrimPrefix s p = (if HasPrefix s p then drop (length p) s else s)"

definition TrimSuffix :: "string \<Rightarrow> string \<Rightarrow> string" where
  "TrimSuffix s p = (if HasSuffix s p then take (length s - length p) s else s)"

definition trim_both :: "(char \<Rightarrow> bool) \<Rightarrow> string \<Rightarrow> string" where
  "trim_both p s = rev (dropWhile p (rev (dropWhile p s)))"

text \<open>\<open>strings.Trim(s, "/")\<close>.\<close>

definition TrimSlash :: "string \<Rightarrow> string" where
  "TrimSlash s = trim_both (\<lambda>c. c = CHR ''/'') s"

definition is_space :: "char \<Rightarrow> bool" where
  "is_space c \<longleftrightarrow> of_char c \<in> {9, 10, 11, 12, 13, 32 :: nat}"

definition TrimSpace :: "string \<Rightarrow> string" where
  "TrimSpace s = trim_both is_space s"

text \<open>\<open>strings.Split\<close> with a one-byte separator: never empty.\<close>

fun Split :: "string \<Rightarrow> char \<Rightarrow> string list" where
  "Split [] sep = [[]]"
| "Split (c # s) sep =
     (if c = sep then [] # Split s sep
      else (case Split s sep of [] \<Rightarrow> [[c]] | w # ws \<Rightarrow> (c # w) # ws))"

fun join_with :: "char \<Rightarrow> string list \<Rightarrow> string" where
  "join_with sep [] = []"
| "join_with sep [w] = w"
| "join_with sep (w # v # ws) = w @ sep # join_with sep (v # ws)"

text \<open>\<open>strings.Cut\<close> with a one-byte separator: the parts around its first occurrence.\<close>

definition Cut :: "string \<Rightarrow> char \<Rightarrow> string \<times> string \<times> bool" where
  "Cut s sep = (let a = takeWhile (\<lambda>c. c \<noteq> sep) s; b = dropWhile (\<lambda>c. c \<noteq> sep) s
                in case b of [] \<Rightarrow> (s, [], False) | _ # r \<Rightarrow> (a, r, True))"

definition lower :: "char \<Rightarrow> char" where
  "lower c = (let n = of_char c :: nat in if 65 \<le> n \<and> n \<le> 90 then char_of (n + 32) else c)"

definition EqualFold :: "string \<Rightarrow> string \<Rightarrow> bool" where
  "EqualFold s t \<longleftrightarrow> map lower s = map lower t"

lemma HasPrefix_iff: "HasPrefix s p \<longleftrightarrow> (\<exists>r. s = p @ r)"
  unfolding HasPrefix_def by (metis append_eq_conv_conj append_take_drop_id)

lemma HasPrefix_append [simp]: "HasPrefix (p @ r) p"
  by (simp add: HasPrefix_def)

lemma HasPrefix_Nil [simp]: "HasPrefix s []"
  by (simp add: HasPrefix_def)

lemma HasSuffix_iff: "HasSuffix s p \<longleftrightarrow> (\<exists>r. s = r @ p)"
proof
  assume "HasSuffix s p"
  then show "\<exists>r. s = r @ p" unfolding HasSuffix_def by (metis append_take_drop_id)
qed (auto simp: HasSuffix_def)

lemma Contains_iff: "Contains s p \<longleftrightarrow> (\<exists>a b. s = a @ p @ b)"
proof (induction s)
  case (Cons c s)
  show ?case
  proof
    assume "Contains (c # s) p"
    then show "\<exists>a b. c # s = a @ p @ b"
      using Cons.IH by (auto simp: HasPrefix_iff) (metis append_Cons append_Nil)+
  next
    assume "\<exists>a b. c # s = a @ p @ b"
    then show "Contains (c # s) p"
      using Cons.IH by (auto simp: HasPrefix_iff Cons_eq_append_conv)
  qed
qed auto

lemma Contains_one: "Contains s [c] \<longleftrightarrow> c \<in> set s"
  by (auto simp: Contains_iff dest: split_list)

lemma Split_nonempty [simp]: "Split s sep \<noteq> []"
  by (induction s) (auto split: list.splits)

lemma Split_no_sep: "sep \<notin> set s \<Longrightarrow> Split s sep = [s]"
  by (induction s) auto

lemma Split_append: "Split (a @ sep # b) sep = Split a sep @ Split b sep"
  by (induction a) (auto split: list.splits)

lemma join_with_Cons: "ws \<noteq> [] \<Longrightarrow> join_with sep (w # ws) = w @ sep # join_with sep ws"
  by (cases ws) auto

lemma join_with_head: "join_with sep ((c # w) # ws) = c # join_with sep (w # ws)"
  by (cases ws) auto

lemma join_Split: "join_with sep (Split s sep) = s"
proof (induction s)
  case (Cons c s)
  obtain w ws where w: "Split s sep = w # ws" by (meson Split_nonempty list.exhaust)
  with Cons show ?case by (simp add: join_with_Cons join_with_head)
qed simp

lemma set_Split: "w \<in> set (Split s sep) \<Longrightarrow> sep \<notin> set w"
proof (induction s arbitrary: w)
  case (Cons c s)
  then show ?case
    by (cases "Split s sep") (auto split: if_splits)
qed simp

lemma Split_join:
  "ws \<noteq> [] \<Longrightarrow> \<forall>w\<in>set ws. sep \<notin> set w \<Longrightarrow> Split (join_with sep ws) sep = ws"
  by (induction sep ws rule: join_with.induct) (auto simp: Split_append Split_no_sep)

section \<open>strconv and the two file-name patterns\<close>

definition is_digit :: "char \<Rightarrow> bool" where
  "is_digit c \<longleftrightarrow> 48 \<le> (of_char c :: nat) \<and> (of_char c :: nat) \<le> 57"

definition digit_val :: "char \<Rightarrow> int" where
  "digit_val c = int (of_char c) - 48"

definition digits_val :: "string \<Rightarrow> int" where
  "digits_val s = foldl (\<lambda>n c. n * 10 + digit_val c) 0 s"

text \<open>\<open>^[0-9]+$\<close>; without the \<open>m\<close> flag, \<open>$\<close> is the end of the text.\<close>

definition all_digits :: "string \<Rightarrow> bool" where
  "all_digits s \<longleftrightarrow> s \<noteq> [] \<and> list_all is_digit s"

definition max_int64 :: int where "max_int64 = 9223372036854775807"

text \<open>\<open>strconv.Atoi\<close>: an optional sign, digits, and an error outside the range of \<open>int\<close> (64 bits).\<close>

definition Atoi :: "string \<Rightarrow> int option" where
  "Atoi s =
     (let (neg, ds) = (case s of
            [] \<Rightarrow> (False, [])
          | c # r \<Rightarrow> if c = CHR ''-'' then (True, r) else if c = CHR ''+'' then (False, r) else (False, s))
      in if \<not> all_digits ds then None
         else let n = (if neg then - digits_val ds else digits_val ds)
              in if - max_int64 - 1 \<le> n \<and> n \<le> max_int64 then Some n else None)"

fun nat_digits :: "nat \<Rightarrow> string" where
  "nat_digits n = (if n < 10 then [char_of (48 + n)] else nat_digits (n div 10) @ [char_of (48 + n mod 10)])"

declare nat_digits.simps [simp del]

definition Itoa :: "int \<Rightarrow> string" where
  "Itoa i = (if i < 0 then CHR ''-'' # nat_digits (nat (- i)) else nat_digits (nat i))"

lemma is_digit_char_of: "n < 10 \<Longrightarrow> is_digit (char_of (48 + n :: nat))"
  by (simp add: is_digit_def)

lemma digit_val_char_of: "n < 10 \<Longrightarrow> digit_val (char_of (48 + n :: nat)) = int n"
  by (simp add: digit_val_def)

lemma digit_val_nonneg: "is_digit c \<Longrightarrow> 0 \<le> digit_val c"
  by (simp add: digit_val_def is_digit_def)

lemma all_digits_nat_digits: "all_digits (nat_digits n)"
proof (induction n rule: nat_digits.induct)
  case (1 n)
  show ?case
  proof (cases "n < 10")
    case True
    then show ?thesis by (subst nat_digits.simps) (simp add: all_digits_def is_digit_char_of)
  next
    case False
    with 1 show ?thesis by (subst nat_digits.simps) (simp add: all_digits_def is_digit_char_of)
  qed
qed

lemma digits_val_snoc: "digits_val (s @ [c]) = digits_val s * 10 + digit_val c"
  by (simp add: digits_val_def)

lemma digits_val_nat_digits: "digits_val (nat_digits n) = int n"
proof (induction n rule: nat_digits.induct)
  case (1 n)
  show ?case
  proof (cases "n < 10")
    case True
    then show ?thesis by (subst nat_digits.simps) (simp add: digits_val_def digit_val_char_of)
  next
    case False
    with 1 have "digits_val (nat_digits (n div 10)) = int (n div 10)" by simp
    with False show ?thesis
      by (subst nat_digits.simps) (simp add: digits_val_snoc digit_val_char_of zdiv_int zmod_int)
  qed
qed

lemma digits_val_nonneg: "all_digits s \<Longrightarrow> 0 \<le> digits_val s"
proof -
  have "list_all is_digit s \<Longrightarrow> 0 \<le> digits_val s"
  proof (induction s rule: rev_induct)
    case (snoc c s)
    then show ?case by (simp add: digits_val_snoc digit_val_nonneg)
  qed (simp add: digits_val_def)
  then show "all_digits s \<Longrightarrow> 0 \<le> digits_val s" by (simp add: all_digits_def)
qed

lemma nat_digits_first: "\<exists>c r. nat_digits n = c # r \<and> is_digit c"
  using all_digits_nat_digits [of n] by (cases "nat_digits n") (auto simp: all_digits_def)

text \<open>Printing a number and reading it back.\<close>

lemma Atoi_Itoa:
  assumes "- max_int64 - 1 \<le> n" and "n \<le> max_int64"
  shows "Atoi (Itoa n) = Some n"
proof (cases "n < 0")
  case True
  with assms show ?thesis
    by (simp add: Atoi_def Itoa_def all_digits_nat_digits digits_val_nat_digits)
next
  case False
  obtain c r where cr: "nat_digits (nat n) = c # r" "is_digit c"
    using nat_digits_first by blast
  then have "c \<noteq> CHR ''-''" "c \<noteq> CHR ''+''" by (auto simp: is_digit_def)
  with False cr assms show ?thesis
    using all_digits_nat_digits [of "nat n"] digits_val_nat_digits [of "nat n"]
    by (simp add: Atoi_def Itoa_def)
qed

lemma all_digits_Itoa: "0 \<le> n \<Longrightarrow> all_digits (Itoa n)"
  by (simp add: Itoa_def all_digits_nat_digits)

lemma Itoa_inject_nonneg: "0 \<le> m \<Longrightarrow> 0 \<le> n \<Longrightarrow> Itoa m = Itoa n \<longleftrightarrow> m = n"
  by (metis Itoa_def digits_val_nat_digits int_nat_eq linorder_not_less)

section \<open>path/filepath on Unix\<close>

text \<open>
  \<open>filepath.Clean\<close>: one element after the other, on the stack of the elements kept so far (innermost
  first). Empty elements and \<open>.\<close> vanish, \<open>..\<close> removes the last ordinary element.
\<close>

definition clean_step :: "bool \<Rightarrow> string list \<Rightarrow> string \<Rightarrow> string list" where
  "clean_step rooted st w =
     (if w = [] \<or> w = ''.'' then st
      else if w = ''..'' then
        (case st of [] \<Rightarrow> if rooted then [] else [w] | v # st' \<Rightarrow> if v = ''..'' then w # st else st')
      else w # st)"

definition clean_parts :: "string \<Rightarrow> string list" where
  "clean_parts s = rev (foldl (clean_step (HasPrefix s ''/'')) [] (Split s (CHR ''/'')))"

definition Clean :: "string \<Rightarrow> string" where
  "Clean s = (if HasPrefix s ''/'' then CHR ''/'' # join_with (CHR ''/'') (clean_parts s)
              else if clean_parts s = [] then ''.'' else join_with (CHR ''/'') (clean_parts s))"

text \<open>\<open>filepath.Join\<close> of two elements.\<close>

definition Join2 :: "string \<Rightarrow> string \<Rightarrow> string" where
  "Join2 a b = (if a \<noteq> [] then Clean (a @ CHR ''/'' # b) else if b \<noteq> [] then Clean b else [])"

text \<open>An element that is an ordinary name.\<close>

definition plain_name :: "string \<Rightarrow> bool" where
  "plain_name w \<longleftrightarrow> w \<noteq> [] \<and> w \<noteq> ''.'' \<and> w \<noteq> ''..'' \<and> CHR ''/'' \<notin> set w"

lemma clean_step_plain: "plain_name w \<Longrightarrow> clean_step r st w = w # st"
  by (simp add: clean_step_def plain_name_def)

lemma foldl_clean_plain: "\<forall>w\<in>set ws. plain_name w \<Longrightarrow> foldl (clean_step r) st ws = rev ws @ st"
  by (induction ws arbitrary: st) (auto simp: clean_step_plain)

lemma clean_parts_append_plain:
  assumes "a \<noteq> []" and "ws \<noteq> []" and "\<forall>w\<in>set ws. plain_name w"
  shows "clean_parts (a @ CHR ''/'' # join_with (CHR ''/'') ws) = clean_parts a @ ws"
proof -
  have "HasPrefix (a @ b) ''/'' = HasPrefix a ''/''" for b
    using assms(1) by (cases a) (auto simp: HasPrefix_def)
  moreover have "Split (join_with (CHR ''/'') ws) (CHR ''/'') = ws"
    using assms by (intro Split_join) (auto simp: plain_name_def)
  ultimately show ?thesis
    using assms(3) by (simp add: clean_parts_def Split_append foldl_clean_plain)
qed

lemma all_digits_plain: "all_digits w \<Longrightarrow> plain_name w"
proof -
  assume w: "all_digits w"
  then have d: "\<forall>c\<in>set w. is_digit c" and ne: "w \<noteq> []"
    by (auto simp: all_digits_def list_all_iff)
  have "\<not> is_digit (CHR ''/'')" "\<not> is_digit (CHR ''.'')" by (simp_all add: is_digit_def)
  with d ne show ?thesis unfolding plain_name_def
    by (metis list.set_intros(1))
qed

lemma join_with_append:
  "xs \<noteq> [] \<Longrightarrow> ys \<noteq> [] \<Longrightarrow> join_with s (xs @ ys) = join_with s xs @ s # join_with s ys"
proof (induction xs)
  case (Cons x xs)
  then show ?case by (cases xs; cases ys) auto
qed simp

lemma Clean_append_plain:
  assumes "a \<noteq> []" and "clean_parts a \<noteq> []" and "ws \<noteq> []" and "\<forall>w\<in>set ws. plain_name w"
  shows "Clean (a @ CHR ''/'' # join_with (CHR ''/'') ws) = Clean a @ CHR ''/'' # join_with (CHR ''/'') ws"
proof -
  have "HasPrefix (a @ b) ''/'' = HasPrefix a ''/''" for b
    using assms(1) by (cases a) (auto simp: HasPrefix_def)
  with assms show ?thesis
    by (simp add: Clean_def clean_parts_append_plain join_with_append)
qed

end
