(* ===== verification/TtlCache.thy ===== *)
theory TtlCache
  imports Prelude
begin

text \<open>
  The store's short-lived read cache (\<open>internal/store/cache.go\<close>) and the contract its clients, the
  lookups of the store, rely on: what a lookup returns after a set, an invalidation or a clear, and
  that an entry dies with its time to live. Times are nanoseconds. The mutex of the Go code makes
  each operation atomic, so an operation is one function on the cache.
\<close>

record ('k, 'v) ttlCache =
  c_ttl :: int
  c_m :: "'k \<Rightarrow> ('v \<times> int) option"

definition newTTLCache :: "int \<Rightarrow> ('k, 'v) ttlCache" where
  "newTTLCache ttl = \<lparr>c_ttl = ttl, c_m = (\<lambda>_. None)\<rparr>"

definition cache_get :: "int \<Rightarrow> ('k, 'v) ttlCache \<Rightarrow> 'k \<Rightarrow> 'v option" where
  "cache_get now c key =
     (case c_m c key of
        None \<Rightarrow> None
      | Some (v, expires) \<Rightarrow> if now > expires then None else Some v)"

definition cache_set :: "int \<Rightarrow> ('k, 'v) ttlCache \<Rightarrow> 'k \<Rightarrow> 'v \<Rightarrow> ('k, 'v) ttlCache" where
  "cache_set now c key v = c\<lparr>c_m := (c_m c)(key := Some (v, now + c_ttl c))\<rparr>"

definition cache_invalidate :: "('k, 'v) ttlCache \<Rightarrow> 'k \<Rightarrow> ('k, 'v) ttlCache" where
  "cache_invalidate c key = c\<lparr>c_m := (c_m c)(key := None)\<rparr>"

definition cache_clear :: "('k, 'v) ttlCache \<Rightarrow> ('k, 'v) ttlCache" where
  "cache_clear c = c\<lparr>c_m := (\<lambda>_. None)\<rparr>"

lemmas cache_defs = newTTLCache_def cache_get_def cache_set_def cache_invalidate_def cache_clear_def

section \<open>The contract of a cache\<close>

locale lookup_cache =
  fixes get :: "int \<Rightarrow> 'c \<Rightarrow> 'k \<Rightarrow> 'v option"
    and put :: "int \<Rightarrow> 'c \<Rightarrow> 'k \<Rightarrow> 'v \<Rightarrow> 'c"
    and invalidate :: "'c \<Rightarrow> 'k \<Rightarrow> 'c"
    and clear :: "'c \<Rightarrow> 'c"
    and ttl :: "'c \<Rightarrow> int"
  assumes get_set: "0 \<le> ttl c \<Longrightarrow> get now (put now c k v) k = Some v"
    and get_set_older: "get now' (put now c k v) k = Some v' \<Longrightarrow> v' = v \<and> now' \<le> now + ttl c"
    and get_set_other: "k' \<noteq> k \<Longrightarrow> get now' (put now c k v) k' = get now' c k'"
    and get_invalidate: "get now (invalidate c k) k = None"
    and get_invalidate_other: "k' \<noteq> k \<Longrightarrow> get now (invalidate c k) k' = get now c k'"
    and get_clear: "get now (clear c) k = None"
    and get_earlier: "now \<le> now' \<Longrightarrow> get now' c k = Some v \<Longrightarrow> get now c k = Some v"
    and ttl_set: "ttl (put now c k v) = ttl c"
    and ttl_invalidate: "ttl (invalidate c k) = ttl c"
    and ttl_clear: "ttl (clear c) = ttl c"
begin

text \<open>
  A cache is coherent with the table it fronts when every live entry is the table's row;
  \<open>lives_until\<close> bounds how long its entries can be served.
\<close>

definition coherent :: "int \<Rightarrow> 'c \<Rightarrow> ('k \<Rightarrow> 'v option) \<Rightarrow> bool" where
  "coherent now c f \<longleftrightarrow> (\<forall>t k v. now \<le> t \<longrightarrow> get t c k = Some v \<longrightarrow> f k = Some v)"

definition lives_until :: "int \<Rightarrow> 'c \<Rightarrow> bool" where
  "lives_until t c \<longleftrightarrow> (\<forall>t' k v. get t' c k = Some v \<longrightarrow> t' \<le> t)"

lemma coherentD: "coherent now c f \<Longrightarrow> get now c k = Some v \<Longrightarrow> f k = Some v"
  unfolding coherent_def by blast

lemma coherent_later: "coherent now c f \<Longrightarrow> now \<le> now' \<Longrightarrow> coherent now' c f"
  unfolding coherent_def by (meson order_trans)

lemma coherent_set: "coherent now c f \<Longrightarrow> f k = Some v \<Longrightarrow> coherent now (put now c k v) f"
  unfolding coherent_def by (metis get_set_older get_set_other)

lemma coherent_invalidate:
  "coherent now c f \<Longrightarrow> (\<And>k'. k' \<noteq> k \<Longrightarrow> f' k' = f k') \<Longrightarrow> coherent now (invalidate c k) f'"
  unfolding coherent_def by (metis get_invalidate get_invalidate_other option.distinct(1))

lemma coherent_clear: "coherent now (clear c) f"
  unfolding coherent_def by (simp add: get_clear)

lemma coherent_same: "coherent now c f \<Longrightarrow> (\<And>k. f' k = f k) \<Longrightarrow> coherent now c f'"
  unfolding coherent_def by simp

lemma lives_until_set: "lives_until (now + ttl c) c \<Longrightarrow> lives_until (now + ttl c) (put now c k v)"
  unfolding lives_until_def by (metis get_set_older get_set_other)

lemma lives_until_invalidate: "lives_until t c \<Longrightarrow> lives_until t (invalidate c k)"
  unfolding lives_until_def by (metis get_invalidate get_invalidate_other option.distinct(1))

lemma lives_until_later: "lives_until t c \<Longrightarrow> t \<le> t' \<Longrightarrow> lives_until t' c"
  unfolding lives_until_def by (meson order_trans)

text \<open>A write that does not invalidate is visible at the latest one time to live later.\<close>

lemma stale_no_longer: "lives_until t c \<Longrightarrow> t < now \<Longrightarrow> coherent now c f"
  unfolding coherent_def lives_until_def by force

end

interpretation ttl_cache: lookup_cache cache_get cache_set cache_invalidate cache_clear c_ttl
  by unfold_locales (auto simp: cache_defs split: option.splits if_splits)

text \<open>
  The store's lookups all read through: a live entry answers, otherwise the database does and its
  answer is cached. With a coherent cache the answer is the database's.
\<close>

lemma coherent_new: "ttl_cache.coherent now (newTTLCache ttl) f"
  by (simp add: ttl_cache.coherent_def newTTLCache_def cache_get_def)

lemma lives_until_new: "ttl_cache.lives_until t (newTTLCache ttl)"
  by (simp add: ttl_cache.lives_until_def newTTLCache_def cache_get_def)

end
