(* ===== verification/Schema.thy ===== *)
theory Schema
  imports GoStrings TtlCache
begin

text \<open>
  The data model of \<open>internal/store\<close>: the error values, the rows of every table, the database with
  its primary keys, unique indexes and foreign keys (\<open>foreignKeys\<close> and \<open>secondaryIndexes\<close> of
  \<open>store.go\<close>), and the \<open>Store\<close> itself with its caches. The statements the store runs are functions on
  the database; \<open>exec\<close> runs one of them and \<open>transaction\<close> groups several.

  PostgreSQL is outside the repository; what is modelled of it is the meaning of the SQL text and of the
  schema the store ships. A statement can also fail for a reason the SQL text does not give (a lost
  connection, a timeout): the \<open>faults\<close> schedule decides for each statement whether it does, so every
  error branch of the code is reachable and every theorem that does not mention the schedule holds for
  all of them.
\<close>

type_synonym uuid = nat   \<comment> \<open>the 128-bit value; no arithmetic is done on it, 0 is \<open>uuid.Nil\<close>\<close>
type_synonym time = int   \<comment> \<open>nanoseconds\<close>

definition second :: int where "second = 1000000000"
definition minute :: int where "minute = 60 * second"
definition hour :: int where "hour = 60 * minute"

section \<open>Errors\<close>

datatype gerror =
    ErrInvalidCredentials | ErrUserNotFound | ErrUserExists | ErrUserOwnsMaps
  | ErrMapNotFound | ErrMapPermissionInvalid | ErrMapVersionAliasInvalid | ErrMapVersionAliasNotFound
  | ErrGeoObjectNotFound | ErrGeoObjectInvalid | ErrGroupNotFound | ErrGroupExists
  | ErrInvalidAPIKey | ErrAPIKeyNotFound | ErrInvalidPublicKeyPEM | ErrAPIKeyScopeInvalid
  | ErrInvalidRefreshToken | ErrSyncRemoteNotFound | ErrSyncedVersionNotRecorded
  | ErrUnsupportedFormat | ErrInvalidArchive | ErrNoTiles | ErrRemoteNotRunning
  | ErrRecordNotFound | ErrNoRows | ErrNotExist
  | PgError string
  | OpaqueErr string
  | Wrap string gerror

text \<open>\<open>errors.Is\<close>: the error or one it wraps with \<open>%w\<close>.\<close>

fun errors_Is :: "gerror \<Rightarrow> gerror \<Rightarrow> bool" where
  "errors_Is (Wrap m e) t = (Wrap m e = t \<or> errors_Is e t)"
| "errors_Is e t = (e = t)"

fun isPgErrCode :: "gerror \<Rightarrow> string \<Rightarrow> bool" where
  "isPgErrCode (PgError c) code = (c = code)"
| "isPgErrCode (Wrap m e) code = isPgErrCode e code"
| "isPgErrCode _ code = False"

abbreviation foreign_key_violation :: gerror where "foreign_key_violation \<equiv> PgError ''23503''"
abbreviation unique_violation :: gerror where "unique_violation \<equiv> PgError ''23505''"

section \<open>Rows\<close>

record Permissions =
  p_CanCreate :: bool
  p_CanEdit :: bool
  p_CanDelete :: bool
  p_CanEditGeoObjects :: bool
  p_CanDeleteGeoObjects :: bool
  p_CanViewAll :: bool
  p_IsAdmin :: bool

record MapPermission =
  mp_CanView :: bool
  mp_CanEdit :: bool
  mp_CanDelete :: bool
  mp_CanEditGeoObjects :: bool
  mp_CanDeleteGeoObjects :: bool

record UserRecord =
  u_ID :: int
  u_Username :: string
  u_PasswordHash :: string
  u_CanCreate :: bool
  u_CanEdit :: bool
  u_CanDelete :: bool
  u_CanEditGeoObjects :: bool
  u_CanDeleteGeoObjects :: bool
  u_CanViewAll :: bool
  u_IsAdmin :: bool
  u_OIDCIssuer :: string
  u_OIDCSubject :: string
  u_LDAPDN :: string
  u_CreatedAt :: time

record GroupRecord =
  g_ID :: uuid
  g_Name :: string
  g_CanCreate :: bool
  g_CanEdit :: bool
  g_CanDelete :: bool
  g_CanEditGeoObjects :: bool
  g_CanDeleteGeoObjects :: bool
  g_CanViewAll :: bool
  g_IsAdmin :: bool
  g_LDAPGroupDN :: string
  g_OIDCGroupClaim :: string
  g_CreatedAt :: time
  g_UpdatedAt :: time
  g_CreatedBy :: string
  g_UpdatedBy :: string

record groupMemberModel =
  gm_GroupID :: uuid
  gm_Username :: string
  gm_SyncedAt :: time

text \<open>\<open>m_Owner\<close> is the scan-only field: the stored row leaves it empty, a read fills it by the join.\<close>

record MapRecord =
  m_UUID :: uuid
  m_Name :: string
  m_CurrentVersion :: string
  m_VisibleToAll :: bool
  m_AnonymousAllowed :: bool
  m_CreatedAt :: time
  m_UpdatedAt :: time
  m_CreatedBy :: string
  m_UpdatedBy :: string
  m_OwnerID :: int
  m_SyncRemoteID :: "uuid option"
  m_Owner :: string

record mapVersionModel =
  mv_MapUUID :: uuid
  mv_Version :: string
  mv_CreatedAt :: time
  mv_CreatedBy :: string

record mapPermissionModel =
  mpm_MapUUID :: uuid
  mpm_Username :: string
  mpm_CanView :: bool
  mpm_CanEdit :: bool
  mpm_CanDelete :: bool
  mpm_CanEditGeoObjects :: bool
  mpm_CanDeleteGeoObjects :: bool
  mpm_GrantedAt :: time
  mpm_GrantedBy :: string

record groupMapPermissionModel =
  gmp_MapUUID :: uuid
  gmp_GroupID :: uuid
  gmp_CanView :: bool
  gmp_CanEdit :: bool
  gmp_CanDelete :: bool
  gmp_CanEditGeoObjects :: bool
  gmp_CanDeleteGeoObjects :: bool
  gmp_GrantedAt :: time
  gmp_GrantedBy :: string

record mapVersionAliasModel =
  a_MapUUID :: uuid
  a_Alias :: string
  a_Version :: string
  a_CreatedAt :: time
  a_UpdatedAt :: time
  a_CreatedBy :: string
  a_UpdatedBy :: string

text \<open>Coordinates are finite 64-bit floats, hence rationals; they are only stored and compared.\<close>

record GeoObjectRecord =
  go_UUID :: uuid
  go_MapUUID :: uuid
  go_Version :: string
  go_Name :: string
  go_ExternalID :: string
  go_Latitude :: rat
  go_Longitude :: rat
  go_Street :: string
  go_HouseNumber :: string
  go_Postcode :: string
  go_City :: string
  go_CityDistrict :: string
  go_CreatedAt :: time
  go_UpdatedAt :: time
  go_CreatedBy :: string
  go_UpdatedBy :: string

record refreshTokenModel =
  rt_TokenHash :: string
  rt_Username :: string
  rt_ExpiresAt :: time
  rt_CreatedAt :: time
  rt_RevokedAt :: "time option"

record APIKeyRecord =
  k_ID :: uuid
  k_PublicKeyPEM :: string
  k_Username :: string
  k_Name :: string
  k_CreatedAt :: time
  k_CreatedBy :: string
  k_LastUsedAt :: "time option"
  k_RevokedAt :: "time option"
  k_Scoped :: bool

text \<open>A nil slice is written as SQL NULL and read back as nil; \<open>None\<close> stands for it.\<close>

record apiKeyScopeModel =
  sc_APIKeyID :: uuid
  sc_MapUUID :: uuid
  sc_Versions :: "string list option"
  sc_GrantedAt :: time

record SyncRemote =
  sr_ID :: uuid
  sr_Name :: string
  sr_BaseURL :: string
  sr_RemoteAPIKeyID :: uuid
  sr_PollIntervalSec :: int
  sr_Enabled :: bool
  sr_SyncAllMaps :: bool
  sr_SyncNewMaps :: bool
  sr_SyncGeoObjects :: bool
  sr_LastSyncAt :: "time option"
  sr_LastSyncStatus :: string
  sr_LastSyncError :: string
  sr_CreatedAt :: time
  sr_UpdatedAt :: time
  sr_CreatedBy :: string
  sr_UpdatedBy :: string

record syncRemoteMapModel =
  srm_RemoteID :: uuid
  srm_MapUUID :: uuid
  srm_CreatedAt :: time

record AuditLogEntry =
  al_ID :: int
  al_OccurredAt :: time
  al_Actor :: string
  al_Action :: string
  al_EntityType :: string
  al_EntityID :: string
  al_Detail :: string

section \<open>The database\<close>

record db =
  t_users :: "UserRecord list"
  t_groups :: "GroupRecord list"
  t_group_members :: "groupMemberModel list"
  t_maps :: "MapRecord list"
  t_map_versions :: "mapVersionModel list"
  t_map_permissions :: "mapPermissionModel list"
  t_group_map_permissions :: "groupMapPermissionModel list"
  t_map_version_aliases :: "mapVersionAliasModel list"
  t_geo_objects :: "GeoObjectRecord list"
  t_refresh_tokens :: "refreshTokenModel list"
  t_api_keys :: "APIKeyRecord list"
  t_api_key_scopes :: "apiKeyScopeModel list"
  t_sync_remotes :: "SyncRemote list"
  t_sync_remote_maps :: "syncRemoteMapModel list"
  t_audit_logs :: "AuditLogEntry list"
  seq_users :: int
  seq_audit :: int

abbreviation mv_key where "mv_key v \<equiv> (mv_MapUUID v, mv_Version v)"
abbreviation mpm_key where "mpm_key r \<equiv> (mpm_MapUUID r, mpm_Username r)"
abbreviation gmp_key where "gmp_key r \<equiv> (gmp_MapUUID r, gmp_GroupID r)"
abbreviation a_key where "a_key r \<equiv> (a_MapUUID r, a_Alias r)"
abbreviation gm_key where "gm_key r \<equiv> (gm_GroupID r, gm_Username r)"
abbreviation sc_key where "sc_key r \<equiv> (sc_APIKeyID r, sc_MapUUID r)"
abbreviation srm_key where "srm_key r \<equiv> (srm_RemoteID r, srm_MapUUID r)"

text \<open>Primary keys and single-column unique indexes.\<close>

definition keys_ok :: "db \<Rightarrow> bool" where
  "keys_ok d \<longleftrightarrow>
     distinct (map u_ID (t_users d)) \<and> (\<forall>u\<in>set (t_users d). u_ID u < seq_users d) \<and>
     distinct (map u_Username (t_users d)) \<and>
     distinct (map g_ID (t_groups d)) \<and> distinct (map g_Name (t_groups d)) \<and>
     distinct (map gm_key (t_group_members d)) \<and>
     distinct (map m_UUID (t_maps d)) \<and>
     distinct (map mv_key (t_map_versions d)) \<and>
     distinct (map mpm_key (t_map_permissions d)) \<and>
     distinct (map gmp_key (t_group_map_permissions d)) \<and>
     distinct (map a_key (t_map_version_aliases d)) \<and>
     distinct (map go_UUID (t_geo_objects d)) \<and>
     distinct (map rt_TokenHash (t_refresh_tokens d)) \<and>
     distinct (map k_ID (t_api_keys d)) \<and>
     distinct (map sc_key (t_api_key_scopes d)) \<and>
     distinct (map sr_ID (t_sync_remotes d)) \<and>
     distinct (map srm_key (t_sync_remote_maps d)) \<and>
     distinct (map al_ID (t_audit_logs d)) \<and> (\<forall>a\<in>set (t_audit_logs d). al_ID a < seq_audit d)"

text \<open>The partial unique indexes: a linked identity belongs to one account, a directory group to one group.\<close>

definition identities_ok :: "db \<Rightarrow> bool" where
  "identities_ok d \<longleftrightarrow>
     distinct (map (\<lambda>u. (u_OIDCIssuer u, u_OIDCSubject u)) (filter (\<lambda>u. u_OIDCSubject u \<noteq> []) (t_users d))) \<and>
     distinct (map u_LDAPDN (filter (\<lambda>u. u_LDAPDN u \<noteq> []) (t_users d))) \<and>
     distinct (map g_LDAPGroupDN (filter (\<lambda>g. g_LDAPGroupDN g \<noteq> []) (t_groups d))) \<and>
     distinct (map g_OIDCGroupClaim (filter (\<lambda>g. g_OIDCGroupClaim g \<noteq> []) (t_groups d)))"

text \<open>The foreign keys of \<open>store.go\<close>, in its order.\<close>

definition foreignKeys_ok :: "db \<Rightarrow> bool" where
  "foreignKeys_ok d \<longleftrightarrow>
     (\<forall>m\<in>set (t_maps d). m_OwnerID m \<in> u_ID ` set (t_users d)) \<and>
     (\<forall>m\<in>set (t_maps d). \<forall>r. m_SyncRemoteID m = Some r \<longrightarrow> r \<in> sr_ID ` set (t_sync_remotes d)) \<and>
     (\<forall>v\<in>set (t_map_versions d). mv_MapUUID v \<in> m_UUID ` set (t_maps d)) \<and>
     (\<forall>g\<in>set (t_geo_objects d). (go_MapUUID g, go_Version g) \<in> mv_key ` set (t_map_versions d)) \<and>
     (\<forall>p\<in>set (t_map_permissions d). mpm_MapUUID p \<in> m_UUID ` set (t_maps d)) \<and>
     (\<forall>p\<in>set (t_map_permissions d). mpm_Username p \<in> u_Username ` set (t_users d)) \<and>
     (\<forall>t\<in>set (t_refresh_tokens d). rt_Username t \<in> u_Username ` set (t_users d)) \<and>
     (\<forall>a\<in>set (t_map_version_aliases d). a_MapUUID a \<in> m_UUID ` set (t_maps d)) \<and>
     (\<forall>a\<in>set (t_map_version_aliases d). (a_MapUUID a, a_Version a) \<in> mv_key ` set (t_map_versions d)) \<and>
     (\<forall>k\<in>set (t_api_keys d). k_Username k \<in> u_Username ` set (t_users d)) \<and>
     (\<forall>r\<in>set (t_sync_remote_maps d). srm_RemoteID r \<in> sr_ID ` set (t_sync_remotes d)) \<and>
     (\<forall>c\<in>set (t_api_key_scopes d). sc_APIKeyID c \<in> k_ID ` set (t_api_keys d)) \<and>
     (\<forall>c\<in>set (t_api_key_scopes d). sc_MapUUID c \<in> m_UUID ` set (t_maps d)) \<and>
     (\<forall>g\<in>set (t_group_members d). gm_GroupID g \<in> g_ID ` set (t_groups d)) \<and>
     (\<forall>g\<in>set (t_group_members d). gm_Username g \<in> u_Username ` set (t_users d)) \<and>
     (\<forall>p\<in>set (t_group_map_permissions d). gmp_MapUUID p \<in> m_UUID ` set (t_maps d)) \<and>
     (\<forall>p\<in>set (t_group_map_permissions d). gmp_GroupID p \<in> g_ID ` set (t_groups d))"

definition db_wf :: "db \<Rightarrow> bool" where
  "db_wf d \<longleftrightarrow> keys_ok d \<and> identities_ok d \<and> foreignKeys_ok d"

lemmas db_wf_defs [wf_simps] = db_wf_def keys_ok_def identities_ok_def foreignKeys_ok_def

definition empty_db :: db where
  "empty_db = \<lparr>t_users = [], t_groups = [], t_group_members = [], t_maps = [], t_map_versions = [],
     t_map_permissions = [], t_group_map_permissions = [], t_map_version_aliases = [], t_geo_objects = [],
     t_refresh_tokens = [], t_api_keys = [], t_api_key_scopes = [], t_sync_remotes = [],
     t_sync_remote_maps = [], t_audit_logs = [], seq_users = 1, seq_audit = 1\<rparr>"

lemma db_wf_empty: "db_wf empty_db"
  by (simp add: db_wf_defs empty_db_def)

section \<open>The store\<close>

record apiKeySigningKey =
  sk_username :: string
  sk_publicKeyPEM :: string
  sk_scoped :: bool

record apiKeyScopeEntry =
  se_inScope :: bool
  se_versions :: "string list"

record store =
  st_db :: db
  mapCache :: "(uuid, MapRecord) ttlCache"
  currentVersionCache :: "(uuid, string) ttlCache"
  permsCache :: "(string, Permissions) ttlCache"
  mapPermCache :: "(uuid \<times> string, MapPermission) ttlCache"
  mapAliasCache :: "(uuid \<times> string, string) ttlCache"
  apiKeyCache :: "(uuid, apiKeySigningKey) ttlCache"
  apiKeyScopeCache :: "(uuid \<times> uuid, apiKeyScopeEntry) ttlCache"
  clock :: time
  faults :: "bool list"

definition cacheTTL :: int where "cacheTTL = 15 * second"
definition mapVersionTTL :: int where "mapVersionTTL = 30 * minute"

text \<open>The store \<open>NewStore\<close> returns once connected, over a migrated database.\<close>

definition NewStore :: "db \<Rightarrow> time \<Rightarrow> bool list \<Rightarrow> store" where
  "NewStore d now fs =
     \<lparr>st_db = d, mapCache = newTTLCache cacheTTL, currentVersionCache = newTTLCache mapVersionTTL,
      permsCache = newTTLCache cacheTTL, mapPermCache = newTTLCache cacheTTL,
      mapAliasCache = newTTLCache cacheTTL, apiKeyCache = newTTLCache cacheTTL,
      apiKeyScopeCache = newTTLCache cacheTTL, clock = now, faults = fs\<rparr>"

type_synonym ('w, 'a) sto = "('w store_scheme, gerror, 'a) action"

section \<open>Statements\<close>

text \<open>One statement is atomic: when it fails, nothing of it is kept.\<close>

definition exec :: "(time \<Rightarrow> db \<Rightarrow> gerror + 'a \<times> db) \<Rightarrow> ('w, 'a) sto" where
  "exec f s =
     (if faults s \<noteq> [] \<and> hd (faults s) then (Inl (OpaqueErr ''database''), s\<lparr>faults := tl (faults s)\<rparr>)
      else (case f (clock s) (st_db s) of
              Inl e \<Rightarrow> (Inl e, s\<lparr>faults := tl (faults s)\<rparr>)
            | Inr (x, d) \<Rightarrow> (Inr x, s\<lparr>st_db := d, faults := tl (faults s)\<rparr>)))"

definition query :: "(db \<Rightarrow> gerror + 'a) \<Rightarrow> ('w, 'a) sto" where
  "query f = exec (\<lambda>now d. case f d of Inl e \<Rightarrow> Inl e | Inr x \<Rightarrow> Inr (x, d))"

text \<open>A transaction commits when its body returns no error, and otherwise rolls back; \<open>COMMIT\<close> can fail too.\<close>

definition transaction :: "('w, 'a) sto \<Rightarrow> ('w, 'a) sto" where
  "transaction body s =
     (case body s of
        (Inl e, s') \<Rightarrow> (Inl e, s'\<lparr>st_db := st_db s\<rparr>)
      | (Inr x, s') \<Rightarrow>
          if faults s' \<noteq> [] \<and> hd (faults s')
          then (Inl (OpaqueErr ''commit''), s'\<lparr>st_db := st_db s, faults := tl (faults s')\<rparr>)
          else (Inr x, s'\<lparr>faults := tl (faults s')\<rparr>))"

text \<open>A statement keeps the schema's invariant.\<close>

definition stmt_wf :: "(time \<Rightarrow> db \<Rightarrow> gerror + 'a \<times> db) \<Rightarrow> bool" where
  "stmt_wf f \<longleftrightarrow> (\<forall>now d x d'. db_wf d \<longrightarrow> f now d = Inr (x, d') \<longrightarrow> db_wf d')"

text \<open>Every cache has its time to live, and no entry of it is served for longer than that from now.\<close>

definition fresh :: "time \<Rightarrow> int \<Rightarrow> ('k, 'v) ttlCache \<Rightarrow> bool" where
  "fresh now ttl c \<longleftrightarrow> c_ttl c = ttl \<and> ttl_cache.lives_until (now + ttl) c"

lemma fresh_simps [simp]:
  "fresh now ttl c \<Longrightarrow> fresh now ttl (cache_set now c k v)"
  "fresh now ttl c \<Longrightarrow> fresh now ttl (cache_invalidate c k)"
  "fresh now ttl c \<Longrightarrow> fresh now ttl (cache_clear c)"
  "fresh now ttl (newTTLCache ttl)"
proof -
  assume f: "fresh now ttl c"
  then show "fresh now ttl (cache_set now c k v)"
    using ttl_cache.lives_until_set [of now c k v] by (simp add: fresh_def ttl_cache.ttl_set)
  from f show "fresh now ttl (cache_invalidate c k)"
    by (simp add: fresh_def ttl_cache.ttl_invalidate ttl_cache.lives_until_invalidate)
  from f show "fresh now ttl (cache_clear c)"
    by (simp add: fresh_def ttl_cache.ttl_clear ttl_cache.lives_until_def ttl_cache.get_clear)
qed (simp add: fresh_def lives_until_new newTTLCache_def [of ttl, THEN arg_cong [where f = c_ttl]])

definition caches_fresh :: "'w store_scheme \<Rightarrow> bool" where
  "caches_fresh s \<longleftrightarrow>
     fresh (clock s) cacheTTL (mapCache s) \<and> fresh (clock s) mapVersionTTL (currentVersionCache s) \<and>
     fresh (clock s) cacheTTL (permsCache s) \<and> fresh (clock s) cacheTTL (mapPermCache s) \<and>
     fresh (clock s) cacheTTL (mapAliasCache s) \<and> fresh (clock s) cacheTTL (apiKeyCache s) \<and>
     fresh (clock s) cacheTTL (apiKeyScopeCache s)"

lemma caches_fresh_NewStore: "caches_fresh (NewStore d now fs)"
  by (simp add: caches_fresh_def NewStore_def)

lemma caches_fresh_irrelevant [simp]:
  "caches_fresh (s\<lparr>st_db := d\<rparr>) = caches_fresh s"
  "caches_fresh (s\<lparr>faults := fs\<rparr>) = caches_fresh s"
  by (simp_all add: caches_fresh_def)

lemma caches_fresh_update [simp]:
  assumes "caches_fresh s"
  shows "caches_fresh (s\<lparr>mapCache := cache_set (clock s) (mapCache s) i m\<rparr>)"
    "caches_fresh (s\<lparr>currentVersionCache := cache_set (clock s) (currentVersionCache s) i v\<rparr>)"
    "caches_fresh (s\<lparr>permsCache := cache_set (clock s) (permsCache s) u p\<rparr>)"
    "caches_fresh (s\<lparr>mapPermCache := cache_set (clock s) (mapPermCache s) k mp\<rparr>)"
    "caches_fresh (s\<lparr>mapAliasCache := cache_set (clock s) (mapAliasCache s) k v\<rparr>)"
    "caches_fresh (s\<lparr>apiKeyCache := cache_set (clock s) (apiKeyCache s) i sk\<rparr>)"
    "caches_fresh (s\<lparr>apiKeyScopeCache := cache_set (clock s) (apiKeyScopeCache s) j e\<rparr>)"
    "caches_fresh (s\<lparr>mapCache := cache_invalidate (mapCache s) i\<rparr>)"
    "caches_fresh (s\<lparr>currentVersionCache := cache_invalidate (currentVersionCache s) i\<rparr>)"
    "caches_fresh (s\<lparr>permsCache := cache_invalidate (permsCache s) u\<rparr>)"
    "caches_fresh (s\<lparr>mapPermCache := cache_invalidate (mapPermCache s) k\<rparr>)"
    "caches_fresh (s\<lparr>mapAliasCache := cache_invalidate (mapAliasCache s) k\<rparr>)"
    "caches_fresh (s\<lparr>apiKeyCache := cache_invalidate (apiKeyCache s) i\<rparr>)"
    "caches_fresh (s\<lparr>apiKeyScopeCache := cache_invalidate (apiKeyScopeCache s) j\<rparr>)"
    "caches_fresh (s\<lparr>permsCache := cache_clear (permsCache s)\<rparr>)"
    "caches_fresh (s\<lparr>mapPermCache := cache_clear (mapPermCache s)\<rparr>)"
  using assms by (simp_all add: caches_fresh_def)

abbreviation store_wf :: "'w store_scheme \<Rightarrow> bool" where
  "store_wf s \<equiv> db_wf (st_db s) \<and> caches_fresh s"

lemma stmt_wfI: "(\<And>now d x d'. db_wf d \<Longrightarrow> f now d = Inr (x, d') \<Longrightarrow> db_wf d') \<Longrightarrow> stmt_wf f"
  by (auto simp: stmt_wf_def)

lemma stmt_wf_caseI:
  "(\<And>now d. db_wf d \<Longrightarrow> case f now d of Inl e \<Rightarrow> True | Inr (x, d') \<Rightarrow> db_wf d') \<Longrightarrow> stmt_wf f"
  unfolding stmt_wf_def by (metis (mono_tags, lifting) case_prod_conv old.sum.simps(6))

lemma preserves_exec [pres]: "stmt_wf f \<Longrightarrow> preserves store_wf (exec f)"
  by (auto simp: preserves_def exec_def stmt_wf_def split: sum.splits prod.splits)

lemma preserves_query [pres]: "(\<And>s x. P s \<Longrightarrow> P (s\<lparr>faults := x\<rparr>)) \<Longrightarrow> preserves P (query f)"
  by (auto simp: preserves_def query_def exec_def split: sum.splits prod.splits)

lemma preserves_transaction [pres]: "preserves store_wf m \<Longrightarrow> preserves store_wf (transaction m)"
  by (fastforce simp: preserves_def transaction_def split: sum.splits prod.splits)

lemma exec_no_fault [simp]:
  "faults s = [] \<Longrightarrow> exec f s =
     (case f (clock s) (st_db s) of Inl e \<Rightarrow> (Inl e, s) | Inr (x, d) \<Rightarrow> (Inr x, s\<lparr>st_db := d\<rparr>))"
  by (simp add: exec_def split: sum.splits prod.splits)

lemma query_no_fault [simp]:
  "faults s = [] \<Longrightarrow> query f s = (f (st_db s), s)"
  by (simp add: query_def split: sum.splits)

lemma transaction_no_fault:
  "faults s = [] \<Longrightarrow> faults (snd (body s)) = [] \<Longrightarrow> transaction body s =
     (case body s of (Inl e, s') \<Rightarrow> (Inl e, s'\<lparr>st_db := st_db s\<rparr>) | (Inr x, s') \<Rightarrow> (Inr x, s'))"
  by (auto simp: transaction_def split: sum.splits prod.splits)

end
