(* ===== verification/StoreUsers.thy ===== *)
theory StoreUsers
  imports Schema
begin

text \<open>
  Accounts (\<open>internal/store/users.go\<close>, \<open>ldap.go\<close>, \<open>oidc.go\<close> and the account part of \<open>store.go\<close>):
  authentication, the effective global permissions, the account CRUD and the provisioning of accounts
  for LDAP and OIDC identities. The password hash of \<open>golang.org/x/crypto/bcrypt\<close> and the random
  values are parameters: \<open>hash\<close> is \<open>GenerateFromPassword\<close> (which can fail), \<open>cmp h p\<close> says that
  \<open>CompareHashAndPassword\<close> accepts.
\<close>

section \<open>Permissions\<close>

definition no_permissions :: Permissions where
  "no_permissions = \<lparr>p_CanCreate = False, p_CanEdit = False, p_CanDelete = False,
     p_CanEditGeoObjects = False, p_CanDeleteGeoObjects = False, p_CanViewAll = False, p_IsAdmin = False\<rparr>"

definition GrantsMapVisibility :: "Permissions \<Rightarrow> bool" where
  "GrantsMapVisibility p \<longleftrightarrow> p_IsAdmin p \<or> p_CanEdit p \<or> p_CanDelete p \<or> p_CanEditGeoObjects p \<or>
     p_CanDeleteGeoObjects p \<or> p_CanViewAll p"

definition user_perms :: "UserRecord \<Rightarrow> Permissions" where
  "user_perms u = \<lparr>p_CanCreate = u_CanCreate u, p_CanEdit = u_CanEdit u, p_CanDelete = u_CanDelete u,
     p_CanEditGeoObjects = u_CanEditGeoObjects u, p_CanDeleteGeoObjects = u_CanDeleteGeoObjects u,
     p_CanViewAll = u_CanViewAll u, p_IsAdmin = u_IsAdmin u\<rparr>"

definition group_perms :: "GroupRecord \<Rightarrow> Permissions" where
  "group_perms g = \<lparr>p_CanCreate = g_CanCreate g, p_CanEdit = g_CanEdit g, p_CanDelete = g_CanDelete g,
     p_CanEditGeoObjects = g_CanEditGeoObjects g, p_CanDeleteGeoObjects = g_CanDeleteGeoObjects g,
     p_CanViewAll = g_CanViewAll g, p_IsAdmin = g_IsAdmin g\<rparr>"

text \<open>The rows of the \<open>UNION ALL\<close>: the user's own, and one for each group the user is a member of.\<close>

definition groups_of :: "db \<Rightarrow> string \<Rightarrow> GroupRecord list" where
  "groups_of d username =
     concat (map (\<lambda>g. map (\<lambda>_. g) (filter (\<lambda>gm. gm_GroupID gm = g_ID g \<and> gm_Username gm = username)
                                      (t_group_members d))) (t_groups d))"

definition permission_rows :: "db \<Rightarrow> string \<Rightarrow> Permissions list" where
  "permission_rows d username =
     map user_perms (filter (\<lambda>u. u_Username u = username) (t_users d)) @
     map group_perms (groups_of d username)"

text \<open>\<open>bool_or\<close> of each column.\<close>

definition bool_or_perms :: "Permissions list \<Rightarrow> Permissions" where
  "bool_or_perms ps = \<lparr>p_CanCreate = list_ex p_CanCreate ps, p_CanEdit = list_ex p_CanEdit ps,
     p_CanDelete = list_ex p_CanDelete ps, p_CanEditGeoObjects = list_ex p_CanEditGeoObjects ps,
     p_CanDeleteGeoObjects = list_ex p_CanDeleteGeoObjects ps, p_CanViewAll = list_ex p_CanViewAll ps,
     p_IsAdmin = list_ex p_IsAdmin ps\<rparr>"

text \<open>No row makes every \<open>bool_or\<close> NULL, which does not scan into a \<open>bool\<close>.\<close>

definition select_permissions :: "db \<Rightarrow> string \<Rightarrow> gerror + Permissions" where
  "select_permissions d username =
     (let rows = permission_rows d username
      in if rows = [] then Inl (OpaqueErr ''cannot scan NULL into *bool'') else Inr (bool_or_perms rows))"

definition GetPermissions :: "string \<Rightarrow> ('w, Permissions) sto" where
  "GetPermissions username =
     bindE (getE (\<lambda>s. cache_get (clock s) (permsCache s) username)) (\<lambda>cached.
       case cached of
         Some p \<Rightarrow> okE p
       | None \<Rightarrow>
           bindE (mapErrE (Wrap ''get permissions'') (query (\<lambda>d. select_permissions d username))) (\<lambda>p.
           bindE (modifyE (\<lambda>s. s\<lparr>permsCache := cache_set (clock s) (permsCache s) username p\<rparr>)) (\<lambda>_.
           okE p)))"

section \<open>Statements on users\<close>

definition zero_UserRecord :: UserRecord where
  "zero_UserRecord = \<lparr>u_ID = 0, u_Username = [], u_PasswordHash = [], u_CanCreate = False, u_CanEdit = False,
     u_CanDelete = False, u_CanEditGeoObjects = False, u_CanDeleteGeoObjects = False, u_CanViewAll = False,
     u_IsAdmin = False, u_OIDCIssuer = [], u_OIDCSubject = [], u_LDAPDN = [], u_CreatedAt = 0\<rparr>"

definition user_conflict :: "UserRecord \<Rightarrow> db \<Rightarrow> bool" where
  "user_conflict u d \<longleftrightarrow>
     sql_exists (\<lambda>v. u_Username v = u_Username u) (t_users d) \<or>
     u_OIDCSubject u \<noteq> [] \<and>
       sql_exists (\<lambda>v. u_OIDCIssuer v = u_OIDCIssuer u \<and> u_OIDCSubject v = u_OIDCSubject u) (t_users d) \<or>
     u_LDAPDN u \<noteq> [] \<and> sql_exists (\<lambda>v. u_LDAPDN v = u_LDAPDN u) (t_users d)"

definition stored_user :: "UserRecord \<Rightarrow> time \<Rightarrow> db \<Rightarrow> UserRecord" where
  "stored_user u now d = u\<lparr>u_ID := seq_users d, u_CreatedAt := now\<rparr>"

definition append_user :: "UserRecord \<Rightarrow> db \<Rightarrow> db" where
  "append_user u d = d\<lparr>t_users := t_users d @ [u], seq_users := seq_users d + 1\<rparr>"

text \<open>\<open>INSERT INTO users\<close>, and the same with \<open>ON CONFLICT DO NOTHING\<close>.\<close>

definition insert_user :: "UserRecord \<Rightarrow> time \<Rightarrow> db \<Rightarrow> gerror + UserRecord \<times> db" where
  "insert_user u now d =
     (if user_conflict u d then Inl unique_violation
      else Inr (stored_user u now d, append_user (stored_user u now d) d))"

definition insert_user_do_nothing :: "UserRecord \<Rightarrow> time \<Rightarrow> db \<Rightarrow> gerror + unit \<times> db" where
  "insert_user_do_nothing u now d =
     Inr ((), if user_conflict u d then d else append_user (stored_user u now d) d)"

text \<open>\<open>DELETE FROM users WHERE username = ?\<close>: restricted by \<open>fk_maps_owner\<close>, cascading to the rest.\<close>

definition delete_user :: "string \<Rightarrow> time \<Rightarrow> db \<Rightarrow> gerror + nat \<times> db" where
  "delete_user username now d =
     (let p = (\<lambda>u. u_Username u = username);
          ids = map u_ID (filter p (t_users d));
          keys = map k_ID (filter (\<lambda>k. k_Username k = username) (t_api_keys d))
      in if sql_exists (\<lambda>m. m_OwnerID m \<in> set ids) (t_maps d) then Inl foreign_key_violation
         else if sql_count p (t_users d) = 0 then Inr (0, d)
         else Inr (sql_count p (t_users d),
                d\<lparr>t_users := sql_delete p (t_users d),
                  t_map_permissions := sql_delete (\<lambda>r. mpm_Username r = username) (t_map_permissions d),
                  t_refresh_tokens := sql_delete (\<lambda>r. rt_Username r = username) (t_refresh_tokens d),
                  t_api_keys := sql_delete (\<lambda>k. k_Username k = username) (t_api_keys d),
                  t_api_key_scopes := sql_delete (\<lambda>c. sc_APIKeyID c \<in> set keys) (t_api_key_scopes d),
                  t_group_members := sql_delete (\<lambda>r. gm_Username r = username) (t_group_members d)\<rparr>))"

definition update_user :: "string \<Rightarrow> (UserRecord \<Rightarrow> UserRecord) \<Rightarrow> time \<Rightarrow> db \<Rightarrow> gerror + nat \<times> db" where
  "update_user username f now d =
     Inr (sql_count (\<lambda>u. u_Username u = username) (t_users d),
          d\<lparr>t_users := sql_update (\<lambda>u. u_Username u = username) f (t_users d)\<rparr>)"

section \<open>Operations\<close>

definition Authenticate :: "(string \<Rightarrow> string \<Rightarrow> bool) \<Rightarrow> string \<Rightarrow> string \<Rightarrow> ('w, unit) sto" where
  "Authenticate cmp username password =
     tryE (query (\<lambda>d. case sql_take (\<lambda>u. u_Username u = username) (t_users d) of
                        None \<Rightarrow> Inl ErrNoRows | Some u \<Rightarrow> Inr (u_PasswordHash u)))
       (\<lambda>_. raiseE ErrInvalidCredentials)
       (\<lambda>hash. if cmp hash password then okE () else raiseE ErrInvalidCredentials)"

definition hashPassword :: "(string \<Rightarrow> gerror + string) \<Rightarrow> string \<Rightarrow> ('w, string) sto" where
  "hashPassword hash password s =
     (case hash password of Inl e \<Rightarrow> (Inl (Wrap ''hash password'' e), s) | Inr h \<Rightarrow> (Inr h, s))"

definition SeedUser :: "(string \<Rightarrow> gerror + string) \<Rightarrow> string \<Rightarrow> string \<Rightarrow> ('w, unit) sto" where
  "SeedUser hash username password =
     bindE (hashPassword hash password) (\<lambda>h.
       mapErrE (Wrap ''seed user'')
         (exec (insert_user_do_nothing (zero_UserRecord\<lparr>u_Username := username, u_PasswordHash := h,
            u_CanCreate := True, u_CanEdit := True, u_CanDelete := True, u_CanEditGeoObjects := True,
            u_CanDeleteGeoObjects := True, u_IsAdmin := True\<rparr>))))"

definition CreateUser ::
  "(string \<Rightarrow> gerror + string) \<Rightarrow> string \<Rightarrow> string \<Rightarrow> Permissions \<Rightarrow> ('w, UserRecord) sto" where
  "CreateUser hash username password perms =
     bindE (hashPassword hash password) (\<lambda>h.
       tryE (exec (insert_user (zero_UserRecord\<lparr>u_Username := username, u_PasswordHash := h,
               u_CanCreate := p_CanCreate perms, u_CanEdit := p_CanEdit perms,
               u_CanDelete := p_CanDelete perms, u_CanEditGeoObjects := p_CanEditGeoObjects perms,
               u_CanDeleteGeoObjects := p_CanDeleteGeoObjects perms, u_CanViewAll := p_CanViewAll perms,
               u_IsAdmin := p_IsAdmin perms\<rparr>)))
         (\<lambda>e. if isPgErrCode e ''23505'' then raiseE ErrUserExists else raiseE (Wrap ''create user'' e))
         okE)"

definition select_user :: "string \<Rightarrow> db \<Rightarrow> gerror + UserRecord" where
  "select_user username d =
     (case sql_take (\<lambda>u. u_Username u = username) (t_users d) of None \<Rightarrow> Inl ErrRecordNotFound | Some u \<Rightarrow> Inr u)"

definition set_perms :: "Permissions \<Rightarrow> UserRecord \<Rightarrow> UserRecord" where
  "set_perms perms u = u\<lparr>u_CanCreate := p_CanCreate perms, u_CanEdit := p_CanEdit perms,
     u_CanDelete := p_CanDelete perms, u_CanEditGeoObjects := p_CanEditGeoObjects perms,
     u_CanDeleteGeoObjects := p_CanDeleteGeoObjects perms, u_CanViewAll := p_CanViewAll perms,
     u_IsAdmin := p_IsAdmin perms\<rparr>"

definition UpdateUser ::
  "(string \<Rightarrow> gerror + string) \<Rightarrow> string \<Rightarrow> Permissions \<Rightarrow> string \<Rightarrow> ('w, UserRecord) sto" where
  "UpdateUser hash username perms newPassword =
     bindE (if newPassword \<noteq> [] then bindE (hashPassword hash newPassword) (\<lambda>h. okE (Some h)) else okE None) (\<lambda>newHash.
     bindE (mapErrE (Wrap ''update user'') (exec (update_user username (\<lambda>u.
              let u' = set_perms perms u in case newHash of None \<Rightarrow> u' | Some h \<Rightarrow> u'\<lparr>u_PasswordHash := h\<rparr>)))) (\<lambda>n.
     if n = 0 then raiseE ErrUserNotFound else
     bindE (mapErrE (Wrap ''update user'') (query (select_user username))) (\<lambda>u.
     bindE (modifyE (\<lambda>s. s\<lparr>permsCache := cache_invalidate (permsCache s) username\<rparr>)) (\<lambda>_.
     okE u))))"

definition SyncUsername :: string where "SyncUsername = ''sync''"

definition EnsureSyncUser :: "('w, unit) sto" where
  "EnsureSyncUser =
     mapErrE (Wrap ''ensure sync user'')
       (exec (insert_user_do_nothing (zero_UserRecord\<lparr>u_Username := SyncUsername, u_PasswordHash := []\<rparr>)))"

definition DeleteUser :: "string \<Rightarrow> ('w, unit) sto" where
  "DeleteUser username =
     tryE (exec (delete_user username))
       (\<lambda>e. if isPgErrCode e ''23503'' then raiseE ErrUserOwnsMaps else raiseE (Wrap ''delete user'' e))
       (\<lambda>n. if n = 0 then raiseE ErrUserNotFound
            else modifyE (\<lambda>s. s\<lparr>permsCache := cache_invalidate (permsCache s) username\<rparr>))"

section \<open>Listing\<close>

text \<open>
  \<open>ILIKE\<close>: case-insensitive; \<open>%\<close> matches any text, \<open>_\<close> one character, and a backslash takes the next
  character literally. Pattern and text are lowered first.
\<close>

fun like :: "string \<Rightarrow> string \<Rightarrow> bool" where
  "like [] s = (s = [])"
| "like (p # ps) s =
     (if p = CHR ''%'' then like ps s \<or> (case s of [] \<Rightarrow> False | c # t \<Rightarrow> like (p # ps) t)
      else if p = CHR ''_'' then (case s of [] \<Rightarrow> False | c # t \<Rightarrow> like ps t)
      else if p = CHR 0x5C then
        (case ps of [] \<Rightarrow> False | q # qs \<Rightarrow> (case s of [] \<Rightarrow> False | c # t \<Rightarrow> c = q \<and> like qs t))
      else (case s of [] \<Rightarrow> False | c # t \<Rightarrow> c = p \<and> like ps t))"

definition ILIKE :: "string \<Rightarrow> string \<Rightarrow> bool" where
  "ILIKE s pat \<longleftrightarrow> like (map lower pat) (map lower s)"

definition contains_pattern :: "string \<Rightarrow> string" where
  "contains_pattern x = CHR ''%'' # x @ ''%''"

definition flag_filter :: "bool option \<Rightarrow> bool \<Rightarrow> bool" where
  "flag_filter f b \<longleftrightarrow> (case f of None \<Rightarrow> True | Some x \<Rightarrow> b = x)"

definition eq_filter :: "string \<Rightarrow> string \<Rightarrow> bool" where
  "eq_filter f x \<longleftrightarrow> f = [] \<or> x = f"

definition like_filter :: "string \<Rightarrow> string \<Rightarrow> bool" where
  "like_filter f x \<longleftrightarrow> f = [] \<or> ILIKE x (contains_pattern f)"

record UserFilter =
  uf_Search :: string
  uf_IsAdmin :: "bool option"
  uf_CanCreate :: "bool option"
  uf_CanEdit :: "bool option"
  uf_CanDelete :: "bool option"
  uf_CanEditGeoObjects :: "bool option"
  uf_CanDeleteGeoObjects :: "bool option"
  uf_CanViewAll :: "bool option"

definition UserFilter_Scope :: "UserFilter \<Rightarrow> UserRecord \<Rightarrow> bool" where
  "UserFilter_Scope f u \<longleftrightarrow>
     like_filter (uf_Search f) (u_Username u) \<and> flag_filter (uf_IsAdmin f) (u_IsAdmin u) \<and>
     flag_filter (uf_CanCreate f) (u_CanCreate u) \<and> flag_filter (uf_CanEdit f) (u_CanEdit u) \<and>
     flag_filter (uf_CanDelete f) (u_CanDelete u) \<and>
     flag_filter (uf_CanEditGeoObjects f) (u_CanEditGeoObjects u) \<and>
     flag_filter (uf_CanDeleteGeoObjects f) (u_CanDeleteGeoObjects u) \<and>
     flag_filter (uf_CanViewAll f) (u_CanViewAll u)"

definition ListUsers :: "UserFilter \<Rightarrow> ('w, UserRecord list) sto" where
  "ListUsers f = mapErrE (Wrap ''list users'')
     (query (\<lambda>d. Inr (order_asc u_CreatedAt (filter (UserFilter_Scope f) (t_users d)))))"

section \<open>Accounts of external identities\<close>

definition FindUserByLDAPIdentity :: "string \<Rightarrow> ('w, string) sto" where
  "FindUserByLDAPIdentity dn =
     tryE (query (\<lambda>d. case sql_take (\<lambda>u. u_LDAPDN u = dn) (t_users d) of
                        None \<Rightarrow> Inl ErrNoRows | Some u \<Rightarrow> Inr (u_Username u)))
       (\<lambda>e. if errors_Is e ErrNoRows then raiseE ErrUserNotFound else raiseE (Wrap ''find user by ldap identity'' e))
       okE"

definition insertLDAPUser :: "string \<Rightarrow> string \<Rightarrow> string \<Rightarrow> ('w, UserRecord) sto" where
  "insertLDAPUser username dn passwordHash =
     exec (insert_user (zero_UserRecord\<lparr>u_Username := username, u_PasswordHash := passwordHash, u_LDAPDN := dn\<rparr>))"

text \<open>\<open>rnd\<close> and \<open>suffix\<close> are the values read from the system's random source, or its error.\<close>

definition pureE :: "gerror + 'a \<Rightarrow> ('w, 'a) sto" where
  "pureE r s = (r, s)"

definition CreateLDAPUser ::
  "(string \<Rightarrow> gerror + string) \<Rightarrow> gerror + string \<Rightarrow> gerror + string \<Rightarrow> string \<Rightarrow> string \<Rightarrow> ('w, UserRecord) sto" where
  "CreateLDAPUser hash rnd suffix preferredUsername dn =
     bindE (pureE rnd) (\<lambda>randomPassword.
     bindE (hashPassword hash randomPassword) (\<lambda>h.
     tryE (insertLDAPUser preferredUsername dn h)
       (\<lambda>e. if \<not> isPgErrCode e ''23505'' then raiseE (Wrap ''create ldap user'' e)
            else bindE (pureE suffix) (\<lambda>sfx.
                 mapErrE (Wrap ''create ldap user'') (insertLDAPUser (preferredUsername @ ''-'' @ sfx) dn h)))
       okE))"

definition FindUserByOIDCIdentity :: "string \<Rightarrow> string \<Rightarrow> ('w, string) sto" where
  "FindUserByOIDCIdentity issuer subject =
     tryE (query (\<lambda>d. case sql_take (\<lambda>u. u_OIDCIssuer u = issuer \<and> u_OIDCSubject u = subject) (t_users d) of
                        None \<Rightarrow> Inl ErrNoRows | Some u \<Rightarrow> Inr (u_Username u)))
       (\<lambda>e. if errors_Is e ErrNoRows then raiseE ErrUserNotFound else raiseE (Wrap ''find user by oidc identity'' e))
       okE"

definition insertOIDCUser :: "string \<Rightarrow> string \<Rightarrow> string \<Rightarrow> string \<Rightarrow> ('w, UserRecord) sto" where
  "insertOIDCUser username issuer subject passwordHash =
     exec (insert_user (zero_UserRecord\<lparr>u_Username := username, u_PasswordHash := passwordHash,
                          u_OIDCIssuer := issuer, u_OIDCSubject := subject\<rparr>))"

definition CreateOIDCUser ::
  "(string \<Rightarrow> gerror + string) \<Rightarrow> gerror + string \<Rightarrow> gerror + string \<Rightarrow> string \<Rightarrow> string \<Rightarrow> string
   \<Rightarrow> ('w, UserRecord) sto" where
  "CreateOIDCUser hash rnd suffix preferredUsername issuer subject =
     bindE (pureE rnd) (\<lambda>randomPassword.
     bindE (hashPassword hash randomPassword) (\<lambda>h.
     tryE (insertOIDCUser preferredUsername issuer subject h)
       (\<lambda>e. if \<not> isPgErrCode e ''23505'' then raiseE (Wrap ''create oidc user'' e)
            else bindE (pureE suffix) (\<lambda>sfx.
                 mapErrE (Wrap ''create oidc user'') (insertOIDCUser (preferredUsername @ ''-'' @ sfx) issuer subject h)))
       okE))"

section \<open>The statements keep the schema's invariant\<close>

lemma keys_fresh_user: "keys_ok d \<Longrightarrow> seq_users d \<notin> u_ID ` set (t_users d)"
  by (auto simp: keys_ok_def)

lemma append_user_wf:
  assumes "db_wf d" and "\<not> user_conflict u d"
  shows "db_wf (append_user (stored_user u now d) d)"
proof -
  have "keys_ok (append_user (stored_user u now d) d)"
    using assms keys_fresh_user [of d]
    by (auto simp: db_wf_def keys_ok_def append_user_def stored_user_def user_conflict_def less_Suc_eq)
  moreover have "identities_ok (append_user (stored_user u now d) d)"
    using assms by (auto simp: db_wf_def identities_ok_def append_user_def stored_user_def user_conflict_def)
  moreover have "foreignKeys_ok (append_user (stored_user u now d) d)"
    using assms by (auto simp: db_wf_def foreignKeys_ok_def append_user_def)
  ultimately show ?thesis by (simp add: db_wf_def)
qed

lemma stmt_wf_insert_user [pres]: "stmt_wf (insert_user u)"
  by (rule stmt_wfI) (auto simp: insert_user_def append_user_wf split: if_splits)

lemma stmt_wf_insert_user_do_nothing [pres]: "stmt_wf (insert_user_do_nothing u)"
  by (rule stmt_wfI) (auto simp: insert_user_do_nothing_def append_user_wf split: if_splits)

lemma stmt_wf_update_user [pres]:
  assumes "\<And>u. u_ID (f u) = u_ID u" and "\<And>u. u_Username (f u) = u_Username u"
    and "\<And>u. u_OIDCIssuer (f u) = u_OIDCIssuer u" and "\<And>u. u_OIDCSubject (f u) = u_OIDCSubject u"
    and "\<And>u. u_LDAPDN (f u) = u_LDAPDN u"
  shows "stmt_wf (update_user username f)"
  using assms by (intro stmt_wfI) (simp add: update_user_def wf_simps)

lemma stmt_wf_delete_user [pres]: "stmt_wf (delete_user username)"
proof (rule stmt_wfI)
  fix now d x d'
  assume wf: "db_wf d" and *: "delete_user username now d = Inr (x, d')"
  let ?p = "\<lambda>u. u_Username u = username"
  show "db_wf d'"
  proof (cases "sql_count ?p (t_users d) = 0")
    case True
    with * wf show ?thesis by (simp add: delete_user_def Let_def split: if_splits)
  next
    case False
    have own: "m_OwnerID m \<in> u_ID ` set (sql_delete ?p (t_users d))" if "m \<in> set (t_maps d)" for m
    proof -
      have "m_OwnerID m \<in> u_ID ` set (t_users d)"
        using wf that by (simp add: wf_simps)
      moreover have "m_OwnerID m \<notin> u_ID ` set (filter ?p (t_users d))"
        using * that by (auto simp: delete_user_def Let_def sql_exists_iff split: if_splits)
      ultimately show ?thesis by (auto simp: set_sql_delete)
    qed
    have "d' = d\<lparr>t_users := sql_delete ?p (t_users d),
        t_map_permissions := sql_delete (\<lambda>r. mpm_Username r = username) (t_map_permissions d),
        t_refresh_tokens := sql_delete (\<lambda>r. rt_Username r = username) (t_refresh_tokens d),
        t_api_keys := sql_delete (\<lambda>k. k_Username k = username) (t_api_keys d),
        t_api_key_scopes := sql_delete (\<lambda>c. sc_APIKeyID c \<in>
          set (map k_ID (filter (\<lambda>k. k_Username k = username) (t_api_keys d)))) (t_api_key_scopes d),
        t_group_members := sql_delete (\<lambda>r. gm_Username r = username) (t_group_members d)\<rparr>"
      using * False by (simp add: delete_user_def Let_def del: sql_count_0_iff split: if_splits)
    moreover have "k_ID ` set (t_api_keys d) - set (map k_ID (filter (\<lambda>k. k_Username k = username) (t_api_keys d)))
        \<subseteq> k_ID ` set (sql_delete (\<lambda>k. k_Username k = username) (t_api_keys d))"
      by (auto simp: set_sql_delete)
    ultimately show ?thesis
      using wf own by (auto simp: wf_simps distinct_map_delete distinct_filter_delete simp del: set_map)
  qed
qed

section \<open>The operations keep the schema's invariant\<close>

lemma preserves_pureE [pres]: "preserves P (pureE r)"
  by (simp add: preserves_def pureE_def)

lemma preserves_hashPassword [pres]: "preserves P (hashPassword hash pw)"
  by (simp add: preserves_def hashPassword_def split: sum.splits)

lemma GetPermissions_wf [pres]: "preserves store_wf (GetPermissions username)"
  unfolding GetPermissions_def by (intro pres) simp_all

lemma Authenticate_wf [pres]: "preserves store_wf (Authenticate cmp username password)"
  unfolding Authenticate_def by (intro pres) simp_all

lemma SeedUser_wf [pres]: "preserves store_wf (SeedUser hash username password)"
  unfolding SeedUser_def by (intro pres)

lemma CreateUser_wf [pres]: "preserves store_wf (CreateUser hash username password perms)"
  unfolding CreateUser_def by (intro pres)

lemma UpdateUser_wf [pres]: "preserves store_wf (UpdateUser hash username perms newPassword)"
  unfolding UpdateUser_def by (intro pres) (simp_all add: set_perms_def Let_def split: option.splits)

lemma EnsureSyncUser_wf [pres]: "preserves store_wf EnsureSyncUser"
  unfolding EnsureSyncUser_def by (intro pres)

lemma DeleteUser_wf [pres]: "preserves store_wf (DeleteUser username)"
  unfolding DeleteUser_def by (intro pres) simp_all

lemma ListUsers_wf [pres]: "preserves store_wf (ListUsers f)"
  unfolding ListUsers_def by (intro pres) simp_all

lemma FindUserByLDAPIdentity_wf [pres]: "preserves store_wf (FindUserByLDAPIdentity dn)"
  unfolding FindUserByLDAPIdentity_def by (intro pres) simp_all

lemma CreateLDAPUser_wf [pres]: "preserves store_wf (CreateLDAPUser hash rnd suffix username dn)"
  unfolding CreateLDAPUser_def insertLDAPUser_def by (intro pres)

lemma FindUserByOIDCIdentity_wf [pres]: "preserves store_wf (FindUserByOIDCIdentity issuer subject)"
  unfolding FindUserByOIDCIdentity_def by (intro pres) simp_all

lemma CreateOIDCUser_wf [pres]: "preserves store_wf (CreateOIDCUser hash rnd suffix username issuer subject)"
  unfolding CreateOIDCUser_def insertOIDCUser_def by (intro pres)

lemmas account_op_wfs = GetPermissions_wf Authenticate_wf SeedUser_wf CreateUser_wf UpdateUser_wf
  EnsureSyncUser_wf DeleteUser_wf ListUsers_wf FindUserByLDAPIdentity_wf CreateLDAPUser_wf
  FindUserByOIDCIdentity_wf CreateOIDCUser_wf

end
