(* ===== verification/StoreMaps.thy ===== *)
theory StoreMaps
  imports StoreUsers
begin

text \<open>
  Maps and their versions (\<open>internal/store/maps.go\<close>) and the variants the sync worker uses
  (\<open>internal/store/sync_maps.go\<close>).
\<close>

section \<open>Reading\<close>

text \<open>The row of a map joined with its owner: \<open>loadMapWithOwner\<close>'s \<open>SELECT\<close>.\<close>

definition with_owner :: "db \<Rightarrow> MapRecord \<Rightarrow> MapRecord option" where
  "with_owner d m = map_option (\<lambda>u. m\<lparr>m_Owner := u_Username u\<rparr>)
                      (sql_take (\<lambda>u. u_ID u = m_OwnerID m) (t_users d))"

definition find_map :: "db \<Rightarrow> uuid \<Rightarrow> MapRecord option" where
  "find_map d i = Option.bind (sql_take (\<lambda>m. m_UUID m = i) (t_maps d)) (with_owner d)"

definition loadMapWithOwner :: "uuid \<Rightarrow> ('w, MapRecord) sto" where
  "loadMapWithOwner i =
     tryE (query (\<lambda>d. case find_map d i of None \<Rightarrow> Inl ErrRecordNotFound | Some m \<Rightarrow> Inr m))
       (\<lambda>e. if errors_Is e ErrRecordNotFound then raiseE ErrMapNotFound else raiseE (Wrap ''load map'' e))
       okE"

definition lookupUserID :: "string \<Rightarrow> ('w, int) sto" where
  "lookupUserID username =
     tryE (query (select_user username))
       (\<lambda>e. if errors_Is e ErrRecordNotFound then raiseE ErrUserNotFound else raiseE (Wrap ''look up user'' e))
       (\<lambda>u. okE (u_ID u))"

definition GetMap :: "uuid \<Rightarrow> ('w, MapRecord) sto" where
  "GetMap i =
     bindE (getE (\<lambda>s. cache_get (clock s) (mapCache s) i)) (\<lambda>cached.
       case cached of
         Some m \<Rightarrow> okE m
       | None \<Rightarrow>
           bindE (loadMapWithOwner i) (\<lambda>m.
           bindE (modifyE (\<lambda>s. s\<lparr>mapCache := cache_set (clock s) (mapCache s) i m\<rparr>)) (\<lambda>_.
           okE m)))"

definition GetCurrentVersion :: "uuid \<Rightarrow> ('w, string) sto" where
  "GetCurrentVersion i =
     bindE (getE (\<lambda>s. cache_get (clock s) (currentVersionCache s) i)) (\<lambda>cached.
       case cached of
         Some v \<Rightarrow> okE v
       | None \<Rightarrow>
           tryE (query (\<lambda>d. case sql_take (\<lambda>m. m_UUID m = i) (t_maps d) of
                              None \<Rightarrow> Inl ErrRecordNotFound | Some m \<Rightarrow> Inr (m_CurrentVersion m)))
             (\<lambda>e. if errors_Is e ErrRecordNotFound then raiseE ErrMapNotFound
                  else raiseE (Wrap ''get current version'' e))
             (\<lambda>v. bindE (modifyE (\<lambda>s. s\<lparr>currentVersionCache := cache_set (clock s) (currentVersionCache s) i v\<rparr>))
                    (\<lambda>_. okE v)))"

record MapFilter =
  mf_Name :: string
  mf_CreatedBy :: string
  mf_VisibleToAll :: "bool option"
  mf_AnonymousAllowed :: "bool option"

definition MapFilter_Scope :: "MapFilter \<Rightarrow> MapRecord \<Rightarrow> bool" where
  "MapFilter_Scope f m \<longleftrightarrow>
     like_filter (mf_Name f) (m_Name m) \<and> eq_filter (mf_CreatedBy f) (m_CreatedBy m) \<and>
     flag_filter (mf_VisibleToAll f) (m_VisibleToAll m) \<and>
     flag_filter (mf_AnonymousAllowed f) (m_AnonymousAllowed m)"

definition user_grant :: "db \<Rightarrow> uuid \<Rightarrow> string \<Rightarrow> bool" where
  "user_grant d i username = sql_exists (\<lambda>p. mpm_MapUUID p = i \<and> mpm_Username p = username \<and>
     (mpm_CanView p \<or> mpm_CanEdit p \<or> mpm_CanDelete p \<or> mpm_CanEditGeoObjects p \<or> mpm_CanDeleteGeoObjects p))
     (t_map_permissions d)"

definition group_grant :: "db \<Rightarrow> uuid \<Rightarrow> string \<Rightarrow> bool" where
  "group_grant d i username = sql_exists (\<lambda>p. gmp_MapUUID p = i \<and>
     sql_exists (\<lambda>gm. gm_GroupID gm = gmp_GroupID p \<and> gm_Username gm = username) (t_group_members d) \<and>
     (gmp_CanView p \<or> gmp_CanEdit p \<or> gmp_CanDelete p \<or> gmp_CanEditGeoObjects p \<or> gmp_CanDeleteGeoObjects p))
     (t_group_map_permissions d)"

text \<open>The \<open>WHERE\<close> clause of \<open>ListMaps\<close>, on a row that carries its owner.\<close>

definition list_maps_where :: "db \<Rightarrow> string \<Rightarrow> bool \<Rightarrow> MapRecord \<Rightarrow> bool" where
  "list_maps_where d username bypassVisibility m \<longleftrightarrow>
     bypassVisibility \<or> m_VisibleToAll m \<or> m_Owner m = username \<or>
     user_grant d (m_UUID m) username \<or> group_grant d (m_UUID m) username"

definition select_maps :: "db \<Rightarrow> string \<Rightarrow> bool \<Rightarrow> MapFilter \<Rightarrow> MapRecord list" where
  "select_maps d username bypassVisibility f =
     order_desc m_CreatedAt
       (filter (\<lambda>m. list_maps_where d username bypassVisibility m \<and> MapFilter_Scope f m)
          (List.map_filter (with_owner d) (t_maps d)))"

definition ListMaps :: "string \<Rightarrow> bool \<Rightarrow> MapFilter \<Rightarrow> ('w, MapRecord list) sto" where
  "ListMaps username bypassVisibility f =
     mapErrE (Wrap ''list maps'') (query (\<lambda>d. Inr (select_maps d username bypassVisibility f)))"

record MapVersionRecord =
  vr_Version :: string
  vr_CreatedAt :: time
  vr_CreatedBy :: string

definition version_record :: "mapVersionModel \<Rightarrow> MapVersionRecord" where
  "version_record v = \<lparr>vr_Version = mv_Version v, vr_CreatedAt = mv_CreatedAt v, vr_CreatedBy = mv_CreatedBy v\<rparr>"

definition versions_of :: "db \<Rightarrow> uuid \<Rightarrow> mapVersionModel list" where
  "versions_of d i = filter (\<lambda>v. mv_MapUUID v = i) (t_map_versions d)"

definition ListMapVersions :: "uuid \<Rightarrow> ('w, MapVersionRecord list) sto" where
  "ListMapVersions i =
     bindE (GetMap i) (\<lambda>_.
       mapErrE (Wrap ''list map versions'')
         (query (\<lambda>d. Inr (order_desc vr_CreatedAt (map version_record (versions_of d i))))))"

section \<open>Statements\<close>

definition insert_map :: "MapRecord \<Rightarrow> time \<Rightarrow> db \<Rightarrow> gerror + MapRecord \<times> db" where
  "insert_map m now d =
     (let r = m\<lparr>m_CreatedAt := now, m_UpdatedAt := now\<rparr>
      in if sql_exists (\<lambda>x. m_UUID x = m_UUID m) (t_maps d) then Inl unique_violation
         else if \<not> sql_exists (\<lambda>u. u_ID u = m_OwnerID m) (t_users d) then Inl foreign_key_violation
         else Inr (r, d\<lparr>t_maps := t_maps d @ [r\<lparr>m_SyncRemoteID := None, m_Owner := []\<rparr>]\<rparr>))"

definition update_map :: "uuid \<Rightarrow> (time \<Rightarrow> MapRecord \<Rightarrow> MapRecord) \<Rightarrow> time \<Rightarrow> db \<Rightarrow> gerror + nat \<times> db" where
  "update_map i f now d =
     Inr (sql_count (\<lambda>m. m_UUID m = i) (t_maps d),
          d\<lparr>t_maps := sql_update (\<lambda>m. m_UUID m = i) (f now) (t_maps d)\<rparr>)"

text \<open>\<open>UPDATE maps SET owner_id\<close>, restricted by \<open>fk_maps_owner\<close>; GORM sets \<open>updated_at\<close> as well.\<close>

definition update_map_owner :: "uuid \<Rightarrow> int \<Rightarrow> time \<Rightarrow> db \<Rightarrow> gerror + nat \<times> db" where
  "update_map_owner i ownerID now d =
     (if sql_exists (\<lambda>m. m_UUID m = i) (t_maps d) \<and> \<not> sql_exists (\<lambda>u. u_ID u = ownerID) (t_users d)
      then Inl foreign_key_violation
      else update_map i (\<lambda>now m. m\<lparr>m_OwnerID := ownerID, m_UpdatedAt := now\<rparr>) now d)"

definition insert_map_version :: "uuid \<Rightarrow> string \<Rightarrow> string \<Rightarrow> time \<Rightarrow> db \<Rightarrow> gerror + unit \<times> db" where
  "insert_map_version i version createdBy now d =
     (if sql_exists (\<lambda>v. mv_MapUUID v = i \<and> mv_Version v = version) (t_map_versions d) then Inl unique_violation
      else if \<not> sql_exists (\<lambda>m. m_UUID m = i) (t_maps d) then Inl foreign_key_violation
      else Inr ((), d\<lparr>t_map_versions := t_map_versions d @
             [\<lparr>mv_MapUUID = i, mv_Version = version, mv_CreatedAt = now, mv_CreatedBy = createdBy\<rparr>]\<rparr>))"

text \<open>\<open>version::int\<close>: white space around it is allowed, the range is that of four bytes.\<close>

definition pg_int4 :: "string \<Rightarrow> int option" where
  "pg_int4 s = (case Atoi (TrimSpace s) of
      None \<Rightarrow> None
    | Some n \<Rightarrow> if - 2147483648 \<le> n \<and> n \<le> 2147483647 then Some n else None)"

definition max_version :: "uuid \<Rightarrow> db \<Rightarrow> gerror + int" where
  "max_version i d =
     (let ns = map (pg_int4 \<circ> mv_Version) (versions_of d i)
      in if None \<in> set ns then Inl (PgError ''22P02'')
         else if ns = [] then Inr 0 else Inr (foldr (\<lambda>x m. max (the x) m) (tl ns) (the (hd ns))))"

definition delete_map :: "uuid \<Rightarrow> time \<Rightarrow> db \<Rightarrow> gerror + nat \<times> db" where
  "delete_map i now d =
     Inr (sql_count (\<lambda>m. m_UUID m = i) (t_maps d),
          if sql_count (\<lambda>m. m_UUID m = i) (t_maps d) = 0 then d
          else d\<lparr>t_maps := sql_delete (\<lambda>m. m_UUID m = i) (t_maps d),
             t_map_versions := sql_delete (\<lambda>v. mv_MapUUID v = i) (t_map_versions d),
             t_geo_objects := sql_delete (\<lambda>g. go_MapUUID g = i) (t_geo_objects d),
             t_map_permissions := sql_delete (\<lambda>p. mpm_MapUUID p = i) (t_map_permissions d),
             t_map_version_aliases := sql_delete (\<lambda>a. a_MapUUID a = i) (t_map_version_aliases d),
             t_api_key_scopes := sql_delete (\<lambda>c. sc_MapUUID c = i) (t_api_key_scopes d),
             t_group_map_permissions := sql_delete (\<lambda>p. gmp_MapUUID p = i) (t_group_map_permissions d)\<rparr>)"

section \<open>Operations\<close>

definition forget_map :: "uuid \<Rightarrow> ('w, unit) sto" where
  "forget_map i = bindE (modifyE (\<lambda>s. s\<lparr>mapCache := cache_invalidate (mapCache s) i\<rparr>)) (\<lambda>_.
     modifyE (\<lambda>s. s\<lparr>currentVersionCache := cache_invalidate (currentVersionCache s) i\<rparr>))"

text \<open>\<open>uid\<close> is the value of \<open>uuid.New()\<close>.\<close>

definition CreateMap :: "uuid \<Rightarrow> string \<Rightarrow> string \<Rightarrow> bool \<Rightarrow> bool \<Rightarrow> string \<Rightarrow> ('w, MapRecord) sto" where
  "CreateMap uid name currentVersion visibleToAll anonymousAllowed createdBy =
     bindE (mapErrE (Wrap ''create map'') (lookupUserID createdBy)) (\<lambda>ownerID.
       mapErrE (Wrap ''create map'') (exec (insert_map
         \<lparr>m_UUID = uid, m_Name = name, m_CurrentVersion = currentVersion, m_VisibleToAll = visibleToAll,
          m_AnonymousAllowed = anonymousAllowed, m_CreatedAt = 0, m_UpdatedAt = 0, m_CreatedBy = createdBy,
          m_UpdatedBy = createdBy, m_OwnerID = ownerID, m_SyncRemoteID = None, m_Owner = createdBy\<rparr>)))"

definition UpdateMap :: "uuid \<Rightarrow> string \<Rightarrow> string \<Rightarrow> bool \<Rightarrow> bool \<Rightarrow> string \<Rightarrow> ('w, MapRecord) sto" where
  "UpdateMap i name currentVersion visibleToAll anonymousAllowed updatedBy =
     bindE (mapErrE (Wrap ''update map'') (exec (update_map i (\<lambda>now m. m\<lparr>m_Name := name,
              m_CurrentVersion := currentVersion, m_VisibleToAll := visibleToAll,
              m_AnonymousAllowed := anonymousAllowed, m_UpdatedBy := updatedBy, m_UpdatedAt := now\<rparr>)))) (\<lambda>n.
     if n = 0 then raiseE ErrMapNotFound else
     bindE (forget_map i) (\<lambda>_. loadMapWithOwner i))"

definition UpdateMapOwner :: "uuid \<Rightarrow> string \<Rightarrow> ('w, MapRecord) sto" where
  "UpdateMapOwner i newOwner =
     bindE (lookupUserID newOwner) (\<lambda>ownerID.
     bindE (mapErrE (Wrap ''update map owner'') (exec (update_map_owner i ownerID))) (\<lambda>n.
     if n = 0 then raiseE ErrMapNotFound else
     bindE (modifyE (\<lambda>s. s\<lparr>mapCache := cache_invalidate (mapCache s) i\<rparr>)) (\<lambda>_. loadMapWithOwner i)))"

definition increment_tx :: "uuid \<Rightarrow> string \<Rightarrow> ('w, MapRecord) sto" where
  "increment_tx i updatedBy =
     bindE (mapErrE (Wrap ''lock map'')
              (query (\<lambda>d. Inr (sql_exists (\<lambda>m. m_UUID m = i) (t_maps d))))) (\<lambda>exists.
     if \<not> exists then raiseE ErrMapNotFound else
     bindE (mapErrE (Wrap ''get last map version'') (query (max_version i))) (\<lambda>lastVersion.
     let nextVersion = Itoa (lastVersion + 1) in
     bindE (mapErrE (Wrap ''update map version'') (exec (update_map i (\<lambda>now m. m\<lparr>m_CurrentVersion := nextVersion,
              m_UpdatedBy := updatedBy, m_UpdatedAt := now\<rparr>)))) (\<lambda>_.
     bindE (mapErrE (Wrap ''record map version'') (exec (insert_map_version i nextVersion updatedBy))) (\<lambda>_.
     loadMapWithOwner i))))"

definition IncrementMapVersion :: "uuid \<Rightarrow> string \<Rightarrow> ('w, MapRecord) sto" where
  "IncrementMapVersion i updatedBy =
     bindE (transaction (increment_tx i updatedBy)) (\<lambda>m. bindE (forget_map i) (\<lambda>_. okE m))"

definition DeleteMap :: "uuid \<Rightarrow> ('w, unit) sto" where
  "DeleteMap i =
     bindE (mapErrE (Wrap ''delete map'') (exec (delete_map i))) (\<lambda>n.
     if n = 0 then raiseE ErrMapNotFound else forget_map i)"

section \<open>Maps mirrored from another server\<close>

text \<open>
  \<open>INSERT ... ON CONFLICT (uuid) DO UPDATE\<close>. \<open>owner_id\<close> is the sub-select on \<open>actor\<close>; it is \<open>NOT NULL\<close>,
  which is checked before the conflict is looked for.
\<close>

definition upsert_synced_map ::
  "uuid \<Rightarrow> string \<Rightarrow> bool \<Rightarrow> bool \<Rightarrow> uuid \<Rightarrow> string \<Rightarrow> time \<Rightarrow> db \<Rightarrow> gerror + unit \<times> db" where
  "upsert_synced_map i name visibleToAll anonymousAllowed syncRemoteID actor now d =
     (case sql_take (\<lambda>u. u_Username u = actor) (t_users d) of
        None \<Rightarrow> Inl (PgError ''23502'')
      | Some u \<Rightarrow>
          if \<not> sql_exists (\<lambda>r. sr_ID r = syncRemoteID) (t_sync_remotes d) then Inl foreign_key_violation
          else if sql_exists (\<lambda>m. m_UUID m = i) (t_maps d) then
            Inr ((), d\<lparr>t_maps := sql_update (\<lambda>m. m_UUID m = i) (\<lambda>m. m\<lparr>m_Name := name,
                   m_VisibleToAll := visibleToAll, m_AnonymousAllowed := anonymousAllowed,
                   m_SyncRemoteID := Some syncRemoteID, m_UpdatedBy := actor, m_UpdatedAt := now\<rparr>) (t_maps d)\<rparr>)
          else
            Inr ((), d\<lparr>t_maps := t_maps d @ [\<lparr>m_UUID = i, m_Name = name, m_CurrentVersion = [],
                   m_VisibleToAll = visibleToAll, m_AnonymousAllowed = anonymousAllowed, m_CreatedAt = now,
                   m_UpdatedAt = now, m_CreatedBy = actor, m_UpdatedBy = actor, m_OwnerID = u_ID u,
                   m_SyncRemoteID = Some syncRemoteID, m_Owner = []\<rparr>]\<rparr>))"

definition UpsertSyncedMap :: "uuid \<Rightarrow> string \<Rightarrow> bool \<Rightarrow> bool \<Rightarrow> uuid \<Rightarrow> string \<Rightarrow> ('w, MapRecord) sto" where
  "UpsertSyncedMap i name visibleToAll anonymousAllowed syncRemoteID actor =
     bindE (mapErrE (Wrap ''upsert synced map'')
              (exec (upsert_synced_map i name visibleToAll anonymousAllowed syncRemoteID actor))) (\<lambda>_.
     bindE (forget_map i) (\<lambda>_. loadMapWithOwner i))"

definition HasMapVersion :: "uuid \<Rightarrow> string \<Rightarrow> ('w, bool) sto" where
  "HasMapVersion i version =
     mapErrE (Wrap ''check map version'')
       (query (\<lambda>d. Inr (sql_exists (\<lambda>v. mv_MapUUID v = i \<and> mv_Version v = version) (t_map_versions d))))"

definition insert_synced_version ::
  "uuid \<Rightarrow> string \<Rightarrow> string \<Rightarrow> time \<Rightarrow> time \<Rightarrow> db \<Rightarrow> gerror + unit \<times> db" where
  "insert_synced_version i version createdBy createdAt now d =
     (if sql_exists (\<lambda>v. mv_MapUUID v = i \<and> mv_Version v = version) (t_map_versions d) then Inr ((), d)
      else insert_map_version i version createdBy createdAt d)"

definition RecordSyncedMapVersion :: "uuid \<Rightarrow> string \<Rightarrow> string \<Rightarrow> time \<Rightarrow> ('w, unit) sto" where
  "RecordSyncedMapVersion i version createdBy createdAt =
     mapErrE (Wrap ''record synced map version'') (exec (insert_synced_version i version createdBy createdAt))"

definition set_current_if_recorded :: "uuid \<Rightarrow> string \<Rightarrow> time \<Rightarrow> db \<Rightarrow> gerror + nat \<times> db" where
  "set_current_if_recorded i version now d =
     (if sql_exists (\<lambda>v. mv_MapUUID v = i \<and> mv_Version v = version) (t_map_versions d)
      then update_map i (\<lambda>now m. m\<lparr>m_CurrentVersion := version, m_UpdatedAt := now\<rparr>) now d
      else Inr (0, d))"

definition SetSyncedCurrentVersion :: "uuid \<Rightarrow> string \<Rightarrow> ('w, unit) sto" where
  "SetSyncedCurrentVersion i version =
     bindE (mapErrE (Wrap ''set synced current version'') (exec (set_current_if_recorded i version))) (\<lambda>n.
     if n = 0 then raiseE ErrSyncedVersionNotRecorded else forget_map i)"

section \<open>The statements keep the schema's invariant\<close>

lemma stmt_wf_insert_map [pres]: "stmt_wf (insert_map m)"
  by (rule stmt_wf_caseI) (simp add: insert_map_def Let_def wf_simps)

lemma update_map_wf:
  assumes "\<And>now m. m_UUID (f now m) = m_UUID m"
    and "\<And>now m. m_OwnerID (f now m) = m_OwnerID m \<or> m_OwnerID (f now m) \<in> u_ID ` set (t_users d)"
    and "\<And>now m. m_SyncRemoteID (f now m) = m_SyncRemoteID m"
    and "db_wf d" and "update_map i f now d = Inr (x, d')"
  shows "db_wf d'"
proof -
  have own: "m_OwnerID (f now m) \<in> u_ID ` set (t_users d)" if "m \<in> set (t_maps d)" for m
    using assms(2) [of now m] assms(4) that by (auto simp: db_wf_def foreignKeys_ok_def)
  have "d' = d\<lparr>t_maps := sql_update (\<lambda>m. m_UUID m = i) (f now) (t_maps d)\<rparr>"
    using assms(5) by (simp add: update_map_def)
  then show ?thesis using assms(1,3,4) own by (simp add: wf_simps)
qed

lemma stmt_wf_update_map [pres]:
  assumes "\<And>now m. m_UUID (f now m) = m_UUID m" and "\<And>now m. m_OwnerID (f now m) = m_OwnerID m"
    and "\<And>now m. m_SyncRemoteID (f now m) = m_SyncRemoteID m"
  shows "stmt_wf (update_map i f)"
  using assms by (blast intro: stmt_wfI update_map_wf)

lemma stmt_wf_update_map_owner [pres]: "stmt_wf (update_map_owner i ownerID)"
proof (rule stmt_wf_caseI)
  fix now d assume wf: "db_wf d"
  show "case update_map_owner i ownerID now d of Inl e \<Rightarrow> True | Inr (x, d') \<Rightarrow> db_wf d'"
  proof (cases "i \<in> m_UUID ` set (t_maps d)")
    case False
    then have "sql_update (\<lambda>m. m_UUID m = i) f (t_maps d) = t_maps d" for f
      by (auto simp: sql_update_def intro!: map_idI)
    with wf False show ?thesis by (simp add: update_map_owner_def update_map_def)
  qed (use wf in \<open>simp add: update_map_owner_def update_map_def wf_simps\<close>)
qed

lemma stmt_wf_insert_map_version [pres]: "stmt_wf (insert_map_version i version createdBy)"
  by (rule stmt_wf_caseI) (simp add: insert_map_version_def wf_simps)

lemma stmt_wf_insert_synced_version [pres]: "stmt_wf (insert_synced_version i version createdBy createdAt)"
  using stmt_wf_insert_map_version [of i version createdBy]
  by (auto simp: stmt_wf_def insert_synced_version_def)

lemma stmt_wf_set_current [pres]: "stmt_wf (set_current_if_recorded i version)"
  using stmt_wf_update_map [of "\<lambda>now m. m\<lparr>m_CurrentVersion := version, m_UpdatedAt := now\<rparr>" i]
  by (auto simp: stmt_wf_def set_current_if_recorded_def)

lemma stmt_wf_upsert_synced_map [pres]: "stmt_wf (upsert_synced_map i name v a r actor)"
proof (rule stmt_wf_caseI)
  fix now d assume wf: "db_wf d"
  have "u_ID u \<in> u_ID ` set (t_users d)" if "sql_take (\<lambda>u. u_Username u = actor) (t_users d) = Some u" for u
    using that by (blast dest: sql_take_Some)
  with wf show "case upsert_synced_map i name v a r actor now d of Inl e \<Rightarrow> True | Inr (x, d') \<Rightarrow> db_wf d'"
    by (simp add: upsert_synced_map_def wf_simps split: option.split)
qed

lemma stmt_wf_delete_map [pres]: "stmt_wf (delete_map i)"
  by (rule stmt_wf_caseI) (simp add: delete_map_def wf_simps distinct_map_delete)

section \<open>The operations keep the schema's invariant\<close>

lemma loadMapWithOwner_wf [pres]: "preserves store_wf (loadMapWithOwner i)"
  unfolding loadMapWithOwner_def by (intro pres) simp_all

lemma lookupUserID_wf [pres]: "preserves store_wf (lookupUserID username)"
  unfolding lookupUserID_def by (intro pres) simp_all

lemma GetMap_wf [pres]: "preserves store_wf (GetMap i)"
  unfolding GetMap_def by (intro pres) simp_all

lemma GetCurrentVersion_wf [pres]: "preserves store_wf (GetCurrentVersion i)"
  unfolding GetCurrentVersion_def by (intro pres) simp_all

lemma ListMaps_wf [pres]: "preserves store_wf (ListMaps username b f)"
  unfolding ListMaps_def by (intro pres) simp_all

lemma ListMapVersions_wf [pres]: "preserves store_wf (ListMapVersions i)"
  unfolding ListMapVersions_def by (intro pres) simp_all

lemma forget_map_wf [pres]: "preserves store_wf (forget_map i)"
  unfolding forget_map_def by (intro pres) simp_all

lemma CreateMap_wf [pres]: "preserves store_wf (CreateMap uid name cv v a createdBy)"
  unfolding CreateMap_def by (intro pres)

lemma UpdateMap_wf [pres]: "preserves store_wf (UpdateMap i name cv v a updatedBy)"
  unfolding UpdateMap_def by (intro pres) simp_all

lemma UpdateMapOwner_wf [pres]: "preserves store_wf (UpdateMapOwner i newOwner)"
  unfolding UpdateMapOwner_def by (intro pres) simp_all

lemma IncrementMapVersion_wf [pres]: "preserves store_wf (IncrementMapVersion i updatedBy)"
  unfolding IncrementMapVersion_def increment_tx_def Let_def by (intro pres) simp_all

lemma DeleteMap_wf [pres]: "preserves store_wf (DeleteMap i)"
  unfolding DeleteMap_def by (intro pres)

lemma UpsertSyncedMap_wf [pres]: "preserves store_wf (UpsertSyncedMap i name v a r actor)"
  unfolding UpsertSyncedMap_def by (intro pres)

lemma HasMapVersion_wf [pres]: "preserves store_wf (HasMapVersion i version)"
  unfolding HasMapVersion_def by (intro pres) simp_all

lemma RecordSyncedMapVersion_wf [pres]: "preserves store_wf (RecordSyncedMapVersion i version createdBy createdAt)"
  unfolding RecordSyncedMapVersion_def by (intro pres)

lemma SetSyncedCurrentVersion_wf [pres]: "preserves store_wf (SetSyncedCurrentVersion i version)"
  unfolding SetSyncedCurrentVersion_def by (intro pres)

end
