(* ===== verification/StorePerms.thy ===== *)
theory StorePerms
  imports StoreMaps
begin

text \<open>
  Per-map grants to users and to groups (\<open>internal/store/map_permissions.go\<close>,
  \<open>group_map_permissions.go\<close>).
\<close>

definition no_map_permission :: MapPermission where
  "no_map_permission = \<lparr>mp_CanView = False, mp_CanEdit = False, mp_CanDelete = False,
     mp_CanEditGeoObjects = False, mp_CanDeleteGeoObjects = False\<rparr>"

definition GrantsVisibility :: "MapPermission \<Rightarrow> bool" where
  "GrantsVisibility mp \<longleftrightarrow> mp_CanView mp \<or> mp_CanEdit mp \<or> mp_CanDelete mp \<or> mp_CanEditGeoObjects mp \<or>
     mp_CanDeleteGeoObjects mp"

definition user_map_perm :: "mapPermissionModel \<Rightarrow> MapPermission" where
  "user_map_perm r = \<lparr>mp_CanView = mpm_CanView r, mp_CanEdit = mpm_CanEdit r, mp_CanDelete = mpm_CanDelete r,
     mp_CanEditGeoObjects = mpm_CanEditGeoObjects r, mp_CanDeleteGeoObjects = mpm_CanDeleteGeoObjects r\<rparr>"

definition group_map_perm :: "groupMapPermissionModel \<Rightarrow> MapPermission" where
  "group_map_perm r = \<lparr>mp_CanView = gmp_CanView r, mp_CanEdit = gmp_CanEdit r, mp_CanDelete = gmp_CanDelete r,
     mp_CanEditGeoObjects = gmp_CanEditGeoObjects r, mp_CanDeleteGeoObjects = gmp_CanDeleteGeoObjects r\<rparr>"

definition grant_rows :: "db \<Rightarrow> uuid \<Rightarrow> string \<Rightarrow> MapPermission list" where
  "grant_rows d i username =
     map user_map_perm (filter (\<lambda>p. mpm_MapUUID p = i \<and> mpm_Username p = username) (t_map_permissions d)) @
     concat (map (\<lambda>p. map (\<lambda>_. group_map_perm p)
                        (filter (\<lambda>gm. gm_GroupID gm = gmp_GroupID p \<and> gm_Username gm = username) (t_group_members d)))
               (filter (\<lambda>p. gmp_MapUUID p = i) (t_group_map_permissions d)))"

text \<open>\<open>bool_or\<close> of each column; over no rows it is NULL, which \<open>NullBool.Bool\<close> reads as false.\<close>

definition bool_or_grants :: "MapPermission list \<Rightarrow> MapPermission" where
  "bool_or_grants ps = \<lparr>mp_CanView = list_ex mp_CanView ps, mp_CanEdit = list_ex mp_CanEdit ps,
     mp_CanDelete = list_ex mp_CanDelete ps, mp_CanEditGeoObjects = list_ex mp_CanEditGeoObjects ps,
     mp_CanDeleteGeoObjects = list_ex mp_CanDeleteGeoObjects ps\<rparr>"

definition GetMapPermission :: "uuid \<Rightarrow> string \<Rightarrow> ('w, MapPermission) sto" where
  "GetMapPermission mapID username =
     bindE (getE (\<lambda>s. cache_get (clock s) (mapPermCache s) (mapID, username))) (\<lambda>cached.
       case cached of
         Some mp \<Rightarrow> okE mp
       | None \<Rightarrow>
           bindE (mapErrE (Wrap ''get map permission'')
                    (query (\<lambda>d. Inr (bool_or_grants (grant_rows d mapID username))))) (\<lambda>mp.
           bindE (modifyE (\<lambda>s. s\<lparr>mapPermCache := cache_set (clock s) (mapPermCache s) (mapID, username) mp\<rparr>)) (\<lambda>_.
           okE mp)))"

record MapPermissionRecord =
  mpr_Username :: string
  mpr_Perm :: MapPermission
  mpr_GrantedAt :: time
  mpr_GrantedBy :: string

definition map_permission_record :: "mapPermissionModel \<Rightarrow> MapPermissionRecord" where
  "map_permission_record p = \<lparr>mpr_Username = mpm_Username p, mpr_Perm = user_map_perm p,
     mpr_GrantedAt = mpm_GrantedAt p, mpr_GrantedBy = mpm_GrantedBy p\<rparr>"

text \<open>\<open>OwnerID\<close> and \<open>SyncRemoteID\<close> are not among the columns that query scans.\<close>

definition all_map_permissions :: "db \<Rightarrow> (MapRecord \<times> MapPermissionRecord) list" where
  "all_map_permissions d =
     order_asc (mpr_GrantedAt \<circ> snd)
       (List.map_filter (\<lambda>p. map_option (\<lambda>m. (m\<lparr>m_OwnerID := 0, m_SyncRemoteID := None\<rparr>, map_permission_record p))
                               (find_map d (mpm_MapUUID p))) (t_map_permissions d))"

definition ListAllMapPermissions :: "('w, (MapRecord \<times> MapPermissionRecord) list) sto" where
  "ListAllMapPermissions =
     mapErrE (Wrap ''list all map permissions'') (query (\<lambda>d. Inr (all_map_permissions d)))"

definition ListMapPermissions :: "uuid \<Rightarrow> ('w, MapPermissionRecord list) sto" where
  "ListMapPermissions mapID =
     mapErrE (Wrap ''list map permissions'')
       (query (\<lambda>d. Inr (order_asc mpr_GrantedAt
          (map map_permission_record (filter (\<lambda>p. mpm_MapUUID p = mapID) (t_map_permissions d))))))"

definition set_user_grant :: "MapPermission \<Rightarrow> string \<Rightarrow> time \<Rightarrow> mapPermissionModel \<Rightarrow> mapPermissionModel" where
  "set_user_grant mp grantedBy now r = r\<lparr>mpm_CanView := mp_CanView mp, mpm_CanEdit := mp_CanEdit mp,
     mpm_CanDelete := mp_CanDelete mp, mpm_CanEditGeoObjects := mp_CanEditGeoObjects mp,
     mpm_CanDeleteGeoObjects := mp_CanDeleteGeoObjects mp, mpm_GrantedBy := grantedBy, mpm_GrantedAt := now\<rparr>"

definition upsert_map_permission ::
  "uuid \<Rightarrow> string \<Rightarrow> MapPermission \<Rightarrow> string \<Rightarrow> time \<Rightarrow> db \<Rightarrow> gerror + time \<times> db" where
  "upsert_map_permission mapID username mp grantedBy now d =
     (if sql_exists (\<lambda>p. mpm_MapUUID p = mapID \<and> mpm_Username p = username) (t_map_permissions d) then
        Inr (now, d\<lparr>t_map_permissions := sql_update (\<lambda>p. mpm_MapUUID p = mapID \<and> mpm_Username p = username)
                      (set_user_grant mp grantedBy now) (t_map_permissions d)\<rparr>)
      else if \<not> sql_exists (\<lambda>m. m_UUID m = mapID) (t_maps d) \<or>
              \<not> sql_exists (\<lambda>u. u_Username u = username) (t_users d) then Inl foreign_key_violation
      else
        Inr (now, d\<lparr>t_map_permissions := t_map_permissions d @
               [\<lparr>mpm_MapUUID = mapID, mpm_Username = username, mpm_CanView = mp_CanView mp,
                 mpm_CanEdit = mp_CanEdit mp, mpm_CanDelete = mp_CanDelete mp,
                 mpm_CanEditGeoObjects = mp_CanEditGeoObjects mp,
                 mpm_CanDeleteGeoObjects = mp_CanDeleteGeoObjects mp, mpm_GrantedAt = now,
                 mpm_GrantedBy = grantedBy\<rparr>]\<rparr>))"

definition SetMapPermission :: "uuid \<Rightarrow> string \<Rightarrow> MapPermission \<Rightarrow> string \<Rightarrow> ('w, MapPermissionRecord) sto" where
  "SetMapPermission mapID username mp grantedBy =
     tryE (exec (upsert_map_permission mapID username mp grantedBy))
       (\<lambda>e. if isPgErrCode e ''23503'' then raiseE ErrMapPermissionInvalid
            else raiseE (Wrap ''set map permission'' e))
       (\<lambda>grantedAt.
          bindE (modifyE (\<lambda>s. s\<lparr>mapPermCache := cache_invalidate (mapPermCache s) (mapID, username)\<rparr>)) (\<lambda>_.
          okE \<lparr>mpr_Username = username, mpr_Perm = mp, mpr_GrantedAt = grantedAt, mpr_GrantedBy = grantedBy\<rparr>))"

definition delete_map_permission :: "uuid \<Rightarrow> string \<Rightarrow> time \<Rightarrow> db \<Rightarrow> gerror + unit \<times> db" where
  "delete_map_permission mapID username now d =
     Inr ((), d\<lparr>t_map_permissions :=
                 sql_delete (\<lambda>p. mpm_MapUUID p = mapID \<and> mpm_Username p = username) (t_map_permissions d)\<rparr>)"

definition DeleteMapPermission :: "uuid \<Rightarrow> string \<Rightarrow> ('w, unit) sto" where
  "DeleteMapPermission mapID username =
     bindE (mapErrE (Wrap ''delete map permission'') (exec (delete_map_permission mapID username))) (\<lambda>_.
       modifyE (\<lambda>s. s\<lparr>mapPermCache := cache_invalidate (mapPermCache s) (mapID, username)\<rparr>))"

section \<open>Grants to groups\<close>

record GroupMapPermissionRecord =
  gmr_GroupID :: uuid
  gmr_Perm :: MapPermission
  gmr_GrantedAt :: time
  gmr_GrantedBy :: string

definition group_permission_record :: "groupMapPermissionModel \<Rightarrow> GroupMapPermissionRecord" where
  "group_permission_record p = \<lparr>gmr_GroupID = gmp_GroupID p, gmr_Perm = group_map_perm p,
     gmr_GrantedAt = gmp_GrantedAt p, gmr_GrantedBy = gmp_GrantedBy p\<rparr>"

definition ListGroupMapPermissions :: "uuid \<Rightarrow> ('w, GroupMapPermissionRecord list) sto" where
  "ListGroupMapPermissions mapID =
     mapErrE (Wrap ''list group map permissions'')
       (query (\<lambda>d. Inr (order_asc gmr_GrantedAt
          (map group_permission_record (filter (\<lambda>p. gmp_MapUUID p = mapID) (t_group_map_permissions d))))))"

definition set_group_grant :: "MapPermission \<Rightarrow> string \<Rightarrow> time \<Rightarrow> groupMapPermissionModel \<Rightarrow> groupMapPermissionModel" where
  "set_group_grant mp grantedBy now r = r\<lparr>gmp_CanView := mp_CanView mp, gmp_CanEdit := mp_CanEdit mp,
     gmp_CanDelete := mp_CanDelete mp, gmp_CanEditGeoObjects := mp_CanEditGeoObjects mp,
     gmp_CanDeleteGeoObjects := mp_CanDeleteGeoObjects mp, gmp_GrantedBy := grantedBy, gmp_GrantedAt := now\<rparr>"

definition upsert_group_map_permission ::
  "uuid \<Rightarrow> uuid \<Rightarrow> MapPermission \<Rightarrow> string \<Rightarrow> time \<Rightarrow> db \<Rightarrow> gerror + time \<times> db" where
  "upsert_group_map_permission mapID groupID mp grantedBy now d =
     (if sql_exists (\<lambda>p. gmp_MapUUID p = mapID \<and> gmp_GroupID p = groupID) (t_group_map_permissions d) then
        Inr (now, d\<lparr>t_group_map_permissions := sql_update (\<lambda>p. gmp_MapUUID p = mapID \<and> gmp_GroupID p = groupID)
                      (set_group_grant mp grantedBy now) (t_group_map_permissions d)\<rparr>)
      else if \<not> sql_exists (\<lambda>m. m_UUID m = mapID) (t_maps d) \<or>
              \<not> sql_exists (\<lambda>g. g_ID g = groupID) (t_groups d) then Inl foreign_key_violation
      else
        Inr (now, d\<lparr>t_group_map_permissions := t_group_map_permissions d @
               [\<lparr>gmp_MapUUID = mapID, gmp_GroupID = groupID, gmp_CanView = mp_CanView mp,
                 gmp_CanEdit = mp_CanEdit mp, gmp_CanDelete = mp_CanDelete mp,
                 gmp_CanEditGeoObjects = mp_CanEditGeoObjects mp,
                 gmp_CanDeleteGeoObjects = mp_CanDeleteGeoObjects mp, gmp_GrantedAt = now,
                 gmp_GrantedBy = grantedBy\<rparr>]\<rparr>))"

definition SetGroupMapPermission ::
  "uuid \<Rightarrow> uuid \<Rightarrow> MapPermission \<Rightarrow> string \<Rightarrow> ('w, GroupMapPermissionRecord) sto" where
  "SetGroupMapPermission mapID groupID mp grantedBy =
     tryE (exec (upsert_group_map_permission mapID groupID mp grantedBy))
       (\<lambda>e. if isPgErrCode e ''23503'' then raiseE ErrMapPermissionInvalid
            else raiseE (Wrap ''set group map permission'' e))
       (\<lambda>grantedAt.
          bindE (modifyE (\<lambda>s. s\<lparr>mapPermCache := cache_clear (mapPermCache s)\<rparr>)) (\<lambda>_.
          okE \<lparr>gmr_GroupID = groupID, gmr_Perm = mp, gmr_GrantedAt = grantedAt, gmr_GrantedBy = grantedBy\<rparr>))"

definition delete_group_map_permission :: "uuid \<Rightarrow> uuid \<Rightarrow> time \<Rightarrow> db \<Rightarrow> gerror + unit \<times> db" where
  "delete_group_map_permission mapID groupID now d =
     Inr ((), d\<lparr>t_group_map_permissions :=
                 sql_delete (\<lambda>p. gmp_MapUUID p = mapID \<and> gmp_GroupID p = groupID) (t_group_map_permissions d)\<rparr>)"

definition DeleteGroupMapPermission :: "uuid \<Rightarrow> uuid \<Rightarrow> ('w, unit) sto" where
  "DeleteGroupMapPermission mapID groupID =
     bindE (mapErrE (Wrap ''delete group map permission'') (exec (delete_group_map_permission mapID groupID))) (\<lambda>_.
       modifyE (\<lambda>s. s\<lparr>mapPermCache := cache_clear (mapPermCache s)\<rparr>))"

section \<open>Invariants\<close>

lemma set_user_grant_key [simp]:
  "mpm_MapUUID (set_user_grant mp actor now r) = mpm_MapUUID r" "mpm_Username (set_user_grant mp actor now r) = mpm_Username r"
  "mpm_MapUUID (if c then set_user_grant mp actor now r else r) = mpm_MapUUID r"
  "mpm_Username (if c then set_user_grant mp actor now r else r) = mpm_Username r"
  by (simp_all add: set_user_grant_def)

lemma stmt_wf_upsert_map_permission [pres]: "stmt_wf (upsert_map_permission mapID username mp by)"
  by (rule stmt_wf_caseI) (simp add: upsert_map_permission_def wf_simps)

lemma stmt_wf_delete_map_permission [pres]: "stmt_wf (delete_map_permission mapID username)"
  by (rule stmt_wf_caseI) (simp add: delete_map_permission_def wf_simps distinct_map_delete)

lemma set_group_grant_key [simp]:
  "gmp_MapUUID (set_group_grant mp actor now r) = gmp_MapUUID r" "gmp_GroupID (set_group_grant mp actor now r) = gmp_GroupID r"
  "gmp_MapUUID (if c then set_group_grant mp actor now r else r) = gmp_MapUUID r"
  "gmp_GroupID (if c then set_group_grant mp actor now r else r) = gmp_GroupID r"
  by (simp_all add: set_group_grant_def)

lemma stmt_wf_upsert_group_map_permission [pres]: "stmt_wf (upsert_group_map_permission mapID g mp by)"
  by (rule stmt_wf_caseI) (simp add: upsert_group_map_permission_def wf_simps)

lemma stmt_wf_delete_group_map_permission [pres]: "stmt_wf (delete_group_map_permission mapID g)"
  by (rule stmt_wf_caseI) (simp add: delete_group_map_permission_def wf_simps distinct_map_delete)

lemma GetMapPermission_wf [pres]: "preserves store_wf (GetMapPermission mapID username)"
  unfolding GetMapPermission_def by (intro pres) simp_all

lemma ListAllMapPermissions_wf [pres]: "preserves store_wf ListAllMapPermissions"
  unfolding ListAllMapPermissions_def by (intro pres) simp_all

lemma ListMapPermissions_wf [pres]: "preserves store_wf (ListMapPermissions mapID)"
  unfolding ListMapPermissions_def by (intro pres) simp_all

lemma SetMapPermission_wf [pres]: "preserves store_wf (SetMapPermission mapID username mp by)"
  unfolding SetMapPermission_def by (intro pres) simp_all

lemma DeleteMapPermission_wf [pres]: "preserves store_wf (DeleteMapPermission mapID username)"
  unfolding DeleteMapPermission_def by (intro pres) simp_all

lemma ListGroupMapPermissions_wf [pres]: "preserves store_wf (ListGroupMapPermissions mapID)"
  unfolding ListGroupMapPermissions_def by (intro pres) simp_all

lemma SetGroupMapPermission_wf [pres]: "preserves store_wf (SetGroupMapPermission mapID g mp by)"
  unfolding SetGroupMapPermission_def by (intro pres) simp_all

lemma DeleteGroupMapPermission_wf [pres]: "preserves store_wf (DeleteGroupMapPermission mapID g)"
  unfolding DeleteGroupMapPermission_def by (intro pres) simp_all

end
