(* ===== verification/StoreGroups.thy ===== *)
theory StoreGroups
  imports StoreUsers
begin

text \<open>
  Groups (\<open>internal/store/groups.go\<close>) and the membership that every directory login replaces
  (\<open>internal/store/group_membership.go\<close>).
\<close>

section \<open>Statements\<close>

definition group_conflict :: "GroupRecord \<Rightarrow> GroupRecord list \<Rightarrow> bool" where
  "group_conflict g gs \<longleftrightarrow>
     sql_exists (\<lambda>h. g_Name h = g_Name g) gs \<or>
     g_LDAPGroupDN g \<noteq> [] \<and> sql_exists (\<lambda>h. g_LDAPGroupDN h = g_LDAPGroupDN g) gs \<or>
     g_OIDCGroupClaim g \<noteq> [] \<and> sql_exists (\<lambda>h. g_OIDCGroupClaim h = g_OIDCGroupClaim g) gs"

definition insert_group :: "GroupRecord \<Rightarrow> time \<Rightarrow> db \<Rightarrow> gerror + GroupRecord \<times> db" where
  "insert_group g now d =
     (let r = g\<lparr>g_CreatedAt := now, g_UpdatedAt := now\<rparr>
      in if sql_exists (\<lambda>h. g_ID h = g_ID g) (t_groups d) \<or> group_conflict g (t_groups d) then Inl unique_violation
         else Inr (r, d\<lparr>t_groups := t_groups d @ [r]\<rparr>))"

definition set_group_fields ::
  "string \<Rightarrow> Permissions \<Rightarrow> string \<Rightarrow> string \<Rightarrow> string \<Rightarrow> time \<Rightarrow> GroupRecord \<Rightarrow> GroupRecord" where
  "set_group_fields name perms ldapGroupDN oidcGroupClaim actor now g = g\<lparr>g_Name := name,
     g_CanCreate := p_CanCreate perms, g_CanEdit := p_CanEdit perms, g_CanDelete := p_CanDelete perms,
     g_CanEditGeoObjects := p_CanEditGeoObjects perms, g_CanDeleteGeoObjects := p_CanDeleteGeoObjects perms,
     g_CanViewAll := p_CanViewAll perms, g_IsAdmin := p_IsAdmin perms, g_LDAPGroupDN := ldapGroupDN,
     g_OIDCGroupClaim := oidcGroupClaim, g_UpdatedBy := actor, g_UpdatedAt := now\<rparr>"

definition update_group ::
  "uuid \<Rightarrow> string \<Rightarrow> Permissions \<Rightarrow> string \<Rightarrow> string \<Rightarrow> string \<Rightarrow> time \<Rightarrow> db \<Rightarrow> gerror + nat \<times> db" where
  "update_group i name perms dn claim actor now d =
     (case sql_take (\<lambda>g. g_ID g = i) (t_groups d) of
        None \<Rightarrow> Inr (0, d)
      | Some g \<Rightarrow>
          if group_conflict (set_group_fields name perms dn claim actor now g)
               (sql_delete (\<lambda>h. g_ID h = i) (t_groups d)) then Inl unique_violation
          else Inr (sql_count (\<lambda>g. g_ID g = i) (t_groups d),
                 d\<lparr>t_groups := sql_update (\<lambda>g. g_ID g = i) (set_group_fields name perms dn claim actor now)
                                 (t_groups d)\<rparr>))"

definition delete_group :: "uuid \<Rightarrow> time \<Rightarrow> db \<Rightarrow> gerror + nat \<times> db" where
  "delete_group i now d =
     Inr (sql_count (\<lambda>g. g_ID g = i) (t_groups d),
          if sql_count (\<lambda>g. g_ID g = i) (t_groups d) = 0 then d
          else d\<lparr>t_groups := sql_delete (\<lambda>g. g_ID g = i) (t_groups d),
             t_group_members := sql_delete (\<lambda>r. gm_GroupID r = i) (t_group_members d),
             t_group_map_permissions := sql_delete (\<lambda>p. gmp_GroupID p = i) (t_group_map_permissions d)\<rparr>)"

definition delete_memberships :: "string \<Rightarrow> time \<Rightarrow> db \<Rightarrow> gerror + unit \<times> db" where
  "delete_memberships username now d =
     Inr ((), d\<lparr>t_group_members := sql_delete (\<lambda>r. gm_Username r = username) (t_group_members d)\<rparr>)"

definition insert_membership :: "uuid \<Rightarrow> string \<Rightarrow> time \<Rightarrow> db \<Rightarrow> gerror + unit \<times> db" where
  "insert_membership groupID username now d =
     (if sql_exists (\<lambda>r. gm_GroupID r = groupID \<and> gm_Username r = username) (t_group_members d) then Inl unique_violation
      else if \<not> sql_exists (\<lambda>g. g_ID g = groupID) (t_groups d) \<or>
              \<not> sql_exists (\<lambda>u. u_Username u = username) (t_users d) then Inl foreign_key_violation
      else Inr ((), d\<lparr>t_group_members := t_group_members d @
             [\<lparr>gm_GroupID = groupID, gm_Username = username, gm_SyncedAt = now\<rparr>]\<rparr>))"

section \<open>Operations on groups\<close>

definition forget_permissions :: "('w, unit) sto" where
  "forget_permissions = bindE (modifyE (\<lambda>s. s\<lparr>permsCache := cache_clear (permsCache s)\<rparr>)) (\<lambda>_.
     modifyE (\<lambda>s. s\<lparr>mapPermCache := cache_clear (mapPermCache s)\<rparr>))"

definition GroupFilter_Scope :: "string \<Rightarrow> GroupRecord \<Rightarrow> bool" where
  "GroupFilter_Scope search g \<longleftrightarrow> like_filter search (g_Name g)"

definition ListGroups :: "string \<Rightarrow> ('w, GroupRecord list) sto" where
  "ListGroups search = mapErrE (Wrap ''list groups'')
     (query (\<lambda>d. Inr (order_asc g_CreatedAt (filter (GroupFilter_Scope search) (t_groups d)))))"

definition select_group :: "uuid \<Rightarrow> db \<Rightarrow> gerror + GroupRecord" where
  "select_group i d =
     (case sql_take (\<lambda>g. g_ID g = i) (t_groups d) of None \<Rightarrow> Inl ErrRecordNotFound | Some g \<Rightarrow> Inr g)"

definition GetGroup :: "uuid \<Rightarrow> ('w, GroupRecord) sto" where
  "GetGroup i = tryE (query (select_group i))
     (\<lambda>e. if errors_Is e ErrRecordNotFound then raiseE ErrGroupNotFound else raiseE (Wrap ''get group'' e)) okE"

definition new_group :: "uuid \<Rightarrow> string \<Rightarrow> string \<Rightarrow> GroupRecord" where
  "new_group i name actor = \<lparr>g_ID = i, g_Name = name, g_CanCreate = False, g_CanEdit = False, g_CanDelete = False,
     g_CanEditGeoObjects = False, g_CanDeleteGeoObjects = False, g_CanViewAll = False, g_IsAdmin = False,
     g_LDAPGroupDN = [], g_OIDCGroupClaim = [], g_CreatedAt = 0, g_UpdatedAt = 0, g_CreatedBy = actor,
     g_UpdatedBy = actor\<rparr>"

definition CreateGroup ::
  "uuid \<Rightarrow> string \<Rightarrow> Permissions \<Rightarrow> string \<Rightarrow> string \<Rightarrow> string \<Rightarrow> ('w, GroupRecord) sto" where
  "CreateGroup uid name perms ldapGroupDN oidcGroupClaim actor =
     tryE (exec (insert_group (set_group_fields name perms ldapGroupDN oidcGroupClaim actor 0 (new_group uid name actor))))
       (\<lambda>e. if isPgErrCode e ''23505'' then raiseE ErrGroupExists else raiseE (Wrap ''create group'' e))
       okE"

definition UpdateGroup ::
  "uuid \<Rightarrow> string \<Rightarrow> Permissions \<Rightarrow> string \<Rightarrow> string \<Rightarrow> string \<Rightarrow> ('w, GroupRecord) sto" where
  "UpdateGroup i name perms ldapGroupDN oidcGroupClaim actor =
     tryE (exec (update_group i name perms ldapGroupDN oidcGroupClaim actor))
       (\<lambda>e. if isPgErrCode e ''23505'' then raiseE ErrGroupExists else raiseE (Wrap ''update group'' e))
       (\<lambda>n. if n = 0 then raiseE ErrGroupNotFound else
            bindE (mapErrE (Wrap ''update group'') (query (select_group i))) (\<lambda>g.
            bindE forget_permissions (\<lambda>_. okE g)))"

definition DeleteGroup :: "uuid \<Rightarrow> ('w, unit) sto" where
  "DeleteGroup i =
     bindE (mapErrE (Wrap ''delete group'') (exec (delete_group i))) (\<lambda>n.
     if n = 0 then raiseE ErrGroupNotFound else forget_permissions)"

section \<open>Membership\<close>

text \<open>The two columns that link a group to a directory group.\<close>

datatype linkColumn = ldap_group_dn | oidc_group_claim

definition link_of :: "linkColumn \<Rightarrow> GroupRecord \<Rightarrow> string" where
  "link_of c g = (case c of ldap_group_dn \<Rightarrow> g_LDAPGroupDN g | oidc_group_claim \<Rightarrow> g_OIDCGroupClaim g)"

definition findGroupByLink :: "linkColumn \<Rightarrow> string \<Rightarrow> ('w, uuid) sto" where
  "findGroupByLink c v =
     tryE (query (\<lambda>d. case sql_take (\<lambda>g. link_of c g = v) (t_groups d) of None \<Rightarrow> Inl ErrNoRows | Some g \<Rightarrow> Inr (g_ID g)))
       (\<lambda>e. if errors_Is e ErrNoRows then raiseE ErrGroupNotFound else raiseE (Wrap ''look up group'' e))
       okE"

definition synced_group :: "uuid \<Rightarrow> linkColumn \<Rightarrow> string \<Rightarrow> string \<Rightarrow> string \<Rightarrow> GroupRecord" where
  "synced_group uid c v name actor =
     (case c of ldap_group_dn \<Rightarrow> (new_group uid name actor)\<lparr>g_LDAPGroupDN := v\<rparr>
              | oidc_group_claim \<Rightarrow> (new_group uid name actor)\<lparr>g_OIDCGroupClaim := v\<rparr>)"

definition insertSyncedGroup :: "uuid \<Rightarrow> linkColumn \<Rightarrow> string \<Rightarrow> string \<Rightarrow> string \<Rightarrow> ('w, uuid) sto" where
  "insertSyncedGroup uid c v name actor =
     bindE (exec (insert_group (synced_group uid c v name actor))) (\<lambda>_. okE uid)"

text \<open>
  What the random source yields while one value is resolved: the \<open>uuid.New()\<close> of the first and of the
  second insert, and \<open>randomUsernameSuffix()\<close> or its error.
\<close>

type_synonym draws = "uuid \<times> uuid \<times> (gerror + string)"

definition getOrCreateGroupByLink ::
  "draws \<Rightarrow> linkColumn \<Rightarrow> string \<Rightarrow> string \<Rightarrow> string \<Rightarrow> ('w, uuid) sto" where
  "getOrCreateGroupByLink rnd c v displayName actor =
     (case rnd of (uid1, uid2, suffix) \<Rightarrow>
       tryE (findGroupByLink c v)
         (\<lambda>e. if \<not> errors_Is e ErrGroupNotFound then raiseE e else
            tryE (insertSyncedGroup uid1 c v displayName actor)
              (\<lambda>e. if \<not> isPgErrCode e ''23505'' then raiseE (Wrap ''create group'' e) else
                 tryE (findGroupByLink c v)
                   (\<lambda>_. bindE (pureE suffix) (\<lambda>sfx.
                      mapErrE (Wrap ''create group'') (insertSyncedGroup uid2 c v (displayName @ ''-'' @ sfx) actor)))
                   okE)
              okE)
         okE)"

definition ldapGroupDisplayName :: "string \<Rightarrow> string" where
  "ldapGroupDisplayName dn =
     (case Cut dn (CHR '','') of (first, _, _) \<Rightarrow>
      (case Cut first (CHR ''='') of (attr, name, ok) \<Rightarrow>
         if \<not> ok \<or> \<not> EqualFold (TrimSpace attr) ''cn'' then dn else TrimSpace name))"

definition getOrCreateGroupByLDAPDN :: "draws \<Rightarrow> string \<Rightarrow> ('w, uuid) sto" where
  "getOrCreateGroupByLDAPDN rnd dn =
     getOrCreateGroupByLink rnd ldap_group_dn dn (ldapGroupDisplayName dn) ''ldap-sync''"

definition getOrCreateGroupByOIDCClaim :: "draws \<Rightarrow> string \<Rightarrow> ('w, uuid) sto" where
  "getOrCreateGroupByOIDCClaim rnd claimValue =
     getOrCreateGroupByLink rnd oidc_group_claim claimValue claimValue ''oidc-sync''"

text \<open>The values the loop resolves: blanks and repetitions are skipped.\<close>

fun wanted_values :: "string list \<Rightarrow> string list \<Rightarrow> string list" where
  "wanted_values seen [] = []"
| "wanted_values seen (v # vs) =
     (if v = [] \<or> v \<in> set seen then wanted_values seen vs else v # wanted_values (v # seen) vs)"

definition replaceGroupMembership :: "string \<Rightarrow> uuid list \<Rightarrow> ('w, unit) sto" where
  "replaceGroupMembership username ids =
     bindE (transaction
        (bindE (mapErrE (Wrap ''sync group membership: clear existing'') (exec (delete_memberships username))) (\<lambda>_.
           forE ids (\<lambda>i. mapErrE (Wrap ''sync group membership: insert'') (exec (insert_membership i username))))))
       (\<lambda>_. modifyE (\<lambda>s. s\<lparr>permsCache := cache_invalidate (permsCache s) username\<rparr>))"

definition resolve_groups :: "(string \<Rightarrow> ('w, uuid) sto) \<Rightarrow> string list \<Rightarrow> ('w, uuid list) sto" where
  "resolve_groups resolve values =
     foldE (\<lambda>v ids. bindE (mapErrE (Wrap ''sync group membership: resolve group'') (resolve v)) (\<lambda>i. okE (ids @ [i])))
       (wanted_values [] values) []"

definition syncGroupMembership :: "string \<Rightarrow> string list \<Rightarrow> (string \<Rightarrow> ('w, uuid) sto) \<Rightarrow> ('w, unit) sto" where
  "syncGroupMembership username values resolve =
     bindE (resolve_groups resolve values) (\<lambda>ids. replaceGroupMembership username ids)"

definition SyncGroupMembershipByLDAPDNs :: "(string \<Rightarrow> draws) \<Rightarrow> string \<Rightarrow> string list \<Rightarrow> ('w, unit) sto" where
  "SyncGroupMembershipByLDAPDNs rnd username dns =
     syncGroupMembership username dns (\<lambda>dn. getOrCreateGroupByLDAPDN (rnd dn) dn)"

definition SyncGroupMembershipByOIDCClaims :: "(string \<Rightarrow> draws) \<Rightarrow> string \<Rightarrow> string list \<Rightarrow> ('w, unit) sto" where
  "SyncGroupMembershipByOIDCClaims rnd username claimValues =
     syncGroupMembership username claimValues (\<lambda>v. getOrCreateGroupByOIDCClaim (rnd v) v)"

section \<open>Invariants\<close>

lemma stmt_wf_insert_group [pres]: "stmt_wf (insert_group g)"
proof (rule stmt_wf_caseI)
  fix now d assume wf: "db_wf d"
  let ?d = "d\<lparr>t_groups := t_groups d @ [g\<lparr>g_CreatedAt := now, g_UpdatedAt := now\<rparr>]\<rparr>"
  have "db_wf ?d" if "g_ID g \<notin> g_ID ` set (t_groups d)" "\<not> group_conflict g (t_groups d)"
  proof -
    have "keys_ok ?d" using wf that by (simp add: db_wf_def keys_ok_def group_conflict_def)
    moreover have "identities_ok ?d"
      using wf that by (auto simp: db_wf_def identities_ok_def group_conflict_def)
    moreover have "foreignKeys_ok ?d" using wf by (simp add: db_wf_def foreignKeys_ok_def)
    ultimately show ?thesis by (simp add: db_wf_def)
  qed
  then show "case insert_group g now d of Inl e \<Rightarrow> True | Inr (x, d') \<Rightarrow> db_wf d'"
    by (simp add: insert_group_def Let_def)
qed

lemma stmt_wf_update_group [pres]: "stmt_wf (update_group i name perms dn claim actor)"
proof (rule stmt_wf_caseI)
  fix now d assume wf: "db_wf d"
  let ?f = "set_group_fields name perms dn claim actor now"
  show "case update_group i name perms dn claim actor now d of Inl e \<Rightarrow> True | Inr (x, d') \<Rightarrow> db_wf d'"
  proof (cases "sql_take (\<lambda>g. g_ID g = i) (t_groups d)")
    case None
    with wf show ?thesis by (simp add: update_group_def)
  next
    case (Some g)
    have "distinct (map g_ID (t_groups d))" using wf by (simp add: wf_simps)
    from sql_update_at_key [OF this Some, of ?f] obtain xs ys where
      t: "t_groups d = xs @ g # ys" and u: "sql_update (\<lambda>g. g_ID g = i) ?f (t_groups d) = xs @ ?f g # ys"
      and r: "sql_delete (\<lambda>g. g_ID g = i) (t_groups d) = xs @ ys" by blast
    have f: "g_ID (?f g) = g_ID g" "g_Name (?f g) = name" "g_LDAPGroupDN (?f g) = dn" "g_OIDCGroupClaim (?f g) = claim"
      by (simp_all add: set_group_fields_def)
    have "db_wf (d\<lparr>t_groups := xs @ ?f g # ys\<rparr>)"
      if "\<not> group_conflict (?f g) (xs @ ys)"
    proof -
      have "keys_ok (d\<lparr>t_groups := xs @ ?f g # ys\<rparr>)"
        using wf that by (simp add: db_wf_def keys_ok_def t f group_conflict_def image_Un)
      moreover have "identities_ok (d\<lparr>t_groups := xs @ ?f g # ys\<rparr>)"
      proof -
        have nc: "dn \<noteq> [] \<Longrightarrow> dn \<notin> g_LDAPGroupDN ` (set xs \<union> set ys)"
          "claim \<noteq> [] \<Longrightarrow> claim \<notin> g_OIDCGroupClaim ` (set xs \<union> set ys)"
          using that by (simp_all add: group_conflict_def f)
        have d: "distinct (map g_LDAPGroupDN (filter (\<lambda>g. g_LDAPGroupDN g \<noteq> []) (xs @ g # ys)))"
          "distinct (map g_OIDCGroupClaim (filter (\<lambda>g. g_OIDCGroupClaim g \<noteq> []) (xs @ g # ys)))"
          using wf by (simp_all only: db_wf_def identities_ok_def t)
        have "distinct (map g_LDAPGroupDN (filter (\<lambda>g. g_LDAPGroupDN g \<noteq> []) (xs @ ?f g # ys)))"
          by (rule distinct_filter_replace [OF d(1)]) (simp only: f nc not_False_eq_True)
        moreover have "distinct (map g_OIDCGroupClaim (filter (\<lambda>g. g_OIDCGroupClaim g \<noteq> []) (xs @ ?f g # ys)))"
          by (rule distinct_filter_replace [OF d(2)]) (simp only: f nc not_False_eq_True)
        ultimately show ?thesis using wf by (simp only: db_wf_def identities_ok_def) simp
      qed
      moreover have "foreignKeys_ok (d\<lparr>t_groups := xs @ ?f g # ys\<rparr>)"
        using wf by (simp add: db_wf_def foreignKeys_ok_def t f)
      ultimately show ?thesis by (simp add: db_wf_def)
    qed
    then show ?thesis
      by (simp add: update_group_def Some u r)
  qed
qed

lemma stmt_wf_delete_group [pres]: "stmt_wf (delete_group i)"
  by (rule stmt_wf_caseI)
    (simp add: delete_group_def wf_simps distinct_map_delete distinct_filter_delete)

lemma stmt_wf_delete_memberships [pres]: "stmt_wf (delete_memberships username)"
  by (rule stmt_wf_caseI) (simp add: delete_memberships_def wf_simps distinct_map_delete)

lemma stmt_wf_insert_membership [pres]: "stmt_wf (insert_membership i username)"
  by (rule stmt_wf_caseI) (simp add: insert_membership_def wf_simps)

lemma forget_permissions_wf [pres]: "preserves store_wf forget_permissions"
  unfolding forget_permissions_def by (intro pres) simp_all

lemma ListGroups_wf [pres]: "preserves store_wf (ListGroups search)"
  unfolding ListGroups_def by (intro pres) simp_all

lemma GetGroup_wf [pres]: "preserves store_wf (GetGroup i)"
  unfolding GetGroup_def by (intro pres) simp_all

lemma CreateGroup_wf [pres]: "preserves store_wf (CreateGroup uid name perms dn claim actor)"
  unfolding CreateGroup_def by (intro pres)

lemma UpdateGroup_wf [pres]: "preserves store_wf (UpdateGroup i name perms dn claim actor)"
  unfolding UpdateGroup_def by (intro pres) simp_all

lemma DeleteGroup_wf [pres]: "preserves store_wf (DeleteGroup i)"
  unfolding DeleteGroup_def by (intro pres)

lemma findGroupByLink_wf [pres]: "preserves store_wf (findGroupByLink c v)"
  unfolding findGroupByLink_def by (intro pres) simp_all

lemma getOrCreateGroupByLink_wf [pres]: "preserves store_wf (getOrCreateGroupByLink rnd c v n actor)"
  unfolding getOrCreateGroupByLink_def insertSyncedGroup_def by (intro pres)

lemma syncGroupMembership_wf:
  "(\<And>v. preserves store_wf (resolve v)) \<Longrightarrow> preserves store_wf (syncGroupMembership username values resolve)"
  unfolding syncGroupMembership_def resolve_groups_def replaceGroupMembership_def by (intro pres) simp_all

lemma SyncGroupMembershipByLDAPDNs_wf [pres]: "preserves store_wf (SyncGroupMembershipByLDAPDNs rnd u dns)"
  unfolding SyncGroupMembershipByLDAPDNs_def getOrCreateGroupByLDAPDN_def
  by (intro syncGroupMembership_wf pres)

lemma SyncGroupMembershipByOIDCClaims_wf [pres]: "preserves store_wf (SyncGroupMembershipByOIDCClaims rnd u vs)"
  unfolding SyncGroupMembershipByOIDCClaims_def getOrCreateGroupByOIDCClaim_def
  by (intro syncGroupMembership_wf pres)

end
