(* ===== verification/StoreContent.thy ===== *)
theory StoreContent
  imports StoreMaps
begin

text \<open>
  What hangs off a map's versions: the aliases (\<open>internal/store/map_version_aliases.go\<close>) and the geo
  objects (\<open>internal/store/geo_objects.go\<close>, \<open>sync_geo_objects.go\<close>).
\<close>

section \<open>Version aliases\<close>

definition GetMapVersionAlias :: "uuid \<Rightarrow> string \<Rightarrow> ('w, string) sto" where
  "GetMapVersionAlias mapID alias =
     bindE (getE (\<lambda>s. cache_get (clock s) (mapAliasCache s) (mapID, alias))) (\<lambda>cached.
       case cached of
         Some v \<Rightarrow> okE v
       | None \<Rightarrow>
           tryE (query (\<lambda>d. case sql_take (\<lambda>a. a_MapUUID a = mapID \<and> a_Alias a = alias) (t_map_version_aliases d) of
                              None \<Rightarrow> Inl ErrNoRows | Some a \<Rightarrow> Inr (a_Version a)))
             (\<lambda>e. if errors_Is e ErrNoRows then raiseE ErrMapVersionAliasNotFound
                  else raiseE (Wrap ''get map version alias'' e))
             (\<lambda>v. bindE (modifyE (\<lambda>s. s\<lparr>mapAliasCache := cache_set (clock s) (mapAliasCache s) (mapID, alias) v\<rparr>))
                    (\<lambda>_. okE v)))"

record MapVersionAlias =
  va_Alias :: string
  va_Version :: string
  va_CreatedAt :: time
  va_UpdatedAt :: time
  va_CreatedBy :: string
  va_UpdatedBy :: string

definition alias_record :: "mapVersionAliasModel \<Rightarrow> MapVersionAlias" where
  "alias_record a = \<lparr>va_Alias = a_Alias a, va_Version = a_Version a, va_CreatedAt = a_CreatedAt a,
     va_UpdatedAt = a_UpdatedAt a, va_CreatedBy = a_CreatedBy a, va_UpdatedBy = a_UpdatedBy a\<rparr>"

text \<open>\<open>ORDER BY alias\<close>: by the bytes of the text.\<close>

definition bytes :: "string \<Rightarrow> nat list" where
  "bytes s = map of_char s"

fun bytes_le :: "nat list \<Rightarrow> nat list \<Rightarrow> bool" where
  "bytes_le [] ys = True"
| "bytes_le (x # xs) [] = False"
| "bytes_le (x # xs) (y # ys) = (x < y \<or> x = y \<and> bytes_le xs ys)"

fun insert_by :: "('a \<Rightarrow> 'a \<Rightarrow> bool) \<Rightarrow> 'a \<Rightarrow> 'a list \<Rightarrow> 'a list" where
  "insert_by le x [] = [x]"
| "insert_by le x (y # ys) = (if le x y then x # y # ys else y # insert_by le x ys)"

definition order_by :: "('a \<Rightarrow> 'a \<Rightarrow> bool) \<Rightarrow> 'a list \<Rightarrow> 'a list" where
  "order_by le xs = foldr (insert_by le) xs []"

definition ListMapVersionAliases :: "uuid \<Rightarrow> ('w, MapVersionAlias list) sto" where
  "ListMapVersionAliases mapID =
     mapErrE (Wrap ''list map version aliases'')
       (query (\<lambda>d. Inr (order_by (\<lambda>a b. bytes_le (bytes (va_Alias a)) (bytes (va_Alias b)))
          (map alias_record (filter (\<lambda>a. a_MapUUID a = mapID) (t_map_version_aliases d))))))"

definition version_exists :: "uuid \<Rightarrow> string \<Rightarrow> db \<Rightarrow> bool" where
  "version_exists mapID version d \<longleftrightarrow>
     sql_exists (\<lambda>v. mv_MapUUID v = mapID \<and> mv_Version v = version) (t_map_versions d)"

text \<open>Both foreign keys of the alias row are checked, whether it is inserted or its version changed.\<close>

definition upsert_alias ::
  "uuid \<Rightarrow> string \<Rightarrow> string \<Rightarrow> string \<Rightarrow> time \<Rightarrow> db \<Rightarrow> gerror + (time \<times> time) \<times> db" where
  "upsert_alias mapID alias version actor now d =
     (if \<not> sql_exists (\<lambda>m. m_UUID m = mapID) (t_maps d) \<or> \<not> version_exists mapID version d
      then Inl foreign_key_violation
      else case sql_take (\<lambda>a. a_MapUUID a = mapID \<and> a_Alias a = alias) (t_map_version_aliases d) of
        Some a \<Rightarrow>
          Inr ((a_CreatedAt a, now), d\<lparr>t_map_version_aliases :=
                 sql_update (\<lambda>a. a_MapUUID a = mapID \<and> a_Alias a = alias)
                   (\<lambda>a. a\<lparr>a_Version := version, a_UpdatedBy := actor, a_UpdatedAt := now\<rparr>)
                   (t_map_version_aliases d)\<rparr>)
      | None \<Rightarrow>
          Inr ((now, now), d\<lparr>t_map_version_aliases := t_map_version_aliases d @
                 [\<lparr>a_MapUUID = mapID, a_Alias = alias, a_Version = version, a_CreatedAt = now,
                   a_UpdatedAt = now, a_CreatedBy = actor, a_UpdatedBy = actor\<rparr>]\<rparr>))"

definition SetMapVersionAlias :: "uuid \<Rightarrow> string \<Rightarrow> string \<Rightarrow> string \<Rightarrow> ('w, MapVersionAlias) sto" where
  "SetMapVersionAlias mapID alias version actor =
     tryE (exec (upsert_alias mapID alias version actor))
       (\<lambda>e. if isPgErrCode e ''23503'' then raiseE ErrMapVersionAliasInvalid
            else raiseE (Wrap ''set map version alias'' e))
       (\<lambda>(createdAt, updatedAt).
          bindE (modifyE (\<lambda>s. s\<lparr>mapAliasCache := cache_invalidate (mapAliasCache s) (mapID, alias)\<rparr>)) (\<lambda>_.
          okE \<lparr>va_Alias = alias, va_Version = version, va_CreatedAt = createdAt, va_UpdatedAt = updatedAt,
               va_CreatedBy = actor, va_UpdatedBy = actor\<rparr>))"

definition delete_alias :: "uuid \<Rightarrow> string \<Rightarrow> time \<Rightarrow> db \<Rightarrow> gerror + unit \<times> db" where
  "delete_alias mapID alias now d =
     Inr ((), d\<lparr>t_map_version_aliases :=
                 sql_delete (\<lambda>a. a_MapUUID a = mapID \<and> a_Alias a = alias) (t_map_version_aliases d)\<rparr>)"

definition DeleteMapVersionAlias :: "uuid \<Rightarrow> string \<Rightarrow> ('w, unit) sto" where
  "DeleteMapVersionAlias mapID alias =
     bindE (mapErrE (Wrap ''delete map version alias'') (exec (delete_alias mapID alias))) (\<lambda>_.
       modifyE (\<lambda>s. s\<lparr>mapAliasCache := cache_invalidate (mapAliasCache s) (mapID, alias)\<rparr>))"

section \<open>Geo objects\<close>

text \<open>The fields a caller supplies, in the order of the parameters of \<open>CreateGeoObject\<close>.\<close>

record geoFields =
  gf_Name :: string
  gf_ExternalID :: string
  gf_Latitude :: rat
  gf_Longitude :: rat
  gf_Street :: string
  gf_HouseNumber :: string
  gf_Postcode :: string
  gf_City :: string
  gf_CityDistrict :: string

definition set_geo_fields :: "geoFields \<Rightarrow> GeoObjectRecord \<Rightarrow> GeoObjectRecord" where
  "set_geo_fields f g = g\<lparr>go_Name := gf_Name f, go_ExternalID := gf_ExternalID f, go_Latitude := gf_Latitude f,
     go_Longitude := gf_Longitude f, go_Street := gf_Street f, go_HouseNumber := gf_HouseNumber f,
     go_Postcode := gf_Postcode f, go_City := gf_City f, go_CityDistrict := gf_CityDistrict f\<rparr>"

definition insert_geo :: "GeoObjectRecord \<Rightarrow> db \<Rightarrow> gerror + GeoObjectRecord \<times> db" where
  "insert_geo g d =
     (if sql_exists (\<lambda>h. go_UUID h = go_UUID g) (t_geo_objects d) then Inl unique_violation
      else if \<not> version_exists (go_MapUUID g) (go_Version g) d then Inl foreign_key_violation
      else Inr (g, d\<lparr>t_geo_objects := t_geo_objects d @ [g]\<rparr>))"

definition CreateGeoObject ::
  "uuid \<Rightarrow> uuid \<Rightarrow> string \<Rightarrow> geoFields \<Rightarrow> string \<Rightarrow> ('w, GeoObjectRecord) sto" where
  "CreateGeoObject uid mapID version f createdBy =
     tryE (exec (\<lambda>now. insert_geo (set_geo_fields f
              \<lparr>go_UUID = uid, go_MapUUID = mapID, go_Version = version, go_Name = [], go_ExternalID = [],
               go_Latitude = 0, go_Longitude = 0, go_Street = [], go_HouseNumber = [], go_Postcode = [],
               go_City = [], go_CityDistrict = [], go_CreatedAt = now, go_UpdatedAt = now,
               go_CreatedBy = createdBy, go_UpdatedBy = createdBy\<rparr>)))
       (\<lambda>e. if isPgErrCode e ''23503'' then raiseE ErrGeoObjectInvalid else raiseE (Wrap ''create geo object'' e))
       okE"

record GeoObjectFilter =
  gof_Name :: string
  gof_ExternalID :: string
  gof_Street :: string
  gof_Postcode :: string
  gof_City :: string
  gof_CityDistrict :: string
  gof_CreatedBy :: string
  gof_MinLat :: "rat option"
  gof_MaxLat :: "rat option"
  gof_MinLon :: "rat option"
  gof_MaxLon :: "rat option"

text \<open>
  \<open>Scope\<close> looks at \<open>MinLat\<close> only and then dereferences the other three; \<open>None\<close> is the run-time panic of
  a nil dereference, which the handler's check rules out.
\<close>

definition GeoObjectFilter_Scope :: "GeoObjectFilter \<Rightarrow> (GeoObjectRecord \<Rightarrow> bool) option" where
  "GeoObjectFilter_Scope f =
     (let text_ok = (\<lambda>g. like_filter (gof_Name f) (go_Name g) \<and> eq_filter (gof_ExternalID f) (go_ExternalID g) \<and>
            like_filter (gof_Street f) (go_Street g) \<and> eq_filter (gof_Postcode f) (go_Postcode g) \<and>
            like_filter (gof_City f) (go_City g) \<and> like_filter (gof_CityDistrict f) (go_CityDistrict g) \<and>
            eq_filter (gof_CreatedBy f) (go_CreatedBy g))
      in case gof_MinLat f of
           None \<Rightarrow> Some text_ok
         | Some minLat \<Rightarrow>
             (case (gof_MaxLat f, gof_MinLon f, gof_MaxLon f) of
                (Some maxLat, Some minLon, Some maxLon) \<Rightarrow>
                  Some (\<lambda>g. text_ok g \<and> minLat \<le> go_Latitude g \<and> go_Latitude g \<le> maxLat \<and>
                            minLon \<le> go_Longitude g \<and> go_Longitude g \<le> maxLon)
              | _ \<Rightarrow> None))"

definition geo_of_version :: "uuid \<Rightarrow> string \<Rightarrow> GeoObjectRecord \<Rightarrow> bool" where
  "geo_of_version mapID version g \<longleftrightarrow> go_MapUUID g = mapID \<and> go_Version g = version"

definition ListGeoObjects :: "uuid \<Rightarrow> string \<Rightarrow> GeoObjectFilter \<Rightarrow> ('w, GeoObjectRecord list) sto" where
  "ListGeoObjects mapID version f =
     (case GeoObjectFilter_Scope f of
        None \<Rightarrow> raiseE (OpaqueErr ''nil pointer dereference'')
      | Some p \<Rightarrow>
          mapErrE (Wrap ''list geo objects'')
            (query (\<lambda>d. Inr (order_asc go_CreatedAt
               (filter (\<lambda>g. geo_of_version mapID version g \<and> p g) (t_geo_objects d))))))"

definition select_geo :: "uuid \<Rightarrow> db \<Rightarrow> gerror + GeoObjectRecord" where
  "select_geo i d =
     (case sql_take (\<lambda>g. go_UUID g = i) (t_geo_objects d) of None \<Rightarrow> Inl ErrRecordNotFound | Some g \<Rightarrow> Inr g)"

definition GetGeoObject :: "uuid \<Rightarrow> ('w, GeoObjectRecord) sto" where
  "GetGeoObject i = tryE (query (select_geo i))
     (\<lambda>e. if errors_Is e ErrRecordNotFound then raiseE ErrGeoObjectNotFound else raiseE (Wrap ''get geo object'' e))
     okE"

definition update_geo ::
  "(GeoObjectRecord \<Rightarrow> bool) \<Rightarrow> (time \<Rightarrow> GeoObjectRecord \<Rightarrow> GeoObjectRecord) \<Rightarrow> time \<Rightarrow> db \<Rightarrow> gerror + nat \<times> db" where
  "update_geo p f now d =
     Inr (sql_count p (t_geo_objects d), d\<lparr>t_geo_objects := sql_update p (f now) (t_geo_objects d)\<rparr>)"

definition UpdateGeoObject ::
  "uuid \<Rightarrow> string \<Rightarrow> uuid \<Rightarrow> geoFields \<Rightarrow> string \<Rightarrow> ('w, GeoObjectRecord) sto" where
  "UpdateGeoObject mapID version i f updatedBy =
     bindE (mapErrE (Wrap ''update geo object'')
       (exec (update_geo (\<lambda>g. go_UUID g = i \<and> geo_of_version mapID version g)
                (\<lambda>now g. (set_geo_fields f g)\<lparr>go_UpdatedBy := updatedBy, go_UpdatedAt := now\<rparr>)))) (\<lambda>n.
     if n = 0 then raiseE ErrGeoObjectNotFound else
     mapErrE (Wrap ''update geo object'') (query (select_geo i)))"

definition delete_geo :: "(GeoObjectRecord \<Rightarrow> bool) \<Rightarrow> time \<Rightarrow> db \<Rightarrow> gerror + nat \<times> db" where
  "delete_geo p now d =
     Inr (sql_count p (t_geo_objects d), d\<lparr>t_geo_objects := sql_delete p (t_geo_objects d)\<rparr>)"

definition DeleteGeoObject :: "uuid \<Rightarrow> string \<Rightarrow> uuid \<Rightarrow> ('w, unit) sto" where
  "DeleteGeoObject mapID version i =
     bindE (mapErrE (Wrap ''delete geo object'')
       (exec (delete_geo (\<lambda>g. go_UUID g = i \<and> geo_of_version mapID version g)))) (\<lambda>n.
     if n = 0 then raiseE ErrGeoObjectNotFound else okE ())"

text \<open>\<open>ON CONFLICT (uuid) DO UPDATE\<close>: map, version, \<open>created_at\<close> and \<open>created_by\<close> stay as they were.\<close>

definition geo_fields :: "GeoObjectRecord \<Rightarrow> geoFields" where
  "geo_fields g = \<lparr>gf_Name = go_Name g, gf_ExternalID = go_ExternalID g, gf_Latitude = go_Latitude g,
     gf_Longitude = go_Longitude g, gf_Street = go_Street g, gf_HouseNumber = go_HouseNumber g,
     gf_Postcode = go_Postcode g, gf_City = go_City g, gf_CityDistrict = go_CityDistrict g\<rparr>"

definition upsert_geo :: "GeoObjectRecord \<Rightarrow> time \<Rightarrow> db \<Rightarrow> gerror + unit \<times> db" where
  "upsert_geo g now d =
     (if sql_exists (\<lambda>h. go_UUID h = go_UUID g) (t_geo_objects d) then
        Inr ((), d\<lparr>t_geo_objects := sql_update (\<lambda>h. go_UUID h = go_UUID g)
                     (\<lambda>h. (set_geo_fields (geo_fields g) h)\<lparr>go_UpdatedAt := go_UpdatedAt g, go_UpdatedBy := go_UpdatedBy g\<rparr>)
                     (t_geo_objects d)\<rparr>)
      else case insert_geo g d of Inl e \<Rightarrow> Inl e | Inr (_, d') \<Rightarrow> Inr ((), d'))"

definition UpsertSyncedGeoObject :: "GeoObjectRecord \<Rightarrow> ('w, GeoObjectRecord) sto" where
  "UpsertSyncedGeoObject g =
     tryE (exec (upsert_geo g))
       (\<lambda>e. if isPgErrCode e ''23503'' then raiseE ErrGeoObjectInvalid else raiseE (Wrap ''upsert synced geo object'' e))
       (\<lambda>_. mapErrE (Wrap ''upsert synced geo object'') (query (select_geo (go_UUID g))))"

section \<open>Invariants\<close>

lemma stmt_wf_upsert_alias [pres]: "stmt_wf (upsert_alias mapID alias version actor)"
proof (rule stmt_wf_caseI)
  fix now d assume wf: "db_wf d"
  have none: "(mapID, alias) \<notin> a_key ` set (t_map_version_aliases d)"
    if "sql_take (\<lambda>a. a_MapUUID a = mapID \<and> a_Alias a = alias) (t_map_version_aliases d) = None"
    using that by (auto simp: sql_take_None)
  show "case upsert_alias mapID alias version actor now d of Inl e \<Rightarrow> True | Inr (x, d') \<Rightarrow> db_wf d'"
    using wf none by (simp add: upsert_alias_def version_exists_def wf_simps split: option.split)
qed

lemma stmt_wf_delete_alias [pres]: "stmt_wf (delete_alias mapID alias)"
  by (rule stmt_wf_caseI) (simp add: delete_alias_def wf_simps distinct_map_delete)

lemma insert_geo_wf: "db_wf d \<Longrightarrow> insert_geo g d = Inr (x, d') \<Longrightarrow> db_wf d'"
  by (auto simp: insert_geo_def version_exists_def split: if_splits; simp add: wf_simps; blast)

lemma set_geo_fields_key [simp]: "go_UUID (set_geo_fields f g) = go_UUID g"
  "go_MapUUID (set_geo_fields f g) = go_MapUUID g" "go_Version (set_geo_fields f g) = go_Version g"
  by (simp_all add: set_geo_fields_def)

lemma stmt_wf_insert_geo [pres]: "stmt_wf (\<lambda>now. insert_geo (g now))"
  by (blast intro: stmt_wfI insert_geo_wf)

lemma stmt_wf_update_geo [pres]:
  assumes "\<And>now g. go_UUID (f now g) = go_UUID g" and "\<And>now g. go_MapUUID (f now g) = go_MapUUID g"
    and "\<And>now g. go_Version (f now g) = go_Version g"
  shows "stmt_wf (update_geo p f)"
  using assms by (intro stmt_wf_caseI) (simp add: update_geo_def wf_simps)

lemma stmt_wf_delete_geo [pres]: "stmt_wf (delete_geo p)"
  by (rule stmt_wf_caseI) (simp add: delete_geo_def wf_simps distinct_map_delete)

lemma stmt_wf_upsert_geo [pres]: "stmt_wf (upsert_geo g)"
proof (rule stmt_wf_caseI)
  fix now d assume wf: "db_wf d"
  then show "case upsert_geo g now d of Inl e \<Rightarrow> True | Inr (x, d') \<Rightarrow> db_wf d'"
    using insert_geo_wf [OF wf, of g]
    by (cases "insert_geo g d") (auto simp: upsert_geo_def; simp add: wf_simps)+
qed

lemma GetMapVersionAlias_wf [pres]: "preserves store_wf (GetMapVersionAlias mapID alias)"
  unfolding GetMapVersionAlias_def by (intro pres) simp_all

lemma ListMapVersionAliases_wf [pres]: "preserves store_wf (ListMapVersionAliases mapID)"
  unfolding ListMapVersionAliases_def by (intro pres) simp_all

lemma SetMapVersionAlias_wf [pres]: "preserves store_wf (SetMapVersionAlias mapID alias version actor)"
  unfolding SetMapVersionAlias_def by (intro pres) simp_all

lemma DeleteMapVersionAlias_wf [pres]: "preserves store_wf (DeleteMapVersionAlias mapID alias)"
  unfolding DeleteMapVersionAlias_def by (intro pres) simp_all

lemma CreateGeoObject_wf [pres]: "preserves store_wf (CreateGeoObject uid mapID version f createdBy)"
  unfolding CreateGeoObject_def by (intro pres)

lemma ListGeoObjects_wf [pres]: "preserves store_wf (ListGeoObjects mapID version f)"
  unfolding ListGeoObjects_def by (intro pres) simp_all

lemma GetGeoObject_wf [pres]: "preserves store_wf (GetGeoObject i)"
  unfolding GetGeoObject_def by (intro pres) simp_all

lemma UpdateGeoObject_wf [pres]: "preserves store_wf (UpdateGeoObject mapID version i f updatedBy)"
  unfolding UpdateGeoObject_def by (intro pres) simp_all

lemma DeleteGeoObject_wf [pres]: "preserves store_wf (DeleteGeoObject mapID version i)"
  unfolding DeleteGeoObject_def by (intro pres)

lemma UpsertSyncedGeoObject_wf [pres]: "preserves store_wf (UpsertSyncedGeoObject g)"
  unfolding UpsertSyncedGeoObject_def by (intro pres) simp_all

end
