(* ===== verification/StoreKeys.thy ===== *)
theory StoreKeys
  imports StoreMaps
begin

text \<open>
  Credentials: API keys (\<open>internal/store/api_keys.go\<close>), the scopes that narrow them
  (\<open>api_key_scopes.go\<close>) and refresh tokens (\<open>refresh_tokens.go\<close>). PEM and X.509 parsing, the SHA3
  digest and the random source are parameters.
\<close>

section \<open>API keys\<close>

definition minRSAKeyBits :: int where "minRSAKeyBits = 2048"

text \<open>
  \<open>pem_decode\<close> is \<open>pem.Decode\<close>, \<open>parse_pkix\<close> is \<open>x509.ParsePKIXPublicKey\<close>: an error, or a key, which
  when it is an RSA key has a modulus of some bit length.
\<close>

type_synonym 'b pkix = "(string \<Rightarrow> 'b option) \<times> ('b \<Rightarrow> gerror + int option)"

definition validateRSAPublicKeyPEM :: "'b pkix \<Rightarrow> string \<Rightarrow> gerror + unit" where
  "validateRSAPublicKeyPEM pk pemStr =
     (case pk of (pem_decode, parse_pkix) \<Rightarrow>
       (case pem_decode pemStr of
          None \<Rightarrow> Inl ErrInvalidPublicKeyPEM
        | Some block \<Rightarrow>
            (case parse_pkix block of
               Inl e \<Rightarrow> Inl (Wrap ''parse'' ErrInvalidPublicKeyPEM)
             | Inr None \<Rightarrow> Inl ErrInvalidPublicKeyPEM
             | Inr (Some bits) \<Rightarrow> if bits < minRSAKeyBits then Inl ErrInvalidPublicKeyPEM else Inr ())))"

definition insert_api_key :: "APIKeyRecord \<Rightarrow> time \<Rightarrow> db \<Rightarrow> gerror + APIKeyRecord \<times> db" where
  "insert_api_key k now d =
     (let r = k\<lparr>k_CreatedAt := now\<rparr>
      in if sql_exists (\<lambda>x. k_ID x = k_ID k) (t_api_keys d) then Inl unique_violation
         else if \<not> sql_exists (\<lambda>u. u_Username u = k_Username k) (t_users d) then Inl foreign_key_violation
         else Inr (r, d\<lparr>t_api_keys := t_api_keys d @ [r]\<rparr>))"

definition CreateAPIKey ::
  "'b pkix \<Rightarrow> uuid \<Rightarrow> string \<Rightarrow> string \<Rightarrow> string \<Rightarrow> string \<Rightarrow> ('w, APIKeyRecord) sto" where
  "CreateAPIKey pk uid username name createdBy publicKeyPEM =
     bindE (pureE (validateRSAPublicKeyPEM pk publicKeyPEM)) (\<lambda>_.
       tryE (exec (insert_api_key \<lparr>k_ID = uid, k_PublicKeyPEM = publicKeyPEM, k_Username = username,
               k_Name = name, k_CreatedAt = 0, k_CreatedBy = createdBy, k_LastUsedAt = None,
               k_RevokedAt = None, k_Scoped = False\<rparr>))
         (\<lambda>e. if isPgErrCode e ''23503'' then raiseE ErrUserNotFound else raiseE (Wrap ''create api key'' e))
         okE)"

definition ListAPIKeys :: "string \<Rightarrow> ('w, APIKeyRecord list) sto" where
  "ListAPIKeys username = mapErrE (Wrap ''list api keys'')
     (query (\<lambda>d. Inr (order_desc k_CreatedAt
        (filter (\<lambda>k. k_Username k = username \<and> k_RevokedAt k = None) (t_api_keys d)))))"

definition update_api_keys ::
  "(APIKeyRecord \<Rightarrow> bool) \<Rightarrow> (time \<Rightarrow> APIKeyRecord \<Rightarrow> APIKeyRecord) \<Rightarrow> time \<Rightarrow> db \<Rightarrow> gerror + nat \<times> db" where
  "update_api_keys p f now d =
     Inr (sql_count p (t_api_keys d), d\<lparr>t_api_keys := sql_update p (f now) (t_api_keys d)\<rparr>)"

definition live_key_of :: "uuid \<Rightarrow> string \<Rightarrow> APIKeyRecord \<Rightarrow> bool" where
  "live_key_of i username k \<longleftrightarrow> k_ID k = i \<and> k_Username k = username \<and> k_RevokedAt k = None"

definition RevokeAPIKey :: "string \<Rightarrow> uuid \<Rightarrow> ('w, unit) sto" where
  "RevokeAPIKey username i =
     bindE (mapErrE (Wrap ''revoke api key'')
       (exec (update_api_keys (live_key_of i username) (\<lambda>now k. k\<lparr>k_RevokedAt := Some now\<rparr>)))) (\<lambda>n.
     if n = 0 then raiseE ErrAPIKeyNotFound else okE ())"

definition TouchAPIKeyLastUsed :: "uuid \<Rightarrow> ('w, unit) sto" where
  "TouchAPIKeyLastUsed i =
     tryE (exec (update_api_keys (\<lambda>k. k_ID k = i) (\<lambda>now k. k\<lparr>k_LastUsedAt := Some now\<rparr>)))
       (\<lambda>_. okE ()) (\<lambda>_. okE ())"

definition select_live_key :: "uuid \<Rightarrow> db \<Rightarrow> gerror + APIKeyRecord" where
  "select_live_key i d =
     (case sql_take (\<lambda>k. k_ID k = i \<and> k_RevokedAt k = None) (t_api_keys d) of None \<Rightarrow> Inl ErrNoRows | Some k \<Rightarrow> Inr k)"

definition ResolveAPIKeySigningKey :: "uuid \<Rightarrow> ('w, string \<times> string) sto" where
  "ResolveAPIKeySigningKey keyID =
     bindE (getE (\<lambda>s. cache_get (clock s) (apiKeyCache s) keyID)) (\<lambda>cached.
       case cached of
         Some v \<Rightarrow> okE (sk_username v, sk_publicKeyPEM v)
       | None \<Rightarrow>
           tryE (query (select_live_key keyID))
             (\<lambda>e. if errors_Is e ErrNoRows then raiseE ErrInvalidAPIKey
                  else raiseE (Wrap ''resolve api key signing key'' e))
             (\<lambda>k. bindE (modifyE (\<lambda>s. s\<lparr>apiKeyCache := cache_set (clock s) (apiKeyCache s) keyID
                       \<lparr>sk_username = k_Username k, sk_publicKeyPEM = k_PublicKeyPEM k, sk_scoped = k_Scoped k\<rparr>\<rparr>)) (\<lambda>_.
                  bindE (TouchAPIKeyLastUsed keyID) (\<lambda>_.
                  okE (k_Username k, k_PublicKeyPEM k)))))"

definition apiKeyScopedFlag :: "uuid \<Rightarrow> ('w, bool) sto" where
  "apiKeyScopedFlag keyID =
     bindE (getE (\<lambda>s. cache_get (clock s) (apiKeyCache s) keyID)) (\<lambda>cached.
       case cached of
         Some v \<Rightarrow> okE (sk_scoped v)
       | None \<Rightarrow>
           tryE (query (select_live_key keyID))
             (\<lambda>e. if errors_Is e ErrNoRows then raiseE ErrInvalidAPIKey
                  else raiseE (Wrap ''get api key scoped flag'' e))
             (\<lambda>k. okE (k_Scoped k)))"

section \<open>The array column\<close>

text \<open>
  \<open>Value\<close> writes a Postgres array literal with every element quoted, \<open>Scan\<close> reads one. The loop of
  \<open>Scan\<close> keeps the elements so far, the current one, and the two flags.
\<close>

fun escape :: "string \<Rightarrow> string" where
  "escape [] = []"
| "escape (c # s) = (if c = CHR 0x22 \<or> c = CHR 0x5C then CHR 0x5C # c # escape s else c # escape s)"

definition quote :: "string \<Rightarrow> string" where
  "quote s = CHR 0x22 # escape s @ [CHR 0x22]"

definition stringArray_Value :: "string list option \<Rightarrow> string option" where
  "stringArray_Value a =
     (case a of None \<Rightarrow> None | Some xs \<Rightarrow> Some (CHR ''{'' # join_with (CHR '','') (map quote xs) @ ''}''))"

fun scan_loop :: "string list \<Rightarrow> string \<Rightarrow> bool \<Rightarrow> bool \<Rightarrow> string \<Rightarrow> string list" where
  "scan_loop out cur quoted escaped [] = out @ [cur]"
| "scan_loop out cur quoted escaped (r # s) =
     (if escaped then scan_loop out (cur @ [r]) quoted False s
      else if r = CHR 0x5C \<and> quoted then scan_loop out cur quoted True s
      else if r = CHR 0x22 then scan_loop out cur (\<not> quoted) False s
      else if r = CHR '','' \<and> \<not> quoted then scan_loop (out @ [cur]) [] quoted False s
      else scan_loop out (cur @ [r]) quoted False s)"

definition stringArray_Scan :: "string option \<Rightarrow> string list option" where
  "stringArray_Scan src =
     (case src of
        None \<Rightarrow> None
      | Some s \<Rightarrow>
          let s' = TrimPrefix (TrimSuffix s ''}'') ''{''
          in if s' = [] then Some [] else Some (scan_loop [] [] False False s'))"

section \<open>Scopes\<close>

record APIKeyScopeRecord =
  asr_MapUUID :: uuid
  asr_Versions :: "string list option"
  asr_GrantedAt :: time

definition set_scope :: "string list option \<Rightarrow> time \<Rightarrow> apiKeyScopeModel \<Rightarrow> apiKeyScopeModel" where
  "set_scope versions now c = c\<lparr>sc_Versions := versions, sc_GrantedAt := now\<rparr>"

definition upsert_scope :: "uuid \<Rightarrow> uuid \<Rightarrow> string list option \<Rightarrow> time \<Rightarrow> db \<Rightarrow> gerror + time \<times> db" where
  "upsert_scope keyID mapUUID versions now d =
     (if sql_exists (\<lambda>c. sc_APIKeyID c = keyID \<and> sc_MapUUID c = mapUUID) (t_api_key_scopes d) then
        Inr (now, d\<lparr>t_api_key_scopes := sql_update (\<lambda>c. sc_APIKeyID c = keyID \<and> sc_MapUUID c = mapUUID)
                      (set_scope versions now) (t_api_key_scopes d)\<rparr>)
      else if \<not> sql_exists (\<lambda>k. k_ID k = keyID) (t_api_keys d) \<or> \<not> sql_exists (\<lambda>m. m_UUID m = mapUUID) (t_maps d)
        then Inl foreign_key_violation
      else Inr (now, d\<lparr>t_api_key_scopes := t_api_key_scopes d @
             [\<lparr>sc_APIKeyID = keyID, sc_MapUUID = mapUUID, sc_Versions = versions, sc_GrantedAt = now\<rparr>]\<rparr>))"

definition SetAPIKeyScope ::
  "string \<Rightarrow> uuid \<Rightarrow> uuid \<Rightarrow> string list option \<Rightarrow> ('w, APIKeyScopeRecord) sto" where
  "SetAPIKeyScope username keyID mapUUID versions =
     tryE (transaction
        (bindE (exec (update_api_keys (live_key_of keyID username) (\<lambda>_ k. k\<lparr>k_Scoped := True\<rparr>))) (\<lambda>n.
           if n = 0 then raiseE ErrAPIKeyNotFound
           else exec (upsert_scope keyID mapUUID versions))))
       (\<lambda>e. if errors_Is e ErrAPIKeyNotFound then raiseE ErrAPIKeyNotFound
            else if isPgErrCode e ''23503'' then raiseE ErrAPIKeyScopeInvalid
            else raiseE (Wrap ''set api key scope'' e))
       (\<lambda>grantedAt.
          bindE (modifyE (\<lambda>s. s\<lparr>apiKeyCache := cache_invalidate (apiKeyCache s) keyID\<rparr>)) (\<lambda>_.
          bindE (modifyE (\<lambda>s. s\<lparr>apiKeyScopeCache := cache_invalidate (apiKeyScopeCache s) (keyID, mapUUID)\<rparr>)) (\<lambda>_.
          okE \<lparr>asr_MapUUID = mapUUID, asr_Versions = versions, asr_GrantedAt = grantedAt\<rparr>)))"

definition delete_scope :: "string \<Rightarrow> uuid \<Rightarrow> uuid \<Rightarrow> time \<Rightarrow> db \<Rightarrow> gerror + nat \<times> db" where
  "delete_scope username keyID mapUUID now d =
     (let p = (\<lambda>c. sc_APIKeyID c = keyID \<and> sc_MapUUID c = mapUUID \<and>
                   sql_exists (live_key_of keyID username) (t_api_keys d))
      in Inr (sql_count p (t_api_key_scopes d), d\<lparr>t_api_key_scopes := sql_delete p (t_api_key_scopes d)\<rparr>))"

definition DeleteAPIKeyScope :: "string \<Rightarrow> uuid \<Rightarrow> uuid \<Rightarrow> ('w, unit) sto" where
  "DeleteAPIKeyScope username keyID mapUUID =
     bindE (mapErrE (Wrap ''delete api key scope'') (exec (delete_scope username keyID mapUUID))) (\<lambda>n.
     if n = 0 then raiseE ErrAPIKeyNotFound
     else modifyE (\<lambda>s. s\<lparr>apiKeyScopeCache := cache_invalidate (apiKeyScopeCache s) (keyID, mapUUID)\<rparr>))"

definition delete_scopes :: "uuid \<Rightarrow> time \<Rightarrow> db \<Rightarrow> gerror + unit \<times> db" where
  "delete_scopes keyID now d =
     Inr ((), d\<lparr>t_api_key_scopes := sql_delete (\<lambda>c. sc_APIKeyID c = keyID) (t_api_key_scopes d)\<rparr>)"

definition ClearAPIKeyScope :: "string \<Rightarrow> uuid \<Rightarrow> ('w, unit) sto" where
  "ClearAPIKeyScope username keyID =
     bindE (mapErrE (Wrap ''clear api key scope'') (transaction
        (bindE (exec (update_api_keys (live_key_of keyID username) (\<lambda>_ k. k\<lparr>k_Scoped := False\<rparr>))) (\<lambda>n.
           if n = 0 then raiseE ErrAPIKeyNotFound else exec (delete_scopes keyID)))))
       (\<lambda>_. modifyE (\<lambda>s. s\<lparr>apiKeyCache := cache_invalidate (apiKeyCache s) keyID\<rparr>))"

definition scopes_of :: "string \<Rightarrow> uuid \<Rightarrow> db \<Rightarrow> APIKeyScopeRecord list" where
  "scopes_of username keyID d =
     map (\<lambda>c. \<lparr>asr_MapUUID = sc_MapUUID c, asr_Versions = sc_Versions c, asr_GrantedAt = sc_GrantedAt c\<rparr>)
       (order_asc sc_GrantedAt (filter (\<lambda>c. sc_APIKeyID c = keyID \<and>
          sql_exists (\<lambda>k. k_ID k = sc_APIKeyID c \<and> k_Username k = username) (t_api_keys d)) (t_api_key_scopes d)))"

definition ListAPIKeyScopes :: "string \<Rightarrow> uuid \<Rightarrow> ('w, APIKeyScopeRecord list) sto" where
  "ListAPIKeyScopes username keyID =
     mapErrE (Wrap ''list api key scopes'') (query (\<lambda>d. Inr (scopes_of username keyID d)))"

definition no_scope_entry :: apiKeyScopeEntry where
  "no_scope_entry = \<lparr>se_inScope = False, se_versions = []\<rparr>"

definition cache_scope :: "uuid \<Rightarrow> uuid \<Rightarrow> apiKeyScopeEntry \<Rightarrow> ('w, bool \<times> apiKeyScopeEntry) sto" where
  "cache_scope keyID mapID entry =
     bindE (modifyE (\<lambda>s. s\<lparr>apiKeyScopeCache := cache_set (clock s) (apiKeyScopeCache s) (keyID, mapID) entry\<rparr>))
       (\<lambda>_. okE (True, entry))"

definition resolveAPIKeyMapScope :: "uuid \<Rightarrow> uuid \<Rightarrow> ('w, bool \<times> apiKeyScopeEntry) sto" where
  "resolveAPIKeyMapScope keyID mapID =
     bindE (apiKeyScopedFlag keyID) (\<lambda>scoped.
     if \<not> scoped then okE (False, no_scope_entry) else
     bindE (getE (\<lambda>s. cache_get (clock s) (apiKeyScopeCache s) (keyID, mapID))) (\<lambda>cached.
       case cached of
         Some e \<Rightarrow> okE (True, e)
       | None \<Rightarrow>
           tryE (query (\<lambda>d. case sql_take (\<lambda>c. sc_APIKeyID c = keyID \<and> sc_MapUUID c = mapID) (t_api_key_scopes d) of
                              None \<Rightarrow> Inl ErrNoRows | Some c \<Rightarrow> Inr (sc_Versions c)))
             (\<lambda>e. if errors_Is e ErrNoRows then cache_scope keyID mapID no_scope_entry
                  else raiseE (Wrap ''resolve api key map scope'' e))
             (\<lambda>versions. cache_scope keyID mapID
                \<lparr>se_inScope = True, se_versions = (case versions of None \<Rightarrow> [] | Some vs \<Rightarrow> vs)\<rparr>)))"

definition APIKeyCanAccessMap :: "uuid \<Rightarrow> uuid \<Rightarrow> ('w, bool) sto" where
  "APIKeyCanAccessMap keyID mapID =
     bindE (resolveAPIKeyMapScope keyID mapID) (\<lambda>(scoped, entry). okE (\<not> scoped \<or> se_inScope entry))"

definition APIKeyCanAccessMapVersion :: "uuid \<Rightarrow> uuid \<Rightarrow> string \<Rightarrow> ('w, bool) sto" where
  "APIKeyCanAccessMapVersion keyID mapID version =
     bindE (resolveAPIKeyMapScope keyID mapID) (\<lambda>(scoped, entry).
       if \<not> scoped then okE True
       else if \<not> se_inScope entry then okE False
       else if se_versions entry = [] then okE True
       else okE (version \<in> set (se_versions entry)))"

text \<open>\<open>None\<close> when the listing is not restricted.\<close>

definition APIKeyScopedVersions :: "uuid \<Rightarrow> uuid \<Rightarrow> ('w, string list option) sto" where
  "APIKeyScopedVersions keyID mapID =
     bindE (resolveAPIKeyMapScope keyID mapID) (\<lambda>(scoped, entry).
       if \<not> scoped \<or> \<not> se_inScope entry \<or> se_versions entry = [] then okE None
       else okE (Some (se_versions entry)))"

section \<open>Refresh tokens\<close>

text \<open>\<open>H\<close> is \<open>hashRefreshToken\<close> (SHA3-256), \<open>tok\<close> the value of \<open>newRefreshTokenValue\<close> or its error.\<close>

definition insert_refresh_token :: "refreshTokenModel \<Rightarrow> time \<Rightarrow> db \<Rightarrow> gerror + unit \<times> db" where
  "insert_refresh_token rt now d =
     (if sql_exists (\<lambda>t. rt_TokenHash t = rt_TokenHash rt) (t_refresh_tokens d) then Inl unique_violation
      else if \<not> sql_exists (\<lambda>u. u_Username u = rt_Username rt) (t_users d) then Inl foreign_key_violation
      else Inr ((), d\<lparr>t_refresh_tokens := t_refresh_tokens d @ [rt\<lparr>rt_CreatedAt := now\<rparr>]\<rparr>))"

definition new_refresh_token :: "string \<Rightarrow> string \<Rightarrow> time \<Rightarrow> refreshTokenModel" where
  "new_refresh_token hash username expiresAt =
     \<lparr>rt_TokenHash = hash, rt_Username = username, rt_ExpiresAt = expiresAt, rt_CreatedAt = 0, rt_RevokedAt = None\<rparr>"

definition CreateRefreshToken ::
  "(string \<Rightarrow> string) \<Rightarrow> gerror + string \<Rightarrow> string \<Rightarrow> time \<Rightarrow> ('w, string \<times> time) sto" where
  "CreateRefreshToken H tok username ttl =
     bindE (pureE tok) (\<lambda>token.
     bindE (getE (\<lambda>s. clock s + ttl)) (\<lambda>expiresAt.
     bindE (mapErrE (Wrap ''create refresh token'')
              (exec (insert_refresh_token (new_refresh_token (H token) username expiresAt)))) (\<lambda>_.
     okE (token, expiresAt))))"

definition revoke_refresh_token :: "string \<Rightarrow> time \<Rightarrow> db \<Rightarrow> gerror + unit \<times> db" where
  "revoke_refresh_token hash now d =
     Inr ((), d\<lparr>t_refresh_tokens := sql_update (\<lambda>t. rt_TokenHash t = hash)
                  (\<lambda>t. t\<lparr>rt_RevokedAt := Some now\<rparr>) (t_refresh_tokens d)\<rparr>)"

definition select_live_token :: "string \<Rightarrow> db \<Rightarrow> gerror + refreshTokenModel" where
  "select_live_token hash d =
     (case sql_take (\<lambda>t. rt_TokenHash t = hash \<and> rt_RevokedAt t = None) (t_refresh_tokens d) of
        None \<Rightarrow> Inl ErrNoRows | Some t \<Rightarrow> Inr t)"

definition rotate_tx ::
  "(string \<Rightarrow> string) \<Rightarrow> gerror + string \<Rightarrow> string \<Rightarrow> time \<Rightarrow> ('w, string \<times> string \<times> time) sto" where
  "rotate_tx H tok oldHash ttl =
     tryE (query (select_live_token oldHash))
       (\<lambda>e. if errors_Is e ErrNoRows then raiseE ErrInvalidRefreshToken
            else raiseE (Wrap ''look up refresh token'' e))
       (\<lambda>old.
          bindE (getE clock) (\<lambda>now.
          if now > rt_ExpiresAt old then raiseE ErrInvalidRefreshToken else
          bindE (mapErrE (Wrap ''revoke refresh token'') (exec (revoke_refresh_token oldHash))) (\<lambda>_.
          bindE (pureE tok) (\<lambda>newToken.
          bindE (getE (\<lambda>s. clock s + ttl)) (\<lambda>expiresAt.
          bindE (mapErrE (Wrap ''insert rotated refresh token'')
                   (exec (insert_refresh_token (new_refresh_token (H newToken) (rt_Username old) expiresAt)))) (\<lambda>_.
          okE (rt_Username old, newToken, expiresAt)))))))"

definition RotateRefreshToken ::
  "(string \<Rightarrow> string) \<Rightarrow> gerror + string \<Rightarrow> string \<Rightarrow> time \<Rightarrow> ('w, string \<times> string \<times> time) sto" where
  "RotateRefreshToken H tok oldToken ttl =
     tryE (transaction (rotate_tx H tok (H oldToken) ttl))
       (\<lambda>e. if errors_Is e ErrInvalidRefreshToken then raiseE ErrInvalidRefreshToken else raiseE e)
       okE"

section \<open>Invariants\<close>

lemma stmt_wf_insert_api_key [pres]: "stmt_wf (insert_api_key k)"
  by (rule stmt_wf_caseI) (simp add: insert_api_key_def Let_def wf_simps)

lemma stmt_wf_update_api_keys [pres]:
  assumes "\<And>now k. k_ID (f now k) = k_ID k" and "\<And>now k. k_Username (f now k) = k_Username k"
  shows "stmt_wf (update_api_keys p f)"
  using assms by (intro stmt_wf_caseI) (simp add: update_api_keys_def wf_simps)

lemma set_scope_key [simp]:
  "sc_APIKeyID (set_scope vs now c) = sc_APIKeyID c" "sc_MapUUID (set_scope vs now c) = sc_MapUUID c"
  "sc_APIKeyID (if b then set_scope vs now c else c) = sc_APIKeyID c"
  "sc_MapUUID (if b then set_scope vs now c else c) = sc_MapUUID c"
  by (simp_all add: set_scope_def)

lemma stmt_wf_upsert_scope [pres]: "stmt_wf (upsert_scope keyID mapUUID versions)"
  by (rule stmt_wf_caseI) (simp add: upsert_scope_def wf_simps)

lemma stmt_wf_delete_scope [pres]: "stmt_wf (delete_scope username keyID mapUUID)"
  by (rule stmt_wf_caseI) (simp add: delete_scope_def Let_def wf_simps distinct_map_delete)

lemma stmt_wf_delete_scopes [pres]: "stmt_wf (delete_scopes keyID)"
  by (rule stmt_wf_caseI) (simp add: delete_scopes_def wf_simps distinct_map_delete)

lemma stmt_wf_insert_refresh_token [pres]: "stmt_wf (insert_refresh_token rt)"
  by (rule stmt_wf_caseI) (simp add: insert_refresh_token_def wf_simps)

lemma stmt_wf_revoke_refresh_token [pres]: "stmt_wf (revoke_refresh_token hash)"
  by (rule stmt_wf_caseI) (simp add: revoke_refresh_token_def wf_simps)

lemma CreateAPIKey_wf [pres]: "preserves store_wf (CreateAPIKey pk uid username name createdBy pem)"
  unfolding CreateAPIKey_def by (intro pres)

lemma ListAPIKeys_wf [pres]: "preserves store_wf (ListAPIKeys username)"
  unfolding ListAPIKeys_def by (intro pres) simp_all

lemma RevokeAPIKey_wf [pres]: "preserves store_wf (RevokeAPIKey username i)"
  unfolding RevokeAPIKey_def by (intro pres) simp_all

lemma TouchAPIKeyLastUsed_wf [pres]: "preserves store_wf (TouchAPIKeyLastUsed i)"
  unfolding TouchAPIKeyLastUsed_def by (intro pres) simp_all

lemma ResolveAPIKeySigningKey_wf [pres]: "preserves store_wf (ResolveAPIKeySigningKey i)"
  unfolding ResolveAPIKeySigningKey_def by (intro pres) simp_all

lemma apiKeyScopedFlag_wf [pres]: "preserves store_wf (apiKeyScopedFlag i)"
  unfolding apiKeyScopedFlag_def by (intro pres) simp_all

lemma SetAPIKeyScope_wf [pres]: "preserves store_wf (SetAPIKeyScope username k m vs)"
  unfolding SetAPIKeyScope_def by (intro pres) simp_all

lemma DeleteAPIKeyScope_wf [pres]: "preserves store_wf (DeleteAPIKeyScope username k m)"
  unfolding DeleteAPIKeyScope_def by (intro pres) simp_all

lemma ClearAPIKeyScope_wf [pres]: "preserves store_wf (ClearAPIKeyScope username k)"
  unfolding ClearAPIKeyScope_def by (intro pres) simp_all

lemma ListAPIKeyScopes_wf [pres]: "preserves store_wf (ListAPIKeyScopes username k)"
  unfolding ListAPIKeyScopes_def by (intro pres) simp_all

lemma resolveAPIKeyMapScope_wf [pres]: "preserves store_wf (resolveAPIKeyMapScope k m)"
  unfolding resolveAPIKeyMapScope_def cache_scope_def by (intro pres) simp_all

lemma APIKeyCanAccessMap_wf [pres]: "preserves store_wf (APIKeyCanAccessMap k m)"
  unfolding APIKeyCanAccessMap_def by (intro pres)

lemma APIKeyCanAccessMapVersion_wf [pres]: "preserves store_wf (APIKeyCanAccessMapVersion k m v)"
  unfolding APIKeyCanAccessMapVersion_def by (intro pres)

lemma APIKeyScopedVersions_wf [pres]: "preserves store_wf (APIKeyScopedVersions k m)"
  unfolding APIKeyScopedVersions_def by (intro pres)

lemma CreateRefreshToken_wf [pres]: "preserves store_wf (CreateRefreshToken H tok username ttl)"
  unfolding CreateRefreshToken_def by (intro pres)

lemma RotateRefreshToken_wf [pres]: "preserves store_wf (RotateRefreshToken H tok old ttl)"
  unfolding RotateRefreshToken_def rotate_tx_def by (intro pres) simp_all

end
