(* ===== verification/StoreSync.thy ===== *)
theory StoreSync
  imports StoreMaps
begin

text \<open>
  The configuration of the remotes to mirror (\<open>internal/store/sync_remotes.go\<close>, \<open>sync_remote_maps.go\<close>)
  and the audit log (\<open>internal/store/audit_logs.go\<close>).
\<close>

section \<open>Remotes\<close>

definition insert_remote :: "SyncRemote \<Rightarrow> time \<Rightarrow> db \<Rightarrow> gerror + SyncRemote \<times> db" where
  "insert_remote r now d =
     (let r' = r\<lparr>sr_CreatedAt := now, sr_UpdatedAt := now\<rparr>
      in if sql_exists (\<lambda>x. sr_ID x = sr_ID r) (t_sync_remotes d) then Inl unique_violation
         else Inr (r', d\<lparr>t_sync_remotes := t_sync_remotes d @ [r']\<rparr>))"

text \<open>The fields an administrator sets, in the order of the parameters of \<open>CreateSyncRemote\<close>.\<close>

record remoteConfig =
  rc_Name :: string
  rc_BaseURL :: string
  rc_RemoteAPIKeyID :: uuid
  rc_PollIntervalSec :: int
  rc_Enabled :: bool
  rc_SyncAllMaps :: bool
  rc_SyncNewMaps :: bool
  rc_SyncGeoObjects :: bool

definition set_remote_config :: "remoteConfig \<Rightarrow> SyncRemote \<Rightarrow> SyncRemote" where
  "set_remote_config c r = r\<lparr>sr_Name := rc_Name c, sr_BaseURL := rc_BaseURL c,
     sr_RemoteAPIKeyID := rc_RemoteAPIKeyID c, sr_PollIntervalSec := rc_PollIntervalSec c,
     sr_Enabled := rc_Enabled c, sr_SyncAllMaps := rc_SyncAllMaps c, sr_SyncNewMaps := rc_SyncNewMaps c,
     sr_SyncGeoObjects := rc_SyncGeoObjects c\<rparr>"

definition CreateSyncRemote :: "uuid \<Rightarrow> remoteConfig \<Rightarrow> string \<Rightarrow> ('w, SyncRemote) sto" where
  "CreateSyncRemote uid c createdBy =
     mapErrE (Wrap ''create sync remote'') (exec (insert_remote (set_remote_config c
       \<lparr>sr_ID = uid, sr_Name = [], sr_BaseURL = [], sr_RemoteAPIKeyID = 0, sr_PollIntervalSec = 0,
        sr_Enabled = False, sr_SyncAllMaps = False, sr_SyncNewMaps = False, sr_SyncGeoObjects = False,
        sr_LastSyncAt = None, sr_LastSyncStatus = [], sr_LastSyncError = [], sr_CreatedAt = 0,
        sr_UpdatedAt = 0, sr_CreatedBy = createdBy, sr_UpdatedBy = createdBy\<rparr>)))"

definition ListSyncRemotes :: "('w, SyncRemote list) sto" where
  "ListSyncRemotes = mapErrE (Wrap ''list sync remotes'')
     (query (\<lambda>d. Inr (order_asc sr_CreatedAt (t_sync_remotes d))))"

definition select_remote :: "uuid \<Rightarrow> db \<Rightarrow> gerror + SyncRemote" where
  "select_remote i d =
     (case sql_take (\<lambda>r. sr_ID r = i) (t_sync_remotes d) of None \<Rightarrow> Inl ErrRecordNotFound | Some r \<Rightarrow> Inr r)"

definition GetSyncRemote :: "uuid \<Rightarrow> ('w, SyncRemote) sto" where
  "GetSyncRemote i = tryE (query (select_remote i))
     (\<lambda>e. if errors_Is e ErrRecordNotFound then raiseE ErrSyncRemoteNotFound else raiseE (Wrap ''get sync remote'' e))
     okE"

definition update_remote :: "uuid \<Rightarrow> (time \<Rightarrow> SyncRemote \<Rightarrow> SyncRemote) \<Rightarrow> time \<Rightarrow> db \<Rightarrow> gerror + nat \<times> db" where
  "update_remote i f now d =
     Inr (sql_count (\<lambda>r. sr_ID r = i) (t_sync_remotes d),
          d\<lparr>t_sync_remotes := sql_update (\<lambda>r. sr_ID r = i) (f now) (t_sync_remotes d)\<rparr>)"

definition UpdateSyncRemote :: "uuid \<Rightarrow> remoteConfig \<Rightarrow> string \<Rightarrow> ('w, SyncRemote) sto" where
  "UpdateSyncRemote i c updatedBy =
     bindE (mapErrE (Wrap ''update sync remote'') (exec (update_remote i
       (\<lambda>now r. (set_remote_config c r)\<lparr>sr_UpdatedBy := updatedBy, sr_UpdatedAt := now\<rparr>)))) (\<lambda>n.
     if n = 0 then raiseE ErrSyncRemoteNotFound else
     mapErrE (Wrap ''update sync remote'') (query (select_remote i)))"

text \<open>\<open>maps.sync_remote_id\<close> is set to NULL, the selection is deleted.\<close>

definition delete_remote :: "uuid \<Rightarrow> time \<Rightarrow> db \<Rightarrow> gerror + nat \<times> db" where
  "delete_remote i now d =
     Inr (sql_count (\<lambda>r. sr_ID r = i) (t_sync_remotes d),
          d\<lparr>t_sync_remotes := sql_delete (\<lambda>r. sr_ID r = i) (t_sync_remotes d),
            t_maps := sql_update (\<lambda>m. m_SyncRemoteID m = Some i \<and> sql_exists (\<lambda>r. sr_ID r = i) (t_sync_remotes d))
                        (\<lambda>m. m\<lparr>m_SyncRemoteID := None\<rparr>) (t_maps d),
            t_sync_remote_maps := sql_delete (\<lambda>r. srm_RemoteID r = i \<and>
                        sql_exists (\<lambda>r. sr_ID r = i) (t_sync_remotes d)) (t_sync_remote_maps d)\<rparr>)"

definition DeleteSyncRemote :: "uuid \<Rightarrow> ('w, unit) sto" where
  "DeleteSyncRemote i =
     bindE (mapErrE (Wrap ''delete sync remote'') (exec (delete_remote i))) (\<lambda>n.
     if n = 0 then raiseE ErrSyncRemoteNotFound else okE ())"

text \<open>GORM also sets \<open>updated_at\<close> on an update that does not name it.\<close>

definition SetSyncRemoteStatus :: "uuid \<Rightarrow> string \<Rightarrow> string \<Rightarrow> time \<Rightarrow> ('w, unit) sto" where
  "SetSyncRemoteStatus i status errMsg t =
     bindE (mapErrE (Wrap ''set sync remote status'') (exec (update_remote i
       (\<lambda>now r. r\<lparr>sr_LastSyncAt := Some t, sr_LastSyncStatus := status, sr_LastSyncError := errMsg,
                 sr_UpdatedAt := now\<rparr>)))) (\<lambda>_. okE ())"

definition ListSyncRemoteSelectedMaps :: "uuid \<Rightarrow> ('w, uuid list) sto" where
  "ListSyncRemoteSelectedMaps remoteID =
     mapErrE (Wrap ''list sync remote selected maps'')
       (query (\<lambda>d. Inr (sort (map srm_MapUUID (filter (\<lambda>r. srm_RemoteID r = remoteID) (t_sync_remote_maps d))))))"

definition clear_selection :: "uuid \<Rightarrow> time \<Rightarrow> db \<Rightarrow> gerror + unit \<times> db" where
  "clear_selection remoteID now d =
     Inr ((), d\<lparr>t_sync_remote_maps := sql_delete (\<lambda>r. srm_RemoteID r = remoteID) (t_sync_remote_maps d)\<rparr>)"

definition insert_selected :: "uuid \<Rightarrow> uuid \<Rightarrow> time \<Rightarrow> db \<Rightarrow> gerror + unit \<times> db" where
  "insert_selected remoteID mapUUID now d =
     (if sql_exists (\<lambda>r. srm_RemoteID r = remoteID \<and> srm_MapUUID r = mapUUID) (t_sync_remote_maps d) then Inl unique_violation
      else if \<not> sql_exists (\<lambda>r. sr_ID r = remoteID) (t_sync_remotes d) then Inl foreign_key_violation
      else Inr ((), d\<lparr>t_sync_remote_maps := t_sync_remote_maps d @
             [\<lparr>srm_RemoteID = remoteID, srm_MapUUID = mapUUID, srm_CreatedAt = now\<rparr>]\<rparr>))"

definition SetSyncRemoteSelectedMaps :: "uuid \<Rightarrow> uuid list \<Rightarrow> ('w, unit) sto" where
  "SetSyncRemoteSelectedMaps remoteID mapUUIDs =
     mapErrE (Wrap ''update selected maps'') (transaction
       (bindE (mapErrE (Wrap ''clear selected maps'') (exec (clear_selection remoteID))) (\<lambda>_.
          forE mapUUIDs (\<lambda>i. mapErrE (Wrap ''insert selected map'') (exec (insert_selected remoteID i))))))"

section \<open>The audit log\<close>

definition defaultAuditLogLimit :: int where "defaultAuditLogLimit = 100"
definition maxAuditLogLimit :: int where "maxAuditLogLimit = 500"

record AuditLogFilter =
  af_Actor :: string
  af_Action :: string
  af_EntityType :: string
  af_EntityID :: string
  af_Since :: "time option"
  af_Until :: "time option"
  af_Limit :: int
  af_Offset :: int

definition AuditLogFilter_Scope :: "AuditLogFilter \<Rightarrow> AuditLogEntry \<Rightarrow> bool" where
  "AuditLogFilter_Scope f e \<longleftrightarrow>
     eq_filter (af_Actor f) (al_Actor e) \<and> eq_filter (af_Action f) (al_Action e) \<and>
     eq_filter (af_EntityType f) (al_EntityType e) \<and> eq_filter (af_EntityID f) (al_EntityID e) \<and>
     (case af_Since f of None \<Rightarrow> True | Some t \<Rightarrow> al_OccurredAt e \<ge> t) \<and>
     (case af_Until f of None \<Rightarrow> True | Some t \<Rightarrow> al_OccurredAt e \<le> t)"

definition insert_audit :: "string \<Rightarrow> string \<Rightarrow> string \<Rightarrow> string \<Rightarrow> string \<Rightarrow> time \<Rightarrow> db \<Rightarrow> gerror + unit \<times> db" where
  "insert_audit actor action entityType entityID detail now d =
     Inr ((), d\<lparr>t_audit_logs := t_audit_logs d @ [\<lparr>al_ID = seq_audit d, al_OccurredAt = now, al_Actor = actor,
                  al_Action = action, al_EntityType = entityType, al_EntityID = entityID, al_Detail = detail\<rparr>],
                seq_audit := seq_audit d + 1\<rparr>)"

definition RecordAuditLog :: "string \<Rightarrow> string \<Rightarrow> string \<Rightarrow> string \<Rightarrow> string \<Rightarrow> ('w, unit) sto" where
  "RecordAuditLog actor action entityType entityID detail =
     mapErrE (Wrap ''record audit log'') (exec (insert_audit actor action entityType entityID detail))"

definition effective_limit :: "int \<Rightarrow> int" where
  "effective_limit l = min (if l \<le> 0 then defaultAuditLogLimit else l) maxAuditLogLimit"

definition select_audit :: "AuditLogFilter \<Rightarrow> db \<Rightarrow> AuditLogEntry list" where
  "select_audit f d =
     take (nat (effective_limit (af_Limit f)))
       (drop (nat (max (af_Offset f) 0))
         (order_desc al_OccurredAt (order_desc al_ID (filter (AuditLogFilter_Scope f) (t_audit_logs d)))))"

definition ListAuditLogs :: "AuditLogFilter \<Rightarrow> ('w, AuditLogEntry list) sto" where
  "ListAuditLogs f = mapErrE (Wrap ''list audit logs'') (query (\<lambda>d. Inr (select_audit f d)))"

section \<open>Invariants\<close>

lemma stmt_wf_insert_remote [pres]: "stmt_wf (insert_remote r)"
  by (rule stmt_wf_caseI) (simp add: insert_remote_def Let_def wf_simps)

lemma set_remote_config_key [simp]: "sr_ID (set_remote_config c r) = sr_ID r"
  by (simp add: set_remote_config_def)

lemma stmt_wf_update_remote [pres]:
  assumes "\<And>now r. sr_ID (f now r) = sr_ID r"
  shows "stmt_wf (update_remote i f)"
  using assms by (intro stmt_wf_caseI) (simp add: update_remote_def wf_simps)

lemma stmt_wf_delete_remote [pres]: "stmt_wf (delete_remote i)"
proof (rule stmt_wf_caseI)
  fix now d assume wf: "db_wf d"
  show "case delete_remote i now d of Inl e \<Rightarrow> True | Inr (x, d') \<Rightarrow> db_wf d'"
  proof (cases "i \<in> sr_ID ` set (t_sync_remotes d)")
    case True
    with wf show ?thesis
      by (auto simp: delete_remote_def wf_simps distinct_map_delete)
  next
    case False
    then have "sql_delete (\<lambda>r. sr_ID r = i) (t_sync_remotes d) = t_sync_remotes d"
      by (auto intro!: sql_delete_none)
    with wf False show ?thesis
      by (simp add: delete_remote_def sql_update_none sql_delete_none)
  qed
qed

lemma stmt_wf_clear_selection [pres]: "stmt_wf (clear_selection i)"
  by (rule stmt_wf_caseI) (simp add: clear_selection_def wf_simps distinct_map_delete)

lemma stmt_wf_insert_selected [pres]: "stmt_wf (insert_selected r i)"
  by (rule stmt_wf_caseI) (simp add: insert_selected_def wf_simps)

lemma stmt_wf_insert_audit [pres]: "stmt_wf (insert_audit a b c e f)"
proof (rule stmt_wf_caseI)
  fix now d assume wf: "db_wf d"
  then have "\<forall>a\<in>set (t_audit_logs d). al_ID a < seq_audit d" by (simp add: wf_simps)
  then have "seq_audit d \<notin> al_ID ` set (t_audit_logs d)" "\<forall>a\<in>set (t_audit_logs d). al_ID a < seq_audit d + 1"
    by (auto simp: less_le)
  with wf show "case insert_audit a b c e f now d of Inl e \<Rightarrow> True | Inr (x, d') \<Rightarrow> db_wf d'"
    by (simp add: insert_audit_def wf_simps)
qed

lemma CreateSyncRemote_wf [pres]: "preserves store_wf (CreateSyncRemote uid c createdBy)"
  unfolding CreateSyncRemote_def by (intro pres)

lemma ListSyncRemotes_wf [pres]: "preserves store_wf ListSyncRemotes"
  unfolding ListSyncRemotes_def by (intro pres) simp_all

lemma GetSyncRemote_wf [pres]: "preserves store_wf (GetSyncRemote i)"
  unfolding GetSyncRemote_def by (intro pres) simp_all

lemma UpdateSyncRemote_wf [pres]: "preserves store_wf (UpdateSyncRemote i c updatedBy)"
  unfolding UpdateSyncRemote_def by (intro pres) simp_all

lemma DeleteSyncRemote_wf [pres]: "preserves store_wf (DeleteSyncRemote i)"
  unfolding DeleteSyncRemote_def by (intro pres)

lemma SetSyncRemoteStatus_wf [pres]: "preserves store_wf (SetSyncRemoteStatus i st e t)"
  unfolding SetSyncRemoteStatus_def by (intro pres) simp_all

lemma ListSyncRemoteSelectedMaps_wf [pres]: "preserves store_wf (ListSyncRemoteSelectedMaps i)"
  unfolding ListSyncRemoteSelectedMaps_def by (intro pres) simp_all

lemma SetSyncRemoteSelectedMaps_wf [pres]: "preserves store_wf (SetSyncRemoteSelectedMaps i ms)"
  unfolding SetSyncRemoteSelectedMaps_def by (intro pres)

lemma RecordAuditLog_wf [pres]: "preserves store_wf (RecordAuditLog a b c e f)"
  unfolding RecordAuditLog_def by (intro pres)

lemma ListAuditLogs_wf [pres]: "preserves store_wf (ListAuditLogs f)"
  unfolding ListAuditLogs_def by (intro pres) simp_all

end
