(* ===== verification/HttpUtil.thy ===== *)
theory HttpUtil
  imports StorePerms StoreGroups StoreContent StoreKeys StoreSync
begin

text \<open>
  The HTTP vocabulary of the handlers: requests, responses and the helpers of \<open>internal/httputil\<close>,
  with the address parsing of Go's \<open>net\<close> package behind \<open>ClientIP\<close>, \<open>IPInSubnets\<close> and
  \<open>parseSubnets\<close> (\<open>cmd/tileserve-go/main.go\<close>).
\<close>

section \<open>Addresses\<close>

text \<open>\<open>net.IP\<close>: its bytes; \<open>ParseIP\<close> always yields sixteen.\<close>

type_synonym ip = "nat list"

definition v4_prefix :: "nat list" where
  "v4_prefix = [0,0,0,0,0,0,0,0,0,0,255,255]"

definition To4 :: "ip \<Rightarrow> ip option" where
  "To4 p = (if length p = 4 then Some p
            else if length p = 16 \<and> take 12 p = v4_prefix then Some (drop 12 p) else None)"

definition v4_field :: "string \<Rightarrow> nat option" where
  "v4_field f =
     (if all_digits f \<and> length f \<le> 3 \<and> (length f = 1 \<or> hd f \<noteq> CHR ''0'') \<and> digits_val f \<le> 255
      then Some (nat (digits_val f)) else None)"

definition parse_v4 :: "string \<Rightarrow> ip option" where
  "parse_v4 s = (let fs = map v4_field (Split s (CHR ''.''))
                 in if length fs = 4 \<and> None \<notin> set fs then Some (map the fs) else None)"

definition hex_val :: "char \<Rightarrow> nat option" where
  "hex_val c = (let n = of_char c :: nat in
     if 48 \<le> n \<and> n \<le> 57 then Some (n - 48)
     else if 97 \<le> n \<and> n \<le> 102 then Some (n - 87)
     else if 65 \<le> n \<and> n \<le> 70 then Some (n - 55) else None)"

definition is_hex :: "char \<Rightarrow> bool" where "is_hex c \<longleftrightarrow> hex_val c \<noteq> None"

definition hex_field :: "string \<Rightarrow> nat" where
  "hex_field s = foldl (\<lambda>n c. 16 * n + the (hex_val c)) 0 s"

text \<open>
  The loop of \<open>netip.parseIPv6\<close>: the bytes so far, where the \<open>::\<close> was seen, the text left; the result is
  the bytes and the position of the \<open>::\<close>.
\<close>

lemma dropWhile_tl_less: "dropWhile p s = c # r \<Longrightarrow> length r < length s"
  using length_dropWhile_le [of p s] by simp

function parse_v6_loop :: "ip \<Rightarrow> nat option \<Rightarrow> string \<Rightarrow> (ip \<times> nat option) option" where
  "parse_v6_loop acc ell s =
     (if length acc \<ge> 16 then (if s = [] then Some (acc, ell) else None)
      else
        let f = takeWhile is_hex s; r = dropWhile is_hex s
        in if f = [] \<or> length f > 4 then None
           else if r \<noteq> [] \<and> hd r = CHR ''.'' then
             (if ell = None \<and> length acc \<noteq> 12 \<or> length acc + 4 > 16 then None
              else case parse_v4 s of None \<Rightarrow> None | Some v4 \<Rightarrow> Some (acc @ v4, ell))
           else
             let acc' = acc @ [hex_field f div 256, hex_field f mod 256]
             in (case r of
                   [] \<Rightarrow> Some (acc', ell)
                 | c # r1 \<Rightarrow>
                     if c \<noteq> CHR '':'' \<or> r1 = [] then None
                     else if hd r1 = CHR '':'' then
                       (if ell \<noteq> None then None
                        else if tl r1 = [] then Some (acc', Some (length acc'))
                        else parse_v6_loop acc' (Some (length acc')) (tl r1))
                     else parse_v6_loop acc' ell r1))"
  by pat_completeness auto
termination
proof (relation "measure (\<lambda>(acc, ell, s). length s)", goal_cases)
  case (2 acc ell s f r acc' c r1)
  then have "dropWhile is_hex s = c # r1" by simp
  then have "length r1 < length s" by (rule dropWhile_tl_less)
  then show ?case by simp
next
  case (3 acc ell s f r acc' c r1)
  then have "dropWhile is_hex s = c # r1" by simp
  then have "length r1 < length s" by (rule dropWhile_tl_less)
  then show ?case by simp
qed simp

definition parse_v6 :: "string \<Rightarrow> ip option" where
  "parse_v6 s =
     (let (ell, s') = (if HasPrefix s ''::'' then (Some 0, drop 2 s) else (None, s))
      in if ell = Some 0 \<and> s' = [] then Some (replicate 16 0)
         else case parse_v6_loop [] ell s' of
           None \<Rightarrow> None
         | Some (acc, None) \<Rightarrow> if length acc = 16 then Some acc else None
         | Some (acc, Some e) \<Rightarrow>
             if length acc < 16 then Some (take e acc @ replicate (16 - length acc) 0 @ drop e acc) else None)"

definition ParseIP :: "string \<Rightarrow> ip option" where
  "ParseIP s =
     (case dropWhile (\<lambda>c. c \<noteq> CHR ''.'' \<and> c \<noteq> CHR '':'' \<and> c \<noteq> CHR ''%'') s of
        [] \<Rightarrow> None
      | c # r \<Rightarrow>
          if c = CHR ''.'' then map_option (\<lambda>b. v4_prefix @ b) (parse_v4 s)
          else if c = CHR '':'' \<and> CHR ''%'' \<notin> set s then parse_v6 s
          else None)"

text \<open>\<open>net.IPNet\<close>: the network number and its mask, both four or both sixteen bytes.\<close>

record ipnet =
  net_IP :: ip
  net_Mask :: "nat list"

definition mask_byte :: "nat \<Rightarrow> nat \<Rightarrow> nat" where
  "mask_byte ones i = (if 8 * (i + 1) \<le> ones then 255 else if ones \<le> 8 * i then 0 else 256 - 2 ^ (8 - (ones - 8 * i)))"

definition CIDRMask :: "nat \<Rightarrow> nat \<Rightarrow> nat list" where
  "CIDRMask ones n = map (mask_byte ones) [0..<n]"

definition byte_and :: "nat \<Rightarrow> nat \<Rightarrow> nat" where
  "byte_and a m = and a m"

definition ParseCIDR :: "string \<Rightarrow> ipnet option" where
  "ParseCIDR s =
     (case Cut s (CHR ''/'') of
        (addr, ones, found) \<Rightarrow>
          if \<not> found \<or> \<not> all_digits ones then None
          else
            (case ParseIP addr of
               None \<Rightarrow> None
             | Some p \<Rightarrow>
                 (case (if CHR '':'' \<in> set addr then None else To4 p) of
                    Some p4 \<Rightarrow>
                      if digits_val ones > 32 then None
                      else let m = CIDRMask (nat (digits_val ones)) 4
                           in Some \<lparr>net_IP = map2 byte_and p4 m, net_Mask = m\<rparr>
                  | None \<Rightarrow>
                      if digits_val ones > 128 then None
                      else let m = CIDRMask (nat (digits_val ones)) 16
                           in Some \<lparr>net_IP = map2 byte_and p m, net_Mask = m\<rparr>)))"

text \<open>\<open>networkNumberAndMask\<close> first reduces a sixteen-byte network that holds an IPv4 address.\<close>

definition net_reduced :: "ipnet \<Rightarrow> (ip \<times> nat list) option" where
  "net_reduced n =
     (case To4 (net_IP n) of
        Some p4 \<Rightarrow>
          if length (net_Mask n) = 4 then Some (p4, net_Mask n)
          else if length (net_Mask n) = 16 then Some (p4, drop 12 (net_Mask n)) else None
      | None \<Rightarrow>
          if length (net_IP n) = 16 \<and> length (net_Mask n) = 16 then Some (net_IP n, net_Mask n) else None)"

definition IPNet_Contains :: "ipnet \<Rightarrow> ip \<Rightarrow> bool" where
  "IPNet_Contains n p =
     (case net_reduced n of
        None \<Rightarrow> False
      | Some (nn, m) \<Rightarrow>
          let q = (case To4 p of Some p4 \<Rightarrow> p4 | None \<Rightarrow> p)
          in length q = length nn \<and> map2 byte_and nn m = map2 byte_and q m)"

definition IPInSubnets :: "ip option \<Rightarrow> ipnet list \<Rightarrow> bool" where
  "IPInSubnets p subnets =
     (if subnets = [] then True
      else case p of None \<Rightarrow> False | Some a \<Rightarrow> list_ex (\<lambda>n. IPNet_Contains n a) subnets)"

text \<open>\<open>parseSubnets\<close>: \<open>Inl\<close> the entry that is not a CIDR.\<close>

fun parse_entries :: "string list \<Rightarrow> string + ipnet list" where
  "parse_entries [] = Inr []"
| "parse_entries (e # es) =
     (let entry = TrimSpace e
      in if entry = [] then parse_entries es
         else case ParseCIDR entry of
           None \<Rightarrow> Inl entry
         | Some n \<Rightarrow> (case parse_entries es of Inl x \<Rightarrow> Inl x | Inr ns \<Rightarrow> Inr (n # ns)))"

definition parseSubnets :: "string \<Rightarrow> string + ipnet list" where
  "parseSubnets raw = parse_entries (Split raw (CHR '',''))"

section \<open>Requests\<close>

text \<open>
  What a handler reads of \<open>*http.Request\<close>: the mux wildcards, the URL's path and its escaped form (empty
  when it is the default encoding), the first value of each query parameter
  and header (empty when absent), the cookies, whether the connection is TLS, and the two values the
  middleware left in the context.
\<close>

record request =
  Method :: string
  PathValue :: "string \<Rightarrow> string"
  URLPath :: string
  RawPath :: string
  QueryGet :: "string \<Rightarrow> string"
  HeaderGet :: "string \<Rightarrow> string"
  RemoteAddr :: string
  Cookie :: "string \<Rightarrow> string option"
  OverTLS :: bool
  ctxUsername :: string
  ctxAPIKeyID :: "uuid option"

text \<open>
  The functions of packages outside the repository, and the textual forms of numbers and times:
  \<open>uuid.Parse\<close>, \<open>UUID.String\<close>, \<open>strconv.ParseFloat\<close>, \<open>time.Parse(time.RFC3339, _)\<close> and the \<open>%q\<close> verb.
\<close>

record webenv =
  uuid_Parse :: "string \<Rightarrow> uuid option"
  uuid_String :: "uuid \<Rightarrow> string"
  ParseFloat :: "string \<Rightarrow> rat option"
  ParseRFC3339 :: "string \<Rightarrow> time option"
  Quote :: "string \<Rightarrow> string"

definition split_last_colon :: "string \<Rightarrow> (string \<times> string) option" where
  "split_last_colon s =
     (let r = rev s; p = takeWhile (\<lambda>c. c \<noteq> CHR '':'') r; h = dropWhile (\<lambda>c. c \<noteq> CHR '':'') r
      in case h of [] \<Rightarrow> None | c # h' \<Rightarrow> Some (rev h', rev p))"

text \<open>\<open>net.SplitHostPort\<close>, the host only.\<close>

definition SplitHost :: "string \<Rightarrow> string option" where
  "SplitHost hp =
     (case split_last_colon hp of
        None \<Rightarrow> None
      | Some (h, port) \<Rightarrow>
          if HasPrefix hp ''['' then
            (case Cut (tl hp) (CHR '']'') of
               (host, rest, found) \<Rightarrow>
                 if \<not> found \<or> rest = [] \<or> rest \<noteq> CHR '':'' # port then None
                 else if CHR ''['' \<in> set (tl hp) \<or> CHR '']'' \<in> set rest then None
                 else Some host)
          else if CHR '':'' \<in> set h \<or> CHR ''['' \<in> set hp \<or> CHR '']'' \<in> set hp then None
          else Some h)"

definition ClientIP :: "request \<Rightarrow> ip option" where
  "ClientIP r =
     (let fwd = HeaderGet r ''X-Forwarded-For'';
          realIP = HeaderGet r ''X-Real-IP'';
          fromFwd = (if fwd = [] then None else ParseIP (TrimSpace (fst (Cut fwd (CHR '','')))));
          fromReal = (if realIP = [] then None else ParseIP (TrimSpace realIP))
      in case fromFwd of
           Some p \<Rightarrow> Some p
         | None \<Rightarrow>
             (case fromReal of
                Some p \<Rightarrow> Some p
              | None \<Rightarrow>
                  (case SplitHost (RemoteAddr r) of
                     None \<Rightarrow> ParseIP (RemoteAddr r)
                   | Some host \<Rightarrow> ParseIP host)))"

section \<open>Responses\<close>

text \<open>The extent of a version's tiles (\<open>map_bounds.go\<close>); 64-bit floats are read as real numbers.\<close>

record tileBounds =
  tb_MinZoom :: int
  tb_MaxZoom :: int
  tb_West :: real
  tb_South :: real
  tb_East :: real
  tb_North :: real
  tb_CenterLng :: real
  tb_CenterLat :: real

text \<open>What is written: a plain-text message (\<open>http.Error\<close>), a JSON value, a file, an archive, or nothing.\<close>

datatype body =
    NoBody
  | Message string
  | JMap MapRecord
  | JMaps "MapRecord list"
  | JVersions "MapVersionRecord list"
  | JMapPerms "MapPermissionRecord list"
  | JMapPerm MapPermissionRecord
  | JGroupPerms "GroupMapPermissionRecord list"
  | JGroupPerm GroupMapPermissionRecord
  | JAllPerms "(MapRecord \<times> MapPermissionRecord) list"
  | JOwner string
  | JAliases "MapVersionAlias list"
  | JAlias MapVersionAlias
  | JGeos "GeoObjectRecord list"
  | JGeo GeoObjectRecord
  | JUsers "UserRecord list"
  | JUser UserRecord
  | JGroups "GroupRecord list"
  | JGroup GroupRecord
  | JPermissions Permissions
  | JKeys "APIKeyRecord list"
  | JKey APIKeyRecord
  | JScopes "APIKeyScopeRecord list"
  | JScope APIKeyScopeRecord
  | JRemotes "SyncRemote list"
  | JRemote SyncRemote
  | JUUIDs "uuid list"
  | JAudit "AuditLogEntry list"
  | JError string
  | Hyperlink string
  | JTokens string string
  | JBounds tileBounds
  | JAuthMethods bool
  | JLogs "(time \<times> string \<times> string) list"
  | FileOf string string
  | Listing "string list"
  | JObject "(string \<times> string) list"
  | Raw string
  | ZipOf "(string \<times> string) list"

record response =
  status :: nat
  payload :: body
  headers :: "(string \<times> string) list"

type_synonym ('w, 'a) hnd = "('w store_scheme, response, 'a) action"

text \<open>
  A handler is an action whose early \<open>return\<close>s carry the response they wrote; \<open>serve\<close> is what the client
  sees.
\<close>

definition serve :: "('w, response) hnd \<Rightarrow> 'w store_scheme \<Rightarrow> response \<times> 'w store_scheme" where
  "serve h s = (case h s of (Inl r, s') \<Rightarrow> (r, s') | (Inr r, s') \<Rightarrow> (r, s'))"

definition http_Error :: "nat \<Rightarrow> string \<Rightarrow> response" where
  "http_Error code msg = \<lparr>status = code, payload = Message msg, headers = []\<rparr>"

definition fail :: "nat \<Rightarrow> string \<Rightarrow> ('w, 'a) hnd" where
  "fail code msg = raiseE (http_Error code msg)"

definition WriteJSON :: "nat \<Rightarrow> body \<Rightarrow> ('w, response) hnd" where
  "WriteJSON code v = okE \<lparr>status = code, payload = v, headers = []\<rparr>"

definition WriteHeader :: "nat \<Rightarrow> ('w, response) hnd" where
  "WriteHeader code = okE \<lparr>status = code, payload = NoBody, headers = []\<rparr>"

text \<open>Headers set before the response is written, whichever response that turns out to be.\<close>

definition add_headers :: "(string \<times> string) list \<Rightarrow> response \<Rightarrow> response" where
  "add_headers hs resp = resp\<lparr>headers := hs @ headers resp\<rparr>"

definition with_headers :: "(string \<times> string) list \<Rightarrow> ('w, response) hnd \<Rightarrow> ('w, response) hnd" where
  "with_headers hs h = tryE h (\<lambda>r. raiseE (add_headers hs r)) (\<lambda>r. okE (add_headers hs r))"

text \<open>\<open>attempt m h\<close>: run a store operation, answer its error with \<open>h\<close>.\<close>

definition attempt :: "('w, 'a) sto \<Rightarrow> (gerror \<Rightarrow> response) \<Rightarrow> ('w, 'a) hnd" where
  "attempt m h = mapErrE h m"

definition writeStoreError :: "gerror \<Rightarrow> nat \<Rightarrow> string \<Rightarrow> string \<Rightarrow> gerror \<Rightarrow> response" where
  "writeStoreError sentinel sentinelStatus sentinelMsg failMsg err =
     (if errors_Is err sentinel then http_Error sentinelStatus sentinelMsg else http_Error 500 failMsg)"

definition RequireMethod :: "request \<Rightarrow> string \<Rightarrow> ('w, unit) hnd" where
  "RequireMethod r m = (if Method r \<noteq> m then fail 405 ''method not allowed'' else okE ())"

text \<open>\<open>json.Decode\<close> of the request body is \<open>None\<close> when it is not a JSON value of the type asked for.\<close>

definition DecodeJSON :: "'req option \<Rightarrow> ('w, 'req) hnd" where
  "DecodeJSON v = (case v of None \<Rightarrow> fail 400 ''invalid request body'' | Some x \<Rightarrow> okE x)"

definition PathUUID :: "webenv \<Rightarrow> request \<Rightarrow> string \<Rightarrow> string \<Rightarrow> ('w, uuid) hnd" where
  "PathUUID env r name label =
     (case uuid_Parse env (PathValue r name) of None \<Rightarrow> fail 400 (''invalid '' @ label) | Some i \<Rightarrow> okE i)"

definition ParseBool :: "string \<Rightarrow> bool option" where
  "ParseBool s =
     (if s \<in> set [''1'', ''t'', ''T'', ''TRUE'', ''true'', ''True''] then Some True
      else if s \<in> set [''0'', ''f'', ''F'', ''FALSE'', ''false'', ''False''] then Some False
      else None)"

definition QueryBoolParam :: "request \<Rightarrow> string \<Rightarrow> ('w, bool option) hnd" where
  "QueryBoolParam r name =
     (let raw = QueryGet r name
      in if raw = [] then okE None
         else case ParseBool raw of
           None \<Rightarrow> fail 400 (''invalid '' @ name @ '': must be true or false'')
         | Some b \<Rightarrow> okE (Some b))"

definition QueryFloatParam :: "webenv \<Rightarrow> request \<Rightarrow> string \<Rightarrow> ('w, rat option) hnd" where
  "QueryFloatParam env r name =
     (let raw = QueryGet r name
      in if raw = [] then okE None
         else case ParseFloat env raw of
           None \<Rightarrow> fail 400 (''invalid '' @ name @ '': must be a number'')
         | Some f \<Rightarrow> okE (Some f))"

definition QueryTimeParam :: "webenv \<Rightarrow> request \<Rightarrow> string \<Rightarrow> ('w, time option) hnd" where
  "QueryTimeParam env r name =
     (let raw = QueryGet r name
      in if raw = [] then okE None
         else case ParseRFC3339 env raw of
           None \<Rightarrow> fail 400 (''invalid '' @ name @ '': must be an RFC 3339 timestamp'')
         | Some t \<Rightarrow> okE (Some t))"

definition QueryIntParam :: "request \<Rightarrow> string \<Rightarrow> ('w, int) hnd" where
  "QueryIntParam r name =
     (let raw = QueryGet r name
      in if raw = [] then okE 0
         else case Atoi raw of
           None \<Rightarrow> fail 400 (''invalid '' @ name @ '': must be a non-negative integer'')
         | Some n \<Rightarrow> if n < 0 then fail 400 (''invalid '' @ name @ '': must be a non-negative integer'') else okE n)"

text \<open>\<open>RecordAudit\<close> never fails the request it describes.\<close>

definition RecordAudit :: "request \<Rightarrow> string \<Rightarrow> string \<Rightarrow> string \<Rightarrow> string \<Rightarrow> ('w, unit) hnd" where
  "RecordAudit r action entityType entityID detail =
     tryE (RecordAuditLog (ctxUsername r) action entityType entityID detail) (\<lambda>_. okE ()) (\<lambda>_. okE ())"

section \<open>Invariants\<close>

lemma fail_pres [pres]: "preserves P (fail c m)"
  by (simp add: fail_def pres)

lemma WriteJSON_pres [pres]: "preserves P (WriteJSON c v)"
  by (simp add: WriteJSON_def pres)

lemma WriteHeader_pres [pres]: "preserves P (WriteHeader c)"
  by (simp add: WriteHeader_def pres)

lemma attempt_pres [pres]: "preserves P m \<Longrightarrow> preserves P (attempt m h)"
  by (simp add: attempt_def pres)

lemma with_headers_pres [pres]: "preserves P h \<Longrightarrow> preserves P (with_headers hs h)"
  by (simp add: with_headers_def pres)

lemma RequireMethod_pres [pres]: "preserves P (RequireMethod r m)"
  unfolding RequireMethod_def by (intro pres)

lemma DecodeJSON_pres [pres]: "preserves P (DecodeJSON v)"
  unfolding DecodeJSON_def by (intro pres)

lemma PathUUID_pres [pres]: "preserves P (PathUUID env r n l)"
  unfolding PathUUID_def by (intro pres)

lemma QueryBoolParam_pres [pres]: "preserves P (QueryBoolParam r n)"
  unfolding QueryBoolParam_def Let_def by (intro pres)

lemma QueryFloatParam_pres [pres]: "preserves P (QueryFloatParam env r n)"
  unfolding QueryFloatParam_def Let_def by (intro pres)

lemma QueryTimeParam_pres [pres]: "preserves P (QueryTimeParam env r n)"
  unfolding QueryTimeParam_def Let_def by (intro pres)

lemma QueryIntParam_pres [pres]: "preserves P (QueryIntParam r n)"
  unfolding QueryIntParam_def Let_def by (intro pres)

lemma RecordAudit_wf [pres]: "preserves store_wf (RecordAudit r a e i x)"
  unfolding RecordAudit_def by (intro pres)

lemma serve_pres: "preserves P h \<Longrightarrow> P s \<Longrightarrow> P (snd (serve h s))"
  by (auto simp: preserves_def serve_def split: prod.splits sum.splits)

lemma status_http_Error [simp]: "status (http_Error c m) = c"
  by (simp add: http_Error_def)

lemma status_writeStoreError [simp]:
  "400 \<le> c \<Longrightarrow> 400 \<le> status (writeStoreError s c m f e)"
  by (simp add: writeStoreError_def)

lemma serve_Inr: "fst (h s) = Inr r \<Longrightarrow> serve h s = (r, snd (h s))"
  by (cases "h s") (simp add: serve_def)

end
