(* ===== verification/Disk.thy ===== *)
theory Disk
  imports HttpUtil "HOL-Library.Sublist" "HOL-Library.List_Lexorder" "HOL-Library.Char_ord"
begin

text \<open>
  The files the server keeps below its data root, and the calls of package \<open>os\<close> it makes on them. A path is
  the list of its elements, an absolute one starts with \<open>"/"\<close>; there are no links. Every call can fail for a
  reason outside the model (a full disk, a permission), as the \<open>faults\<close> schedule says, and then changes
  nothing.
\<close>

type_synonym fpath = "string list"

datatype fnode = FDir | FFile string

type_synonym disk = "(fpath \<times> fnode) list"

text \<open>The process: the store, the files, and the cache of computed tile extents.\<close>

record world = store +
  disk :: disk
  boundsCache :: "uuid \<times> string \<Rightarrow> tileBounds option"

type_synonym ('w, 'a) fsa = "('w world_scheme, gerror, 'a) action"

definition path_of :: "string \<Rightarrow> fpath" where
  "path_of s = (if HasPrefix s ''/'' then [''/''] else []) @ clean_parts s"

definition fs_dir :: "disk \<Rightarrow> fpath \<Rightarrow> bool" where
  "fs_dir d p \<longleftrightarrow> p = [] \<or> p = [''/''] \<or> map_of d p = Some FDir"

definition is_file :: "fnode option \<Rightarrow> bool" where
  "is_file n = (case n of Some (FFile _) \<Rightarrow> True | _ \<Rightarrow> False)"

definition proper_prefixes :: "fpath \<Rightarrow> fpath list" where
  "proper_prefixes p = map (\<lambda>n. take n p) [0..<length p]"

definition blocked :: "disk \<Rightarrow> fpath \<Rightarrow> bool" where
  "blocked d p \<longleftrightarrow> list_ex (\<lambda>q. is_file (map_of d q)) (proper_prefixes p)"

abbreviation ENOTDIR :: gerror where "ENOTDIR \<equiv> OpaqueErr ''not a directory''"
abbreviation EISDIR :: gerror where "EISDIR \<equiv> OpaqueErr ''is a directory''"
abbreviation EEXIST :: gerror where "EEXIST \<equiv> OpaqueErr ''file exists''"

section \<open>Calls\<close>

definition fs_stat :: "fpath \<Rightarrow> disk \<Rightarrow> gerror + fnode" where
  "fs_stat p d =
     (if blocked d p then Inl ENOTDIR
      else if fs_dir d p then Inr FDir
      else case map_of d p of None \<Rightarrow> Inl ErrNotExist | Some n \<Rightarrow> Inr n)"

text \<open>The entries of a directory, sorted by name as \<open>os.ReadDir\<close> returns them.\<close>

definition children :: "fpath \<Rightarrow> disk \<Rightarrow> (string \<times> fnode) list" where
  "children p d = sort_key fst
     (map (\<lambda>(q, n). (last q, n)) (filter (\<lambda>(q, n). q \<noteq> [] \<and> butlast q = p) d))"

definition fs_readdir :: "fpath \<Rightarrow> disk \<Rightarrow> gerror + (string \<times> fnode) list" where
  "fs_readdir p d =
     (case fs_stat p d of Inl e \<Rightarrow> Inl e | Inr (FFile _) \<Rightarrow> Inl ENOTDIR | Inr FDir \<Rightarrow> Inr (children p d))"

definition fs_readfile :: "fpath \<Rightarrow> disk \<Rightarrow> gerror + string" where
  "fs_readfile p d = (case fs_stat p d of Inl e \<Rightarrow> Inl e | Inr FDir \<Rightarrow> Inl EISDIR | Inr (FFile c) \<Rightarrow> Inr c)"

definition mkdir1 :: "fpath \<Rightarrow> disk \<Rightarrow> disk" where
  "mkdir1 p d = (if fs_dir d p then d else (p, FDir) # d)"

definition fs_mkdirall :: "fpath \<Rightarrow> disk \<Rightarrow> gerror + unit \<times> disk" where
  "fs_mkdirall p d =
     (if blocked d p \<or> is_file (map_of d p) then Inl ENOTDIR
      else Inr ((), fold mkdir1 (proper_prefixes p @ [p]) d))"

text \<open>\<open>os.MkdirTemp\<close>: the name drawn must be new; the parent must be there.\<close>

definition fs_mkdir :: "fpath \<Rightarrow> disk \<Rightarrow> gerror + unit \<times> disk" where
  "fs_mkdir p d =
     (if blocked d p then Inl ENOTDIR
      else if \<not> fs_dir d (butlast p) then Inl ErrNotExist
      else if fs_dir d p \<or> map_of d p \<noteq> None then Inl EEXIST
      else Inr ((), (p, FDir) # d))"

definition fs_remove :: "fpath \<Rightarrow> disk \<Rightarrow> disk" where
  "fs_remove p d = filter (\<lambda>(q, n). \<not> prefix p q) d"

definition fs_removeall :: "fpath \<Rightarrow> disk \<Rightarrow> gerror + unit \<times> disk" where
  "fs_removeall p d = Inr ((), fs_remove p d)"

text \<open>Opening for writing with \<open>O_CREATE|O_TRUNC\<close> and writing.\<close>

definition fs_write :: "fpath \<Rightarrow> string \<Rightarrow> disk \<Rightarrow> gerror + unit \<times> disk" where
  "fs_write p c d =
     (if blocked d p then Inl ENOTDIR
      else if fs_dir d p then Inl EISDIR
      else if \<not> fs_dir d (butlast p) then Inl ErrNotExist
      else Inr ((), (p, FFile c) # filter (\<lambda>(q, n). q \<noteq> p) d))"

text \<open>\<open>os.Rename\<close> refuses a target that is a directory.\<close>

definition fs_rename :: "fpath \<Rightarrow> fpath \<Rightarrow> disk \<Rightarrow> gerror + unit \<times> disk" where
  "fs_rename a b d =
     (case fs_stat a d of
        Inl e \<Rightarrow> Inl e
      | Inr n \<Rightarrow>
          if fs_dir d b then Inl EEXIST
          else if blocked d b then Inl ENOTDIR
          else if \<not> fs_dir d (butlast b) then Inl ErrNotExist
          else if prefix a b then Inl (OpaqueErr ''invalid argument'')
          else if n = FDir \<and> map_of d b \<noteq> None then Inl ENOTDIR
          else Inr ((), map (\<lambda>(q, n). (if prefix a q then b @ drop (length a) q else q, n))
                          (filter (\<lambda>(q, n). q \<noteq> b) d)))"

definition fs_op :: "(disk \<Rightarrow> gerror + 'a \<times> disk) \<Rightarrow> ('w, 'a) fsa" where
  "fs_op f w =
     (if faults w \<noteq> [] \<and> hd (faults w) then (Inl (OpaqueErr ''input/output error''), w\<lparr>faults := tl (faults w)\<rparr>)
      else (case f (disk w) of
              Inl e \<Rightarrow> (Inl e, w\<lparr>faults := tl (faults w)\<rparr>)
            | Inr (x, d) \<Rightarrow> (Inr x, w\<lparr>disk := d, faults := tl (faults w)\<rparr>)))"

definition fs_query :: "(disk \<Rightarrow> gerror + 'a) \<Rightarrow> ('w, 'a) fsa" where
  "fs_query f = fs_op (\<lambda>d. case f d of Inl e \<Rightarrow> Inl e | Inr x \<Rightarrow> Inr (x, d))"

definition Stat :: "string \<Rightarrow> ('w, fnode) fsa" where "Stat p = fs_query (fs_stat (path_of p))"
definition ReadDir :: "string \<Rightarrow> ('w, (string \<times> fnode) list) fsa" where "ReadDir p = fs_query (fs_readdir (path_of p))"
definition os_ReadFile :: "string \<Rightarrow> ('w, string) fsa" where "os_ReadFile p = fs_query (fs_readfile (path_of p))"
definition MkdirAll :: "string \<Rightarrow> ('w, unit) fsa" where "MkdirAll p = fs_op (fs_mkdirall (path_of p))"
definition Mkdir :: "string \<Rightarrow> ('w, unit) fsa" where "Mkdir p = fs_op (fs_mkdir (path_of p))"
definition RemoveAll :: "string \<Rightarrow> ('w, unit) fsa" where "RemoveAll p = fs_op (fs_removeall (path_of p))"
definition WriteFile :: "string \<Rightarrow> string \<Rightarrow> ('w, unit) fsa" where "WriteFile p c = fs_op (fs_write (path_of p) c)"
definition Rename :: "string \<Rightarrow> string \<Rightarrow> ('w, unit) fsa" where "Rename a b = fs_op (fs_rename (path_of a) (path_of b))"

lemmas fs_call_defs = Stat_def ReadDir_def os_ReadFile_def MkdirAll_def Mkdir_def RemoveAll_def WriteFile_def
  Rename_def

text \<open>\<open>_ = f()\<close>: the error is dropped.\<close>

definition ignoreE :: "('s, 'e, 'a) action \<Rightarrow> ('s, 'f, unit) action" where
  "ignoreE m = tryE m (\<lambda>_. okE ()) (\<lambda>_. okE ())"

text \<open>\<open>m\<close>, then \<open>f\<close> whatever came of it (\<open>defer f()\<close>).\<close>

definition finallyE :: "('s, 'e, 'a) action \<Rightarrow> ('s, 'f, unit) action \<Rightarrow> ('s, 'e, 'a) action" where
  "finallyE m f s = (case m s of (r, s') \<Rightarrow> (r, snd (f s')))"

text \<open>\<open>filepath.Dir\<close>.\<close>

definition Dir :: "string \<Rightarrow> string" where
  "Dir s = Clean (rev (dropWhile (\<lambda>c. c \<noteq> CHR ''/'') (rev s)))"

section \<open>The calls leave the database alone\<close>

lemma fs_op_store [simp]: "st_db (snd (fs_op f w)) = st_db w"
  by (simp add: fs_op_def split: sum.split prod.split)

lemma caches_fresh_disk [simp]:
  "caches_fresh (w\<lparr>disk := d\<rparr>) = caches_fresh w" "caches_fresh (w\<lparr>boundsCache := b\<rparr>) = caches_fresh w"
  by (simp_all add: caches_fresh_def)

lemma fs_op_wf [pres]: "preserves store_wf (fs_op f)"
  by (simp add: preserves_def fs_op_def split: sum.split prod.split)

lemma fs_calls_wf [pres]:
  "preserves store_wf (Stat p)" "preserves store_wf (ReadDir p)" "preserves store_wf (os_ReadFile p)"
  "preserves store_wf (MkdirAll p)" "preserves store_wf (Mkdir p)" "preserves store_wf (RemoveAll p)"
  "preserves store_wf (WriteFile p c)" "preserves store_wf (Rename p q)"
  by (simp_all add: fs_call_defs fs_query_def fs_op_wf)

lemma preserves_ignoreE [pres]: "preserves P m \<Longrightarrow> preserves P (ignoreE m)"
  unfolding ignoreE_def by (intro pres)

lemma preserves_finallyE [pres]: "preserves P m \<Longrightarrow> preserves P f \<Longrightarrow> preserves P (finallyE m f)"
  by (auto simp: preserves_def finallyE_def split: prod.split)

lemma fs_op_no_fault [simp]:
  "faults w = [] \<Longrightarrow> fs_op f w =
     (case f (disk w) of Inl e \<Rightarrow> (Inl e, w) | Inr (x, d) \<Rightarrow> (Inr x, w\<lparr>disk := d\<rparr>))"
  by (simp add: fs_op_def split: sum.split prod.split)

section \<open>Paths\<close>

text \<open>What the stack of \<open>Clean\<close> holds: no empty or dot element, and \<open>..\<close> only outermost, never below a root.\<close>

definition clean_stack :: "bool \<Rightarrow> string list \<Rightarrow> bool" where
  "clean_stack rooted st \<longleftrightarrow>
     (\<forall>w\<in>set st. w \<noteq> [] \<and> w \<noteq> ''.'' \<and> CHR ''/'' \<notin> set w) \<and> (rooted \<longrightarrow> ''..'' \<notin> set st) \<and>
     (\<forall>a b. st = a @ ''..'' # b \<longrightarrow> set b \<subseteq> {''..''})"

lemma clean_stack_Nil [simp]: "clean_stack r []"
  by (simp add: clean_stack_def)

lemma clean_stack_tail: "clean_stack r (v # st) \<Longrightarrow> clean_stack r st"
  unfolding clean_stack_def by (metis append_Cons list.set_intros(2))

lemma clean_stack_step:
  assumes "clean_stack r st" and "CHR ''/'' \<notin> set w"
  shows "clean_stack r (clean_step r st w)"
proof -
  have *: "clean_stack r (w # st)"
    if "w \<noteq> []" "w \<noteq> ''.''" "w = ''..'' \<Longrightarrow> \<not> r \<and> set st \<subseteq> {''..''}"
    unfolding clean_stack_def
  proof (intro conjI allI impI)
    fix a b assume ab: "w # st = a @ ''..'' # b"
    show "set b \<subseteq> {''..''}"
    proof (cases a)
      case (Cons x a')
      with ab have "st = a' @ ''..'' # b" by simp
      with assms(1) show ?thesis unfolding clean_stack_def by blast
    qed (use ab that in simp)
  qed (use assms that in \<open>auto simp: clean_stack_def\<close>)
  show ?thesis
  proof (cases "w = [] \<or> w = ''.'' \<or> w \<noteq> ''..''")
    case True
    with * assms(1) show ?thesis by (auto simp: clean_step_def)
  next
    case False
    show ?thesis
    proof (cases st)
      case Nil
      with False * assms(1) show ?thesis by (simp add: clean_step_def)
    next
      case (Cons v st')
      show ?thesis
      proof (cases "v = ''..''")
        case True
        have "st = [] @ ''..'' # st'" using Cons True by simp
        then have "set st \<subseteq> {''..''}" using assms(1) Cons True unfolding clean_stack_def by auto
        moreover have "\<not> r" using assms(1) Cons True by (auto simp: clean_stack_def)
        ultimately show ?thesis using False Cons True * by (simp add: clean_step_def)
      next
        case nd: False
        with False Cons assms(1) show ?thesis by (simp add: clean_step_def clean_stack_tail)
      qed
    qed
  qed
qed

lemma clean_stack_foldl:
  "clean_stack r st \<Longrightarrow> \<forall>w\<in>set ws. CHR ''/'' \<notin> set w \<Longrightarrow> clean_stack r (foldl (clean_step r) st ws)"
  by (induction ws arbitrary: st) (auto simp: clean_stack_step)

lemma clean_stack_parts: "clean_stack (HasPrefix s ''/'') (rev (clean_parts s))"
proof -
  have "clean_stack (HasPrefix s ''/'') []" by (simp add: clean_stack_def)
  then show ?thesis
    unfolding clean_parts_def rev_rev_ident by (rule clean_stack_foldl) (auto dest: set_Split)
qed

lemma foldl_clean_stack:
  "clean_stack r (rev ws @ st) \<Longrightarrow> foldl (clean_step r) st ws = rev ws @ st"
proof (induction ws arbitrary: st)
  case (Cons w ws)
  then have s: "clean_stack r (rev ws @ w # st)" by simp
  then have w: "w \<noteq> []" "w \<noteq> ''.''" by (auto simp: clean_stack_def)
  have "clean_step r st w = w # st"
  proof (cases "w = ''..''")
    case True
    then have "\<not> r" "set st \<subseteq> {''..''}" using s unfolding clean_stack_def by auto
    with True show ?thesis by (cases st) (auto simp: clean_step_def)
  qed (use w in \<open>simp add: clean_step_def\<close>)
  with Cons.IH [of "w # st"] s show ?case by simp
qed simp

lemma clean_parts_nonslash: "w \<in> set (clean_parts s) \<Longrightarrow> CHR ''/'' \<notin> set w \<and> w \<noteq> []"
  using clean_stack_parts [of s] by (auto simp: clean_stack_def)

lemma Split_parts: "clean_parts s \<noteq> [] \<Longrightarrow> Split (join_with (CHR ''/'') (clean_parts s)) (CHR ''/'') = clean_parts s"
  by (rule Split_join) (auto dest: clean_parts_nonslash)

lemma HasPrefix_slash: "HasPrefix s ''/'' \<longleftrightarrow> (\<exists>r. s = CHR ''/'' # r)"
  by (auto simp: HasPrefix_iff)

lemma join_first: "ws \<noteq> [] \<Longrightarrow> hd ws \<noteq> [] \<Longrightarrow> \<exists>r. join_with sep ws = hd (hd ws) # r"
  by (cases ws; cases "hd ws"; cases "tl ws") auto

lemma join_rel:
  assumes "clean_parts s \<noteq> []"
  shows "\<not> HasPrefix (join_with (CHR ''/'') (clean_parts s)) ''/''"
proof -
  obtain w ws where p: "clean_parts s = w # ws" using assms by (cases "clean_parts s") auto
  then have w: "w \<noteq> []" "CHR ''/'' \<notin> set w" using clean_parts_nonslash [of w s] by auto
  then have "hd w \<noteq> CHR ''/''" by (metis list.set_sel(1))
  moreover obtain r where "join_with (CHR ''/'') (clean_parts s) = hd w # r"
    using join_first [OF assms, of "CHR ''/''"] p w by auto
  ultimately show ?thesis by (simp add: HasPrefix_slash)
qed

lemma path_of_Clean [simp]: "path_of (Clean s) = path_of s"
proof (cases "clean_parts s = []")
  case True
  then show ?thesis
    by (auto simp: path_of_def Clean_def clean_parts_def HasPrefix_def clean_step_def)
next
  case False
  let ?j = "join_with (CHR ''/'') (clean_parts s)"
  have fold: "foldl (clean_step (HasPrefix s ''/'')) [] (clean_parts s) = rev (clean_parts s)"
    using foldl_clean_stack [of "HasPrefix s ''/''" "clean_parts s" "[]"] clean_stack_parts [of s] by simp
  show ?thesis
  proof (cases "HasPrefix s ''/''")
    case True
    have "clean_parts (CHR ''/'' # ?j) = rev (foldl (clean_step True) [] ([] # Split ?j (CHR ''/'')))"
      by (simp add: clean_parts_def HasPrefix_def)
    also have "\<dots> = rev (foldl (clean_step True) [] (Split ?j (CHR ''/'')))"
      by (simp add: clean_step_def)
    also have "\<dots> = clean_parts s"
      using fold True False by (simp add: Split_parts)
    finally have "clean_parts (CHR ''/'' # ?j) = clean_parts s" .
    with True show ?thesis by (simp add: path_of_def Clean_def HasPrefix_def)
  next
    case rel: False
    have "clean_parts ?j = rev (foldl (clean_step False) [] (Split ?j (CHR ''/'')))"
      using join_rel [OF False] by (simp add: clean_parts_def)
    also have "\<dots> = clean_parts s" using fold rel False by (simp add: Split_parts)
    finally have "clean_parts ?j = clean_parts s" .
    with rel False join_rel [OF False] show ?thesis by (simp add: path_of_def Clean_def)
  qed
qed

lemma HasPrefix_append_slash: "a \<noteq> [] \<Longrightarrow> HasPrefix (a @ b) ''/'' = HasPrefix a ''/''"
  by (cases a) (auto simp: HasPrefix_def)

lemma path_of_append:
  "a \<noteq> [] \<Longrightarrow> ws \<noteq> [] \<Longrightarrow> \<forall>w\<in>set ws. plain_name w \<Longrightarrow>
   path_of (a @ CHR ''/'' # join_with (CHR ''/'') ws) = path_of a @ ws"
  by (simp add: path_of_def clean_parts_append_plain HasPrefix_append_slash)

lemma path_of_Join2:
  "a \<noteq> [] \<Longrightarrow> ws \<noteq> [] \<Longrightarrow> \<forall>w\<in>set ws. plain_name w \<Longrightarrow>
   path_of (Join2 a (join_with (CHR ''/'') ws)) = path_of a @ ws"
  by (simp add: Join2_def path_of_append)

lemma path_of_Join2_name: "a \<noteq> [] \<Longrightarrow> plain_name w \<Longrightarrow> path_of (Join2 a w) = path_of a @ [w]"
  using path_of_Join2 [of a "[w]"] by simp

lemma Clean_nonempty [simp]: "Clean s \<noteq> []"
proof (cases "HasPrefix s ''/'' \<or> clean_parts s = []")
  case False
  then have p: "clean_parts s \<noteq> []" by simp
  then have "hd (clean_parts s) \<noteq> []" using clean_parts_nonslash [of "hd (clean_parts s)" s] by simp
  with p False show ?thesis using join_first [of "clean_parts s" "CHR ''/''"] by (auto simp: Clean_def)
qed (auto simp: Clean_def)

lemma Join2_nonempty [simp]: "a \<noteq> [] \<Longrightarrow> Join2 a b \<noteq> []"
  by (simp add: Join2_def)

lemma upto_slash:
  "CHR ''/'' \<notin> set w \<Longrightarrow> rev (dropWhile (\<lambda>c. c \<noteq> CHR ''/'') (rev (a @ CHR ''/'' # w))) = a @ ''/''"
proof -
  assume "CHR ''/'' \<notin> set w"
  then have "\<forall>c\<in>set (rev w). c \<noteq> CHR ''/''" by auto
  then have "dropWhile (\<lambda>c. c \<noteq> CHR ''/'') (rev w @ CHR ''/'' # rev a) = CHR ''/'' # rev a"
    using dropWhile_append2 [of "rev w" "\<lambda>c. c \<noteq> CHR ''/''" "CHR ''/'' # rev a"] by simp
  then show ?thesis by simp
qed

lemma clean_parts_trailing: "a \<noteq> [] \<Longrightarrow> clean_parts (a @ ''/'') = clean_parts a"
  by (simp add: clean_parts_def Split_append clean_step_def HasPrefix_append_slash)

lemma path_of_Dir:
  assumes "a \<noteq> []" and "ws \<noteq> []" and "\<forall>w\<in>set ws. plain_name w" and "clean_parts a \<noteq> []"
  shows "path_of (Dir (Join2 a (join_with (CHR ''/'') ws))) = path_of a @ butlast ws"
proof -
  let ?j = "join_with (CHR ''/'')"
  have c: "Clean (a @ CHR ''/'' # ?j ws) = Clean a @ CHR ''/'' # ?j ws"
    using assms by (intro Clean_append_plain)
  have w: "CHR ''/'' \<notin> set (last ws)" using assms(2,3) by (auto simp: plain_name_def)
  have split: "Clean a @ CHR ''/'' # ?j ws =
      (if butlast ws = [] then Clean a else Clean a @ CHR ''/'' # ?j (butlast ws)) @ CHR ''/'' # last ws"
  proof (cases "butlast ws = []")
    case True
    with assms(2) obtain x where "ws = [x]" by (cases ws) (auto split: if_splits)
    then show ?thesis by simp
  next
    case False
    have "?j ws = ?j (butlast ws @ [last ws])" using assms(2) by simp
    also have "\<dots> = ?j (butlast ws) @ CHR ''/'' # last ws" using False by (simp add: join_with_append)
    finally show ?thesis using False by simp
  qed
  have "path_of (Dir (Join2 a (?j ws))) =
      path_of ((if butlast ws = [] then Clean a else Clean a @ CHR ''/'' # ?j (butlast ws)) @ ''/'')"
    unfolding Dir_def path_of_Clean using assms(1) c split upto_slash [OF w] by (simp add: Join2_def)
  also have "\<dots> = path_of (if butlast ws = [] then Clean a else Clean a @ CHR ''/'' # ?j (butlast ws))"
    by (simp add: path_of_def clean_parts_trailing HasPrefix_append_slash)
  also have "\<dots> = path_of a @ butlast ws"
    using assms(3) path_of_append [of "Clean a" "butlast ws"] by (auto dest: in_set_butlastD)
  finally show ?thesis .
qed

end
