(* ===== verification/TileArchive.thy ===== *)
theory TileArchive
  imports Disk "HOL-Library.Product_Lexorder"
begin

text \<open>
  Uploaded archives and the tile index: \<open>internal/tilearchive\<close>. What the zip, tar and gzip readers of the
  library make of a file's bytes is the parameter \<open>archlib\<close>.
\<close>

section \<open>paths.go\<close>

definition MapDir :: "webenv \<Rightarrow> string \<Rightarrow> uuid \<Rightarrow> string" where
  "MapDir env dataRoot i = Join2 dataRoot (uuid_String env i)"

definition MapVersionDir :: "webenv \<Rightarrow> string \<Rightarrow> uuid \<Rightarrow> string \<Rightarrow> string" where
  "MapVersionDir env dataRoot i version = Join2 (MapDir env dataRoot i) version"

section \<open>Names of entries\<close>

text \<open>\<open>^[0-9]+\.png$\<close>.\<close>

definition numericPNG :: "string \<Rightarrow> bool" where
  "numericPNG s \<longleftrightarrow> HasSuffix s ''.png'' \<and> all_digits (TrimSuffix s ''.png'')"

definition validateExtractedEntryName :: "string \<Rightarrow> bool" where
  "validateExtractedEntryName name =
     (let isDir = HasSuffix name ''/'';
          segments = Split (TrimSlash name) (CHR ''/'')
      in if hd segments = [] then False
         else list_all all_digits (if isDir then segments else butlast segments) \<and>
              (isDir \<or> numericPNG (last segments)))"

text \<open>\<open>None\<close>: the entry is skipped.\<close>

definition resolveExtractTarget :: "string \<Rightarrow> string \<Rightarrow> string option" where
  "resolveExtractTarget cleanDest name =
     (if \<not> validateExtractedEntryName name then None
      else let targetPath = Join2 cleanDest (TrimSlash name)
           in if targetPath \<noteq> cleanDest \<and> \<not> HasPrefix targetPath (cleanDest @ ''/'') then None
              else Some targetPath)"

section \<open>Extraction\<close>

text \<open>
  The contents of an entry: the bytes that can be read, and the error that ends the reading early. Whatever
  was read is in the file.
\<close>

type_synonym contents = "string \<times> gerror option"

record zipEntry =
  ze_Name :: string
  ze_Symlink :: bool
  ze_IsDir :: bool
  ze_Open :: "gerror + contents"

datatype typeflag = TypeReg | TypeDir | TypeSymlink | TypeLink | TypeOther

record tarEntry =
  te_Name :: string
  te_Typeflag :: typeflag
  te_data :: contents

text \<open>A tar stream yields its entries one by one, up to the end or to an error.\<close>

record archlib =
  zip_OpenReader :: "string \<Rightarrow> gerror + zipEntry list"
  tar_Reader :: "string \<Rightarrow> tarEntry list \<times> gerror option"
  gzip_Reader :: "string \<Rightarrow> gerror + string"

definition writeExtractedFile :: "contents \<Rightarrow> string \<Rightarrow> ('w, unit) fsa" where
  "writeExtractedFile c targetPath =
     bindE (mapErrE (Wrap ''create file'') (WriteFile targetPath (fst c))) (\<lambda>_.
       case snd c of Some e \<Rightarrow> raiseE (Wrap ''write file'' e) | None \<Rightarrow> okE ())"

definition extractZipFile :: "zipEntry \<Rightarrow> string \<Rightarrow> ('w, unit) fsa" where
  "extractZipFile f targetPath =
     (case ze_Open f of Inl e \<Rightarrow> raiseE (Wrap ''open zip entry'' e) | Inr c \<Rightarrow> writeExtractedFile c targetPath)"

definition extractZipEntry :: "string \<Rightarrow> zipEntry \<Rightarrow> ('w, unit) fsa" where
  "extractZipEntry cleanDest f =
     (if ze_Symlink f then okE ()
      else if Contains (ze_Name f) ''..'' then okE ()
      else case resolveExtractTarget cleanDest (ze_Name f) of
        None \<Rightarrow> okE ()
      | Some targetPath \<Rightarrow>
          if ze_IsDir f then mapErrE (Wrap ''create dir'') (MkdirAll targetPath)
          else bindE (mapErrE (Wrap ''create dir'') (MkdirAll (Dir targetPath))) (\<lambda>_.
               extractZipFile f targetPath))"

definition extractZip :: "archlib \<Rightarrow> string \<Rightarrow> string \<Rightarrow> ('w, unit) fsa" where
  "extractZip lib zipPath destDir =
     bindE (mapErrE (Wrap ''open zip'') (os_ReadFile zipPath)) (\<lambda>bytes.
       case zip_OpenReader lib bytes of
         Inl e \<Rightarrow> raiseE (Wrap ''open zip'' e)
       | Inr files \<Rightarrow> forE files (extractZipEntry (Clean destDir)))"

definition extractTarEntry :: "string \<Rightarrow> tarEntry \<Rightarrow> ('w, unit) fsa" where
  "extractTarEntry cleanDest hdr =
     (if te_Typeflag hdr = TypeSymlink \<or> te_Typeflag hdr = TypeLink then okE ()
      else let isDir = (te_Typeflag hdr = TypeDir);
               name = te_Name hdr
      in if Contains name ''..'' then okE ()
         else let name = (if isDir \<and> \<not> HasSuffix name ''/'' then name @ ''/'' else name)
         in case resolveExtractTarget cleanDest name of
              None \<Rightarrow> okE ()
            | Some targetPath \<Rightarrow>
                if isDir then mapErrE (Wrap ''create dir'') (MkdirAll targetPath)
                else if te_Typeflag hdr \<noteq> TypeReg then okE ()
                else bindE (mapErrE (Wrap ''create dir'') (MkdirAll (Dir targetPath))) (\<lambda>_.
                     writeExtractedFile (te_data hdr) targetPath))"

definition extractTar :: "archlib \<Rightarrow> string \<Rightarrow> string \<Rightarrow> bool \<Rightarrow> ('w, unit) fsa" where
  "extractTar lib tarPath destDir gzipped =
     bindE (mapErrE (Wrap ''open tar'') (os_ReadFile tarPath)) (\<lambda>bytes.
       case (if gzipped then gzip_Reader lib bytes else Inr bytes) of
         Inl e \<Rightarrow> raiseE (Wrap ''open gzip'' e)
       | Inr stream \<Rightarrow>
           (case tar_Reader lib stream of (entries, err) \<Rightarrow>
              bindE (forE entries (\<lambda>hdr. if \<not> Contains (te_Name hdr) ''..'' then extractTarEntry (Clean destDir) hdr
                                        else okE ())) (\<lambda>_.
              case err of None \<Rightarrow> okE () | Some e \<Rightarrow> raiseE (Wrap ''read tar'' e))))"

datatype archiveFormat = archiveUnknown | archiveZip | archiveTarGz | archiveTar

definition zipMagic :: string where "zipMagic = ''PK'' @ [CHR 0x03, CHR 0x04]"
definition zipEmptyMagic :: string where "zipEmptyMagic = ''PK'' @ [CHR 0x05, CHR 0x06]"
definition gzipMagic :: string where "gzipMagic = [CHR 0x1F, CHR 0x8B]"
definition tarMagic :: string where "tarMagic = ''ustar''"

definition sniff_header :: "string \<Rightarrow> archiveFormat" where
  "sniff_header header =
     (if HasPrefix header zipMagic \<or> HasPrefix header zipEmptyMagic then archiveZip
      else if HasPrefix header gzipMagic then archiveTarGz
      else if 262 \<le> length header \<and> take 5 (drop 257 header) = tarMagic then archiveTar
      else archiveUnknown)"

definition sniffArchiveFormat :: "string \<Rightarrow> ('w, archiveFormat) fsa" where
  "sniffArchiveFormat p =
     bindE (mapErrE (Wrap ''open upload'') (os_ReadFile p)) (\<lambda>bytes. okE (sniff_header (take 262 bytes)))"

text \<open>\<open>rnd\<close> is the text \<open>os.MkdirTemp\<close> puts in place of the star.\<close>

definition ExtractArchive :: "archlib \<Rightarrow> string \<Rightarrow> string \<Rightarrow> string \<Rightarrow> ('w, string) fsa" where
  "ExtractArchive lib rnd tmpPath dir =
     bindE (mapErrE (Wrap ''inspect archive'') (sniffArchiveFormat tmpPath)) (\<lambda>format.
     if format = archiveUnknown then raiseE ErrUnsupportedFormat else
     bindE (mapErrE (Wrap ''prepare storage'') (MkdirAll dir)) (\<lambda>_.
     let stagingDir = dir @ CHR ''/'' # ''.upload-'' @ rnd in
     bindE (mapErrE (Wrap ''prepare extraction'') (Mkdir stagingDir)) (\<lambda>_.
     tryE (case format of
             archiveZip \<Rightarrow> extractZip lib tmpPath stagingDir
           | archiveTarGz \<Rightarrow> extractTar lib tmpPath stagingDir True
           | archiveTar \<Rightarrow> extractTar lib tmpPath stagingDir False
           | archiveUnknown \<Rightarrow> raiseE (OpaqueErr ''unsupported archive format''))
       (\<lambda>e. bindE (ignoreE (RemoveAll stagingDir)) (\<lambda>_. raiseE (Wrap ''extract'' ErrInvalidArchive)))
       (\<lambda>_. okE stagingDir))))"

section \<open>The tile index\<close>

type_synonym tileCoord = "int \<times> int \<times> int"

definition tile_json :: "tileCoord \<Rightarrow> string" where
  "tile_json t = (case t of (z, x, y) \<Rightarrow>
     CHR ''{'' # CHR 0x22 # ''z'' @ CHR 0x22 # '':'' @ Itoa z @ '','' @ CHR 0x22 # ''x'' @ CHR 0x22 # '':'' @ Itoa x @
     '','' @ CHR 0x22 # ''y'' @ CHR 0x22 # '':'' @ Itoa y @ ''}'')"

text \<open>A slice nothing was appended to is nil, which \<open>json.Marshal\<close> writes as \<open>null\<close>.\<close>

definition index_json :: "tileCoord list \<Rightarrow> string" where
  "index_json tiles = CHR ''{'' # CHR 0x22 # ''tiles'' @ CHR 0x22 # '':'' @
     (if tiles = [] then ''null'' else CHR ''['' # join_with (CHR '','') (map tile_json tiles) @ '']'') @ ''}''"

definition y_tiles :: "int \<Rightarrow> int \<Rightarrow> (string \<times> fnode) list \<Rightarrow> tileCoord list" where
  "y_tiles z x yEntries = List.map_filter (\<lambda>(name, n).
     case Atoi (TrimSuffix name ''.png'') of
       None \<Rightarrow> None
     | Some y \<Rightarrow> if \<not> numericPNG name then None else Some (z, x, y)) yEntries"

definition scanZoomTiles :: "string \<Rightarrow> string \<Rightarrow> int \<Rightarrow> ('w, tileCoord list) fsa" where
  "scanZoomTiles destDir zName z =
     bindE (mapErrE (Wrap ''read zoom dir'') (ReadDir (Join2 destDir zName))) (\<lambda>xEntries.
       foldE (\<lambda>(xName, n) tiles.
         if n \<noteq> FDir then okE tiles
         else case Atoi xName of
           None \<Rightarrow> okE tiles
         | Some x \<Rightarrow>
             bindE (mapErrE (Wrap ''read x dir'') (ReadDir (Join2 (Join2 destDir zName) xName))) (\<lambda>yEntries.
               okE (tiles @ y_tiles z x yEntries))) xEntries [])"

definition scanTileCoords :: "string \<Rightarrow> ('w, tileCoord list) fsa" where
  "scanTileCoords destDir =
     bindE (mapErrE (Wrap ''read version dir'') (ReadDir destDir)) (\<lambda>zEntries.
       foldE (\<lambda>(zName, n) tiles.
         if n \<noteq> FDir then okE tiles
         else case Atoi zName of
           None \<Rightarrow> okE tiles
         | Some z \<Rightarrow> bindE (scanZoomTiles destDir zName z) (\<lambda>zTiles. okE (tiles @ zTiles))) zEntries [])"

definition index_path :: "string \<Rightarrow> string" where
  "index_path destDir = Join2 destDir ''index.json''"

definition WriteTileIndex :: "string \<Rightarrow> ('w, unit) fsa" where
  "WriteTileIndex destDir =
     bindE (scanTileCoords destDir) (\<lambda>tiles.
       mapErrE (Wrap ''write tile index'') (WriteFile (index_path destDir) (index_json (sort tiles))))"

section \<open>Backfilling\<close>

definition ensureVersionTileIndex :: "string \<Rightarrow> string \<times> fnode \<Rightarrow> ('w, unit) fsa" where
  "ensureVersionTileIndex overlayDir version =
     (if snd version \<noteq> FDir \<or> \<not> all_digits (fst version) then okE ()
      else let versionDir = Join2 overlayDir (fst version) in
        tryE (Stat (index_path versionDir))
          (\<lambda>e. if \<not> errors_Is e ErrNotExist then raiseE (Wrap ''stat index.json'' e)
               else mapErrE (Wrap ''write tile index'') (WriteTileIndex versionDir))
          (\<lambda>_. okE ()))"

definition ensureOverlayTileIndexes :: "string \<Rightarrow> string \<Rightarrow> ('w, unit) fsa" where
  "ensureOverlayTileIndexes dataRoot overlayName =
     bindE (mapErrE (Wrap ''read overlay dir'') (ReadDir (Join2 dataRoot overlayName))) (\<lambda>versions.
       forE versions (ensureVersionTileIndex (Join2 dataRoot overlayName)))"

text \<open>
  \<open>errgroup\<close>: every function started runs to its end, \<open>Wait\<close> returns the first error. The overlays are
  disjoint directories, so the order in which their goroutines run does not show.
\<close>

primrec all_then_first_error :: "('w, unit) fsa list \<Rightarrow> gerror option \<Rightarrow> ('w, unit) fsa" where
  "all_then_first_error [] err = (case err of None \<Rightarrow> okE () | Some e \<Rightarrow> raiseE e)"
| "all_then_first_error (m # ms) err =
     tryE m (\<lambda>e. all_then_first_error ms (if err = None then Some e else err)) (\<lambda>_. all_then_first_error ms err)"

definition EnsureTileIndexes :: "string \<Rightarrow> ('w, unit) fsa" where
  "EnsureTileIndexes dataRoot =
     tryE (ReadDir dataRoot)
       (\<lambda>e. if errors_Is e ErrNotExist then okE () else raiseE (Wrap ''read data root'' e))
       (\<lambda>overlays. all_then_first_error
          (map (\<lambda>(name, n). ensureOverlayTileIndexes dataRoot name) (filter (\<lambda>(name, n). n = FDir) overlays)) None)"

section \<open>The database is left alone\<close>

lemma writeExtractedFile_wf [pres]: "preserves store_wf (writeExtractedFile c p)"
  unfolding writeExtractedFile_def by (intro pres)

lemma extractZipFile_wf [pres]: "preserves store_wf (extractZipFile f p)"
  unfolding extractZipFile_def by (auto split: sum.split intro: pres)

lemma extractZipEntry_wf [pres]: "preserves store_wf (extractZipEntry d f)"
  unfolding extractZipEntry_def by (intro pres)

lemma extractZip_wf [pres]: "preserves store_wf (extractZip lib p d)"
  unfolding extractZip_def by (intro pres) (auto split: sum.split intro!: pres)

lemma extractTarEntry_wf [pres]: "preserves store_wf (extractTarEntry d f)"
  unfolding extractTarEntry_def Let_def by (intro pres)

lemma extractTar_wf [pres]: "preserves store_wf (extractTar lib p d g)"
  unfolding extractTar_def by (intro pres) (auto split: sum.split intro!: pres)

lemma sniffArchiveFormat_wf [pres]: "preserves store_wf (sniffArchiveFormat p)"
  unfolding sniffArchiveFormat_def by (intro pres)

lemma ExtractArchive_wf [pres]: "preserves store_wf (ExtractArchive lib rnd p d)"
  unfolding ExtractArchive_def Let_def
  by (intro pres) (auto split: archiveFormat.split intro!: pres)

lemma scanZoomTiles_wf [pres]: "preserves store_wf (scanZoomTiles d zn z)"
  unfolding scanZoomTiles_def by (intro pres) (auto split: prod.split option.split intro!: pres)

lemma scanTileCoords_wf [pres]: "preserves store_wf (scanTileCoords d)"
  unfolding scanTileCoords_def by (intro pres) (auto split: prod.split option.split intro!: pres)

lemma WriteTileIndex_wf [pres]: "preserves store_wf (WriteTileIndex d)"
  unfolding WriteTileIndex_def by (intro pres)

section \<open>Extraction stays inside its directory\<close>

text \<open>The names an extracted file or directory can have, relative to the directory extracted into.\<close>

definition tile_path :: "fpath \<Rightarrow> bool" where
  "tile_path segs \<longleftrightarrow> segs \<noteq> [] \<and> list_all all_digits (butlast segs) \<and>
     (all_digits (last segs) \<or> numericPNG (last segs))"

lemma numericPNG_plain: "numericPNG w \<Longrightarrow> plain_name w"
proof -
  assume "numericPNG w"
  then obtain r where r: "w = r @ ''.png''" "all_digits r"
    by (auto simp: numericPNG_def HasSuffix_iff TrimSuffix_def)
  then have "plain_name r" by (simp add: all_digits_plain)
  with r(1) show ?thesis by (auto simp: plain_name_def append_eq_Cons_conv)
qed

lemma tile_path_plain: "tile_path segs \<Longrightarrow> w \<in> set segs \<Longrightarrow> plain_name w"
proof -
  assume t: "tile_path segs" and w: "w \<in> set segs"
  then have "set segs = insert (last segs) (set (butlast segs))"
    by (cases segs rule: rev_cases) (auto simp: tile_path_def)
  with w t show "plain_name w"
    by (auto simp: tile_path_def list_all_iff all_digits_plain numericPNG_plain)
qed

text \<open>What a name that passes the check resolves to.\<close>

lemma resolveExtractTarget_Some:
  assumes "resolveExtractTarget c name = Some t"
  shows "\<exists>segs. tile_path segs \<and> (HasSuffix name ''/'' \<longrightarrow> list_all all_digits segs) \<and>
           t = Join2 c (join_with (CHR ''/'') segs)"
proof -
  let ?s = "Split (TrimSlash name) (CHR ''/'')"
  have v: "validateExtractedEntryName name" and t: "t = Join2 c (TrimSlash name)"
    using assms by (auto simp: resolveExtractTarget_def Let_def split: if_splits)
  have "?s \<noteq> []" by simp
  moreover have "list_all all_digits (butlast ?s)"
    using v by (auto simp: validateExtractedEntryName_def Let_def list_all_iff split: if_splits dest: in_set_butlastD)
  moreover have "all_digits (last ?s) \<or> numericPNG (last ?s)"
    using v by (auto simp: validateExtractedEntryName_def Let_def list_all_iff split: if_splits)
  moreover have "HasSuffix name ''/'' \<longrightarrow> list_all all_digits ?s"
    using v by (auto simp: validateExtractedEntryName_def Let_def split: if_splits)
  ultimately have "tile_path ?s \<and> (HasSuffix name ''/'' \<longrightarrow> list_all all_digits ?s) \<and>
      t = Join2 c (join_with (CHR ''/'') ?s)"
    using t by (simp add: tile_path_def join_Split)
  then show ?thesis by blast
qed

lemma resolveExtractTarget_path:
  assumes "resolveExtractTarget c name = Some t" and "c \<noteq> []"
  shows "\<exists>segs. tile_path segs \<and> (HasSuffix name ''/'' \<longrightarrow> list_all all_digits segs) \<and>
           path_of t = path_of c @ segs \<and> (clean_parts c \<noteq> [] \<longrightarrow> path_of (Dir t) = path_of c @ butlast segs)"
proof -
  obtain segs where s: "tile_path segs" "HasSuffix name ''/'' \<longrightarrow> list_all all_digits segs"
    "t = Join2 c (join_with (CHR ''/'') segs)"
    using resolveExtractTarget_Some [OF assms(1)] by blast
  have "segs \<noteq> []" "\<forall>w\<in>set segs. plain_name w" using s(1) tile_path_plain by (auto simp: tile_path_def)
  with s assms(2) show ?thesis by (auto simp: path_of_Join2 path_of_Dir)
qed

text \<open>
  Two disks that differ only below \<open>base\<close>, by files and directories with such names, and by directories
  made on the way to \<open>base\<close>.
\<close>

definition confined :: "fpath \<Rightarrow> disk \<Rightarrow> disk \<Rightarrow> bool" where
  "confined base d d' \<longleftrightarrow> (\<forall>p. map_of d' p \<noteq> map_of d p \<longrightarrow>
     (\<exists>segs. tile_path segs \<and> p = base @ segs) \<or> prefix p base \<and> map_of d' p = Some FDir)"

lemma confined_refl [simp]: "confined base d d"
  by (simp add: confined_def)

lemma confined_trans: "confined base d d' \<Longrightarrow> confined base d' d'' \<Longrightarrow> confined base d d''"
  unfolding confined_def by metis

lemma map_of_mkdirs:
  "map_of (fold mkdir1 ps d) p \<noteq> map_of d p \<Longrightarrow> p \<in> set ps \<and> map_of (fold mkdir1 ps d) p = Some FDir"
proof (induction ps arbitrary: d)
  case (Cons q ps)
  show ?case
  proof (cases "map_of (fold mkdir1 ps (mkdir1 q d)) p = map_of (mkdir1 q d) p")
    case True
    with Cons.prems have "map_of (mkdir1 q d) p \<noteq> map_of d p" by simp
    then have "p = q \<and> map_of (mkdir1 q d) p = Some FDir" by (auto simp: mkdir1_def split: if_splits)
    with True show ?thesis by (metis fold_simps(2) list.set_intros(1))
  next
    case False
    with Cons.IH [of "mkdir1 q d"] show ?thesis by simp
  qed
qed simp

lemma tile_path_digits: "list_all all_digits segs \<Longrightarrow> segs \<noteq> [] \<Longrightarrow> tile_path segs"
  by (auto simp: tile_path_def list_all_iff dest: in_set_butlastD)

lemma tile_path_take: "tile_path segs \<Longrightarrow> take k segs \<noteq> [] \<Longrightarrow> tile_path (take k segs)"
proof (cases "length segs \<le> k")
  case False
  assume t: "tile_path segs" and ne: "take k segs \<noteq> []"
  have "take k segs = take k (butlast segs)" using False by (simp add: take_butlast)
  then have "list_all all_digits (take k segs)"
    using t by (auto simp: tile_path_def list_all_iff dest: in_set_takeD)
  with ne show ?thesis by (simp add: tile_path_digits)
qed simp

lemma confined_mkdirall:
  assumes "fs_mkdirall (base @ segs) d = Inr (x, d')" and "segs = [] \<or> tile_path segs"
  shows "confined base d d'"
  unfolding confined_def
proof (intro allI impI)
  fix p assume ne: "map_of d' p \<noteq> map_of d p"
  let ?ps = "proper_prefixes (base @ segs) @ [base @ segs]"
  have d': "d' = fold mkdir1 ?ps d" using assms(1) by (auto simp: fs_mkdirall_def split: if_splits)
  from map_of_mkdirs [of ?ps d p] ne have p: "p \<in> set ?ps" "map_of d' p = Some FDir" unfolding d' by auto
  have "set ?ps \<subseteq> {take n (base @ segs) |n. True}"
    by (auto simp: proper_prefixes_def intro: exI [of _ "length base + length segs"])
  then obtain n where n: "p = take n (base @ segs)" using p(1) by blast
  show "(\<exists>segs. tile_path segs \<and> p = base @ segs) \<or> prefix p base \<and> map_of d' p = Some FDir"
  proof (cases "take (n - length base) segs = []")
    case True
    have "p = take n base @ take (n - length base) segs" using n by simp
    then have "prefix p base" using True by (simp only: append_Nil2 take_is_prefix)
    with p show ?thesis by blast
  next
    case False
    then have "tile_path (take (n - length base) segs)" using assms(2) tile_path_take by auto
    moreover have "p = base @ take (n - length base) segs" using n False by simp
    ultimately show ?thesis by blast
  qed
qed

lemma confined_write:
  assumes "fs_write (base @ segs) c d = Inr (x, d')" and "tile_path segs"
  shows "confined base d d'"
proof -
  have "map_of d' p = map_of d p" if "p \<noteq> base @ segs" for p
  proof -
    have "map_of (filter (\<lambda>(q, n). q \<noteq> base @ segs) d) p = map_of d p"
      using that by (induction d) auto
    with that assms(1) show ?thesis by (auto simp: fs_write_def split: if_splits)
  qed
  with assms(2) show ?thesis unfolding confined_def by blast
qed

abbreviation kept_confined :: "fpath \<Rightarrow> disk \<Rightarrow> 'w world_scheme \<Rightarrow> bool" where
  "kept_confined base d0 w \<equiv> confined base d0 (disk w)"

lemma confined_fs_op:
  assumes "\<And>d x d'. f d = Inr (x, d') \<Longrightarrow> confined base d d'"
  shows "preserves (kept_confined base d0) (fs_op f)"
  using assms confined_trans by (fastforce simp: preserves_def fs_op_def split: sum.split)

lemma confined_query: "preserves (kept_confined base d0) (fs_query f)"
  unfolding fs_query_def by (rule confined_fs_op) (auto split: sum.splits)

lemma confined_WriteFile:
  "path_of t = base @ segs \<Longrightarrow> tile_path segs \<Longrightarrow> preserves (kept_confined base d0) (WriteFile t c)"
  unfolding WriteFile_def by (rule confined_fs_op) (simp add: confined_write)

lemma confined_MkdirAll:
  "path_of t = base @ segs \<Longrightarrow> segs = [] \<or> tile_path segs \<Longrightarrow> preserves (kept_confined base d0) (MkdirAll t)"
  unfolding MkdirAll_def by (rule confined_fs_op) (metis confined_mkdirall)

lemma tile_path_butlast: "tile_path segs \<Longrightarrow> butlast segs = [] \<or> tile_path (butlast segs)"
  using tile_path_digits by (auto simp: tile_path_def)

text \<open>
  Both kinds of entry make directories and write a file only at the target their name resolves to. So what the two calls
  keep at the targets below \<open>dest\<close>, the readers of archives keep.
\<close>

locale kept_at_targets =
  fixes P :: "'w world_scheme \<Rightarrow> bool" and dest :: string
  assumes reading: "preserves P (os_ReadFile p)"
    and writing: "path_of t = path_of dest @ segs \<Longrightarrow> tile_path segs \<Longrightarrow> preserves P (WriteFile t c)"
    and making: "path_of t = path_of dest @ segs \<Longrightarrow> segs = [] \<or> tile_path segs \<Longrightarrow> preserves P (MkdirAll t)"
begin

lemma target:
  assumes "resolveExtractTarget (Clean dest) name = Some t" and "path_of dest \<notin> {[], [''/'']}"
  shows "preserves P (MkdirAll t)" and "preserves P (MkdirAll (Dir t))" and "preserves P (writeExtractedFile c t)"
proof -
  have "clean_parts (Clean dest) \<noteq> []"
    using assms(2) path_of_Clean [of dest] by (auto simp: path_of_def split: if_splits)
  then obtain segs where s: "tile_path segs" "path_of t = path_of dest @ segs"
    "path_of (Dir t) = path_of dest @ butlast segs"
    using resolveExtractTarget_path [OF assms(1)] by auto
  then show "preserves P (MkdirAll t)" "preserves P (MkdirAll (Dir t))"
    using tile_path_butlast by (auto intro: making)
  show "preserves P (writeExtractedFile c t)"
    unfolding writeExtractedFile_def by (intro pres writing [OF s(2,1)])
qed

lemma zip_entry: "path_of dest \<notin> {[], [''/'']} \<Longrightarrow> preserves P (extractZipEntry (Clean dest) f)"
  unfolding extractZipEntry_def extractZipFile_def by (auto split: option.split sum.split intro!: pres target)

lemma tar_entry: "path_of dest \<notin> {[], [''/'']} \<Longrightarrow> preserves P (extractTarEntry (Clean dest) f)"
  unfolding extractTarEntry_def Let_def by (auto split: option.split intro!: pres target)

lemma kept_by_extractZip: "path_of dest \<notin> {[], [''/'']} \<Longrightarrow> preserves P (extractZip lib p dest)"
  unfolding extractZip_def by (auto split: sum.split intro!: pres reading zip_entry)

lemma kept_by_extractTar: "path_of dest \<notin> {[], [''/'']} \<Longrightarrow> preserves P (extractTar lib p dest g)"
  unfolding extractTar_def by (auto split: sum.split prod.split option.split intro!: pres reading tar_entry)

end

interpretation confined: kept_at_targets "kept_confined (path_of dest) d0" dest for dest d0
  by unfold_locales (simp_all add: os_ReadFile_def confined_query confined_WriteFile confined_MkdirAll)

lemmas confined_extractZip = confined.kept_by_extractZip and confined_extractTar = confined.kept_by_extractTar

end
