(* ===== verification/Access.thy ===== *)
theory Access
  imports HttpUtil
begin

text \<open>
  Who may do what: the guards of \<open>internal/webserver/authz.go\<close> and \<open>maps.go\<close>, and the resolution of a
  \<open>{version}\<close> path segment that every version route goes through.
\<close>

section \<open>Guards on global permissions\<close>

definition RequireAuthenticated :: "request \<Rightarrow> ('w, unit) hnd" where
  "RequireAuthenticated r = (if ctxUsername r = [] then fail 401 ''missing bearer token'' else okE ())"

definition GetPermissionsOrFail :: "request \<Rightarrow> ('w, Permissions) hnd" where
  "GetPermissionsOrFail r =
     attempt (GetPermissions (ctxUsername r)) (\<lambda>_. http_Error 500 ''failed to check permissions'')"

definition RequirePermission :: "request \<Rightarrow> (Permissions \<Rightarrow> bool) \<Rightarrow> ('w, unit) hnd" where
  "RequirePermission r allowed =
     bindE (GetPermissionsOrFail r) (\<lambda>perms. if \<not> allowed perms then fail 403 ''forbidden'' else okE ())"

definition RequireAdmin :: "request \<Rightarrow> ('w, unit) hnd" where
  "RequireAdmin r = RequirePermission r p_IsAdmin"

definition CurrentPermissionsHandler :: "request \<Rightarrow> ('w, response) hnd" where
  "CurrentPermissionsHandler r =
     bindE (GetPermissionsOrFail r) (\<lambda>perms. WriteJSON 200 (JPermissions perms))"

section \<open>Guards on a map\<close>

definition apiKeyMapAllowed :: "request \<Rightarrow> uuid \<Rightarrow> ('w, bool) sto" where
  "apiKeyMapAllowed r mapID =
     (case ctxAPIKeyID r of None \<Rightarrow> okE True | Some keyID \<Rightarrow> APIKeyCanAccessMap keyID mapID)"

definition apiKeyMapVersionAllowed :: "request \<Rightarrow> uuid \<Rightarrow> string \<Rightarrow> ('w, bool) sto" where
  "apiKeyMapVersionAllowed r mapID version =
     (case ctxAPIKeyID r of None \<Rightarrow> okE True | Some keyID \<Rightarrow> APIKeyCanAccessMapVersion keyID mapID version)"

definition isMapOwner :: "uuid \<Rightarrow> string \<Rightarrow> ('w, bool) sto" where
  "isMapOwner mapID username =
     tryE (GetMap mapID)
       (\<lambda>e. if errors_Is e ErrMapNotFound then okE False else raiseE e)
       (\<lambda>m. okE (m_Owner m = username))"

definition ownerOrMapAllowed :: "uuid \<Rightarrow> string \<Rightarrow> (MapPermission \<Rightarrow> bool) \<Rightarrow> ('w, bool) sto" where
  "ownerOrMapAllowed mapID username mapAllowed =
     bindE (isMapOwner mapID username) (\<lambda>owner.
       if owner then okE True
       else bindE (GetMapPermission mapID username) (\<lambda>mp. okE (mapAllowed mp)))"

definition check_failed :: "gerror \<Rightarrow> response" where
  "check_failed _ = http_Error 500 ''failed to check permissions''"

definition forbid_unless :: "bool \<Rightarrow> ('w, unit) hnd" where
  "forbid_unless allowed = (if \<not> allowed then fail 403 ''forbidden'' else okE ())"

definition requireMapPermission ::
  "request \<Rightarrow> uuid \<Rightarrow> (Permissions \<Rightarrow> bool) \<Rightarrow> (MapPermission \<Rightarrow> bool) \<Rightarrow> ('w, unit) hnd" where
  "requireMapPermission r mapID globalAllowed mapAllowed =
     bindE (GetPermissionsOrFail r) (\<lambda>perms.
     bindE (if \<not> p_IsAdmin perms \<and> \<not> globalAllowed perms
            then bindE (attempt (ownerOrMapAllowed mapID (ctxUsername r) mapAllowed) check_failed) forbid_unless
            else okE ()) (\<lambda>_.
     bindE (attempt (apiKeyMapAllowed r mapID) check_failed) forbid_unless))"

definition requireMapAdmin :: "request \<Rightarrow> uuid \<Rightarrow> ('w, unit) hnd" where
  "requireMapAdmin r mapID =
     bindE (GetPermissionsOrFail r) (\<lambda>perms.
       if p_IsAdmin perms then okE ()
       else bindE (attempt (isMapOwner mapID (ctxUsername r)) check_failed) forbid_unless)"

definition userCanViewMap :: "MapRecord \<Rightarrow> string \<Rightarrow> ('w, bool) sto" where
  "userCanViewMap m username =
     (if m_VisibleToAll m \<or> m_Owner m = username then okE True
      else bindE (GetPermissions username) (\<lambda>perms.
        if GrantsMapVisibility perms then okE True
        else bindE (GetMapPermission (m_UUID m) username) (\<lambda>mp. okE (GrantsVisibility mp))))"

definition canViewMap :: "request \<Rightarrow> MapRecord \<Rightarrow> string \<Rightarrow> ('w, bool) sto" where
  "canViewMap r m username =
     bindE (userCanViewMap m username) (\<lambda>visible.
       if \<not> visible then okE False else apiKeyMapAllowed r (m_UUID m))"

definition requireMapView :: "request \<Rightarrow> MapRecord \<Rightarrow> ('w, unit) hnd" where
  "requireMapView r m = bindE (attempt (canViewMap r m (ctxUsername r)) check_failed) forbid_unless"

definition getViewableMap :: "request \<Rightarrow> uuid \<Rightarrow> ('w, MapRecord) hnd" where
  "getViewableMap r i =
     bindE (attempt (GetMap i) (writeStoreError ErrMapNotFound 404 ''map not found'' ''failed to get map'')) (\<lambda>m.
     bindE (requireMapView r m) (\<lambda>_. okE m))"

section \<open>The version segment\<close>

definition currentVersionKeyword :: string where "currentVersionKeyword = ''current''"

definition resolveCurrentVersion :: "uuid \<Rightarrow> ('w, string) hnd" where
  "resolveCurrentVersion i =
     bindE (attempt (GetCurrentVersion i) (writeStoreError ErrMapNotFound 404 ''map not found'' ''failed to get map''))
       (\<lambda>version. if version = [] then fail 404 ''map has no current version'' else okE version)"

datatype versionSegmentKind = versionSegmentCurrent | versionSegmentNumeric | versionSegmentAlias

definition classifyVersionSegment :: "string \<Rightarrow> versionSegmentKind" where
  "classifyVersionSegment segment =
     (if segment = currentVersionKeyword then versionSegmentCurrent
      else if all_digits segment then versionSegmentNumeric
      else versionSegmentAlias)"

definition resolveVersionSegment :: "request \<Rightarrow> uuid \<Rightarrow> string \<Rightarrow> ('w, string) hnd" where
  "resolveVersionSegment r i segment =
     bindE (case classifyVersionSegment segment of
              versionSegmentCurrent \<Rightarrow> resolveCurrentVersion i
            | versionSegmentNumeric \<Rightarrow> okE segment
            | versionSegmentAlias \<Rightarrow>
                attempt (GetMapVersionAlias i segment)
                  (writeStoreError ErrMapVersionAliasNotFound 404 ''alias not found'' ''failed to resolve alias''))
       (\<lambda>version.
          bindE (attempt (apiKeyMapVersionAllowed r i version) check_failed) (\<lambda>allowed.
          bindE (forbid_unless allowed) (\<lambda>_. okE version)))"

primrec filterMapsByScope :: "uuid \<Rightarrow> MapRecord list \<Rightarrow> ('w, MapRecord list) sto" where
  "filterMapsByScope keyID [] = okE []"
| "filterMapsByScope keyID (m # ms) =
     bindE (APIKeyCanAccessMap keyID (m_UUID m)) (\<lambda>allowed.
     bindE (filterMapsByScope keyID ms) (\<lambda>rest. okE (if allowed then m # rest else rest)))"

definition filterMapsByAPIKeyScope :: "request \<Rightarrow> MapRecord list \<Rightarrow> ('w, MapRecord list) sto" where
  "filterMapsByAPIKeyScope r maps =
     (case ctxAPIKeyID r of None \<Rightarrow> okE maps | Some keyID \<Rightarrow> filterMapsByScope keyID maps)"

definition validateAliasName :: "string \<Rightarrow> ('w, unit) hnd" where
  "validateAliasName alias =
     (if alias = [] then fail 400 ''alias is required''
      else if alias = currentVersionKeyword then fail 400 ''alias may not be \"current\" (reserved keyword)''
      else if all_digits alias then fail 400 ''alias may not be purely numeric (would be ambiguous with a real version)''
      else okE ())"

section \<open>Invariants\<close>

lemma RequireAuthenticated_pres [pres]: "preserves P (RequireAuthenticated r)"
  unfolding RequireAuthenticated_def by (intro pres)

lemma GetPermissionsOrFail_wf [pres]: "preserves store_wf (GetPermissionsOrFail r)"
  unfolding GetPermissionsOrFail_def by (intro pres)

lemma RequirePermission_wf [pres]: "preserves store_wf (RequirePermission r a)"
  unfolding RequirePermission_def by (intro pres)

lemma RequireAdmin_wf [pres]: "preserves store_wf (RequireAdmin r)"
  unfolding RequireAdmin_def by (intro pres)

lemma CurrentPermissionsHandler_wf [pres]: "preserves store_wf (CurrentPermissionsHandler r)"
  unfolding CurrentPermissionsHandler_def by (intro pres)

lemma apiKeyMapAllowed_wf [pres]: "preserves store_wf (apiKeyMapAllowed r i)"
  unfolding apiKeyMapAllowed_def by (intro pres)

lemma apiKeyMapVersionAllowed_wf [pres]: "preserves store_wf (apiKeyMapVersionAllowed r i v)"
  unfolding apiKeyMapVersionAllowed_def by (intro pres)

lemma isMapOwner_wf [pres]: "preserves store_wf (isMapOwner i u)"
  unfolding isMapOwner_def by (intro pres)

lemma ownerOrMapAllowed_wf [pres]: "preserves store_wf (ownerOrMapAllowed i u a)"
  unfolding ownerOrMapAllowed_def by (intro pres)

lemma forbid_unless_pres [pres]: "preserves P (forbid_unless b)"
  unfolding forbid_unless_def by (intro pres)

lemma requireMapPermission_wf [pres]: "preserves store_wf (requireMapPermission r i g a)"
  unfolding requireMapPermission_def by (intro pres)

lemma requireMapAdmin_wf [pres]: "preserves store_wf (requireMapAdmin r i)"
  unfolding requireMapAdmin_def by (intro pres)

lemma userCanViewMap_wf [pres]: "preserves store_wf (userCanViewMap m u)"
  unfolding userCanViewMap_def by (intro pres)

lemma canViewMap_wf [pres]: "preserves store_wf (canViewMap r m u)"
  unfolding canViewMap_def by (intro pres)

lemma requireMapView_wf [pres]: "preserves store_wf (requireMapView r m)"
  unfolding requireMapView_def by (intro pres)

lemma getViewableMap_wf [pres]: "preserves store_wf (getViewableMap r i)"
  unfolding getViewableMap_def by (intro pres)

lemma resolveCurrentVersion_wf [pres]: "preserves store_wf (resolveCurrentVersion i)"
  unfolding resolveCurrentVersion_def by (intro pres)

lemma resolveVersionSegment_wf [pres]: "preserves store_wf (resolveVersionSegment r i seg)"
  unfolding resolveVersionSegment_def
  by (cases "classifyVersionSegment seg") (simp_all, (intro pres)+)

lemma filterMapsByScope_wf [pres]: "preserves store_wf (filterMapsByScope k ms)"
  by (induction ms) (simp_all, (intro pres | assumption)+)

lemma filterMapsByAPIKeyScope_wf [pres]: "preserves store_wf (filterMapsByAPIKeyScope r ms)"
  unfolding filterMapsByAPIKeyScope_def by (intro pres)

lemma validateAliasName_pres [pres]: "preserves P (validateAliasName a)"
  unfolding validateAliasName_def by (intro pres)

end
