(* ===== verification/MapHandlers.thy ===== *)
theory MapHandlers
  imports Access
begin

text \<open>
  The handlers that only touch the store and act on a map: \<open>internal/webserver/maps.go\<close>,
  \<open>map_aliases.go\<close> and \<open>geo_objects.go\<close>. A handler takes the request, the decoded body where it reads one
  (\<open>None\<close> when it does not decode) and the fresh UUID where it creates something. The detail text of an
  audit entry is built with \<open>fmt.Sprintf\<close>, here by concatenation.
\<close>

definition show_bool :: "bool \<Rightarrow> string" where
  "show_bool b = (if b then ''true'' else ''false'')"

record mapRequest =
  mr_Name :: string
  mr_CurrentVersion :: string
  mr_VisibleToAll :: bool
  mr_AnonymousAllowed :: bool

definition map_detail :: "webenv \<Rightarrow> MapRecord \<Rightarrow> string" where
  "map_detail env m = ''name='' @ Quote env (m_Name m) @ '' visibleToAll='' @ show_bool (m_VisibleToAll m) @
     '' anonymousAllowed='' @ show_bool (m_AnonymousAllowed m)"

section \<open>Maps\<close>

definition MapsListHandler :: "request \<Rightarrow> ('w, response) hnd" where
  "MapsListHandler r =
     bindE (GetPermissionsOrFail r) (\<lambda>perms.
     bindE (QueryBoolParam r ''visibleToAll'') (\<lambda>visibleToAll.
     bindE (QueryBoolParam r ''anonymousAllowed'') (\<lambda>anonymousAllowed.
     bindE (attempt (ListMaps (ctxUsername r) (GrantsMapVisibility perms)
              \<lparr>mf_Name = QueryGet r ''name'', mf_CreatedBy = QueryGet r ''createdBy'',
               mf_VisibleToAll = visibleToAll, mf_AnonymousAllowed = anonymousAllowed\<rparr>)
              (\<lambda>_. http_Error 500 ''failed to list maps'')) (\<lambda>maps.
     bindE (attempt (filterMapsByAPIKeyScope r maps) (\<lambda>_. http_Error 500 ''failed to list maps'')) (\<lambda>maps'.
     WriteJSON 200 (JMaps maps'))))))"

definition MapCreateHandler :: "webenv \<Rightarrow> uuid \<Rightarrow> request \<Rightarrow> mapRequest option \<Rightarrow> ('w, response) hnd" where
  "MapCreateHandler env uid r reqBody =
     bindE (RequirePermission r p_CanCreate) (\<lambda>_.
     bindE (DecodeJSON reqBody) (\<lambda>req.
     if mr_Name req = [] then fail 400 ''name is required'' else
     bindE (attempt (CreateMap uid (mr_Name req) (mr_CurrentVersion req) (mr_VisibleToAll req)
              (mr_AnonymousAllowed req) (ctxUsername r)) (\<lambda>_. http_Error 500 ''failed to create map'')) (\<lambda>m.
     bindE (RecordAudit r ''create'' ''map'' (uuid_String env (m_UUID m)) (map_detail env m)) (\<lambda>_.
     WriteJSON 201 (JMap m)))))"

definition GetMapHandler :: "webenv \<Rightarrow> request \<Rightarrow> ('w, response) hnd" where
  "GetMapHandler env r =
     bindE (PathUUID env r ''id'' ''map id'') (\<lambda>i.
     bindE (getViewableMap r i) (\<lambda>m. WriteJSON 200 (JMap m)))"

definition updateMapItem :: "webenv \<Rightarrow> request \<Rightarrow> mapRequest option \<Rightarrow> uuid \<Rightarrow> ('w, response) hnd" where
  "updateMapItem env r reqBody i =
     bindE (requireMapPermission r i p_CanEdit mp_CanEdit) (\<lambda>_.
     bindE (DecodeJSON reqBody) (\<lambda>req.
     if mr_Name req = [] then fail 400 ''name is required'' else
     bindE (attempt (UpdateMap i (mr_Name req) (mr_CurrentVersion req) (mr_VisibleToAll req)
              (mr_AnonymousAllowed req) (ctxUsername r))
              (writeStoreError ErrMapNotFound 404 ''map not found'' ''failed to update map'')) (\<lambda>m.
     bindE (RecordAudit r ''update'' ''map'' (uuid_String env (m_UUID m)) (map_detail env m)) (\<lambda>_.
     WriteJSON 200 (JMap m)))))"

definition UpdateMapHandler :: "webenv \<Rightarrow> request \<Rightarrow> mapRequest option \<Rightarrow> ('w, response) hnd" where
  "UpdateMapHandler env r reqBody =
     bindE (PathUUID env r ''id'' ''map id'') (updateMapItem env r reqBody)"

definition MapVersionsHandler :: "webenv \<Rightarrow> request \<Rightarrow> ('w, response) hnd" where
  "MapVersionsHandler env r =
     bindE (PathUUID env r ''id'' ''map id'') (\<lambda>i.
     bindE (getViewableMap r i) (\<lambda>_.
     bindE (attempt (ListMapVersions i)
              (writeStoreError ErrMapNotFound 404 ''map not found'' ''failed to list map versions'')) (\<lambda>versions.
     case ctxAPIKeyID r of
       None \<Rightarrow> WriteJSON 200 (JVersions versions)
     | Some keyID \<Rightarrow>
         bindE (attempt (APIKeyScopedVersions keyID i) (\<lambda>_. http_Error 500 ''failed to list map versions'')) (\<lambda>restricted.
         case restricted of
           None \<Rightarrow> WriteJSON 200 (JVersions versions)
         | Some allowed \<Rightarrow>
             WriteJSON 200 (JVersions (filter (\<lambda>v. vr_Version v \<in> set allowed) versions))))))"

section \<open>Permissions and ownership\<close>

definition perm_detail :: "MapPermission \<Rightarrow> string" where
  "perm_detail p = ''view='' @ show_bool (mp_CanView p) @ '' edit='' @ show_bool (mp_CanEdit p) @
     '' delete='' @ show_bool (mp_CanDelete p) @ '' editGeo='' @ show_bool (mp_CanEditGeoObjects p) @
     '' deleteGeo='' @ show_bool (mp_CanDeleteGeoObjects p)"

text \<open>\<open>mapPermissionRequest\<close> and \<open>groupMapPermissionRequest\<close> have the five fields of \<open>MapPermission\<close>.\<close>

definition MapPermissionsListHandler :: "webenv \<Rightarrow> request \<Rightarrow> ('w, response) hnd" where
  "MapPermissionsListHandler env r =
     bindE (PathUUID env r ''id'' ''map id'') (\<lambda>i.
     bindE (requireMapAdmin r i) (\<lambda>_.
     bindE (attempt (ListMapPermissions i) (\<lambda>_. http_Error 500 ''failed to list map permissions'')) (\<lambda>perms.
     WriteJSON 200 (JMapPerms perms))))"

definition MapPermissionSetHandler :: "webenv \<Rightarrow> request \<Rightarrow> MapPermission option \<Rightarrow> ('w, response) hnd" where
  "MapPermissionSetHandler env r reqBody =
     bindE (PathUUID env r ''id'' ''map id'') (\<lambda>i.
     bindE (requireMapAdmin r i) (\<lambda>_.
     bindE (DecodeJSON reqBody) (\<lambda>req.
     bindE (attempt (SetMapPermission i (PathValue r ''username'') req (ctxUsername r))
              (writeStoreError ErrMapPermissionInvalid 400 ''map or username does not exist''
                 ''failed to set map permission'')) (\<lambda>p.
     bindE (RecordAudit r ''grant'' ''map_permission'' (uuid_String env i @ '':'' @ PathValue r ''username'')
              (perm_detail req)) (\<lambda>_.
     WriteJSON 200 (JMapPerm p))))))"

definition MapPermissionDeleteHandler :: "webenv \<Rightarrow> request \<Rightarrow> ('w, response) hnd" where
  "MapPermissionDeleteHandler env r =
     bindE (PathUUID env r ''id'' ''map id'') (\<lambda>i.
     bindE (requireMapAdmin r i) (\<lambda>_.
     bindE (attempt (DeleteMapPermission i (PathValue r ''username''))
              (\<lambda>_. http_Error 500 ''failed to delete map permission'')) (\<lambda>_.
     bindE (RecordAudit r ''revoke'' ''map_permission'' (uuid_String env i @ '':'' @ PathValue r ''username'') []) (\<lambda>_.
     WriteHeader 204))))"

definition GroupMapPermissionsListHandler :: "webenv \<Rightarrow> request \<Rightarrow> ('w, response) hnd" where
  "GroupMapPermissionsListHandler env r =
     bindE (PathUUID env r ''id'' ''map id'') (\<lambda>i.
     bindE (requireMapAdmin r i) (\<lambda>_.
     bindE (attempt (ListGroupMapPermissions i) (\<lambda>_. http_Error 500 ''failed to list group map permissions'')) (\<lambda>perms.
     WriteJSON 200 (JGroupPerms perms))))"

definition GroupMapPermissionSetHandler :: "webenv \<Rightarrow> request \<Rightarrow> MapPermission option \<Rightarrow> ('w, response) hnd" where
  "GroupMapPermissionSetHandler env r reqBody =
     bindE (PathUUID env r ''id'' ''map id'') (\<lambda>i.
     bindE (requireMapAdmin r i) (\<lambda>_.
     bindE (PathUUID env r ''groupId'' ''group id'') (\<lambda>g.
     bindE (DecodeJSON reqBody) (\<lambda>req.
     bindE (attempt (SetGroupMapPermission i g req (ctxUsername r))
              (writeStoreError ErrMapPermissionInvalid 400 ''map or group does not exist''
                 ''failed to set group map permission'')) (\<lambda>p.
     bindE (RecordAudit r ''grant'' ''group_map_permission'' (uuid_String env i @ '':'' @ uuid_String env g)
              (perm_detail req)) (\<lambda>_.
     WriteJSON 200 (JGroupPerm p)))))))"

definition GroupMapPermissionDeleteHandler :: "webenv \<Rightarrow> request \<Rightarrow> ('w, response) hnd" where
  "GroupMapPermissionDeleteHandler env r =
     bindE (PathUUID env r ''id'' ''map id'') (\<lambda>i.
     bindE (requireMapAdmin r i) (\<lambda>_.
     bindE (PathUUID env r ''groupId'' ''group id'') (\<lambda>g.
     bindE (attempt (DeleteGroupMapPermission i g) (\<lambda>_. http_Error 500 ''failed to delete group map permission'')) (\<lambda>_.
     bindE (RecordAudit r ''revoke'' ''group_map_permission'' (uuid_String env i @ '':'' @ uuid_String env g) []) (\<lambda>_.
     WriteHeader 204)))))"

definition MapOwnerGetHandler :: "webenv \<Rightarrow> request \<Rightarrow> ('w, response) hnd" where
  "MapOwnerGetHandler env r =
     bindE (PathUUID env r ''id'' ''map id'') (\<lambda>i.
     bindE (getViewableMap r i) (\<lambda>m. WriteJSON 200 (JOwner (m_Owner m))))"

definition MapOwnerSetHandler :: "webenv \<Rightarrow> request \<Rightarrow> string option \<Rightarrow> ('w, response) hnd" where
  "MapOwnerSetHandler env r reqBody =
     bindE (PathUUID env r ''id'' ''map id'') (\<lambda>i.
     bindE (requireMapAdmin r i) (\<lambda>_.
     bindE (DecodeJSON reqBody) (\<lambda>owner.
     if owner = [] then fail 400 ''owner is required'' else
     bindE (attempt (UpdateMapOwner i owner)
              (\<lambda>e. if errors_Is e ErrMapNotFound then http_Error 404 ''map not found''
                   else writeStoreError ErrUserNotFound 400 ''owner does not exist'' ''failed to update map owner'' e)) (\<lambda>m.
     bindE (RecordAudit r ''update'' ''map_owner'' (uuid_String env i) (''owner='' @ owner)) (\<lambda>_.
     WriteJSON 200 (JOwner (m_Owner m)))))))"

section \<open>Aliases\<close>

definition MapAliasesListHandler :: "webenv \<Rightarrow> request \<Rightarrow> ('w, response) hnd" where
  "MapAliasesListHandler env r =
     bindE (PathUUID env r ''id'' ''map id'') (\<lambda>i.
     bindE (getViewableMap r i) (\<lambda>_.
     bindE (attempt (ListMapVersionAliases i) (\<lambda>_. http_Error 500 ''failed to list aliases'')) (\<lambda>as.
     WriteJSON 200 (JAliases as))))"

definition MapAliasGetHandler :: "webenv \<Rightarrow> request \<Rightarrow> ('w, response) hnd" where
  "MapAliasGetHandler env r =
     bindE (PathUUID env r ''id'' ''map id'') (\<lambda>i.
     bindE (getViewableMap r i) (\<lambda>_.
     bindE (attempt (GetMapVersionAlias i (PathValue r ''alias''))
              (writeStoreError ErrMapVersionAliasNotFound 404 ''alias not found'' ''failed to get alias'')) (\<lambda>version.
     WriteJSON 200 (JAlias \<lparr>va_Alias = PathValue r ''alias'', va_Version = version, va_CreatedAt = 0,
        va_UpdatedAt = 0, va_CreatedBy = [], va_UpdatedBy = []\<rparr>))))"

definition MapAliasSetHandler :: "webenv \<Rightarrow> request \<Rightarrow> string option \<Rightarrow> ('w, response) hnd" where
  "MapAliasSetHandler env r reqBody =
     bindE (PathUUID env r ''id'' ''map id'') (\<lambda>i.
     bindE (requireMapPermission r i p_CanEdit mp_CanEdit) (\<lambda>_.
     bindE (validateAliasName (PathValue r ''alias'')) (\<lambda>_.
     bindE (DecodeJSON reqBody) (\<lambda>version.
     if version = [] then fail 400 ''version is required'' else
     bindE (attempt (SetMapVersionAlias i (PathValue r ''alias'') version (ctxUsername r))
              (writeStoreError ErrMapVersionAliasInvalid 400 ''map or version does not exist'' ''failed to set alias'')) (\<lambda>a.
     bindE (RecordAudit r ''update'' ''map_alias'' (uuid_String env i @ '':'' @ PathValue r ''alias'')
              (''version='' @ version)) (\<lambda>_.
     WriteJSON 200 (JAlias a)))))))"

definition MapAliasDeleteHandler :: "webenv \<Rightarrow> request \<Rightarrow> ('w, response) hnd" where
  "MapAliasDeleteHandler env r =
     bindE (PathUUID env r ''id'' ''map id'') (\<lambda>i.
     bindE (requireMapPermission r i p_CanEdit mp_CanEdit) (\<lambda>_.
     bindE (attempt (DeleteMapVersionAlias i (PathValue r ''alias'')) (\<lambda>_. http_Error 500 ''failed to delete alias'')) (\<lambda>_.
     bindE (RecordAudit r ''delete'' ''map_alias'' (uuid_String env i @ '':'' @ PathValue r ''alias'') []) (\<lambda>_.
     WriteHeader 204))))"

section \<open>Geo objects\<close>

record geoObjectRequest =
  gr_Name :: string
  gr_ExternalID :: string
  gr_Latitude :: "rat option"
  gr_Longitude :: "rat option"
  gr_Street :: string
  gr_HouseNumber :: string
  gr_Postcode :: string
  gr_City :: string
  gr_CityDistrict :: string

definition decodeGeoObjectRequest :: "geoObjectRequest option \<Rightarrow> ('w, geoFields) hnd" where
  "decodeGeoObjectRequest reqBody =
     bindE (DecodeJSON reqBody) (\<lambda>req.
       if gr_Name req = [] then fail 400 ''name is required''
       else case (gr_Latitude req, gr_Longitude req) of
         (Some lat, Some lon) \<Rightarrow>
           okE \<lparr>gf_Name = gr_Name req, gf_ExternalID = gr_ExternalID req, gf_Latitude = lat, gf_Longitude = lon,
                gf_Street = gr_Street req, gf_HouseNumber = gr_HouseNumber req, gf_Postcode = gr_Postcode req,
                gf_City = gr_City req, gf_CityDistrict = gr_CityDistrict req\<rparr>
       | _ \<Rightarrow> fail 400 ''latitude and longitude are required'')"

definition geoObjectFilterFromQuery :: "webenv \<Rightarrow> request \<Rightarrow> ('w, GeoObjectFilter) hnd" where
  "geoObjectFilterFromQuery env r =
     bindE (QueryFloatParam env r ''minLat'') (\<lambda>minLat.
     bindE (QueryFloatParam env r ''maxLat'') (\<lambda>maxLat.
     bindE (QueryFloatParam env r ''minLon'') (\<lambda>minLon.
     bindE (QueryFloatParam env r ''maxLon'') (\<lambda>maxLon.
     let given = length (filter (\<lambda>v. v \<noteq> None) [minLat, maxLat, minLon, maxLon])
     in if given \<noteq> 0 \<and> given \<noteq> 4 then fail 400 ''minLat, maxLat, minLon, and maxLon must be given together''
        else okE \<lparr>gof_Name = QueryGet r ''name'', gof_ExternalID = QueryGet r ''externalId'',
               gof_Street = QueryGet r ''street'', gof_Postcode = QueryGet r ''postcode'',
               gof_City = QueryGet r ''city'', gof_CityDistrict = QueryGet r ''cityDistrict'',
               gof_CreatedBy = QueryGet r ''createdBy'', gof_MinLat = minLat, gof_MaxLat = maxLat,
               gof_MinLon = minLon, gof_MaxLon = maxLon\<rparr>))))"

definition GeoObjectsListHandler :: "webenv \<Rightarrow> request \<Rightarrow> ('w, response) hnd" where
  "GeoObjectsListHandler env r =
     bindE (PathUUID env r ''id'' ''map id'') (\<lambda>mapID.
     bindE (getViewableMap r mapID) (\<lambda>_.
     bindE (resolveVersionSegment r mapID (PathValue r ''version'')) (\<lambda>version.
     bindE (geoObjectFilterFromQuery env r) (\<lambda>f.
     bindE (attempt (ListGeoObjects mapID version f) (\<lambda>_. http_Error 500 ''failed to list geo objects'')) (\<lambda>objs.
     WriteJSON 200 (JGeos objs))))))"

definition geo_detail :: "webenv \<Rightarrow> uuid \<Rightarrow> string \<Rightarrow> string" where
  "geo_detail env mapID version = ''map='' @ uuid_String env mapID @ '' version='' @ version"

definition GeoObjectCreateHandler ::
  "webenv \<Rightarrow> uuid \<Rightarrow> request \<Rightarrow> geoObjectRequest option \<Rightarrow> ('w, response) hnd" where
  "GeoObjectCreateHandler env uid r reqBody =
     bindE (PathUUID env r ''id'' ''map id'') (\<lambda>mapID.
     bindE (requireMapPermission r mapID p_CanEditGeoObjects mp_CanEditGeoObjects) (\<lambda>_.
     bindE (resolveVersionSegment r mapID (PathValue r ''version'')) (\<lambda>version.
     bindE (decodeGeoObjectRequest reqBody) (\<lambda>req.
     bindE (attempt (CreateGeoObject uid mapID version req (ctxUsername r))
              (writeStoreError ErrGeoObjectInvalid 400 ''map or version does not exist'' ''failed to create geo object'')) (\<lambda>g.
     bindE (RecordAudit r ''create'' ''geo_object'' (uuid_String env (go_UUID g))
              (geo_detail env mapID version @ '' name='' @ Quote env (go_Name g))) (\<lambda>_.
     WriteJSON 201 (JGeo g)))))))"

definition getScopedGeoObject :: "uuid \<Rightarrow> string \<Rightarrow> uuid \<Rightarrow> ('w, GeoObjectRecord) hnd" where
  "getScopedGeoObject mapID version i =
     bindE (attempt (GetGeoObject i)
              (writeStoreError ErrGeoObjectNotFound 404 ''geo object not found'' ''failed to get geo object'')) (\<lambda>g.
     if go_MapUUID g \<noteq> mapID \<or> go_Version g \<noteq> version then fail 404 ''geo object not found'' else okE g)"

definition GeoObjectGetHandler :: "webenv \<Rightarrow> request \<Rightarrow> ('w, response) hnd" where
  "GeoObjectGetHandler env r =
     bindE (PathUUID env r ''id'' ''map id'') (\<lambda>mapID.
     bindE (getViewableMap r mapID) (\<lambda>_.
     bindE (resolveVersionSegment r mapID (PathValue r ''version'')) (\<lambda>version.
     bindE (PathUUID env r ''objectId'' ''geo object id'') (\<lambda>i.
     bindE (getScopedGeoObject mapID version i) (\<lambda>g. WriteJSON 200 (JGeo g))))))"

definition GeoObjectUpdateHandler ::
  "webenv \<Rightarrow> request \<Rightarrow> geoObjectRequest option \<Rightarrow> ('w, response) hnd" where
  "GeoObjectUpdateHandler env r reqBody =
     bindE (PathUUID env r ''id'' ''map id'') (\<lambda>mapID.
     bindE (requireMapPermission r mapID p_CanEditGeoObjects mp_CanEditGeoObjects) (\<lambda>_.
     bindE (resolveVersionSegment r mapID (PathValue r ''version'')) (\<lambda>version.
     bindE (PathUUID env r ''objectId'' ''geo object id'') (\<lambda>i.
     bindE (decodeGeoObjectRequest reqBody) (\<lambda>req.
     bindE (attempt (UpdateGeoObject mapID version i req (ctxUsername r))
              (writeStoreError ErrGeoObjectNotFound 404 ''geo object not found'' ''failed to update geo object'')) (\<lambda>g.
     bindE (RecordAudit r ''update'' ''geo_object'' (uuid_String env (go_UUID g))
              (geo_detail env mapID version @ '' name='' @ Quote env (go_Name g))) (\<lambda>_.
     WriteJSON 200 (JGeo g))))))))"

definition GeoObjectDeleteHandler :: "webenv \<Rightarrow> request \<Rightarrow> ('w, response) hnd" where
  "GeoObjectDeleteHandler env r =
     bindE (PathUUID env r ''id'' ''map id'') (\<lambda>mapID.
     bindE (requireMapPermission r mapID p_CanDeleteGeoObjects mp_CanDeleteGeoObjects) (\<lambda>_.
     bindE (resolveVersionSegment r mapID (PathValue r ''version'')) (\<lambda>version.
     bindE (PathUUID env r ''objectId'' ''geo object id'') (\<lambda>i.
     bindE (attempt (DeleteGeoObject mapID version i)
              (writeStoreError ErrGeoObjectNotFound 404 ''geo object not found'' ''failed to delete geo object'')) (\<lambda>_.
     bindE (RecordAudit r ''delete'' ''geo_object'' (uuid_String env i) (geo_detail env mapID version)) (\<lambda>_.
     WriteHeader 204))))))"

section \<open>Invariants\<close>

lemma MapsListHandler_wf [pres]: "preserves store_wf (MapsListHandler r)"
  unfolding MapsListHandler_def by (intro pres)

lemma MapCreateHandler_wf [pres]: "preserves store_wf (MapCreateHandler env uid r b)"
  unfolding MapCreateHandler_def by (intro pres)

lemma GetMapHandler_wf [pres]: "preserves store_wf (GetMapHandler env r)"
  unfolding GetMapHandler_def by (intro pres)

lemma UpdateMapHandler_wf [pres]: "preserves store_wf (UpdateMapHandler env r b)"
  unfolding UpdateMapHandler_def updateMapItem_def by (intro pres)

lemma MapVersionsHandler_wf [pres]: "preserves store_wf (MapVersionsHandler env r)"
  unfolding MapVersionsHandler_def by (intro pres)

lemma MapPermissionsListHandler_wf [pres]: "preserves store_wf (MapPermissionsListHandler env r)"
  unfolding MapPermissionsListHandler_def by (intro pres)

lemma MapPermissionSetHandler_wf [pres]: "preserves store_wf (MapPermissionSetHandler env r b)"
  unfolding MapPermissionSetHandler_def by (intro pres)

lemma MapPermissionDeleteHandler_wf [pres]: "preserves store_wf (MapPermissionDeleteHandler env r)"
  unfolding MapPermissionDeleteHandler_def by (intro pres)

lemma GroupMapPermissionsListHandler_wf [pres]: "preserves store_wf (GroupMapPermissionsListHandler env r)"
  unfolding GroupMapPermissionsListHandler_def by (intro pres)

lemma GroupMapPermissionSetHandler_wf [pres]: "preserves store_wf (GroupMapPermissionSetHandler env r b)"
  unfolding GroupMapPermissionSetHandler_def by (intro pres)

lemma GroupMapPermissionDeleteHandler_wf [pres]: "preserves store_wf (GroupMapPermissionDeleteHandler env r)"
  unfolding GroupMapPermissionDeleteHandler_def by (intro pres)

lemma MapOwnerGetHandler_wf [pres]: "preserves store_wf (MapOwnerGetHandler env r)"
  unfolding MapOwnerGetHandler_def by (intro pres)

lemma MapOwnerSetHandler_wf [pres]: "preserves store_wf (MapOwnerSetHandler env r b)"
  unfolding MapOwnerSetHandler_def by (intro pres)

lemma MapAliasesListHandler_wf [pres]: "preserves store_wf (MapAliasesListHandler env r)"
  unfolding MapAliasesListHandler_def by (intro pres)

lemma MapAliasGetHandler_wf [pres]: "preserves store_wf (MapAliasGetHandler env r)"
  unfolding MapAliasGetHandler_def by (intro pres)

lemma MapAliasSetHandler_wf [pres]: "preserves store_wf (MapAliasSetHandler env r b)"
  unfolding MapAliasSetHandler_def by (intro pres)

lemma MapAliasDeleteHandler_wf [pres]: "preserves store_wf (MapAliasDeleteHandler env r)"
  unfolding MapAliasDeleteHandler_def by (intro pres)

lemma decodeGeoObjectRequest_pres [pres]: "preserves P (decodeGeoObjectRequest b)"
  unfolding decodeGeoObjectRequest_def by (intro pres)

lemma geoObjectFilterFromQuery_pres [pres]: "preserves P (geoObjectFilterFromQuery env r)"
  unfolding geoObjectFilterFromQuery_def Let_def by (intro pres)

lemma GeoObjectsListHandler_wf [pres]: "preserves store_wf (GeoObjectsListHandler env r)"
  unfolding GeoObjectsListHandler_def by (intro pres)

lemma GeoObjectCreateHandler_wf [pres]: "preserves store_wf (GeoObjectCreateHandler env uid r b)"
  unfolding GeoObjectCreateHandler_def by (intro pres)

lemma GeoObjectGetHandler_wf [pres]: "preserves store_wf (GeoObjectGetHandler env r)"
  unfolding GeoObjectGetHandler_def getScopedGeoObject_def by (intro pres)

lemma GeoObjectUpdateHandler_wf [pres]: "preserves store_wf (GeoObjectUpdateHandler env r b)"
  unfolding GeoObjectUpdateHandler_def by (intro pres)

lemma GeoObjectDeleteHandler_wf [pres]: "preserves store_wf (GeoObjectDeleteHandler env r)"
  unfolding GeoObjectDeleteHandler_def by (intro pres)

end
