(* ===== verification/Files.thy ===== *)
theory Files
  imports TileArchive MapHandlers
begin

text \<open>
  The handlers that touch the files: serving a tile, uploading and deleting (\<open>webserver/maps.go\<close>,
  \<open>upload.go\<close>), the archive of a version (\<open>map_archive.go\<close>) and its extent (\<open>map_bounds.go\<close>).
\<close>

type_synonym ('w, 'a) fhnd = "('w world_scheme, response, 'a) action"

section \<open>The extent of a version\<close>

definition errNoTiles :: gerror where "errNoTiles = ErrNoTiles"

text \<open>\<open>int\<close> has 64 bits and wraps.\<close>

definition wrap64 :: "int \<Rightarrow> int" where
  "wrap64 n = (n + 2 ^ 63) mod 2 ^ 64 - 2 ^ 63"

record extent =
  minX :: int
  minY :: int
  maxX :: int
  maxY :: int

definition grow :: "int \<Rightarrow> int \<Rightarrow> extent option \<Rightarrow> extent option" where
  "grow x y e = (case e of
      None \<Rightarrow> Some \<lparr>minX = x, minY = y, maxX = x, maxY = y\<rparr>
    | Some e \<Rightarrow> Some \<lparr>minX = min (minX e) x, minY = min (minY e) y, maxX = max (maxX e) x, maxY = max (maxY e) y\<rparr>)"

definition grow_column :: "int \<Rightarrow> (string \<times> fnode) list \<Rightarrow> extent option \<Rightarrow> extent option" where
  "grow_column x yEntries e = fold (\<lambda>(name, n) e.
     case Atoi (TrimSuffix name ''.png'') of
       None \<Rightarrow> e
     | Some y \<Rightarrow> if \<not> HasSuffix name ''.png'' then e else grow x y e) yEntries e"

definition tileExtentAtZoom :: "string \<Rightarrow> int \<Rightarrow> ('w, extent) fsa" where
  "tileExtentAtZoom versionDir z =
     (let zoomDir = Join2 versionDir (Itoa z) in
      bindE (mapErrE (Wrap ''read zoom dir'') (ReadDir zoomDir)) (\<lambda>xEntries.
      bindE (foldE (\<lambda>(xName, n) e.
               if n \<noteq> FDir then okE e
               else case Atoi xName of
                 None \<Rightarrow> okE e
               | Some x \<Rightarrow> tryE (ReadDir (Join2 zoomDir xName)) (\<lambda>_. okE e) (\<lambda>yEntries. okE (grow_column x yEntries e)))
             xEntries None) (\<lambda>e.
      case e of None \<Rightarrow> raiseE errNoTiles | Some ext \<Rightarrow> okE ext)))"

definition tileToLonLat :: "int \<Rightarrow> int \<Rightarrow> int \<Rightarrow> real \<times> real" where
  "tileToLonLat x y z =
     (let n = 2 powr real_of_int z;
          lon = real_of_int x / n * 360 - 180;
          latRad = arctan (sinh (pi * (1 - 2 * real_of_int y / n)))
      in (lon, latRad * 180 / pi))"

definition bounds_of :: "int \<Rightarrow> int \<Rightarrow> extent \<Rightarrow> tileBounds" where
  "bounds_of minZoom maxZoom e =
     (case (tileToLonLat (minX e) (minY e) minZoom,
            tileToLonLat (wrap64 (maxX e + 1)) (wrap64 (maxY e + 1)) minZoom) of
        ((west, north), (east, south)) \<Rightarrow>
          \<lparr>tb_MinZoom = minZoom, tb_MaxZoom = maxZoom, tb_West = west, tb_South = south, tb_East = east,
           tb_North = north, tb_CenterLng = (west + east) / 2, tb_CenterLat = (south + north) / 2\<rparr>)"

definition zoom_levels :: "(string \<times> fnode) list \<Rightarrow> int list" where
  "zoom_levels entries = sort (List.map_filter (\<lambda>(name, n). if n \<noteq> FDir then None else Atoi name) entries)"

definition computeTileBounds :: "string \<Rightarrow> ('w, tileBounds) fsa" where
  "computeTileBounds versionDir =
     tryE (ReadDir versionDir)
       (\<lambda>e. if errors_Is e ErrNotExist then raiseE errNoTiles else raiseE (Wrap ''read version dir'' e))
       (\<lambda>entries.
          let zooms = zoom_levels entries in
          if zooms = [] then raiseE errNoTiles
          else bindE (tileExtentAtZoom versionDir (hd zooms)) (\<lambda>e.
               okE (bounds_of (hd zooms) (last zooms) e)))"

definition cachedTileBounds :: "webenv \<Rightarrow> string \<Rightarrow> uuid \<Rightarrow> string \<Rightarrow> ('w, tileBounds) fsa" where
  "cachedTileBounds env dataRoot i version =
     bindE (getE (\<lambda>w. boundsCache w (i, version))) (\<lambda>cached.
       case cached of
         Some b \<Rightarrow> okE b
       | None \<Rightarrow>
           bindE (computeTileBounds (MapVersionDir env dataRoot i version)) (\<lambda>b.
           bindE (modifyE (\<lambda>w. w\<lparr>boundsCache := (boundsCache w)((i, version) := Some b)\<rparr>)) (\<lambda>_. okE b)))"

definition mapVersionBoundsHandler :: "webenv \<Rightarrow> string \<Rightarrow> uuid \<Rightarrow> string \<Rightarrow> ('w, response) fhnd" where
  "mapVersionBoundsHandler env dataRoot i version =
     (if \<not> all_digits version then fail 400 ''invalid version''
      else bindE (mapErrE (writeStoreError errNoTiles 404 ''no tiles found for this version'' ''failed to compute bounds'')
                   (cachedTileBounds env dataRoot i version)) (\<lambda>b. WriteJSON 200 (JBounds b)))"

definition MapVersionBoundsHandler :: "webenv \<Rightarrow> string \<Rightarrow> request \<Rightarrow> ('w, response) fhnd" where
  "MapVersionBoundsHandler env dataRoot r =
     bindE (PathUUID env r ''id'' ''map id'') (\<lambda>i.
     bindE (getViewableMap r i) (\<lambda>_.
     bindE (resolveVersionSegment r i (PathValue r ''version'')) (\<lambda>version.
     mapVersionBoundsHandler env dataRoot i version)))"

section \<open>The archive of a version\<close>

text \<open>
  The regular files below a directory in the order \<open>filepath.WalkDir\<close> meets them, with their paths relative
  to it.
\<close>

definition walk_files :: "fpath \<Rightarrow> disk \<Rightarrow> fpath list" where
  "walk_files p d = sort (map (\<lambda>(q, n). drop (length p) q) (filter (\<lambda>(q, n). prefix p q \<and> n \<noteq> FDir) d))"

text \<open>
  The walk stops at the first file it cannot read, which \<open>zw.Create\<close> has entered by then; the deferred
  \<open>zw.Close\<close> completes the archive all the same.
\<close>

fun zip_walk :: "fpath \<Rightarrow> fpath list \<Rightarrow> (string \<times> string) list \<Rightarrow> ('w, (string \<times> string) list) fhnd" where
  "zip_walk base [] zw = okE zw"
| "zip_walk base (rel # rels) zw =
     tryE (fs_query (fs_readfile (base @ rel)))
       (\<lambda>_. okE (zw @ [(join_with (CHR ''/'') rel, [])]))
       (\<lambda>c. zip_walk base rels (zw @ [(join_with (CHR ''/'') rel, c)]))"

definition mapVersionArchiveHandler :: "webenv \<Rightarrow> string \<Rightarrow> uuid \<Rightarrow> string \<Rightarrow> ('w, response) fhnd" where
  "mapVersionArchiveHandler env dataRoot i version =
     (if \<not> all_digits version then fail 400 ''invalid version''
      else let versionDir = MapVersionDir env dataRoot i version in
        bindE (mapErrE (\<lambda>_. http_Error 404 ''version not found'') (Stat versionDir)) (\<lambda>_.
        bindE (tryE (fs_query (\<lambda>d. Inr (walk_files (path_of versionDir) d))) (\<lambda>_. okE []) okE) (\<lambda>rels.
        bindE (zip_walk (path_of versionDir) rels []) (\<lambda>zw.
        okE \<lparr>status = 200, payload = ZipOf zw,
             headers = [(''Content-Type'', ''application/zip''),
                        (''Content-Disposition'', ''attachment; filename='' @ CHR 0x22 # ''version.zip'' @ [CHR 0x22])]\<rparr>))))"

definition MapVersionArchiveHandler :: "webenv \<Rightarrow> string \<Rightarrow> request \<Rightarrow> ('w, response) fhnd" where
  "MapVersionArchiveHandler env dataRoot r =
     bindE (PathUUID env r ''id'' ''map id'') (\<lambda>i.
     bindE (getViewableMap r i) (\<lambda>_.
     bindE (resolveVersionSegment r i (PathValue r ''version'')) (\<lambda>version.
     mapVersionArchiveHandler env dataRoot i version)))"

definition MapVersionDownloadHandler :: "webenv \<Rightarrow> string \<Rightarrow> request \<Rightarrow> ('w, response) fhnd" where
  "MapVersionDownloadHandler env dataRoot r =
     bindE (PathUUID env r ''id'' ''map id'') (\<lambda>i.
     bindE (resolveVersionSegment r i (PathValue r ''version'')) (\<lambda>version.
     mapVersionArchiveHandler env dataRoot i version))"

section \<open>Serving a file\<close>

text \<open>\<open>http.FileServer(http.Dir(dir))\<close> on a URL path, as far as the regular file or directory it names.\<close>

definition path_Base :: "string \<Rightarrow> string" where
  "path_Base p = (if clean_parts p = [] then ''/'' else last (clean_parts p))"

definition localRedirect :: "string \<Rightarrow> ('w, response) fhnd" where
  "localRedirect loc = okE \<lparr>status = 301, payload = NoBody, headers = [(''Location'', loc)]\<rparr>"

text \<open>\<open>http.Dir.Open\<close>: the cleaned URL path is taken relative to the directory; it cannot leave it.\<close>

definition Dir_path :: "string \<Rightarrow> string \<Rightarrow> string" where
  "Dir_path dir name = (let p = tl (Clean (CHR ''/'' # name)) in Join2 dir (if p = [] then ''.'' else p))"

definition open_error :: "gerror \<Rightarrow> response" where
  "open_error e = (if errors_Is e ErrNotExist \<or> e = ENOTDIR then http_Error 404 ''404 page not found''
                   else http_Error 500 ''500 Internal Server Error'')"

definition serve_dir :: "string \<Rightarrow> ('w, response) fhnd" where
  "serve_dir full =
     tryE (os_ReadFile (Join2 full ''index.html''))
       (\<lambda>_. bindE (mapErrE (\<lambda>_. http_Error 500 ''Error reading directory'') (ReadDir full)) (\<lambda>entries.
              okE \<lparr>status = 200,
                   payload = Listing (map (\<lambda>(name, n). if n = FDir then name @ ''/'' else name) entries), headers = []\<rparr>))
       (\<lambda>c. okE \<lparr>status = 200, payload = FileOf (Join2 full ''index.html'') c, headers = []\<rparr>)"

definition FileServer :: "string \<Rightarrow> string \<Rightarrow> ('w, response) fhnd" where
  "FileServer dir urlPath =
     (let upath = (if HasPrefix urlPath ''/'' then urlPath else CHR ''/'' # urlPath);
          full = Dir_path dir (Clean upath)
      in if HasSuffix upath ''/index.html'' then localRedirect ''./''
         else if CHR 0x00 \<in> set upath then fail 500 ''500 Internal Server Error''
         else bindE (mapErrE open_error (Stat full)) (\<lambda>n.
           case n of
             FDir \<Rightarrow> if \<not> HasSuffix upath ''/'' then localRedirect (path_Base upath @ ''/'') else serve_dir full
           | FFile _ \<Rightarrow>
               if HasSuffix upath ''/'' then
                 (if path_Base upath = ''/'' then fail 500 ''http: attempting to traverse a non-directory''
                  else localRedirect (''../'' @ path_Base upath))
               else bindE (mapErrE open_error (os_ReadFile full)) (\<lambda>c.
                 okE \<lparr>status = 200, payload = FileOf full c, headers = []\<rparr>)))"

text \<open>An error answer of the file server drops the \<open>Cache-Control\<close> set before; other answers keep it.\<close>

definition cacheControl :: "(string \<times> string) list" where
  "cacheControl = [(''Cache-Control'', ''public, max-age=31536000, immutable'')]"

definition with_cache_control :: "('w, response) fhnd \<Rightarrow> ('w, response) fhnd" where
  "with_cache_control h = bindE h (\<lambda>resp. okE (add_headers cacheControl resp))"

definition StripPrefix :: "string \<Rightarrow> request \<Rightarrow> string option" where
  "StripPrefix pre r =
     (if HasPrefix (URLPath r) pre \<and> (RawPath r = [] \<or> HasPrefix (RawPath r) pre)
      then Some (drop (length pre) (URLPath r)) else None)"

definition anonymous_allowed :: "bool \<Rightarrow> ipnet list \<Rightarrow> request \<Rightarrow> MapRecord \<Rightarrow> bool" where
  "anonymous_allowed anonymousDisabled subnets r m \<longleftrightarrow>
     m_AnonymousAllowed m \<and> \<not> anonymousDisabled \<and> IPInSubnets (ClientIP r) subnets"

definition ServeMapVersionFileHandler ::
  "webenv \<Rightarrow> string \<Rightarrow> bool \<Rightarrow> ipnet list \<Rightarrow> request \<Rightarrow> ('w, response) fhnd" where
  "ServeMapVersionFileHandler env dataRoot anonymousDisabled subnets r =
     bindE (PathUUID env r ''id'' ''map id'') (\<lambda>i.
     bindE (attempt (GetMap i) (writeStoreError ErrMapNotFound 404 ''map not found'' ''failed to get map'')) (\<lambda>m.
     bindE (if \<not> anonymous_allowed anonymousDisabled subnets r m
            then bindE (RequireAuthenticated r) (\<lambda>_. requireMapView r m) else okE ()) (\<lambda>_.
     bindE (resolveVersionSegment r i (PathValue r ''version'')) (\<lambda>version.
     case StripPrefix (''/maps/'' @ PathValue r ''id'' @ ''/version/'' @ PathValue r ''version'' @ ''/'') r of
       None \<Rightarrow> raiseE (add_headers cacheControl (http_Error 404 ''404 page not found''))
     | Some p \<Rightarrow> with_cache_control (FileServer (MapVersionDir env dataRoot i version) p)))))"

section \<open>Deleting and uploading\<close>

definition deleteMapItem :: "webenv \<Rightarrow> string \<Rightarrow> request \<Rightarrow> uuid \<Rightarrow> ('w, response) fhnd" where
  "deleteMapItem env dataRoot r i =
     bindE (requireMapPermission r i p_CanDelete mp_CanDelete) (\<lambda>_.
     bindE (attempt (DeleteMap i) (writeStoreError ErrMapNotFound 404 ''map not found'' ''failed to delete map'')) (\<lambda>_.
     bindE (ignoreE (RemoveAll (MapDir env dataRoot i))) (\<lambda>_.
     bindE (RecordAudit r ''delete'' ''map'' (uuid_String env i) []) (\<lambda>_.
     WriteHeader 204))))"

definition DeleteMapHandler :: "webenv \<Rightarrow> string \<Rightarrow> request \<Rightarrow> ('w, response) fhnd" where
  "DeleteMapHandler env dataRoot r =
     bindE (PathUUID env r ''id'' ''map id'') (\<lambda>i. deleteMapItem env dataRoot r i)"

text \<open>The request body: complete, cut off by \<open>MaxBytesReader\<close>, or broken off; with the bytes that arrived.\<close>

datatype uploadBody = Complete string | TooLarge string | BrokenOff string

definition arrived :: "uploadBody \<Rightarrow> string" where
  "arrived b = (case b of Complete s \<Rightarrow> s | TooLarge s \<Rightarrow> s | BrokenOff s \<Rightarrow> s)"

text \<open>\<open>os.Remove\<close> takes a file or an empty directory.\<close>

definition fs_unlink :: "fpath \<Rightarrow> disk \<Rightarrow> gerror + unit \<times> disk" where
  "fs_unlink p d =
     (if map_of d p = None then Inl ErrNotExist
      else if list_ex (\<lambda>(q, n). strict_prefix p q) d then Inl (OpaqueErr ''directory not empty'')
      else Inr ((), filter (\<lambda>(q, n). q \<noteq> p) d))"

definition Remove :: "string \<Rightarrow> ('w, unit) fsa" where
  "Remove p = fs_op (fs_unlink (path_of p))"

definition receiveUpload :: "string \<Rightarrow> uploadBody \<Rightarrow> ('w, string) fhnd" where
  "receiveUpload tmpName body =
     bindE (mapErrE (\<lambda>_. http_Error 500 ''failed to buffer upload'') (WriteFile tmpName [])) (\<lambda>_.
     tryE (WriteFile tmpName (arrived body))
       (\<lambda>_. bindE (ignoreE (Remove tmpName)) (\<lambda>_. fail 400 ''failed to read upload''))
       (\<lambda>_. case body of
          TooLarge _ \<Rightarrow> bindE (ignoreE (Remove tmpName)) (\<lambda>_. fail 413 ''upload too large'')
        | BrokenOff _ \<Rightarrow> bindE (ignoreE (Remove tmpName)) (\<lambda>_. fail 400 ''failed to read upload'')
        | Complete _ \<Rightarrow>
            tryE (fs_query (\<lambda>_. Inr ()))
              (\<lambda>_. bindE (ignoreE (Remove tmpName)) (\<lambda>_. fail 500 ''failed to buffer upload''))
              (\<lambda>_. okE tmpName)))"

definition extractUploadedArchive :: "archlib \<Rightarrow> string \<Rightarrow> string \<Rightarrow> string \<Rightarrow> ('w, string) fhnd" where
  "extractUploadedArchive lib rnd tmpPath dir =
     mapErrE (\<lambda>e. if errors_Is e ErrUnsupportedFormat
                  then http_Error 400 ''unsupported archive format: must be zip or tar''
                  else if errors_Is e ErrInvalidArchive then http_Error 400 ''invalid archive file''
                  else http_Error 500 ''failed to extract archive'')
       (ExtractArchive lib rnd tmpPath dir)"

definition storeUpload :: "webenv \<Rightarrow> request \<Rightarrow> uuid \<Rightarrow> string \<Rightarrow> string \<Rightarrow> ('w, response) fhnd" where
  "storeUpload env r i dir stagingDir =
     bindE (mapErrE (\<lambda>_. http_Error 500 ''failed to build tile index'') (WriteTileIndex stagingDir)) (\<lambda>_.
     bindE (attempt (IncrementMapVersion i (ctxUsername r))
              (writeStoreError ErrMapNotFound 404 ''map not found'' ''failed to record new version'')) (\<lambda>m.
     bindE (mapErrE (\<lambda>_. http_Error 500 ''failed to store version'') (Rename stagingDir (Join2 dir (m_CurrentVersion m)))) (\<lambda>_.
     bindE (RecordAudit r ''upload'' ''map_version'' (uuid_String env i @ '':'' @ m_CurrentVersion m) []) (\<lambda>_.
     WriteJSON 201 (JMap m)))))"

definition UploadMapVersionHandler ::
  "webenv \<Rightarrow> archlib \<Rightarrow> string \<Rightarrow> string \<Rightarrow> string \<Rightarrow> uploadBody \<Rightarrow> request \<Rightarrow> ('w, response) fhnd" where
  "UploadMapVersionHandler env lib tmpName rnd dataRoot body r =
     bindE (PathUUID env r ''id'' ''map id'') (\<lambda>i.
     bindE (requireMapPermission r i p_CanCreate mp_CanEdit) (\<lambda>_.
     bindE (receiveUpload tmpName body) (\<lambda>tmpPath.
     finallyE
       (bindE (extractUploadedArchive lib rnd tmpPath (MapDir env dataRoot i)) (\<lambda>stagingDir.
          finallyE (storeUpload env r i (MapDir env dataRoot i) stagingDir)
                   ((ignoreE :: _ \<Rightarrow> (_, gerror, unit) action) (RemoveAll stagingDir))))
       ((ignoreE :: _ \<Rightarrow> (_, gerror, unit) action) (Remove tmpPath)))))"

section \<open>Keys and build data\<close>

text \<open>\<open>serverkey\<close>: \<open>gen\<close> generates and encodes a pair (private, public) or fails; \<open>parse\<close> reads a PEM private key.\<close>

definition EnsureKeyPair :: "gerror + string \<times> string \<Rightarrow> string \<Rightarrow> ('w, unit) fsa" where
  "EnsureKeyPair gen dir =
     bindE (mapErrE (Wrap ''create keys dir'') (MkdirAll dir)) (\<lambda>_.
     tryE (Stat (Join2 dir ''server.key''))
       (\<lambda>e. if \<not> errors_Is e ErrNotExist then raiseE (Wrap ''stat'' e)
            else case gen of
              Inl err \<Rightarrow> raiseE (Wrap ''generate server key pair'' err)
            | Inr (priv, pub) \<Rightarrow>
                bindE (mapErrE (Wrap ''write'') (WriteFile (Join2 dir ''server.key'') priv)) (\<lambda>_.
                mapErrE (Wrap ''write'') (WriteFile (Join2 dir ''server.pub'') pub)))
       (\<lambda>_. okE ()))"

definition LoadPrivateKey :: "(string \<Rightarrow> gerror + 'k) \<Rightarrow> string \<Rightarrow> ('w, 'k) fsa" where
  "LoadPrivateKey parse dir =
     bindE (mapErrE (Wrap ''read'') (os_ReadFile (Join2 dir ''server.key''))) (\<lambda>pem.
       case parse pem of Inl e \<Rightarrow> raiseE (Wrap ''parse'' e) | Inr k \<Rightarrow> okE k)"

definition EnsureLoadPrivateKey ::
  "gerror + string \<times> string \<Rightarrow> (string \<Rightarrow> gerror + 'k) \<Rightarrow> string \<Rightarrow> ('w, 'k) fsa" where
  "EnsureLoadPrivateKey gen parse dir =
     bindE (mapErrE (Wrap ''ensure server key pair'') (EnsureKeyPair gen dir)) (\<lambda>_.
     mapErrE (Wrap ''load server key pair'') (LoadPrivateKey parse dir))"

definition ServerPublicKeyHandler :: "string \<Rightarrow> request \<Rightarrow> ('w, response) fhnd" where
  "ServerPublicKeyHandler keysDir r =
     bindE (mapErrE (\<lambda>_. http_Error 500 ''failed to read server public key'') (os_ReadFile (Join2 keysDir ''server.pub'')))
       (\<lambda>pem. WriteJSON 200 (JObject [(''publicKeyPem'', pem)]))"

definition GenerateKeyPairHandler :: "string + string \<times> string \<Rightarrow> request \<Rightarrow> ('w, response) fhnd" where
  "GenerateKeyPairHandler gen r =
     (case gen of
        Inl msg \<Rightarrow> fail 500 msg
      | Inr (priv, pub) \<Rightarrow> WriteJSON 200 (JObject [(''privateKeyPem'', priv), (''publicKeyPem'', pub)]))"

definition VersionHandler :: "string \<Rightarrow> string \<Rightarrow> request \<Rightarrow> ('w, response) fhnd" where
  "VersionHandler commit version r =
     (if Method r \<noteq> ''GET'' then fail 405 ''method not allowed''
      else WriteJSON 200 (JObject ((''commit'', commit) # (if version = [] then [] else [(''version'', version)]))))"

definition OpenAPIHandler :: "string \<Rightarrow> request \<Rightarrow> ('w, response) fhnd" where
  "OpenAPIHandler spec r =
     (if Method r \<noteq> ''GET'' then fail 405 ''method not allowed''
      else okE \<lparr>status = 200, payload = Raw spec, headers = [(''Content-Type'', ''application/yaml; charset=utf-8'')]\<rparr>)"

section \<open>Invariants\<close>

lemma tileExtentAtZoom_wf [pres]: "preserves store_wf (tileExtentAtZoom d z)"
  unfolding tileExtentAtZoom_def Let_def by (auto split: prod.split option.split intro!: pres)

lemma computeTileBounds_wf [pres]: "preserves store_wf (computeTileBounds d)"
  unfolding computeTileBounds_def Let_def by (intro pres)

lemma cachedTileBounds_wf [pres]: "preserves store_wf (cachedTileBounds env dr i v)"
  unfolding cachedTileBounds_def by (intro pres) simp_all

lemma MapVersionBoundsHandler_wf [pres]: "preserves store_wf (MapVersionBoundsHandler env dr r)"
  unfolding MapVersionBoundsHandler_def mapVersionBoundsHandler_def by (intro pres)

lemma fs_query_wf [pres]: "preserves store_wf (fs_query f)"
  unfolding fs_query_def by (intro pres)

lemma zip_walk_wf [pres]: "preserves store_wf (zip_walk base rels zw)"
  by (induction base rels zw rule: zip_walk.induct) (auto intro!: pres)

lemma mapVersionArchiveHandler_wf [pres]: "preserves store_wf (mapVersionArchiveHandler env dr i v)"
  unfolding mapVersionArchiveHandler_def Let_def by (intro pres)

lemma MapVersionArchiveHandler_wf [pres]: "preserves store_wf (MapVersionArchiveHandler env dr r)"
  unfolding MapVersionArchiveHandler_def by (intro pres)

lemma MapVersionDownloadHandler_wf [pres]: "preserves store_wf (MapVersionDownloadHandler env dr r)"
  unfolding MapVersionDownloadHandler_def by (intro pres)

lemma FileServer_wf [pres]: "preserves store_wf (FileServer d p)"
  unfolding FileServer_def serve_dir_def localRedirect_def Let_def
  by (auto split: fnode.split intro!: pres)

lemma ServeMapVersionFileHandler_wf [pres]: "preserves store_wf (ServeMapVersionFileHandler env dr d sn r)"
  unfolding ServeMapVersionFileHandler_def with_cache_control_def by (intro pres)

lemma DeleteMapHandler_wf [pres]: "preserves store_wf (DeleteMapHandler env dr r)"
  unfolding DeleteMapHandler_def deleteMapItem_def by (intro pres)

lemma Remove_wf [pres]: "preserves store_wf (Remove p)"
  unfolding Remove_def by (intro pres)

lemma receiveUpload_wf [pres]: "preserves store_wf (receiveUpload t b)"
  unfolding receiveUpload_def by (auto split: uploadBody.split intro!: pres)

lemma UploadMapVersionHandler_wf [pres]: "preserves store_wf (UploadMapVersionHandler env lib t rnd dr b r)"
  unfolding UploadMapVersionHandler_def extractUploadedArchive_def storeUpload_def by (intro pres)

lemma EnsureKeyPair_wf [pres]: "preserves store_wf (EnsureKeyPair gen dir)"
  unfolding EnsureKeyPair_def by (auto split: sum.split prod.split intro!: pres)

lemma key_handlers_wf [pres]:
  "preserves store_wf (ServerPublicKeyHandler dir r)" "preserves store_wf (GenerateKeyPairHandler g r)"
  "preserves store_wf (VersionHandler c v r)" "preserves store_wf (OpenAPIHandler spec r)"
  unfolding ServerPublicKeyHandler_def GenerateKeyPairHandler_def VersionHandler_def OpenAPIHandler_def
  by (auto split: sum.split prod.split intro!: pres)

end
