(* ===== verification/AdminHandlers.thy ===== *)
theory AdminHandlers
  imports MapHandlers
begin

text \<open>
  The handlers behind the administrator's pages: \<open>internal/webserver/users.go\<close>, \<open>groups.go\<close>,
  \<open>api_keys.go\<close>, \<open>sync_remotes.go\<close>, \<open>permissions.go\<close> and \<open>auditlog/audit_logs.go\<close>. None of them checks
  who is asking, except for one's own account: \<open>guardAdmin\<close> does when the route is registered.
\<close>

section \<open>Users\<close>

record userRequest =
  ur_Username :: string
  ur_Password :: string
  ur_Permissions :: Permissions

definition userFilterFromQuery :: "request \<Rightarrow> ('w, UserFilter) hnd" where
  "userFilterFromQuery r =
     bindE (QueryBoolParam r ''isAdmin'') (\<lambda>isAdmin.
     bindE (QueryBoolParam r ''canCreate'') (\<lambda>canCreate.
     bindE (QueryBoolParam r ''canEdit'') (\<lambda>canEdit.
     bindE (QueryBoolParam r ''canDelete'') (\<lambda>canDelete.
     bindE (QueryBoolParam r ''canEditGeoObjects'') (\<lambda>canEditGeoObjects.
     bindE (QueryBoolParam r ''canDeleteGeoObjects'') (\<lambda>canDeleteGeoObjects.
     bindE (QueryBoolParam r ''canViewAll'') (\<lambda>canViewAll.
     okE \<lparr>uf_Search = QueryGet r ''search'', uf_IsAdmin = isAdmin, uf_CanCreate = canCreate, uf_CanEdit = canEdit,
          uf_CanDelete = canDelete, uf_CanEditGeoObjects = canEditGeoObjects,
          uf_CanDeleteGeoObjects = canDeleteGeoObjects, uf_CanViewAll = canViewAll\<rparr>)))))))"

definition UsersListHandler :: "request \<Rightarrow> ('w, response) hnd" where
  "UsersListHandler r =
     bindE (userFilterFromQuery r) (\<lambda>f.
     bindE (attempt (ListUsers f) (\<lambda>_. http_Error 500 ''failed to list users'')) (\<lambda>users.
     WriteJSON 200 (JUsers users)))"

definition UserCreateHandler ::
  "(string \<Rightarrow> gerror + string) \<Rightarrow> request \<Rightarrow> userRequest option \<Rightarrow> ('w, response) hnd" where
  "UserCreateHandler hash r reqBody =
     bindE (DecodeJSON reqBody) (\<lambda>req.
     if ur_Username req = [] \<or> ur_Password req = [] then fail 400 ''username and password are required'' else
     bindE (attempt (CreateUser hash (ur_Username req) (ur_Password req) (ur_Permissions req))
              (writeStoreError ErrUserExists 409 ''user already exists'' ''failed to create user'')) (\<lambda>u.
     bindE (RecordAudit r ''create'' ''user'' (u_Username u) (''isAdmin='' @ show_bool (u_IsAdmin u))) (\<lambda>_.
     WriteJSON 201 (JUser u))))"

definition UserUpdateHandler ::
  "(string \<Rightarrow> gerror + string) \<Rightarrow> request \<Rightarrow> userRequest option \<Rightarrow> ('w, response) hnd" where
  "UserUpdateHandler hash r reqBody =
     bindE (DecodeJSON reqBody) (\<lambda>req.
     bindE (attempt (UpdateUser hash (PathValue r ''username'') (ur_Permissions req) (ur_Password req))
              (writeStoreError ErrUserNotFound 404 ''user not found'' ''failed to update user'')) (\<lambda>u.
     bindE (RecordAudit r ''update'' ''user'' (u_Username u)
              (''isAdmin='' @ show_bool (u_IsAdmin u) @ '' passwordChanged='' @ show_bool (ur_Password req \<noteq> []))) (\<lambda>_.
     WriteJSON 200 (JUser u))))"

definition UserDeleteHandler :: "request \<Rightarrow> ('w, response) hnd" where
  "UserDeleteHandler r =
     (let username = PathValue r ''username'' in
      if username = ctxUsername r then fail 400 ''cannot delete your own account'' else
      bindE (attempt (DeleteUser username)
               (\<lambda>e. if errors_Is e ErrUserOwnsMaps
                    then http_Error 409 ''user still owns one or more maps; transfer ownership first''
                    else writeStoreError ErrUserNotFound 404 ''user not found'' ''failed to delete user'' e)) (\<lambda>_.
      bindE (RecordAudit r ''delete'' ''user'' username []) (\<lambda>_.
      WriteHeader 204)))"

section \<open>Groups\<close>

record groupRequest =
  gq_Name :: string
  gq_Permissions :: Permissions
  gq_LDAPGroupDN :: string
  gq_OIDCGroupClaim :: string

definition GroupsListHandler :: "request \<Rightarrow> ('w, response) hnd" where
  "GroupsListHandler r =
     bindE (attempt (ListGroups (QueryGet r ''search'')) (\<lambda>_. http_Error 500 ''failed to list groups'')) (\<lambda>groups.
     WriteJSON 200 (JGroups groups))"

definition GroupGetHandler :: "webenv \<Rightarrow> request \<Rightarrow> ('w, response) hnd" where
  "GroupGetHandler env r =
     bindE (PathUUID env r ''id'' ''group id'') (\<lambda>i.
     bindE (attempt (GetGroup i) (writeStoreError ErrGroupNotFound 404 ''group not found'' ''failed to get group'')) (\<lambda>g.
     WriteJSON 200 (JGroup g)))"

definition group_detail :: "GroupRecord \<Rightarrow> string" where
  "group_detail g = ''name='' @ g_Name g @ '' isAdmin='' @ show_bool (g_IsAdmin g)"

definition GroupCreateHandler :: "webenv \<Rightarrow> uuid \<Rightarrow> request \<Rightarrow> groupRequest option \<Rightarrow> ('w, response) hnd" where
  "GroupCreateHandler env uid r reqBody =
     bindE (DecodeJSON reqBody) (\<lambda>req.
     if gq_Name req = [] then fail 400 ''name is required'' else
     bindE (attempt (CreateGroup uid (gq_Name req) (gq_Permissions req) (gq_LDAPGroupDN req) (gq_OIDCGroupClaim req)
              (ctxUsername r)) (writeStoreError ErrGroupExists 409 ''group already exists'' ''failed to create group'')) (\<lambda>g.
     bindE (RecordAudit r ''create'' ''group'' (uuid_String env (g_ID g)) (group_detail g)) (\<lambda>_.
     WriteJSON 201 (JGroup g))))"

definition GroupUpdateHandler :: "webenv \<Rightarrow> request \<Rightarrow> groupRequest option \<Rightarrow> ('w, response) hnd" where
  "GroupUpdateHandler env r reqBody =
     bindE (PathUUID env r ''id'' ''group id'') (\<lambda>i.
     bindE (DecodeJSON reqBody) (\<lambda>req.
     if gq_Name req = [] then fail 400 ''name is required'' else
     bindE (attempt (UpdateGroup i (gq_Name req) (gq_Permissions req) (gq_LDAPGroupDN req) (gq_OIDCGroupClaim req)
              (ctxUsername r))
              (\<lambda>e. if errors_Is e ErrGroupExists then http_Error 409 ''group already exists''
                   else writeStoreError ErrGroupNotFound 404 ''group not found'' ''failed to update group'' e)) (\<lambda>g.
     bindE (RecordAudit r ''update'' ''group'' (uuid_String env (g_ID g)) (group_detail g)) (\<lambda>_.
     WriteJSON 200 (JGroup g)))))"

definition GroupDeleteHandler :: "webenv \<Rightarrow> request \<Rightarrow> ('w, response) hnd" where
  "GroupDeleteHandler env r =
     bindE (PathUUID env r ''id'' ''group id'') (\<lambda>i.
     bindE (attempt (DeleteGroup i)
              (writeStoreError ErrGroupNotFound 404 ''group not found'' ''failed to delete group'')) (\<lambda>_.
     bindE (RecordAudit r ''delete'' ''group'' (uuid_String env i) []) (\<lambda>_.
     WriteHeader 204)))"

section \<open>API keys\<close>

definition APIKeysListHandler :: "request \<Rightarrow> ('w, response) hnd" where
  "APIKeysListHandler r =
     bindE (attempt (ListAPIKeys (PathValue r ''username'')) (\<lambda>_. http_Error 500 ''failed to list api keys'')) (\<lambda>keys.
     WriteJSON 200 (JKeys keys))"

text \<open>The message is \<open>err.Error()\<close>; what it adds of the parser's own message is left out.\<close>

record apiKeyRequest =
  kr_Name :: string
  kr_PublicKeyPEM :: string

definition APIKeyCreateHandler ::
  "webenv \<Rightarrow> 'b pkix \<Rightarrow> uuid \<Rightarrow> request \<Rightarrow> apiKeyRequest option \<Rightarrow> ('w, response) hnd" where
  "APIKeyCreateHandler env pk uid r reqBody =
     (let username = PathValue r ''username'' in
      bindE (DecodeJSON reqBody) (\<lambda>req.
      if kr_PublicKeyPEM req = [] then fail 400 ''publicKeyPem is required'' else
      bindE (attempt (CreateAPIKey pk uid username (kr_Name req) (ctxUsername r) (kr_PublicKeyPEM req))
               (\<lambda>e. if errors_Is e ErrInvalidPublicKeyPEM
                    then http_Error 400 ''public key must be a PEM-encoded RSA public key of at least 2048 bits''
                    else writeStoreError ErrUserNotFound 404 ''user not found'' ''failed to create api key'' e)) (\<lambda>k.
      bindE (RecordAudit r ''create'' ''api_key'' (uuid_String env (k_ID k))
               (''owner='' @ username @ '' name='' @ Quote env (kr_Name req))) (\<lambda>_.
      WriteJSON 201 (JKey k)))))"

definition APIKeyDeleteHandler :: "webenv \<Rightarrow> request \<Rightarrow> ('w, response) hnd" where
  "APIKeyDeleteHandler env r =
     (let username = PathValue r ''username'' in
      bindE (PathUUID env r ''id'' ''api key id'') (\<lambda>i.
      bindE (attempt (RevokeAPIKey username i)
               (writeStoreError ErrAPIKeyNotFound 404 ''api key not found'' ''failed to revoke api key'')) (\<lambda>_.
      bindE (RecordAudit r ''revoke'' ''api_key'' (uuid_String env i) (''owner='' @ username)) (\<lambda>_.
      WriteHeader 204))))"

definition APIKeyScopesListHandler :: "webenv \<Rightarrow> request \<Rightarrow> ('w, response) hnd" where
  "APIKeyScopesListHandler env r =
     bindE (PathUUID env r ''id'' ''api key id'') (\<lambda>i.
     bindE (attempt (ListAPIKeyScopes (PathValue r ''username'') i)
              (\<lambda>_. \<lparr>status = 500, payload = JError ''failed to list api key scopes'', headers = []\<rparr>)) (\<lambda>scopes.
     WriteJSON 200 (JScopes scopes)))"

definition APIKeyScopesClearHandler :: "webenv \<Rightarrow> request \<Rightarrow> ('w, response) hnd" where
  "APIKeyScopesClearHandler env r =
     (let username = PathValue r ''username'' in
      bindE (PathUUID env r ''id'' ''api key id'') (\<lambda>i.
      bindE (attempt (ClearAPIKeyScope username i)
               (writeStoreError ErrAPIKeyNotFound 404 ''api key not found'' ''failed to clear api key scope'')) (\<lambda>_.
      bindE (RecordAudit r ''revoke'' ''api_key_scope'' (uuid_String env i)
               (''owner='' @ username @ '' cleared all scopes'')) (\<lambda>_.
      WriteHeader 204))))"

definition show_strings :: "string list option \<Rightarrow> string" where
  "show_strings vs = ''['' @ join_with (CHR '' '') (case vs of None \<Rightarrow> [] | Some xs \<Rightarrow> xs) @ '']''"

definition APIKeyScopeSetHandler :: "webenv \<Rightarrow> request \<Rightarrow> string list option option \<Rightarrow> ('w, response) hnd" where
  "APIKeyScopeSetHandler env r reqBody =
     (let username = PathValue r ''username'' in
      bindE (PathUUID env r ''id'' ''api key id'') (\<lambda>i.
      bindE (PathUUID env r ''mapId'' ''map id'') (\<lambda>mapID.
      bindE (DecodeJSON reqBody) (\<lambda>versions.
      bindE (attempt (SetAPIKeyScope username i mapID versions)
               (\<lambda>e. if errors_Is e ErrAPIKeyScopeInvalid then http_Error 400 ''map does not exist''
                    else writeStoreError ErrAPIKeyNotFound 404 ''api key not found'' ''failed to set api key scope'' e)) (\<lambda>scope.
      bindE (RecordAudit r ''grant'' ''api_key_scope'' (uuid_String env i @ '':'' @ uuid_String env mapID)
               (''owner='' @ username @ '' versions='' @ show_strings versions)) (\<lambda>_.
      WriteJSON 200 (JScope scope)))))))"

definition APIKeyScopeDeleteHandler :: "webenv \<Rightarrow> request \<Rightarrow> ('w, response) hnd" where
  "APIKeyScopeDeleteHandler env r =
     (let username = PathValue r ''username'' in
      bindE (PathUUID env r ''id'' ''api key id'') (\<lambda>i.
      bindE (PathUUID env r ''mapId'' ''map id'') (\<lambda>mapID.
      bindE (attempt (DeleteAPIKeyScope username i mapID)
               (writeStoreError ErrAPIKeyNotFound 404 ''api key not found'' ''failed to delete api key scope'')) (\<lambda>_.
      bindE (RecordAudit r ''revoke'' ''api_key_scope'' (uuid_String env i @ '':'' @ uuid_String env mapID)
               (''owner='' @ username)) (\<lambda>_.
      WriteHeader 204)))))"

section \<open>Sync remotes\<close>

record syncRemoteRequest =
  sq_Name :: string
  sq_BaseURL :: string
  sq_RemoteAPIKeyID :: string
  sq_PollIntervalSec :: int
  sq_Enabled :: bool
  sq_SyncAllMaps :: bool
  sq_SyncNewMaps :: bool
  sq_SyncGeoObjects :: bool
  sq_SelectedMapIDs :: "string list option"

definition SyncRemotesListHandler :: "request \<Rightarrow> ('w, response) hnd" where
  "SyncRemotesListHandler r =
     bindE (attempt ListSyncRemotes (\<lambda>_. http_Error 500 ''failed to list sync remotes'')) (\<lambda>remotes.
     WriteJSON 200 (JRemotes remotes))"

definition validateSyncRemoteRequest :: "webenv \<Rightarrow> syncRemoteRequest \<Rightarrow> ('w, uuid) hnd" where
  "validateSyncRemoteRequest env req =
     (if sq_Name req = [] \<or> sq_BaseURL req = [] \<or> sq_RemoteAPIKeyID req = []
      then fail 400 ''name, baseUrl, and remoteApiKeyId are required''
      else case uuid_Parse env (sq_RemoteAPIKeyID req) of
        None \<Rightarrow> fail 400 ''remoteApiKeyId must be a valid uuid''
      | Some i \<Rightarrow> if sq_PollIntervalSec req \<le> 0 then fail 400 ''pollIntervalSec must be positive'' else okE i)"

primrec parseUUIDList :: "webenv \<Rightarrow> string list \<Rightarrow> ('w, uuid list) hnd" where
  "parseUUIDList env [] = okE []"
| "parseUUIDList env (s # ss) =
     (case uuid_Parse env s of
        None \<Rightarrow> fail 400 ''selectedMapUuids must be valid uuids''
      | Some i \<Rightarrow> bindE (parseUUIDList env ss) (\<lambda>is. okE (i # is)))"

definition request_config :: "syncRemoteRequest \<Rightarrow> uuid \<Rightarrow> remoteConfig" where
  "request_config req keyID = \<lparr>rc_Name = sq_Name req, rc_BaseURL = sq_BaseURL req, rc_RemoteAPIKeyID = keyID,
     rc_PollIntervalSec = sq_PollIntervalSec req, rc_Enabled = sq_Enabled req, rc_SyncAllMaps = sq_SyncAllMaps req,
     rc_SyncNewMaps = sq_SyncNewMaps req, rc_SyncGeoObjects = sq_SyncGeoObjects req\<rparr>"

definition remote_detail :: "webenv \<Rightarrow> SyncRemote \<Rightarrow> string" where
  "remote_detail env sr = ''name='' @ Quote env (sr_Name sr) @ '' baseUrl='' @ Quote env (sr_BaseURL sr)"

definition SyncRemoteCreateHandler ::
  "webenv \<Rightarrow> uuid \<Rightarrow> request \<Rightarrow> syncRemoteRequest option \<Rightarrow> ('w, response) hnd" where
  "SyncRemoteCreateHandler env uid r reqBody =
     bindE (DecodeJSON reqBody) (\<lambda>req.
     bindE (validateSyncRemoteRequest env req) (\<lambda>keyID.
     bindE (parseUUIDList env (case sq_SelectedMapIDs req of None \<Rightarrow> [] | Some xs \<Rightarrow> xs)) (\<lambda>selected.
     bindE (attempt (CreateSyncRemote uid (request_config req keyID) (ctxUsername r))
              (\<lambda>_. http_Error 500 ''failed to create sync remote'')) (\<lambda>sr.
     bindE (attempt (SetSyncRemoteSelectedMaps (sr_ID sr) selected)
              (\<lambda>_. http_Error 500 ''failed to save selected maps'')) (\<lambda>_.
     bindE (RecordAudit r ''create'' ''sync_remote'' (uuid_String env (sr_ID sr)) (remote_detail env sr)) (\<lambda>_.
     WriteJSON 201 (JRemote sr)))))))"

definition SyncRemoteGetHandler :: "webenv \<Rightarrow> request \<Rightarrow> ('w, response) hnd" where
  "SyncRemoteGetHandler env r =
     bindE (PathUUID env r ''id'' ''sync remote id'') (\<lambda>i.
     bindE (attempt (GetSyncRemote i)
              (writeStoreError ErrSyncRemoteNotFound 404 ''sync remote not found'' ''failed to get sync remote'')) (\<lambda>sr.
     WriteJSON 200 (JRemote sr)))"

definition SyncRemoteUpdateHandler ::
  "webenv \<Rightarrow> request \<Rightarrow> syncRemoteRequest option \<Rightarrow> ('w, response) hnd" where
  "SyncRemoteUpdateHandler env r reqBody =
     bindE (PathUUID env r ''id'' ''sync remote id'') (\<lambda>i.
     bindE (DecodeJSON reqBody) (\<lambda>req.
     bindE (validateSyncRemoteRequest env req) (\<lambda>keyID.
     bindE (case sq_SelectedMapIDs req of None \<Rightarrow> okE [] | Some xs \<Rightarrow> parseUUIDList env xs) (\<lambda>selected.
     bindE (attempt (UpdateSyncRemote i (request_config req keyID) (ctxUsername r))
              (writeStoreError ErrSyncRemoteNotFound 404 ''sync remote not found'' ''failed to update sync remote'')) (\<lambda>sr.
     bindE (if sq_SelectedMapIDs req = None then okE ()
            else attempt (SetSyncRemoteSelectedMaps (sr_ID sr) selected)
                   (\<lambda>_. http_Error 500 ''failed to save selected maps'')) (\<lambda>_.
     bindE (RecordAudit r ''update'' ''sync_remote'' (uuid_String env (sr_ID sr))
              (remote_detail env sr @ '' enabled='' @ show_bool (sr_Enabled sr))) (\<lambda>_.
     WriteJSON 200 (JRemote sr))))))))"

definition SyncRemoteDeleteHandler :: "webenv \<Rightarrow> request \<Rightarrow> ('w, response) hnd" where
  "SyncRemoteDeleteHandler env r =
     bindE (PathUUID env r ''id'' ''sync remote id'') (\<lambda>i.
     bindE (attempt (DeleteSyncRemote i)
              (writeStoreError ErrSyncRemoteNotFound 404 ''sync remote not found'' ''failed to delete sync remote'')) (\<lambda>_.
     bindE (RecordAudit r ''delete'' ''sync_remote'' (uuid_String env i) []) (\<lambda>_.
     WriteHeader 204)))"

definition SyncRemoteSelectedMapsHandler :: "webenv \<Rightarrow> request \<Rightarrow> ('w, response) hnd" where
  "SyncRemoteSelectedMapsHandler env r =
     bindE (PathUUID env r ''id'' ''sync remote id'') (\<lambda>i.
     bindE (attempt (ListSyncRemoteSelectedMaps i) (\<lambda>_. http_Error 500 ''failed to list selected maps'')) (\<lambda>ids.
     WriteJSON 200 (JUUIDs ids)))"

section \<open>Audit log and permission overview\<close>

definition auditLogFilterFromQuery :: "webenv \<Rightarrow> request \<Rightarrow> ('w, AuditLogFilter) hnd" where
  "auditLogFilterFromQuery env r =
     bindE (QueryTimeParam env r ''since'') (\<lambda>since.
     bindE (QueryTimeParam env r ''until'') (\<lambda>until.
     bindE (QueryIntParam r ''limit'') (\<lambda>limit.
     bindE (QueryIntParam r ''offset'') (\<lambda>offset.
     okE \<lparr>af_Actor = QueryGet r ''actor'', af_Action = QueryGet r ''action'', af_EntityType = QueryGet r ''entityType'',
          af_EntityID = QueryGet r ''entityId'', af_Since = since, af_Until = until, af_Limit = limit,
          af_Offset = offset\<rparr>))))"

definition AuditLogsCollectionHandler :: "webenv \<Rightarrow> request \<Rightarrow> ('w, response) hnd" where
  "AuditLogsCollectionHandler env r =
     bindE (auditLogFilterFromQuery env r) (\<lambda>f.
     bindE (attempt (ListAuditLogs f) (\<lambda>_. http_Error 500 ''failed to list audit logs'')) (\<lambda>entries.
     WriteJSON 200 (JAudit entries)))"

definition PermissionsCollectionHandler :: "request \<Rightarrow> ('w, response) hnd" where
  "PermissionsCollectionHandler r =
     bindE (attempt ListAllMapPermissions (\<lambda>_. http_Error 500 ''failed to list permissions'')) (\<lambda>perms.
     WriteJSON 200 (JAllPerms perms))"

section \<open>Invariants\<close>

lemma userFilterFromQuery_pres [pres]: "preserves P (userFilterFromQuery r)"
  unfolding userFilterFromQuery_def by (intro pres)

lemma UsersListHandler_wf [pres]: "preserves store_wf (UsersListHandler r)"
  unfolding UsersListHandler_def by (intro pres)

lemma UserCreateHandler_wf [pres]: "preserves store_wf (UserCreateHandler hash r b)"
  unfolding UserCreateHandler_def by (intro pres)

lemma UserUpdateHandler_wf [pres]: "preserves store_wf (UserUpdateHandler hash r b)"
  unfolding UserUpdateHandler_def by (intro pres)

lemma UserDeleteHandler_wf [pres]: "preserves store_wf (UserDeleteHandler r)"
  unfolding UserDeleteHandler_def Let_def by (intro pres)

lemma GroupsListHandler_wf [pres]: "preserves store_wf (GroupsListHandler r)"
  unfolding GroupsListHandler_def by (intro pres)

lemma GroupGetHandler_wf [pres]: "preserves store_wf (GroupGetHandler env r)"
  unfolding GroupGetHandler_def by (intro pres)

lemma GroupCreateHandler_wf [pres]: "preserves store_wf (GroupCreateHandler env uid r b)"
  unfolding GroupCreateHandler_def by (intro pres)

lemma GroupUpdateHandler_wf [pres]: "preserves store_wf (GroupUpdateHandler env r b)"
  unfolding GroupUpdateHandler_def by (intro pres)

lemma GroupDeleteHandler_wf [pres]: "preserves store_wf (GroupDeleteHandler env r)"
  unfolding GroupDeleteHandler_def by (intro pres)

lemma APIKeysListHandler_wf [pres]: "preserves store_wf (APIKeysListHandler r)"
  unfolding APIKeysListHandler_def by (intro pres)

lemma APIKeyCreateHandler_wf [pres]: "preserves store_wf (APIKeyCreateHandler env pk uid r b)"
  unfolding APIKeyCreateHandler_def Let_def by (intro pres)

lemma APIKeyDeleteHandler_wf [pres]: "preserves store_wf (APIKeyDeleteHandler env r)"
  unfolding APIKeyDeleteHandler_def Let_def by (intro pres)

lemma APIKeyScopesListHandler_wf [pres]: "preserves store_wf (APIKeyScopesListHandler env r)"
  unfolding APIKeyScopesListHandler_def by (intro pres)

lemma APIKeyScopesClearHandler_wf [pres]: "preserves store_wf (APIKeyScopesClearHandler env r)"
  unfolding APIKeyScopesClearHandler_def Let_def by (intro pres)

lemma APIKeyScopeSetHandler_wf [pres]: "preserves store_wf (APIKeyScopeSetHandler env r b)"
  unfolding APIKeyScopeSetHandler_def Let_def by (intro pres)

lemma APIKeyScopeDeleteHandler_wf [pres]: "preserves store_wf (APIKeyScopeDeleteHandler env r)"
  unfolding APIKeyScopeDeleteHandler_def Let_def by (intro pres)

lemma SyncRemotesListHandler_wf [pres]: "preserves store_wf (SyncRemotesListHandler r)"
  unfolding SyncRemotesListHandler_def by (intro pres)

lemma validateSyncRemoteRequest_pres [pres]: "preserves P (validateSyncRemoteRequest env req)"
  unfolding validateSyncRemoteRequest_def by (intro pres)

lemma parseUUIDList_pres [pres]: "preserves P (parseUUIDList env ss)"
  by (induction ss) (simp_all, (intro pres | assumption)+)

lemma SyncRemoteCreateHandler_wf [pres]: "preserves store_wf (SyncRemoteCreateHandler env uid r b)"
  unfolding SyncRemoteCreateHandler_def by (intro pres)

lemma SyncRemoteGetHandler_wf [pres]: "preserves store_wf (SyncRemoteGetHandler env r)"
  unfolding SyncRemoteGetHandler_def by (intro pres)

lemma SyncRemoteUpdateHandler_wf [pres]: "preserves store_wf (SyncRemoteUpdateHandler env r b)"
  unfolding SyncRemoteUpdateHandler_def by (intro pres)

lemma SyncRemoteDeleteHandler_wf [pres]: "preserves store_wf (SyncRemoteDeleteHandler env r)"
  unfolding SyncRemoteDeleteHandler_def by (intro pres)

lemma SyncRemoteSelectedMapsHandler_wf [pres]: "preserves store_wf (SyncRemoteSelectedMapsHandler env r)"
  unfolding SyncRemoteSelectedMapsHandler_def by (intro pres)

lemma AuditLogsCollectionHandler_wf [pres]: "preserves store_wf (AuditLogsCollectionHandler env r)"
  unfolding AuditLogsCollectionHandler_def auditLogFilterFromQuery_def by (intro pres)

lemma PermissionsCollectionHandler_wf [pres]: "preserves store_wf (PermissionsCollectionHandler r)"
  unfolding PermissionsCollectionHandler_def by (intro pres)

end
