(* ===== verification/Tokens.thy ===== *)
theory Tokens
  imports Access
begin

text \<open>
  Bearer tokens: \<open>internal/auth/jwt\<close> and \<open>internal/auth/middleware.go\<close>. The JWT package is outside the
  repository. What is used of it is a parser, which calls a key function with the decoded token and then
  checks the signature and the claims, a signer, and a PEM reader; they are the parameters collected in
  \<open>jwtlib\<close>, and \<open>jwt_contract\<close> states what the package documents of the parser.
\<close>

datatype kidHeader = KidString string | KidOther

record jwtClaims =
  cl_Subject :: string
  cl_IssuedAt :: "time option"
  cl_ExpiresAt :: "time option"

record jwtToken =
  t_Method :: string
  t_kid :: "kidHeader option"
  t_Claims :: jwtClaims

datatype 'k jwtKey = SecretKey string | PublicKey 'k

text \<open>
  The key function writes the identity it resolved into variables of \<open>ParseBearerToken\<close>, so it acts on
  these and on the store.
\<close>

type_synonym captured = "(string \<times> uuid) option"
type_synonym ('w, 'a) kst = "(captured \<times> 'w store_scheme, gerror, 'a) action"

record ('k, 'w) jwtlib =
  jwtParse :: "string \<Rightarrow> (jwtToken \<Rightarrow> ('w, 'k jwtKey) kst) \<Rightarrow> ('w, jwtToken) kst"
  jwtSign :: "string \<Rightarrow> jwtClaims \<Rightarrow> gerror + string"
  ParseRSAPublicKeyFromPEM :: "string \<Rightarrow> 'k option"

text \<open>
  Documented: \<open>ParseWithClaims\<close> succeeds only when the key function returned a key for the token, \<open>verifies t k str\<close>:
  the string encodes the token \<open>t\<close> and its signature, by the token's own method, verifies with the key \<open>k\<close>, and, under \<open>WithExpirationRequired\<close>,
  there is an expiry and it lies ahead; otherwise it has called the key function at most once.
\<close>

definition jwt_contract ::
  "(jwtToken \<Rightarrow> 'k jwtKey \<Rightarrow> string \<Rightarrow> bool) \<Rightarrow> ('k, 'w) jwtlib \<Rightarrow> bool" where
  "jwt_contract verifies lib \<longleftrightarrow>
     (\<forall>str kf st t st'. jwtParse lib str kf st = (Inr t, st') \<longrightarrow>
        (\<exists>k e. kf t st = (Inr k, st') \<and> verifies t k str \<and>
               cl_ExpiresAt (t_Claims t) = Some e \<and> clock (snd st) < e)) \<and>
     (\<forall>str kf st err st'. jwtParse lib str kf st = (Inl err, st') \<longrightarrow> st' = st \<or> (\<exists>t. st' = snd (kf t st)))"

section \<open>Issuing\<close>

definition defaultTokenTTL :: int where "defaultTokenTTL = 1 * hour"
definition maxTokenTTL :: int where "maxTokenTTL = 7 * 24 * hour"
definition RefreshTokenTTL :: int where "RefreshTokenTTL = 30 * 24 * hour"
definition maxAPIKeyTokenLifetime :: int where "maxAPIKeyTokenLifetime = 15 * minute"

definition login_claims :: "string \<Rightarrow> time \<Rightarrow> jwtClaims" where
  "login_claims username now = \<lparr>cl_Subject = username, cl_IssuedAt = Some now, cl_ExpiresAt = Some (now + defaultTokenTTL)\<rparr>"

definition IssueLoginToken :: "('k, 'w) jwtlib \<Rightarrow> string \<Rightarrow> string \<Rightarrow> ('w, string) sto" where
  "IssueLoginToken lib secret username s = (jwtSign lib secret (login_claims username (clock s)), s)"

section \<open>Verifying\<close>

definition TokenWithinLifetime :: "jwtClaims \<Rightarrow> bool" where
  "TokenWithinLifetime c =
     (case (cl_IssuedAt c, cl_ExpiresAt c) of
        (Some issued, Some expires) \<Rightarrow> expires - issued \<le> maxAPIKeyTokenLifetime
      | _ \<Rightarrow> False)"

definition on_store :: "('w, 'a) sto \<Rightarrow> ('w, 'a) kst" where
  "on_store m st = (case m (snd st) of (r, s') \<Rightarrow> (r, (fst st, s')))"

definition capture :: "string \<Rightarrow> uuid \<Rightarrow> ('w, unit) kst" where
  "capture uname keyID st = (Inr (), (Some (uname, keyID), snd st))"

definition resolveTokenKey ::
  "webenv \<Rightarrow> ('k, 'w) jwtlib \<Rightarrow> string \<Rightarrow> jwtToken \<Rightarrow> ('w, 'k jwtKey) kst" where
  "resolveTokenKey env lib secret t =
     (case t_kid t of
        None \<Rightarrow>
          if t_Method t \<noteq> ''HS256'' then raiseE (OpaqueErr ''token signature is invalid'')
          else okE (SecretKey secret)
      | Some kid \<Rightarrow>
          if t_Method t \<noteq> ''RS256'' then raiseE (OpaqueErr ''token signature is invalid'')
          else case kid of
            KidOther \<Rightarrow> raiseE (OpaqueErr ''token is malformed'')
          | KidString str \<Rightarrow>
              (case uuid_Parse env str of
                 None \<Rightarrow> raiseE (OpaqueErr ''token is malformed'')
               | Some keyID \<Rightarrow>
                   bindE (on_store (ResolveAPIKeySigningKey keyID)) (\<lambda>(uname, pem).
                     case ParseRSAPublicKeyFromPEM lib pem of
                       None \<Rightarrow> raiseE (OpaqueErr ''invalid key'')
                     | Some pk \<Rightarrow> bindE (capture uname keyID) (\<lambda>_. okE (PublicKey pk)))))"

record bearer =
  b_username :: string
  b_apiKeyID :: uuid
  b_hadToken :: bool
  b_valid :: bool

definition bearer_token :: "request \<Rightarrow> string" where
  "bearer_token r =
     (let h = HeaderGet r ''Authorization'';
          str = (if HasPrefix h ''Bearer '' then drop (length ''Bearer '') h else [])
      in if str = [] then QueryGet r ''token'' else str)"

definition ParseBearerToken ::
  "webenv \<Rightarrow> ('k, 'w) jwtlib \<Rightarrow> string \<Rightarrow> request \<Rightarrow> 'w store_scheme \<Rightarrow> bearer \<times> 'w store_scheme" where
  "ParseBearerToken env lib secret r s =
     (let str = bearer_token r in
      if str = [] then (\<lparr>b_username = [], b_apiKeyID = 0, b_hadToken = False, b_valid = False\<rparr>, s)
      else case jwtParse lib str (resolveTokenKey env lib secret) (None, s) of
        (Inl e, (_, s')) \<Rightarrow> (\<lparr>b_username = [], b_apiKeyID = 0, b_hadToken = True, b_valid = False\<rparr>, s')
      | (Inr t, (None, s')) \<Rightarrow>
          (\<lparr>b_username = cl_Subject (t_Claims t), b_apiKeyID = 0, b_hadToken = True, b_valid = True\<rparr>, s')
      | (Inr t, (Some (uname, keyID), s')) \<Rightarrow>
          if \<not> TokenWithinLifetime (t_Claims t)
          then (\<lparr>b_username = [], b_apiKeyID = 0, b_hadToken = True, b_valid = False\<rparr>, s')
          else (\<lparr>b_username = uname, b_apiKeyID = keyID, b_hadToken = True, b_valid = True\<rparr>, s'))"

definition Middleware ::
  "webenv \<Rightarrow> ('k, 'w) jwtlib \<Rightarrow> string \<Rightarrow> bool \<Rightarrow> (request \<Rightarrow> ('w, response) hnd) \<Rightarrow> request \<Rightarrow> ('w, response) hnd" where
  "Middleware env lib secret requireToken next r s =
     (case ParseBearerToken env lib secret r s of
        (b, s') \<Rightarrow>
          if requireToken \<and> \<not> b_hadToken b then fail 401 ''missing bearer token'' s'
          else if b_hadToken b \<and> \<not> b_valid b then fail 401 ''invalid or expired token'' s'
          else next (r\<lparr>ctxUsername := b_username b,
                       ctxAPIKeyID := (if b_apiKeyID b \<noteq> 0 then Some (b_apiKeyID b) else ctxAPIKeyID r)\<rparr>) s')"

section \<open>Invariants\<close>

lemma on_store_wf: "preserves store_wf m \<Longrightarrow> preserves (\<lambda>st. store_wf (snd st)) (on_store m)"
  by (auto simp: preserves_def on_store_def split: prod.splits)

lemma capture_wf: "preserves (\<lambda>st. store_wf (snd st)) (capture u k)"
  by (simp add: preserves_def capture_def)

lemma resolveTokenKey_wf: "preserves (\<lambda>st. store_wf (snd st)) (resolveTokenKey env lib secret t)"
  unfolding resolveTokenKey_def
  by (auto split: option.splits kidHeader.splits intro!: pres on_store_wf capture_wf)

lemma ParseBearerToken_wf:
  fixes lib :: "('k, 'w) jwtlib"
  assumes "jwt_contract verifies lib"
  shows "preserves store_wf (ParseBearerToken env lib secret r)"
proof (rule preservesI)
  fix s :: "'w store_scheme" assume wf: "store_wf s"
  obtain x st' where p: "jwtParse lib (bearer_token r) (resolveTokenKey env lib secret) (None, s) = (x, st')"
    by (meson surj_pair)
  have "st' = (None, s) \<or> (\<exists>t. st' = snd (resolveTokenKey env lib secret t (None, s)))"
  proof (cases x)
    case (Inl e)
    with p assms show ?thesis unfolding jwt_contract_def by metis
  next
    case (Inr t)
    with p assms show ?thesis unfolding jwt_contract_def by (metis snd_conv)
  qed
  then have "store_wf (snd st')"
    using wf resolveTokenKey_wf [of env lib secret] unfolding preserves_def by (metis snd_conv)
  then show "store_wf (snd (ParseBearerToken env lib secret r s))"
    using wf p unfolding ParseBearerToken_def
    by (auto simp: Let_def split: prod.splits sum.splits option.splits)
qed

lemma Middleware_wf:
  fixes lib :: "('k, 'w) jwtlib"
  assumes "jwt_contract verifies lib" and "\<And>r. preserves store_wf (next r)"
  shows "preserves store_wf (Middleware env lib secret req next r)"
proof (rule preservesI)
  fix s :: "'w store_scheme" assume wf: "store_wf s"
  obtain b s' where b: "ParseBearerToken env lib secret r s = (b, s')" by (meson surj_pair)
  then have "store_wf s'" using ParseBearerToken_wf [OF assms(1), of env secret r] wf
    by (auto dest: preservesD)
  then show "store_wf (snd (Middleware env lib secret req next r s))"
    using assms(2) by (simp add: Middleware_def b fail_def raiseE_def preserves_def)
qed

end
