(* ===== verification/Sync.thy ===== *)
theory Sync
  imports Files AdminHandlers Tokens
begin

text \<open>
  One sync pass (\<open>internal/sync/sync.go\<close>), the client it talks to the other server with (\<open>client.go\<close>) and
  the log it keeps (\<open>logs.go\<close>). The other server, the JSON decoder and the signer are the parameter
  \<open>synclib\<close>; its answers do not change during a pass. A log message stands for its format string.
\<close>

section \<open>The log\<close>

record SyncLogEntry =
  le_Time :: time
  le_Level :: string
  le_Message :: string

record server = world +
  logEntries :: "uuid \<Rightarrow> SyncLogEntry list"

type_synonym ('w, 'a) syn = "('w server_scheme, gerror, 'a) action"

definition maxLogEntriesPerRemote :: nat where "maxLogEntriesPerRemote = 200"

definition push_entry :: "SyncLogEntry \<Rightarrow> SyncLogEntry list \<Rightarrow> SyncLogEntry list" where
  "push_entry e existing =
     (let entries = existing @ [e]
      in if length entries > maxLogEntriesPerRemote then drop (length entries - maxLogEntriesPerRemote) entries
         else entries)"

definition log_record :: "uuid \<Rightarrow> string \<Rightarrow> string \<Rightarrow> ('w, unit) syn" where
  "log_record remoteID level msg =
     modifyE (\<lambda>w. w\<lparr>logEntries := (logEntries w)(remoteID :=
        push_entry \<lparr>le_Time = clock w, le_Level = level, le_Message = msg\<rparr> (logEntries w remoteID))\<rparr>)"

definition logf :: "uuid \<Rightarrow> string \<Rightarrow> ('w, unit) syn" where
  "logf remoteID msg = log_record remoteID ''info'' msg"

definition errf :: "uuid \<Rightarrow> string \<Rightarrow> ('w, unit) syn" where
  "errf remoteID msg = log_record remoteID ''error'' (''ERROR: '' @ msg)"

definition Logs :: "uuid \<Rightarrow> 'w server_scheme \<Rightarrow> SyncLogEntry list" where
  "Logs remoteID w = logEntries w remoteID"

text \<open>\<open>if err := m(); err != nil { logs.errf(...); return fmt.Errorf("...: %w", err) }\<close>\<close>

definition logged :: "uuid \<Rightarrow> string \<Rightarrow> ('w, 'a) syn \<Rightarrow> ('w, 'a) syn" where
  "logged remoteID msg m = tryE m (\<lambda>e. bindE (errf remoteID msg) (\<lambda>_. raiseE (Wrap msg e))) okE"

section \<open>The client\<close>

record 'k synclib =
  HttpDo :: "string \<Rightarrow> string \<Rightarrow> gerror + nat \<times> contents"
  SignRS256 :: "'k \<Rightarrow> string \<Rightarrow> jwtClaims \<Rightarrow> gerror + string"
  DecodeMaps :: "string \<Rightarrow> gerror + MapRecord list"
  DecodeVersions :: "string \<Rightarrow> gerror + MapVersionRecord list"
  DecodeAliases :: "string \<Rightarrow> gerror + MapVersionAlias list"
  DecodeGeoObjects :: "string \<Rightarrow> gerror + GeoObjectRecord list"

definition maxArchiveSize :: nat where "maxArchiveSize = 2 ^ 30"
definition apiKeyTokenTTL :: int where "apiKeyTokenTTL = 5 * minute"

record 'k Client =
  cl_baseURL :: string
  cl_keyID :: uuid
  cl_privateKey :: 'k

definition NewClient :: "string \<Rightarrow> uuid \<Rightarrow> 'k \<Rightarrow> 'k Client" where
  "NewClient baseURL keyID privateKey =
     \<lparr>cl_baseURL = TrimSuffix baseURL ''/'', cl_keyID = keyID, cl_privateKey = privateKey\<rparr>"

definition signToken :: "webenv \<Rightarrow> 'k synclib \<Rightarrow> 'k Client \<Rightarrow> ('w, string) syn" where
  "signToken env lib c =
     bindE (getE clock) (\<lambda>now.
       pureE (SignRS256 lib (cl_privateKey c) (uuid_String env (cl_keyID c))
                \<lparr>cl_Subject = [], cl_IssuedAt = Some now, cl_ExpiresAt = Some (now + apiKeyTokenTTL)\<rparr>))"

text \<open>A request that does not end with status 200 is an error; otherwise its body.\<close>

definition get_ok :: "webenv \<Rightarrow> 'k synclib \<Rightarrow> 'k Client \<Rightarrow> string \<Rightarrow> ('w, contents) syn" where
  "get_ok env lib c p =
     bindE (mapErrE (Wrap ''sign api key jwt'') (signToken env lib c)) (\<lambda>token.
     bindE (mapErrE (Wrap ''request'') (pureE (HttpDo lib (cl_baseURL c @ p) (''Bearer '' @ token)))) (\<lambda>(code, body).
     if code \<noteq> 200 then raiseE (OpaqueErr ''unexpected status'') else okE body))"

text \<open>\<open>getJSON\<close>: the decoder reads the body up to the error that cuts it off, if any.\<close>

definition getJSON ::
  "webenv \<Rightarrow> 'k synclib \<Rightarrow> 'k Client \<Rightarrow> string \<Rightarrow> (string \<Rightarrow> gerror + 'a) \<Rightarrow> ('w, 'a) syn" where
  "getJSON env lib c p decode =
     bindE (get_ok env lib c p) (\<lambda>(text, err).
       mapErrE (Wrap ''decode response'') (pureE (case err of Some e \<Rightarrow> Inl e | None \<Rightarrow> decode text)))"

definition path_unreserved :: "char \<Rightarrow> bool" where
  "path_unreserved c \<longleftrightarrow> (let n = of_char c :: nat in
     48 \<le> n \<and> n \<le> 57 \<or> 65 \<le> n \<and> n \<le> 90 \<or> 97 \<le> n \<and> n \<le> 122 \<or> c \<in> set ''-_.~$&+=:@'')"

definition upper_hex :: "nat \<Rightarrow> char" where
  "upper_hex n = ''0123456789ABCDEF'' ! (n mod 16)"

definition PathEscape :: "string \<Rightarrow> string" where
  "PathEscape s = concat (map (\<lambda>c. let n = of_char c :: nat in
     if path_unreserved c then [c] else [CHR ''%'', upper_hex (n div 16), upper_hex n]) s)"

definition client_ListMaps :: "webenv \<Rightarrow> 'k synclib \<Rightarrow> 'k Client \<Rightarrow> ('w, MapRecord list) syn" where
  "client_ListMaps env lib c = getJSON env lib c ''/maps'' (DecodeMaps lib)"

definition client_ListVersions ::
  "webenv \<Rightarrow> 'k synclib \<Rightarrow> 'k Client \<Rightarrow> uuid \<Rightarrow> ('w, MapVersionRecord list) syn" where
  "client_ListVersions env lib c i =
     getJSON env lib c (''/maps/'' @ uuid_String env i @ ''/versions'') (DecodeVersions lib)"

definition client_ListAliases ::
  "webenv \<Rightarrow> 'k synclib \<Rightarrow> 'k Client \<Rightarrow> uuid \<Rightarrow> ('w, MapVersionAlias list) syn" where
  "client_ListAliases env lib c i =
     getJSON env lib c (''/maps/'' @ uuid_String env i @ ''/aliases'') (DecodeAliases lib)"

definition client_ListGeoObjects ::
  "webenv \<Rightarrow> 'k synclib \<Rightarrow> 'k Client \<Rightarrow> uuid \<Rightarrow> string \<Rightarrow> ('w, GeoObjectRecord list) syn" where
  "client_ListGeoObjects env lib c i version =
     getJSON env lib c (''/maps/'' @ uuid_String env i @ ''/version/'' @ PathEscape version @ ''/geo-objects'')
       (DecodeGeoObjects lib)"

text \<open>\<open>io.LimitReader\<close>: at most one byte more than the cap is read, so an error beyond it is not met.\<close>

definition limited :: "nat \<Rightarrow> contents \<Rightarrow> contents" where
  "limited n c = (if n < length (fst c) then (take n (fst c), None) else c)"

definition writeArchiveToTemp :: "string \<Rightarrow> contents \<Rightarrow> ('w, string) fsa" where
  "writeArchiveToTemp tmpName r =
     (case limited (maxArchiveSize + 1) r of (data, err) \<Rightarrow>
      bindE (mapErrE (Wrap ''create temp file'') (WriteFile tmpName [])) (\<lambda>_.
      tryE (bindE (WriteFile tmpName data) (\<lambda>_. case err of Some e \<Rightarrow> raiseE e | None \<Rightarrow> okE ()))
        (\<lambda>e. bindE (ignoreE (Remove tmpName)) (\<lambda>_. raiseE (Wrap ''download archive'' e)))
        (\<lambda>_. if length data > maxArchiveSize
             then bindE (ignoreE (Remove tmpName)) (\<lambda>_. raiseE (OpaqueErr ''archive exceeds max size''))
             else tryE (fs_query (\<lambda>_. Inr ()))
                    (\<lambda>e. bindE (ignoreE (Remove tmpName)) (\<lambda>_. raiseE (Wrap ''close temp file'' e)))
                    (\<lambda>_. okE tmpName))))"

definition DownloadArchive ::
  "webenv \<Rightarrow> 'k synclib \<Rightarrow> string \<Rightarrow> 'k Client \<Rightarrow> uuid \<Rightarrow> string \<Rightarrow> ('w, string) syn" where
  "DownloadArchive env lib tmpName c i version =
     bindE (get_ok env lib c (''/maps/'' @ uuid_String env i @ ''/version/'' @ PathEscape version @ ''/archive''))
       (\<lambda>body. writeArchiveToTemp tmpName body)"

section \<open>Decisions\<close>

text \<open>\<open>sorted\<close> is \<open>sort.Slice\<close> by creation time, which need not be stable.\<close>

definition versionsToPull ::
  "(MapVersionRecord list \<Rightarrow> MapVersionRecord list) \<Rightarrow> (string \<Rightarrow> bool) \<Rightarrow> MapVersionRecord list \<Rightarrow> MapVersionRecord list" where
  "versionsToPull sortf alreadyLocal remote = sortf (filter (\<lambda>v. \<not> alreadyLocal (vr_Version v)) remote)"

text \<open>A Go map filled from a slice: the last entry of a key stays.\<close>

definition index_by :: "('a \<Rightarrow> 'k) \<Rightarrow> 'a list \<Rightarrow> 'k \<Rightarrow> 'a option" where
  "index_by key xs = map_of (rev (map (\<lambda>x. (key x, x)) xs))"

definition reconcileAliases ::
  "MapVersionAlias list \<Rightarrow> MapVersionAlias list \<Rightarrow> MapVersionAlias list \<times> string list" where
  "reconcileAliases local remote =
     (filter (\<lambda>r. case index_by va_Alias local (va_Alias r) of
                    None \<Rightarrow> True | Some l \<Rightarrow> va_Version l \<noteq> va_Version r) remote,
      map va_Alias (filter (\<lambda>l. index_by va_Alias remote (va_Alias l) = None) local))"

definition mapsToSync :: "MapRecord list \<Rightarrow> bool \<Rightarrow> (uuid \<Rightarrow> bool) \<Rightarrow> (uuid \<Rightarrow> bool) \<Rightarrow> MapRecord list" where
  "mapsToSync maps syncNewMaps selected knownLocally =
     filter (\<lambda>m. selected (m_UUID m) \<or> syncNewMaps \<and> \<not> knownLocally (m_UUID m)) maps"

definition reconcileGeoObjects ::
  "GeoObjectRecord list \<Rightarrow> GeoObjectRecord list \<Rightarrow> GeoObjectRecord list \<times> uuid list" where
  "reconcileGeoObjects local remote =
     (filter (\<lambda>r. case index_by go_UUID local (go_UUID r) of
                    None \<Rightarrow> True | Some l \<Rightarrow> go_UpdatedAt l \<noteq> go_UpdatedAt r) remote,
      map go_UUID (filter (\<lambda>l. go_UUID l \<notin> go_UUID ` set remote) local))"

definition selectedMapSet :: "uuid \<Rightarrow> ('w, uuid \<Rightarrow> bool) syn" where
  "selectedMapSet remoteID =
     bindE (mapErrE (Wrap ''list selected maps'') (ListSyncRemoteSelectedMaps remoteID)) (\<lambda>ids.
       okE (\<lambda>i. i \<in> set ids))"

definition knownLocallyMapSet :: "MapRecord list \<Rightarrow> ('w, uuid \<Rightarrow> bool) syn" where
  "knownLocallyMapSet maps =
     foldE (\<lambda>m known.
       tryE (GetMap (m_UUID m))
         (\<lambda>e. if errors_Is e ErrMapNotFound then okE known else raiseE (Wrap ''check local map'' e))
         (\<lambda>_. okE (known(m_UUID m := True)))) maps (\<lambda>_. False)"

definition mapsForRemote ::
  "webenv \<Rightarrow> 'k synclib \<Rightarrow> 'k Client \<Rightarrow> SyncRemote \<Rightarrow> ('w, MapRecord list) syn" where
  "mapsForRemote env lib client remote =
     bindE (logged (sr_ID remote) ''list remote maps'' (client_ListMaps env lib client)) (\<lambda>maps.
     if sr_SyncAllMaps remote then okE maps else
     bindE (logged (sr_ID remote) ''selected maps'' (selectedMapSet (sr_ID remote))) (\<lambda>selected.
     bindE (logged (sr_ID remote) ''known maps'' (knownLocallyMapSet maps)) (\<lambda>known.
     okE (mapsToSync maps (sr_SyncNewMaps remote) selected known))))"

section \<open>Pulling one version\<close>

text \<open>
  What the system's random source yields while one version is pulled: the name of the temporary file and the
  suffix of the staging directory.
\<close>

type_synonym pullDraws = "string \<times> string"

definition installVersion ::
  "webenv \<Rightarrow> string \<Rightarrow> uuid \<Rightarrow> MapVersionRecord \<Rightarrow> uuid \<Rightarrow> string \<Rightarrow> ('w, unit) syn" where
  "installVersion env dir mapID v remoteID stagingDir =
     bindE (logged remoteID ''write tile index'' (WriteTileIndex stagingDir)) (\<lambda>_.
     let destDir = Join2 dir (vr_Version v) in
     bindE (logged remoteID ''clear orphaned version dir'' (RemoveAll destDir)) (\<lambda>_.
     bindE (logged remoteID ''store version'' (Rename stagingDir destDir)) (\<lambda>_.
     bindE (logged remoteID ''record version''
              (RecordSyncedMapVersion mapID (vr_Version v) (vr_CreatedBy v) (vr_CreatedAt v))) (\<lambda>_.
     logf remoteID ''version pulled successfully''))))"

definition pullVersion ::
  "webenv \<Rightarrow> 'k synclib \<Rightarrow> archlib \<Rightarrow> (uuid \<Rightarrow> string \<Rightarrow> pullDraws) \<Rightarrow> string \<Rightarrow> 'k Client \<Rightarrow> uuid
   \<Rightarrow> MapVersionRecord \<Rightarrow> uuid \<Rightarrow> ('w, unit) syn" where
  "pullVersion env lib arch rnd dataRoot client mapID v remoteID =
     bindE (logged remoteID ''check existing version'' (HasMapVersion mapID (vr_Version v))) (\<lambda>has.
     if has then okE () else
     case rnd mapID (vr_Version v) of (tmpName, sfx) \<Rightarrow>
     bindE (logf remoteID ''downloading version'') (\<lambda>_.
     bindE (logged remoteID ''download archive'' (DownloadArchive env lib tmpName client mapID (vr_Version v))) (\<lambda>tmpPath.
     let dir = MapDir env dataRoot mapID in
     finallyE
       (bindE (logged remoteID ''extract archive'' (ExtractArchive arch sfx tmpPath dir)) (\<lambda>stagingDir.
          finallyE (installVersion env dir mapID v remoteID stagingDir)
                   ((ignoreE :: _ \<Rightarrow> (_, gerror, unit) action) (RemoveAll stagingDir))))
       ((ignoreE :: _ \<Rightarrow> (_, gerror, unit) action) (Remove tmpPath)))))"

section \<open>Mirroring one map\<close>

definition localVersionSet :: "uuid \<Rightarrow> MapVersionRecord list \<Rightarrow> ('w, string \<Rightarrow> bool) syn" where
  "localVersionSet mapID remoteVersions =
     foldE (\<lambda>v local. bindE (mapErrE (Wrap ''check local version'') (HasMapVersion mapID (vr_Version v))) (\<lambda>has.
              okE (local(vr_Version v := has)))) remoteVersions (\<lambda>_. False)"

definition setMirroredAlias :: "uuid \<Rightarrow> string \<Rightarrow> uuid \<Rightarrow> MapVersionAlias \<Rightarrow> ('w, unit) syn" where
  "setMirroredAlias mapID actor remoteID a =
     bindE (logged remoteID ''check alias target version'' (HasMapVersion mapID (va_Version a))) (\<lambda>has.
     if \<not> has then okE ()
     else bindE (logged remoteID ''set alias'' (SetMapVersionAlias mapID (va_Alias a) (va_Version a) actor)) (\<lambda>_. okE ()))"

definition reconcileMapAliases ::
  "webenv \<Rightarrow> 'k synclib \<Rightarrow> 'k Client \<Rightarrow> uuid \<Rightarrow> string \<Rightarrow> uuid \<Rightarrow> ('w, unit) syn" where
  "reconcileMapAliases env lib client mapID actor remoteID =
     bindE (logged remoteID ''list remote aliases'' (client_ListAliases env lib client mapID)) (\<lambda>remoteAliases.
     bindE (logged remoteID ''list local aliases'' (ListMapVersionAliases mapID)) (\<lambda>localAliases.
     case reconcileAliases localAliases remoteAliases of (toSet, toDelete) \<Rightarrow>
     bindE (if toSet \<noteq> [] \<or> toDelete \<noteq> [] then logf remoteID ''setting aliases'' else okE ()) (\<lambda>_.
     bindE (forE toSet (setMirroredAlias mapID actor remoteID)) (\<lambda>_.
     forE toDelete (\<lambda>alias. logged remoteID ''delete alias'' (DeleteMapVersionAlias mapID alias))))))"

definition deleteMirroredGeoObject :: "uuid \<Rightarrow> string \<Rightarrow> uuid \<Rightarrow> uuid \<Rightarrow> ('w, unit) syn" where
  "deleteMirroredGeoObject mapID version remoteID i =
     logged remoteID ''delete geo object''
       (tryE (DeleteGeoObject mapID version i)
          (\<lambda>e. if errors_Is e ErrGeoObjectNotFound then okE () else raiseE e) okE)"

definition no_geo_filter :: GeoObjectFilter where
  "no_geo_filter = \<lparr>gof_Name = [], gof_ExternalID = [], gof_Street = [], gof_Postcode = [], gof_City = [],
     gof_CityDistrict = [], gof_CreatedBy = [], gof_MinLat = None, gof_MaxLat = None, gof_MinLon = None,
     gof_MaxLon = None\<rparr>"

definition syncGeoObjectsForVersion ::
  "webenv \<Rightarrow> 'k synclib \<Rightarrow> 'k Client \<Rightarrow> uuid \<Rightarrow> string \<Rightarrow> uuid \<Rightarrow> ('w, unit) syn" where
  "syncGeoObjectsForVersion env lib client mapID version remoteID =
     bindE (logged remoteID ''list remote geo objects'' (client_ListGeoObjects env lib client mapID version)) (\<lambda>remoteObjs.
     bindE (logged remoteID ''list local geo objects'' (ListGeoObjects mapID version no_geo_filter)) (\<lambda>localObjs.
     case reconcileGeoObjects localObjs remoteObjs of (toUpsert, toDelete) \<Rightarrow>
     bindE (if toUpsert \<noteq> [] \<or> toDelete \<noteq> [] then logf remoteID ''upserting geo objects'' else okE ()) (\<lambda>_.
     bindE (forE toUpsert (\<lambda>g. bindE (logged remoteID ''upsert geo object'' (UpsertSyncedGeoObject g)) (\<lambda>_. okE ()))) (\<lambda>_.
     forE toDelete (deleteMirroredGeoObject mapID version remoteID)))))"

definition syncMapGeoObjects ::
  "webenv \<Rightarrow> 'k synclib \<Rightarrow> 'k Client \<Rightarrow> SyncRemote \<Rightarrow> MapRecord \<Rightarrow> MapVersionRecord list \<Rightarrow> ('w, unit) syn" where
  "syncMapGeoObjects env lib client remote rm remoteVersions =
     (if \<not> sr_SyncGeoObjects remote then okE ()
      else forE remoteVersions (\<lambda>v. logged (sr_ID remote) ''sync geo objects for version''
             (syncGeoObjectsForVersion env lib client (m_UUID rm) (vr_Version v) (sr_ID remote))))"

definition setMirroredCurrent :: "SyncRemote \<Rightarrow> MapRecord \<Rightarrow> ('w, unit) syn" where
  "setMirroredCurrent remote rm =
     (if m_CurrentVersion rm = [] then okE ()
      else logged (sr_ID remote) ''set current version''
        (tryE (SetSyncedCurrentVersion (m_UUID rm) (m_CurrentVersion rm))
           (\<lambda>e. if errors_Is e ErrSyncedVersionNotRecorded then okE () else raiseE e) okE))"

definition syncMap ::
  "webenv \<Rightarrow> 'k synclib \<Rightarrow> archlib \<Rightarrow> (MapVersionRecord list \<Rightarrow> MapVersionRecord list) \<Rightarrow> (uuid \<Rightarrow> string \<Rightarrow> pullDraws)
   \<Rightarrow> string \<Rightarrow> 'k Client \<Rightarrow> SyncRemote \<Rightarrow> MapRecord \<Rightarrow> string \<Rightarrow> ('w, unit) syn" where
  "syncMap env lib arch sortf rnd dataRoot client remote rm actor =
     (let rid = sr_ID remote; i = m_UUID rm in
      bindE (logged rid ''upsert local map''
        (UpsertSyncedMap i (m_Name rm) (m_VisibleToAll rm) (m_AnonymousAllowed rm) rid actor)) (\<lambda>_.
      bindE (logged rid ''list remote versions'' (client_ListVersions env lib client i)) (\<lambda>remoteVersions.
      bindE (logged rid ''local versions'' (localVersionSet i remoteVersions)) (\<lambda>alreadyLocal.
      let toPull = versionsToPull sortf alreadyLocal remoteVersions in
      bindE (if toPull \<noteq> [] then logf rid ''pulling new versions'' else okE ()) (\<lambda>_.
      bindE (forE toPull (\<lambda>v. logged rid ''pull version'' (pullVersion env lib arch rnd dataRoot client i v rid))) (\<lambda>_.
      bindE (logged rid ''reconcile aliases'' (reconcileMapAliases env lib client i actor rid)) (\<lambda>_.
      bindE (syncMapGeoObjects env lib client remote rm remoteVersions) (\<lambda>_.
      setMirroredCurrent remote rm))))))))"

section \<open>A pass\<close>

text \<open>
  The maps are synced concurrently; here one after the other. The first error cancels the context of the
  group, so the syncs that come after it end with their first statement, and \<open>Wait\<close> returns that first error.
\<close>

definition syncMapLogged ::
  "webenv \<Rightarrow> 'k synclib \<Rightarrow> archlib \<Rightarrow> (MapVersionRecord list \<Rightarrow> MapVersionRecord list) \<Rightarrow> (uuid \<Rightarrow> string \<Rightarrow> pullDraws)
   \<Rightarrow> string \<Rightarrow> 'k Client \<Rightarrow> SyncRemote \<Rightarrow> gerror option \<Rightarrow> MapRecord \<Rightarrow> ('w, unit) syn" where
  "syncMapLogged env lib arch sortf rnd dataRoot client remote failed rm =
     logged (sr_ID remote) ''sync map''
       (case failed of
          None \<Rightarrow> syncMap env lib arch sortf rnd dataRoot client remote rm SyncUsername
        | Some _ \<Rightarrow> logged (sr_ID remote) ''upsert local map'' (raiseE (OpaqueErr ''context canceled'')))"

primrec sync_all ::
  "(gerror option \<Rightarrow> MapRecord \<Rightarrow> ('w, unit) syn) \<Rightarrow> gerror option \<Rightarrow> MapRecord list \<Rightarrow> ('w, unit) syn" where
  "sync_all sync1 failed [] = (case failed of None \<Rightarrow> okE () | Some e \<Rightarrow> raiseE e)"
| "sync_all sync1 failed (rm # rms) =
     tryE (sync1 failed rm)
       (\<lambda>e. sync_all sync1 (if failed = None then Some e else failed) rms)
       (\<lambda>_. sync_all sync1 failed rms)"

definition syncRemoteOnce ::
  "webenv \<Rightarrow> 'k synclib \<Rightarrow> archlib \<Rightarrow> (MapVersionRecord list \<Rightarrow> MapVersionRecord list) \<Rightarrow> (uuid \<Rightarrow> string \<Rightarrow> pullDraws)
   \<Rightarrow> string \<Rightarrow> 'k Client \<Rightarrow> SyncRemote \<Rightarrow> ('w, unit) syn" where
  "syncRemoteOnce env lib arch sortf rnd dataRoot client remote =
     bindE (mapsForRemote env lib client remote) (\<lambda>maps.
     bindE (logf (sr_ID remote) ''syncing remote maps'') (\<lambda>_.
     sync_all (syncMapLogged env lib arch sortf rnd dataRoot client remote) None maps))"

text \<open>\<open>runOnce\<close> (\<open>worker.go\<close>); \<open>msg\<close> is the text of an error.\<close>

definition runOnce ::
  "(gerror \<Rightarrow> string) \<Rightarrow> webenv \<Rightarrow> 'k synclib \<Rightarrow> archlib \<Rightarrow> (MapVersionRecord list \<Rightarrow> MapVersionRecord list)
   \<Rightarrow> (uuid \<Rightarrow> string \<Rightarrow> pullDraws) \<Rightarrow> string \<Rightarrow> 'k \<Rightarrow> SyncRemote \<Rightarrow> ('w, unit) syn" where
  "runOnce msg env lib arch sortf rnd dataRoot privateKey remote =
     (let rid = sr_ID remote; client = NewClient (sr_BaseURL remote) (sr_RemoteAPIKeyID remote) privateKey in
      bindE (logf rid ''starting sync pass'') (\<lambda>_.
      bindE (tryE (syncRemoteOnce env lib arch sortf rnd dataRoot client remote)
               (\<lambda>e. bindE (errf rid ''sync pass failed'') (\<lambda>_. okE (''error'', msg e)))
               (\<lambda>_. okE (''ok'', []))) (\<lambda>(st, errMsg).
      bindE (if st = ''ok'' then logf rid ''sync pass complete'' else errf rid ''sync pass failed after'') (\<lambda>_.
      bindE (getE clock) (\<lambda>now.
      tryE (SetSyncRemoteStatus rid st errMsg now) (\<lambda>e. errf rid ''record status'') (\<lambda>_. okE ()))))))"

definition defaultPollInterval :: int where "defaultPollInterval = 5 * minute"

text \<open>\<open>time.Duration(sec) * time.Second\<close> has 64 bits.\<close>

definition poll_interval :: "SyncRemote \<Rightarrow> int" where
  "poll_interval remote =
     (let interval = wrap64 (sr_PollIntervalSec remote * second)
      in if interval \<le> 0 then defaultPollInterval else interval)"

section \<open>Invariants\<close>

lemma caches_fresh_log [simp]: "caches_fresh (w\<lparr>logEntries := l\<rparr>) = caches_fresh w"
  by (simp add: caches_fresh_def)

lemma log_wf [pres]: "preserves store_wf (logf i m)" "preserves store_wf (errf i m)"
  unfolding logf_def errf_def log_record_def by (intro pres; simp)+

lemma logged_wf [pres]: "preserves store_wf m \<Longrightarrow> preserves store_wf (logged i msg m)"
  unfolding logged_def by (intro pres)

lemma get_ok_wf [pres]: "preserves store_wf (get_ok env lib c p)"
  unfolding get_ok_def signToken_def by (intro pres)

lemma getJSON_wf [pres]: "preserves store_wf (getJSON env lib c p d)"
  unfolding getJSON_def by (intro pres)

lemma client_wf [pres]:
  "preserves store_wf (client_ListMaps env lib c)" "preserves store_wf (client_ListVersions env lib c i)"
  "preserves store_wf (client_ListAliases env lib c i)" "preserves store_wf (client_ListGeoObjects env lib c i v)"
  unfolding client_ListMaps_def client_ListVersions_def client_ListAliases_def client_ListGeoObjects_def
  by (intro pres)+

lemma DownloadArchive_wf [pres]: "preserves store_wf (DownloadArchive env lib t c i v)"
  unfolding DownloadArchive_def writeArchiveToTemp_def by (intro pres)

lemma mapsForRemote_wf [pres]: "preserves store_wf (mapsForRemote env lib c r)"
  unfolding mapsForRemote_def selectedMapSet_def knownLocallyMapSet_def by (intro pres)

lemma pullVersion_wf [pres]: "preserves store_wf (pullVersion env lib arch rnd d c i v r)"
  unfolding pullVersion_def installVersion_def Let_def by (intro pres)

lemma localVersionSet_wf [pres]: "preserves store_wf (localVersionSet i vs)"
  unfolding localVersionSet_def by (intro pres)

lemma reconcileMapAliases_wf [pres]: "preserves store_wf (reconcileMapAliases env lib c i a r)"
  unfolding reconcileMapAliases_def setMirroredAlias_def by (intro pres)

lemma syncMapGeoObjects_wf [pres]: "preserves store_wf (syncMapGeoObjects env lib c r m vs)"
  unfolding syncMapGeoObjects_def syncGeoObjectsForVersion_def deleteMirroredGeoObject_def by (intro pres)

lemma syncMap_wf [pres]: "preserves store_wf (syncMap env lib arch sortf rnd d c r m a)"
  unfolding syncMap_def setMirroredCurrent_def Let_def by (intro pres)

lemma sync_all_wf [pres]: "(\<And>f m. preserves store_wf (g f m)) \<Longrightarrow> preserves store_wf (sync_all g f ms)"
  by (induction ms arbitrary: f) (auto split: option.split intro!: pres)

lemma syncRemoteOnce_wf [pres]: "preserves store_wf (syncRemoteOnce env lib arch sortf rnd d c r)"
  unfolding syncRemoteOnce_def syncMapLogged_def by (intro pres)

lemma runOnce_wf [pres]: "preserves store_wf (runOnce msg env lib arch sortf rnd d k r)"
  unfolding runOnce_def Let_def by (intro pres)

end
