(* ===== verification/Manager.thy ===== *)
theory Manager
  imports Sync
begin

text \<open>
  The sync manager (\<open>internal/sync/manager.go\<close>) and the loop of its workers (\<open>worker.go\<close>): the goroutines are
  a step relation. A critical section of the manager is one step; so is a pass of a worker. \<open>reconcile\<close> is two
  critical sections with a wait between them, during which workers run, exit and can be triggered.
\<close>

section \<open>State\<close>

text \<open>A goroutine of \<open>runRemote\<close>; \<open>r_trigger\<close> is the content of its one-slot channel.\<close>

record routine =
  r_remote :: SyncRemote
  r_trigger :: bool
  r_cancelled :: bool
  r_started :: bool

text \<open>A \<open>runningWorker\<close> is the number of its goroutine and the configuration it was started with.\<close>

type_synonym worker = "nat \<times> SyncRemote"

datatype phase = Idle | Waiting "nat list" "SyncRemote list" "SyncRemote list"
    | Returned

record msys = server +
  workers :: "(uuid \<times> worker) list"
  routines :: "(nat \<times> routine) list"
  nextRoutine :: nat
  ctxDone :: bool
  phase :: phase

type_synonym ('w, 'a) mgr = "('w msys_scheme, gerror, 'a) action"

section \<open>Operations\<close>

definition configChanged :: "SyncRemote \<Rightarrow> SyncRemote \<Rightarrow> bool" where
  "configChanged running current \<longleftrightarrow>
     sr_BaseURL running \<noteq> sr_BaseURL current \<or>
     sr_RemoteAPIKeyID running \<noteq> sr_RemoteAPIKeyID current \<or>
     sr_PollIntervalSec running \<noteq> sr_PollIntervalSec current \<or>
     sr_SyncAllMaps running \<noteq> sr_SyncAllMaps current \<or>
     sr_SyncNewMaps running \<noteq> sr_SyncNewMaps current \<or>
     sr_SyncGeoObjects running \<noteq> sr_SyncGeoObjects current"

definition log_line :: "uuid \<Rightarrow> string \<Rightarrow> 'w server_scheme \<Rightarrow> 'w server_scheme" where
  "log_line i msg s = snd (logf i msg s)"

definition map_routine :: "nat \<Rightarrow> (routine \<Rightarrow> routine) \<Rightarrow> 'w msys_scheme \<Rightarrow> 'w msys_scheme" where
  "map_routine n f s = s\<lparr>routines := map (\<lambda>(k, r). (k, if k = n then f r else r)) (routines s)\<rparr>"

definition cancel :: "nat \<Rightarrow> 'w msys_scheme \<Rightarrow> 'w msys_scheme" where
  "cancel n = map_routine n (\<lambda>r. r\<lparr>r_cancelled := True\<rparr>)"

definition startWorkerLocked :: "SyncRemote \<Rightarrow> 'w msys_scheme \<Rightarrow> 'w msys_scheme" where
  "startWorkerLocked remote s =
     s\<lparr>workers := (sr_ID remote, (nextRoutine s, remote)) # filter (\<lambda>(i, w). i \<noteq> sr_ID remote) (workers s),
       routines := (nextRoutine s, \<lparr>r_remote = remote, r_trigger = False, r_cancelled = ctxDone s, r_started = False\<rparr>)
                   # routines s,
       nextRoutine := nextRoutine s + 1\<rparr>"

definition find_remote :: "uuid \<Rightarrow> SyncRemote list \<Rightarrow> SyncRemote option" where
  "find_remote i rs = List.find (\<lambda>r. sr_ID r = i) rs"

text \<open>What the first critical section decides about one worker.\<close>

datatype verdict = Keep | StopIt | RestartAs SyncRemote

definition judge :: "SyncRemote list \<Rightarrow> uuid \<times> worker \<Rightarrow> verdict" where
  "judge desired w =
     (case find_remote (fst w) desired of
        None \<Rightarrow> StopIt
      | Some r \<Rightarrow> if configChanged (snd (snd w)) r then RestartAs r else Keep)"

definition restarts :: "SyncRemote list \<Rightarrow> (uuid \<times> worker) list \<Rightarrow> SyncRemote list" where
  "restarts desired ws = List.map_filter (\<lambda>w. case judge desired w of RestartAs r \<Rightarrow> Some r | _ \<Rightarrow> None) ws"

definition judge_log :: "SyncRemote list \<Rightarrow> uuid \<times> worker \<Rightarrow> 'w msys_scheme \<Rightarrow> 'w msys_scheme" where
  "judge_log desired w s =
     (case judge desired w of
        Keep \<Rightarrow> s
      | StopIt \<Rightarrow> log_line (fst w) ''stopping worker: removed or disabled'' s
      | RestartAs r \<Rightarrow> log_line (fst w) ''restarting worker: configuration changed'' s)"

definition stop_workers :: "SyncRemote list \<Rightarrow> 'w msys_scheme \<Rightarrow> 'w msys_scheme" where
  "stop_workers desired s =
     (let leaving = filter (\<lambda>w. judge desired w \<noteq> Keep) (workers s);
          stopped = map (\<lambda>w. fst (snd w)) leaving;
          s' = fold cancel stopped (fold (judge_log desired) (workers s) s)
      in s'\<lparr>workers := filter (\<lambda>w. judge desired w = Keep) (workers s),
            phase := Waiting stopped (restarts desired (workers s)) desired\<rparr>)"

text \<open>Up to and including the first critical section.\<close>

definition reconcile_begin :: "('w, unit) mgr" where
  "reconcile_begin =
     bindE ListSyncRemotes (\<lambda>remotes.
     bindE (if remotes \<noteq> [] then EnsureSyncUser else okE ()) (\<lambda>_.
     modifyE (stop_workers (filter sr_Enabled remotes))))"

text \<open>The second critical section, entered once every stopped worker's goroutine has returned.\<close>

definition start_worker :: "SyncRemote \<Rightarrow> 'w msys_scheme \<Rightarrow> 'w msys_scheme" where
  "start_worker r s = startWorkerLocked r (log_line (sr_ID r) ''starting worker'' s)"

definition start_missing :: "SyncRemote \<Rightarrow> 'w msys_scheme \<Rightarrow> 'w msys_scheme" where
  "start_missing r s = (if sr_ID r \<in> fst ` set (workers s) then s else start_worker r s)"

definition reconcile_end :: "SyncRemote list \<Rightarrow> SyncRemote list \<Rightarrow> 'w msys_scheme \<Rightarrow> 'w msys_scheme" where
  "reconcile_end restart desired s =
     (fold start_missing desired (fold start_worker restart s))\<lparr>phase := Idle\<rparr>"

definition Stop :: "'w msys_scheme \<Rightarrow> 'w msys_scheme" where
  "Stop s = (fold cancel (map (\<lambda>w. fst (snd w)) (workers s)) s)\<lparr>workers := []\<rparr>"

definition Trigger :: "uuid \<Rightarrow> ('w, unit) mgr" where
  "Trigger i =
     bindE (getE (\<lambda>s. map_of (workers s) i)) (\<lambda>w.
       case w of
         None \<Rightarrow> raiseE ErrRemoteNotRunning
       | Some (n, config) \<Rightarrow>
           bindE (getE (\<lambda>s. map_of (routines s) n)) (\<lambda>r.
             case r of
               Some r \<Rightarrow>
                 if \<not> r_trigger r
                 then bindE (modifyE (map_routine n (\<lambda>r. r\<lparr>r_trigger := True\<rparr>))) (\<lambda>_. logf i ''triggered immediate sync'')
                 else logf i ''trigger already pending, ignoring''
             | None \<Rightarrow> logf i ''trigger already pending, ignoring''))"

definition ListRemoteMaps :: "webenv \<Rightarrow> 'k synclib \<Rightarrow> 'k \<Rightarrow> uuid \<Rightarrow> ('w, MapRecord list) syn" where
  "ListRemoteMaps env lib privateKey i =
     bindE (mapErrE (Wrap ''get sync remote'') (GetSyncRemote i)) (\<lambda>remote.
     mapErrE (Wrap ''list remote maps'')
       (client_ListMaps env lib (NewClient (sr_BaseURL remote) (sr_RemoteAPIKeyID remote) privateKey)))"

section \<open>The goroutines\<close>

definition drop_routine :: "nat \<Rightarrow> 'w msys_scheme \<Rightarrow> 'w msys_scheme" where
  "drop_routine n s = s\<lparr>routines := filter (\<lambda>(k, r). k \<noteq> n) (routines s)\<rparr>"

text \<open>
  A sync pass (\<open>runOnce\<close>) has the store, the disk and the log in its hands, not the manager: it is a function on
  the server's part of the state.
\<close>

definition on_server :: "(server \<Rightarrow> server) \<Rightarrow> 'w msys_scheme \<Rightarrow> 'w msys_scheme" where
  "on_server f s = server.extend (f (server.truncate s)) (server.more s)"

text \<open>What \<open>runRemote\<close> does when it starts, at a tick, at a trigger and when its context is cancelled.\<close>

definition worker_first :: "(SyncRemote \<Rightarrow> server \<Rightarrow> server) \<Rightarrow> nat \<Rightarrow> routine \<Rightarrow> 'w msys_scheme \<Rightarrow> 'w msys_scheme" where
  "worker_first pass n r s =
     on_server (pass (r_remote r)) (log_line (sr_ID (r_remote r)) ''worker started''
       (map_routine n (\<lambda>r. r\<lparr>r_started := True\<rparr>) s))"

definition worker_tick :: "(SyncRemote \<Rightarrow> server \<Rightarrow> server) \<Rightarrow> routine \<Rightarrow> 'w msys_scheme \<Rightarrow> 'w msys_scheme" where
  "worker_tick pass r s = on_server (pass (r_remote r)) s"

definition worker_triggered :: "(SyncRemote \<Rightarrow> server \<Rightarrow> server) \<Rightarrow> nat \<Rightarrow> routine \<Rightarrow> 'w msys_scheme \<Rightarrow> 'w msys_scheme" where
  "worker_triggered pass n r s =
     on_server (pass (r_remote r)) (log_line (sr_ID (r_remote r)) ''running triggered sync''
       (map_routine n (\<lambda>r. r\<lparr>r_trigger := False\<rparr>) s))"

definition worker_exit :: "nat \<Rightarrow> routine \<Rightarrow> 'w msys_scheme \<Rightarrow> 'w msys_scheme" where
  "worker_exit n r s = drop_routine n (log_line (sr_ID (r_remote r)) ''worker stopped'' s)"

text \<open>The context of the process is cancelled: every worker's context is derived from it.\<close>

definition cancel_all :: "'w msys_scheme \<Rightarrow> 'w msys_scheme" where
  "cancel_all s = s\<lparr>ctxDone := True, routines := map (\<lambda>(k, r). (k, r\<lparr>r_cancelled := True\<rparr>)) (routines s)\<rparr>"

text \<open>The steps of the manager, of its goroutines and of a trigger.\<close>

inductive own_step :: "(SyncRemote \<Rightarrow> server \<Rightarrow> server) \<Rightarrow> 'w msys_scheme \<Rightarrow> 'w msys_scheme \<Rightarrow> bool"
  for pass where
  reconcile_begin: "phase s = Idle \<Longrightarrow> own_step pass s (snd (reconcile_begin s))"
| reconcile_end: "phase s = Waiting stopped restart desired \<Longrightarrow> \<forall>n\<in>set stopped. n \<notin> fst ` set (routines s) \<Longrightarrow>
    own_step pass s (reconcile_end restart desired s)"
| shutdown: "own_step pass s (cancel_all s)"
| start_returns: "ctxDone s \<Longrightarrow> phase s = Idle \<Longrightarrow> own_step pass s ((Stop s)\<lparr>phase := Returned\<rparr>)"
| main_stops: "ctxDone s \<Longrightarrow> own_step pass s (Stop s)"
| trigger: "own_step pass s (snd (Trigger i s))"
| first: "map_of (routines s) n = Some r \<Longrightarrow> \<not> r_started r \<Longrightarrow> own_step pass s (worker_first pass n r s)"
| tick: "map_of (routines s) n = Some r \<Longrightarrow> r_started r \<Longrightarrow> own_step pass s (worker_tick pass r s)"
| triggered: "map_of (routines s) n = Some r \<Longrightarrow> r_started r \<Longrightarrow> r_trigger r \<Longrightarrow>
    own_step pass s (worker_triggered pass n r s)"
| exit: "map_of (routines s) n = Some r \<Longrightarrow> r_started r \<Longrightarrow> r_cancelled r \<Longrightarrow> own_step pass s (worker_exit n r s)"

text \<open>\<open>others\<close> is whatever requests do to the server's part meanwhile.\<close>

definition same_manager :: "'w msys_scheme \<Rightarrow> 'w msys_scheme \<Rightarrow> bool" where
  "same_manager s s' \<longleftrightarrow> workers s' = workers s \<and> routines s' = routines s \<and> nextRoutine s' = nextRoutine s \<and>
     ctxDone s' = ctxDone s \<and> phase s' = phase s"

inductive step :: "(SyncRemote \<Rightarrow> server \<Rightarrow> server) \<Rightarrow> 'w msys_scheme \<Rightarrow> 'w msys_scheme \<Rightarrow> bool"
  for pass where
  own: "own_step pass s s' \<Longrightarrow> step pass s s'"
| others: "same_manager s s' \<Longrightarrow> step pass s s'"

text \<open>\<open>NewManager\<close> starts without workers.\<close>

definition NewManager :: "'w msys_scheme \<Rightarrow> 'w msys_scheme" where
  "NewManager s = s\<lparr>logEntries := (\<lambda>_. []), workers := [], routines := [], nextRoutine := 0, ctxDone := False, phase := Idle\<rparr>"

inductive reachable :: "(SyncRemote \<Rightarrow> server \<Rightarrow> server) \<Rightarrow> 'w msys_scheme \<Rightarrow> bool"
  for pass where
  init: "reachable pass (NewManager s)"
| step: "reachable pass s \<Longrightarrow> step pass s s' \<Longrightarrow> reachable pass s'"

end
