(* ===== verification/Login.thy ===== *)
theory Login
  imports Tokens StoreGroups
begin

text \<open>
  Signing in: \<open>internal/auth/auth.go\<close>, \<open>ldap.go\<close>, \<open>oidc.go\<close> and the packages \<open>auth/ldap\<close> and
  \<open>auth/oidc\<close>. The directory and the identity provider are outside the repository; the calls made to them
  are the parameters \<open>ldaplib\<close> and \<open>oidclib\<close>.
\<close>

section \<open>LDAP\<close>

record ldapConfig =
  lc_URL :: string
  lc_BindDN :: string
  lc_BindPassword :: string
  lc_BaseDN :: string
  lc_UserFilter :: string
  lc_StartTLS :: bool
  lc_InsecureSkipVerify :: bool
  lc_CACertFile :: string
  lc_Debug :: bool

record ldapEntry =
  e_DN :: string
  e_mail :: string
  e_memberOf :: "string list"

record Identity =
  id_DN :: string
  id_Email :: string
  id_Groups :: "string list"

text \<open>
  \<open>github.com/go-ldap\<close>, \<open>crypto/x509\<close>, \<open>net/url\<close> and the file system. A connection \<open>'c\<close> is threaded
  through the calls made on it; \<open>'p\<close> is a certificate pool.
\<close>

record 'p tlsConfig =
  tls_ServerName :: string
  tls_InsecureSkipVerify :: bool
  tls_RootCAs :: "'p option"

record ('c, 'p) ldaplib =
  EscapeFilter :: "string \<Rightarrow> string"
  DialURL :: "string \<Rightarrow> 'p tlsConfig \<Rightarrow> gerror + 'c"
  StartTLS :: "'c \<Rightarrow> 'p tlsConfig \<Rightarrow> gerror + 'c"
  Bind :: "'c \<Rightarrow> string \<Rightarrow> string \<Rightarrow> gerror + 'c"
  Search :: "'c \<Rightarrow> string \<Rightarrow> string \<Rightarrow> gerror + ldapEntry list \<times> 'c"
  url_Hostname :: "string \<Rightarrow> string option"
  ReadFile :: "string \<Rightarrow> gerror + string"
  CertsFromPEM :: "string \<Rightarrow> 'p option"

record 'p ldapAuthenticator =
  la_cfg :: ldapConfig
  la_caPool :: "'p option"

definition NewAuthenticator :: "('c, 'p) ldaplib \<Rightarrow> ldapConfig \<Rightarrow> gerror + 'p ldapAuthenticator" where
  "NewAuthenticator lib cfg =
     (if lc_URL cfg = [] \<or> lc_BaseDN cfg = [] \<or> lc_UserFilter cfg = [] then
        Inl (OpaqueErr ''ldap: url, base-dn, and user-filter are all required'')
      else if \<not> Contains (lc_UserFilter cfg) ''%s'' then
        Inl (OpaqueErr ''ldap: user-filter must contain a %s placeholder for the username'')
      else if url_Hostname lib (lc_URL cfg) = None then Inl (OpaqueErr ''ldap: invalid url'')
      else if lc_CACertFile cfg \<noteq> [] then
        (case ReadFile lib (lc_CACertFile cfg) of
           Inl e \<Rightarrow> Inl (Wrap ''ldap: read ca-cert-file'' e)
         | Inr pem \<Rightarrow>
             (case CertsFromPEM lib pem of
                None \<Rightarrow> Inl (OpaqueErr ''ldap: ca-cert-file contains no valid PEM certificates'')
              | Some pool \<Rightarrow> Inr \<lparr>la_cfg = cfg, la_caPool = Some pool\<rparr>))
      else Inr \<lparr>la_cfg = cfg, la_caPool = None\<rparr>)"

text \<open>\<open>Inr None\<close>: LDAP login is not configured.\<close>

definition NewLDAPAuthenticator ::
  "('c, 'p) ldaplib \<Rightarrow> ldapConfig \<Rightarrow> gerror + 'p ldapAuthenticator option" where
  "NewLDAPAuthenticator lib config =
     (if lc_URL config = [] then Inr None
      else if lc_BaseDN config = [] then Inl (OpaqueErr ''ldap-base-dn is required when ldap-url is set'')
      else map_sum id Some (NewAuthenticator lib config))"

text \<open>
  \<open>fmt.Sprintf\<close> of a filter with one argument: the first \<open>%s\<close> takes it, \<open>%%\<close> is a per-cent sign. A filter
  has no other verb.
\<close>

fun Sprintf_s :: "string \<Rightarrow> string option \<Rightarrow> string" where
  "Sprintf_s [] arg = []"
| "Sprintf_s [c] arg = [c]"
| "Sprintf_s (c # c' # s) arg =
     (if c = CHR ''%'' \<and> c' = CHR ''s'' then
        (case arg of Some a \<Rightarrow> a @ Sprintf_s s None | None \<Rightarrow> ''%!s(MISSING)'' @ Sprintf_s s None)
      else if c = CHR ''%'' \<and> c' = CHR ''%'' then c # Sprintf_s s arg
      else c # Sprintf_s (c' # s) arg)"

definition ldap_dial :: "('c, 'p) ldaplib \<Rightarrow> 'p ldapAuthenticator \<Rightarrow> gerror + 'c" where
  "ldap_dial lib a =
     (let cfg = la_cfg a;
          tls = \<lparr>tls_ServerName = (case url_Hostname lib (lc_URL cfg) of None \<Rightarrow> [] | Some h \<Rightarrow> h),
                 tls_InsecureSkipVerify = lc_InsecureSkipVerify cfg, tls_RootCAs = la_caPool a\<rparr>
      in case DialURL lib (lc_URL cfg) tls of
           Inl e \<Rightarrow> Inl e
         | Inr conn \<Rightarrow>
             if lc_StartTLS cfg \<and> HasPrefix (map lower (lc_URL cfg)) ''ldap://'' then StartTLS lib conn tls
             else Inr conn)"

text \<open>The package's own \<open>ErrInvalidCredentials\<close>, which its caller turns into the store's.\<close>

abbreviation ldap_ErrInvalidCredentials :: gerror where
  "ldap_ErrInvalidCredentials \<equiv> OpaqueErr ''ldap: invalid credentials''"

definition ldap_Authenticate ::
  "('c, 'p) ldaplib \<Rightarrow> 'p ldapAuthenticator \<Rightarrow> string \<Rightarrow> string \<Rightarrow> gerror + Identity" where
  "ldap_Authenticate lib a username password =
     (if username = [] \<or> password = [] then Inl ldap_ErrInvalidCredentials
      else case ldap_dial lib a of
        Inl e \<Rightarrow> Inl (Wrap ''connect'' ldap_ErrInvalidCredentials)
      | Inr conn \<Rightarrow>
          (case (if lc_BindDN (la_cfg a) \<noteq> [] then Bind lib conn (lc_BindDN (la_cfg a)) (lc_BindPassword (la_cfg a))
                 else Inr conn) of
             Inl e \<Rightarrow> Inl (Wrap ''service bind'' ldap_ErrInvalidCredentials)
           | Inr conn \<Rightarrow>
               (case Search lib conn (lc_BaseDN (la_cfg a))
                       (Sprintf_s (lc_UserFilter (la_cfg a)) (Some (EscapeFilter lib username))) of
                  Inl e \<Rightarrow> Inl (Wrap ''search'' ldap_ErrInvalidCredentials)
                | Inr (entries, conn) \<Rightarrow>
                    (case entries of
                       [entry] \<Rightarrow>
                         (case Bind lib conn (e_DN entry) password of
                            Inl e \<Rightarrow> Inl ldap_ErrInvalidCredentials
                          | Inr conn \<Rightarrow>
                              Inr \<lparr>id_DN = e_DN entry, id_Email = e_mail entry, id_Groups = e_memberOf entry\<rparr>)
                     | _ \<Rightarrow> Inl ldap_ErrInvalidCredentials))))"

section \<open>Accounts of a directory identity\<close>

text \<open>What the random source yields during one sign-in: a password, a suffix, and the draws of the group sync.\<close>

record loginDraws =
  ld_password :: "gerror + string"
  ld_suffix :: "gerror + string"
  ld_groups :: "string \<Rightarrow> draws"
  ld_refresh :: "gerror + string"

text \<open>\<open>cmp\<close>, \<open>hash\<close> are bcrypt's comparison and hash, \<open>H\<close> the hash of a refresh token.\<close>

record crypt =
  c_cmp :: "string \<Rightarrow> string \<Rightarrow> bool"
  c_hash :: "string \<Rightarrow> gerror + string"
  c_H :: "string \<Rightarrow> string"

definition FirstNonEmpty :: "string list \<Rightarrow> string" where
  "FirstNonEmpty vs = (case List.find (\<lambda>v. v \<noteq> []) vs of None \<Rightarrow> [] | Some v \<Rightarrow> v)"

definition log_error :: "('w, unit) sto \<Rightarrow> ('w, unit) sto" where
  "log_error m = tryE m (\<lambda>_. okE ()) okE"

definition syncLDAPGroups :: "loginDraws \<Rightarrow> string \<Rightarrow> Identity \<Rightarrow> ('w, unit) sto" where
  "syncLDAPGroups rnd username identity =
     log_error (SyncGroupMembershipByLDAPDNs (ld_groups rnd) username (id_Groups identity))"

definition resolveLDAPUsername :: "crypt \<Rightarrow> loginDraws \<Rightarrow> string \<Rightarrow> Identity \<Rightarrow> ('w, string) sto" where
  "resolveLDAPUsername cr rnd preferredUsername identity =
     tryE (FindUserByLDAPIdentity (id_DN identity))
       (\<lambda>e. if \<not> errors_Is e ErrUserNotFound then raiseE e else
          bindE (CreateLDAPUser (c_hash cr) (ld_password rnd) (ld_suffix rnd)
                   (FirstNonEmpty [preferredUsername, id_DN identity]) (id_DN identity)) (\<lambda>u.
          bindE (syncLDAPGroups rnd (u_Username u) identity) (\<lambda>_. okE (u_Username u))))
       (\<lambda>username. bindE (syncLDAPGroups rnd username identity) (\<lambda>_. okE username))"

definition AuthenticatePassword ::
  "crypt \<Rightarrow> ('c, 'p) ldaplib \<Rightarrow> loginDraws \<Rightarrow> 'p ldapAuthenticator option \<Rightarrow> string \<Rightarrow> string \<Rightarrow> ('w, string) sto" where
  "AuthenticatePassword cr lib rnd ldapAuth username password =
     tryE (Authenticate (c_cmp cr) username password)
       (\<lambda>_. case ldapAuth of
              None \<Rightarrow> raiseE ErrInvalidCredentials
            | Some a \<Rightarrow>
                (case ldap_Authenticate lib a username password of
                   Inl e \<Rightarrow> raiseE ErrInvalidCredentials
                 | Inr identity \<Rightarrow> resolveLDAPUsername cr rnd username identity))
       (\<lambda>_. okE username)"

section \<open>Password login and refresh\<close>

definition validateCredentials ::
  "crypt \<Rightarrow> ('c, 'p) ldaplib \<Rightarrow> loginDraws \<Rightarrow> 'p ldapAuthenticator option \<Rightarrow> string \<Rightarrow> string \<Rightarrow> ('w, string) sto" where
  "validateCredentials cr lib rnd ldapAuth username password =
     (if username = [] \<or> password = [] then raiseE (OpaqueErr ''username and password must not be empty'')
      else tryE (Authenticate (c_cmp cr) username password)
        (\<lambda>e. if \<not> errors_Is e ErrInvalidCredentials then raiseE e
             else AuthenticatePassword cr lib rnd ldapAuth username password)
        (\<lambda>_. okE username))"

record loginRequest =
  lr_Username :: string
  lr_Password :: string
  lr_TTLSeconds :: int

definition LoginHandler ::
  "crypt \<Rightarrow> ('k, 'w) jwtlib \<Rightarrow> ('c, 'p) ldaplib \<Rightarrow> loginDraws \<Rightarrow> string \<Rightarrow> 'p ldapAuthenticator option
   \<Rightarrow> loginRequest option \<Rightarrow> request \<Rightarrow> ('w, response) hnd" where
  "LoginHandler cr jl lib rnd secret ldapAuth body r =
     bindE (RequireMethod r ''POST'') (\<lambda>_.
     bindE (DecodeJSON body) (\<lambda>req.
     bindE (attempt (validateCredentials cr lib rnd ldapAuth (lr_Username req) (lr_Password req))
              (\<lambda>_. http_Error 401 ''invalid credentials'')) (\<lambda>username.
     bindE (attempt (IssueLoginToken jl secret username) (\<lambda>_. http_Error 500 ''failed to issue token'')) (\<lambda>token.
     bindE (attempt (CreateRefreshToken (c_H cr) (ld_refresh rnd) username RefreshTokenTTL)
              (\<lambda>_. http_Error 500 ''failed to issue token'')) (\<lambda>(refreshToken, _).
     WriteJSON 200 (JTokens token refreshToken))))))"

definition RefreshHandler ::
  "crypt \<Rightarrow> ('k, 'w) jwtlib \<Rightarrow> loginDraws \<Rightarrow> string \<Rightarrow> string option \<Rightarrow> request \<Rightarrow> ('w, response) hnd" where
  "RefreshHandler cr jl rnd secret body r =
     bindE (RequireMethod r ''POST'') (\<lambda>_.
     bindE (DecodeJSON body) (\<lambda>refreshToken.
     if refreshToken = [] then fail 400 ''invalid request body'' else
     bindE (attempt (RotateRefreshToken (c_H cr) (ld_refresh rnd) refreshToken RefreshTokenTTL)
              (writeStoreError ErrInvalidRefreshToken 401 ''invalid or expired refresh token''
                 ''failed to refresh token'')) (\<lambda>(username, newRefreshToken, _).
     bindE (attempt (IssueLoginToken jl secret username) (\<lambda>_. http_Error 500 ''failed to issue token'')) (\<lambda>token.
     WriteJSON 200 (JTokens token newRefreshToken)))))"

section \<open>Invariants of the password login\<close>

lemma IssueLoginToken_pres [pres]: "preserves P (IssueLoginToken jl secret username)"
  by (simp add: preserves_def IssueLoginToken_def)

lemma syncLDAPGroups_wf [pres]: "preserves store_wf (syncLDAPGroups rnd u i)"
  unfolding syncLDAPGroups_def log_error_def by (intro pres)

lemma resolveLDAPUsername_wf [pres]: "preserves store_wf (resolveLDAPUsername cr rnd u i)"
  unfolding resolveLDAPUsername_def by (intro pres)

lemma AuthenticatePassword_wf [pres]: "preserves store_wf (AuthenticatePassword cr lib rnd a u p)"
  unfolding AuthenticatePassword_def by (intro pres) (auto split: sum.split intro: pres)

lemma validateCredentials_wf [pres]: "preserves store_wf (validateCredentials cr lib rnd a u p)"
  unfolding validateCredentials_def by (intro pres)

lemma LoginHandler_wf [pres]: "preserves store_wf (LoginHandler cr jl lib rnd secret a body r)"
  unfolding LoginHandler_def by (intro pres)

lemma RefreshHandler_wf [pres]: "preserves store_wf (RefreshHandler cr jl rnd secret body r)"
  unfolding RefreshHandler_def by (intro pres)

end
