(* ===== verification/Oidc.thy ===== *)
theory Oidc
  imports Login
begin

text \<open>
  OpenID Connect sign-in: \<open>internal/auth/oidc.go\<close> and \<open>auth/oidc/oidc.go\<close>, with what \<open>net/http\<close> does with a
  redirect target and with a cookie. The provider and the packages that talk to it are the parameter
  \<open>oidclib\<close>.
\<close>

section \<open>Redirects and cookies of net/http\<close>

definition hex_digit :: "nat \<Rightarrow> char" where
  "hex_digit n = ''0123456789abcdef'' ! (n mod 16)"

definition hex_DIGIT :: "nat \<Rightarrow> char" where
  "hex_DIGIT n = ''0123456789ABCDEF'' ! (n mod 16)"

definition hexEscapeNonASCII :: "string \<Rightarrow> string" where
  "hexEscapeNonASCII s = concat (map (\<lambda>c. let n = of_char c :: nat in
     if 128 \<le> n then [CHR ''%'', hex_digit (n div 16), hex_digit n] else [c]) s)"

text \<open>\<open>url.QueryEscape\<close> and \<open>Values.Encode\<close> of pairs already in key order.\<close>

definition unreserved :: "char \<Rightarrow> bool" where
  "unreserved c \<longleftrightarrow> (let n = of_char c :: nat in
     48 \<le> n \<and> n \<le> 57 \<or> 65 \<le> n \<and> n \<le> 90 \<or> 97 \<le> n \<and> n \<le> 122 \<or>
     c = CHR ''-'' \<or> c = CHR ''_'' \<or> c = CHR ''.'' \<or> c = CHR ''~'')"

definition QueryEscape :: "string \<Rightarrow> string" where
  "QueryEscape s = concat (map (\<lambda>c. let n = of_char c :: nat in
     if unreserved c then [c] else if c = CHR '' '' then ''+''
     else [CHR ''%'', hex_DIGIT (n div 16), hex_DIGIT n]) s)"

definition Values_Encode :: "(string \<times> string) list \<Rightarrow> string" where
  "Values_Encode kvs = join_with (CHR ''&'') (map (\<lambda>(k, v). QueryEscape k @ CHR ''='' # QueryEscape v) kvs)"

text \<open>
  The \<open>Location\<close> that \<open>http.Redirect\<close> writes. \<open>parse\<close> is \<open>url.Parse\<close>, of which the scheme and the host are
  used; \<open>olddir\<close> is the directory of the request's path.
\<close>

type_synonym url_parser = "string \<Rightarrow> (string \<times> string) option"

definition path_and_query :: "string \<Rightarrow> string \<times> string" where
  "path_and_query u = (takeWhile (\<lambda>c. c \<noteq> CHR ''?'') u, dropWhile (\<lambda>c. c \<noteq> CHR ''?'') u)"

definition clean_location :: "string \<Rightarrow> string \<Rightarrow> string" where
  "clean_location olddir u =
     (let full = (if HasPrefix u ''/'' then u else olddir @ u);
          p = fst (path_and_query full);
          c = Clean p;
          c' = (if HasSuffix p ''/'' \<and> \<not> HasSuffix c ''/'' then c @ ''/'' else c)
      in c' @ snd (path_and_query full))"

definition http_Location :: "url_parser \<Rightarrow> string \<Rightarrow> string \<Rightarrow> string" where
  "http_Location parse olddir u =
     hexEscapeNonASCII (if parse u = Some ([], []) then clean_location olddir u else u)"

definition http_Redirect :: "url_parser \<Rightarrow> string \<Rightarrow> string \<Rightarrow> ('w, response) hnd" where
  "http_Redirect parse olddir u =
     okE \<lparr>status = 302, payload = Hyperlink u, headers = [(''Location'', http_Location parse olddir u)]\<rparr>"

text \<open>\<open>http.SetCookie\<close>: bytes a cookie value may not hold are dropped; a space or comma makes it quoted.\<close>

definition validCookieValueByte :: "char \<Rightarrow> bool" where
  "validCookieValueByte c \<longleftrightarrow> 32 \<le> (of_char c :: nat) \<and> (of_char c :: nat) < 127 \<and>
     c \<noteq> CHR 0x22 \<and> c \<noteq> CHR '';'' \<and> c \<noteq> CHR 0x5C"

definition sanitizeCookieValue :: "string \<Rightarrow> string" where
  "sanitizeCookieValue v =
     (let w = filter validCookieValueByte v
      in if w = [] then [] else if CHR '' '' \<in> set w \<or> CHR '','' \<in> set w then CHR 0x22 # w @ [CHR 0x22] else w)"

definition oidcStateCookie :: string where "oidcStateCookie = ''tileserve_oidc_state''"
definition oidcNonceCookie :: string where "oidcNonceCookie = ''tileserve_oidc_nonce''"
definition oidcRedirectCookie :: string where "oidcRedirectCookie = ''tileserve_oidc_redirect''"
definition oidcCookiePath :: string where "oidcCookiePath = ''/login/oidc''"
definition oidcFlowTTL :: int where "oidcFlowTTL = 5 * minute"

definition requestIsHTTPS :: "request \<Rightarrow> bool" where
  "requestIsHTTPS r \<longleftrightarrow> OverTLS r \<or> EqualFold (HeaderGet r ''X-Forwarded-Proto'') ''https''"

text \<open>A positive age is written as it is, a negative one as \<open>Max-Age=0\<close>.\<close>

definition cookie_header :: "request \<Rightarrow> string \<Rightarrow> string \<Rightarrow> int \<Rightarrow> string \<times> string" where
  "cookie_header r name v maxAge =
     (''Set-Cookie'', name @ CHR ''='' # sanitizeCookieValue v @ ''; Path='' @ oidcCookiePath @
        ''; Max-Age='' @ (if maxAge > 0 then Itoa maxAge else ''0'') @ ''; HttpOnly'' @
        (if requestIsHTTPS r then ''; Secure'' else []) @ ''; SameSite=Lax'')"

definition setOIDCCookie :: "request \<Rightarrow> string \<Rightarrow> string \<Rightarrow> string \<times> string" where
  "setOIDCCookie r name v = cookie_header r name v (oidcFlowTTL div second)"

definition readAndClearOIDCCookie :: "request \<Rightarrow> string \<Rightarrow> string \<times> (string \<times> string)" where
  "readAndClearOIDCCookie r name =
     ((case Cookie r name of None \<Rightarrow> [] | Some v \<Rightarrow> v), cookie_header r name [] (- 1))"

section \<open>The flow\<close>

record ApplicationOIDCConfig =
  oc_IssuerURL :: string
  oc_ClientID :: string
  oc_ClientSecret :: string
  oc_RedirectURL :: string

record IDToken =
  it_Issuer :: string
  it_Subject :: string
  it_Nonce :: string

record oidcClaims =
  oc_PreferredUsername :: string
  oc_Email :: string
  oc_Groups :: "string list"

text \<open>
  Discovery of the provider, the authorization URL, the exchange of a code (the \<open>id_token\<close> of the answer
  when it is a string), the verification of a raw token, and the decoding of its claims.
\<close>

record 't oidclib =
  Discover :: "ApplicationOIDCConfig \<Rightarrow> gerror + 't"
  AuthCodeURL :: "'t \<Rightarrow> string \<Rightarrow> string \<Rightarrow> string"
  Exchange :: "'t \<Rightarrow> string \<Rightarrow> gerror + string option"
  Verify :: "'t \<Rightarrow> string \<Rightarrow> gerror + IDToken"
  Claims :: "string \<Rightarrow> gerror + oidcClaims"
  urlParse :: url_parser

definition NewOIDCAuthenticator :: "'t oidclib \<Rightarrow> ApplicationOIDCConfig \<Rightarrow> gerror + 't option" where
  "NewOIDCAuthenticator lib c =
     (if oc_IssuerURL c = [] \<and> oc_ClientID c = [] \<and> oc_ClientSecret c = [] \<and> oc_RedirectURL c = [] then Inr None
      else if oc_IssuerURL c = [] \<or> oc_ClientID c = [] \<or> oc_ClientSecret c = [] \<or> oc_RedirectURL c = [] then
        Inl (OpaqueErr ''oidc-issuer-url, oidc-client-id, oidc-client-secret, and oidc-redirect-url must all be set together to enable OpenID Connect login'')
      else map_sum (Wrap ''discover oidc provider'') Some (Discover lib c))"

definition AuthMethodsHandler :: "bool \<Rightarrow> request \<Rightarrow> ('w, response) hnd" where
  "AuthMethodsHandler oidcEnabled r =
     bindE (RequireMethod r ''GET'') (\<lambda>_. WriteJSON 200 (JAuthMethods oidcEnabled))"

definition sanitizeRedirectPath :: "string \<Rightarrow> string" where
  "sanitizeRedirectPath p =
     (if p = [] \<or> hd p \<noteq> CHR ''/'' \<or> HasPrefix p ''//'' \<or> CHR 0x5C \<in> set p then ''/ui/'' else p)"

text \<open>\<open>st\<close> and \<open>no\<close> are the two values of \<open>randomOIDCValue\<close>.\<close>

definition OIDCLoginHandler ::
  "'t oidclib \<Rightarrow> 't \<Rightarrow> gerror + string \<Rightarrow> gerror + string \<Rightarrow> request \<Rightarrow> ('w, response) hnd" where
  "OIDCLoginHandler lib a st no r =
     bindE (RequireMethod r ''GET'') (\<lambda>_.
     bindE (attempt (pureE st) (\<lambda>_. http_Error 500 ''failed to start sign-in'')) (\<lambda>state.
     bindE (attempt (pureE no) (\<lambda>_. http_Error 500 ''failed to start sign-in'')) (\<lambda>nonce.
     with_headers
       [setOIDCCookie r oidcStateCookie state, setOIDCCookie r oidcNonceCookie nonce,
        setOIDCCookie r oidcRedirectCookie (sanitizeRedirectPath (QueryGet r ''redirect''))]
       (http_Redirect (urlParse lib) ''/login/'' (AuthCodeURL lib a state nonce)))))"

definition consumeOIDCFlowCookies ::
  "request \<Rightarrow> (string \<times> string \<times> string) \<times> (string \<times> string) list" where
  "consumeOIDCFlowCookies r =
     (case (readAndClearOIDCCookie r oidcStateCookie, readAndClearOIDCCookie r oidcNonceCookie,
            readAndClearOIDCCookie r oidcRedirectCookie) of
        ((state, h1), (nonce, h2), (redirectTo, h3)) \<Rightarrow>
          ((sanitizeRedirectPath redirectTo, state, nonce), [h1, h2, h3]))"

definition exchangeAndVerify ::
  "'t oidclib \<Rightarrow> 't \<Rightarrow> string \<Rightarrow> string \<Rightarrow> string + IDToken \<times> oidcClaims" where
  "exchangeAndVerify lib a code expectedNonce =
     (case Exchange lib a code of
        Inl e \<Rightarrow> Inl ''failed to exchange authorization code''
      | Inr idt \<Rightarrow>
          (case (case idt of None \<Rightarrow> [] | Some raw \<Rightarrow> raw) of
             [] \<Rightarrow> Inl ''provider response did not include an id token''
           | c # raw \<Rightarrow>
               (case Verify lib a (c # raw) of
                  Inl e \<Rightarrow> Inl ''failed to verify id token''
                | Inr idToken \<Rightarrow>
                    if expectedNonce = [] \<or> it_Nonce idToken \<noteq> expectedNonce then Inl ''invalid sign-in nonce''
                    else (case Claims lib (c # raw) of
                            Inl e \<Rightarrow> Inl ''failed to read id token claims''
                          | Inr claims \<Rightarrow> Inr (idToken, claims)))))"

definition syncOIDCGroups :: "loginDraws \<Rightarrow> string \<Rightarrow> oidcClaims \<Rightarrow> ('w, unit) sto" where
  "syncOIDCGroups rnd username claims =
     log_error (SyncGroupMembershipByOIDCClaims (ld_groups rnd) username (oc_Groups claims))"

definition resolveOIDCUsername ::
  "crypt \<Rightarrow> loginDraws \<Rightarrow> IDToken \<Rightarrow> oidcClaims \<Rightarrow> ('w, string) sto" where
  "resolveOIDCUsername cr rnd idToken claims =
     tryE (FindUserByOIDCIdentity (it_Issuer idToken) (it_Subject idToken))
       (\<lambda>e. if \<not> errors_Is e ErrUserNotFound then raiseE e else
          bindE (CreateOIDCUser (c_hash cr) (ld_password rnd) (ld_suffix rnd)
                   (FirstNonEmpty [oc_PreferredUsername claims, oc_Email claims, it_Subject idToken])
                   (it_Issuer idToken) (it_Subject idToken)) (\<lambda>u.
          bindE (syncOIDCGroups rnd (u_Username u) claims) (\<lambda>_. okE (u_Username u))))
       (\<lambda>username. bindE (syncOIDCGroups rnd username claims) (\<lambda>_. okE username))"

definition issueOIDCSession ::
  "crypt \<Rightarrow> ('k, 'w) jwtlib \<Rightarrow> loginDraws \<Rightarrow> string \<Rightarrow> string \<Rightarrow> ('w, string \<times> string) sto" where
  "issueOIDCSession cr jl rnd secret username =
     bindE (IssueLoginToken jl secret username) (\<lambda>token.
     bindE (CreateRefreshToken (c_H cr) (ld_refresh rnd) username RefreshTokenTTL) (\<lambda>(refreshToken, _).
     okE (token, refreshToken)))"

definition session_fragment :: "string \<Rightarrow> string \<Rightarrow> string \<Rightarrow> string" where
  "session_fragment token refreshToken username =
     Values_Encode [(''refresh_token'', refreshToken), (''token'', token), (''username'', username)]"

definition OIDCCallbackHandler ::
  "crypt \<Rightarrow> ('k, 'w) jwtlib \<Rightarrow> 't oidclib \<Rightarrow> loginDraws \<Rightarrow> 't \<Rightarrow> string \<Rightarrow> request \<Rightarrow> ('w, response) hnd" where
  "OIDCCallbackHandler cr jl lib rnd a secret r =
     bindE (RequireMethod r ''GET'') (\<lambda>_.
     case consumeOIDCFlowCookies r of ((redirectTo, expectedState, expectedNonce), cookies) \<Rightarrow>
     with_headers cookies
       (if QueryGet r ''error'' \<noteq> [] then fail 401 (''sign-in failed: '' @ QueryGet r ''error'')
        else if expectedState = [] \<or> QueryGet r ''state'' \<noteq> expectedState then fail 400 ''invalid sign-in state''
        else if QueryGet r ''code'' = [] then fail 400 ''missing authorization code''
        else case exchangeAndVerify lib a (QueryGet r ''code'') expectedNonce of
          Inl msg \<Rightarrow> fail 401 msg
        | Inr (idToken, claims) \<Rightarrow>
            bindE (attempt (resolveOIDCUsername cr rnd idToken claims)
                     (\<lambda>_. http_Error 500 ''failed to resolve account'')) (\<lambda>username.
            bindE (attempt (issueOIDCSession cr jl rnd secret username)
                     (\<lambda>_. http_Error 500 ''failed to issue token'')) (\<lambda>(token, refreshToken).
            http_Redirect (urlParse lib) ''/login/oidc/''
              (redirectTo @ CHR ''#'' # session_fragment token refreshToken username)))))"

section \<open>Invariants\<close>

lemma http_Redirect_pres [pres]: "preserves P (http_Redirect p d u)"
  unfolding http_Redirect_def by (intro pres)

lemma AuthMethodsHandler_pres [pres]: "preserves P (AuthMethodsHandler b r)"
  unfolding AuthMethodsHandler_def by (intro pres)

lemma OIDCLoginHandler_wf [pres]: "preserves store_wf (OIDCLoginHandler lib a st no r)"
  unfolding OIDCLoginHandler_def by (intro pres)

lemma syncOIDCGroups_wf [pres]: "preserves store_wf (syncOIDCGroups rnd u c)"
  unfolding syncOIDCGroups_def log_error_def by (intro pres)

lemma resolveOIDCUsername_wf [pres]: "preserves store_wf (resolveOIDCUsername cr rnd t c)"
  unfolding resolveOIDCUsername_def by (intro pres)

lemma issueOIDCSession_wf [pres]: "preserves store_wf (issueOIDCSession cr jl rnd secret u)"
  unfolding issueOIDCSession_def by (intro pres)

lemma OIDCCallbackHandler_wf [pres]: "preserves store_wf (OIDCCallbackHandler cr jl lib rnd a secret r)"
  unfolding OIDCCallbackHandler_def by (intro pres) (auto split: sum.split intro!: pres)

section \<open>A redirect stays on the server\<close>

text \<open>A target a browser resolves against the server's own origin.\<close>

definition same_origin :: "string \<Rightarrow> bool" where
  "same_origin u \<longleftrightarrow> HasPrefix u ''/'' \<and> \<not> HasPrefix u ''//'' \<and> CHR 0x5C \<notin> set u"

lemma same_origin_sanitize: "same_origin (sanitizeRedirectPath p)"
  by (auto simp: same_origin_def sanitizeRedirectPath_def HasPrefix_def take_Suc hd_conv_nth split: list.splits)

end
