(* ===== verification/Migration.thy ===== *)
theory Migration
  imports Schema
begin

text \<open>
  The migration run at every start (\<open>Store.Migrate\<close> in \<open>internal/store/store.go\<close>). What a database has besides rows
  is its catalogue: the names of its constraints and indexes and the defaults of its columns. GORM's \<open>AutoMigrate\<close>
  is a parameter; the raw statements are modelled by what PostgreSQL does with them: adding a constraint or a unique
  index fails when a row violates it.
\<close>

record catalog =
  cg_constraints :: "string list"
  cg_indexes :: "string list"
  cg_defaults :: "(string \<times> string) \<Rightarrow> string option"

text \<open>A foreign key, by its name and by what its \<open>ALTER TABLE\<close> demands of the rows.\<close>

record namedConstraint =
  nc_name :: string
  nc_holds :: "db \<Rightarrow> bool"

definition references :: "string \<Rightarrow> (db \<Rightarrow> 'a list) \<Rightarrow> ('a \<Rightarrow> 'k) \<Rightarrow> (db \<Rightarrow> 'b list) \<Rightarrow> ('b \<Rightarrow> 'k) \<Rightarrow> namedConstraint" where
  "references name child fk parent pk =
     \<lparr>nc_name = name, nc_holds = (\<lambda>d. \<forall>r\<in>set (child d). fk r \<in> pk ` set (parent d))\<rparr>"

text \<open>The one nullable reference.\<close>

definition fk_maps_sync_remote :: namedConstraint where
  "fk_maps_sync_remote = \<lparr>nc_name = ''fk_maps_sync_remote'',
     nc_holds = (\<lambda>d. \<forall>m\<in>set (t_maps d).
       case m_SyncRemoteID m of None \<Rightarrow> True | Some r \<Rightarrow> r \<in> sr_ID ` set (t_sync_remotes d))\<rparr>"

definition foreignKeys :: "namedConstraint list" where
  "foreignKeys =
    [references ''fk_maps_owner'' t_maps m_OwnerID t_users u_ID,
     fk_maps_sync_remote,
     references ''fk_map_versions_map'' t_map_versions mv_MapUUID t_maps m_UUID,
     references ''fk_geo_objects_map_version'' t_geo_objects (\<lambda>g. (go_MapUUID g, go_Version g)) t_map_versions mv_key,
     references ''fk_map_permissions_map'' t_map_permissions mpm_MapUUID t_maps m_UUID,
     references ''fk_map_permissions_user'' t_map_permissions mpm_Username t_users u_Username,
     references ''fk_refresh_tokens_user'' t_refresh_tokens rt_Username t_users u_Username,
     references ''fk_map_version_aliases_map'' t_map_version_aliases a_MapUUID t_maps m_UUID,
     references ''fk_map_version_aliases_map_version'' t_map_version_aliases (\<lambda>a. (a_MapUUID a, a_Version a)) t_map_versions mv_key,
     references ''fk_api_keys_user'' t_api_keys k_Username t_users u_Username,
     references ''fk_sync_remote_maps_remote'' t_sync_remote_maps srm_RemoteID t_sync_remotes sr_ID,
     references ''fk_api_key_scopes_key'' t_api_key_scopes sc_APIKeyID t_api_keys k_ID,
     references ''fk_api_key_scopes_map'' t_api_key_scopes sc_MapUUID t_maps m_UUID,
     references ''fk_group_members_group'' t_group_members gm_GroupID t_groups g_ID,
     references ''fk_group_members_user'' t_group_members gm_Username t_users u_Username,
     references ''fk_group_map_permissions_map'' t_group_map_permissions gmp_MapUUID t_maps m_UUID,
     references ''fk_group_map_permissions_group'' t_group_map_permissions gmp_GroupID t_groups g_ID]"

text \<open>An index, by its name and by what it demands of the rows: nothing unless it is unique.\<close>

definition secondaryIndexes :: "(string \<times> (db \<Rightarrow> bool)) list" where
  "secondaryIndexes =
    [(''idx_geo_objects_map_version'', \<lambda>d. True),
     (''idx_api_keys_username'', \<lambda>d. True),
     (''idx_api_key_scopes_api_key'', \<lambda>d. True),
     (''idx_group_members_username'', \<lambda>d. True),
     (''idx_audit_logs_occurred_at'', \<lambda>d. True),
     (''idx_audit_logs_entity'', \<lambda>d. True),
     (''idx_audit_logs_actor'', \<lambda>d. True),
     (''idx_users_oidc_identity'',
        \<lambda>d. distinct (map (\<lambda>u. (u_OIDCIssuer u, u_OIDCSubject u)) (filter (\<lambda>u. u_OIDCSubject u \<noteq> []) (t_users d)))),
     (''idx_users_ldap_identity'', \<lambda>d. distinct (map u_LDAPDN (filter (\<lambda>u. u_LDAPDN u \<noteq> []) (t_users d)))),
     (''idx_groups_ldap_dn'', \<lambda>d. distinct (map g_LDAPGroupDN (filter (\<lambda>g. g_LDAPGroupDN g \<noteq> []) (t_groups d)))),
     (''idx_groups_oidc_claim'', \<lambda>d. distinct (map g_OIDCGroupClaim (filter (\<lambda>g. g_OIDCGroupClaim g \<noteq> []) (t_groups d))))]"

definition columnDefaults :: "((string \<times> string) \<times> string) list" where
  "columnDefaults =
    [((''users'', ''can_create''), ''true''),
     ((''users'', ''can_edit''), ''true''),
     ((''users'', ''can_delete''), ''true''),
     ((''users'', ''can_edit_geo_objects''), ''true''),
     ((''users'', ''can_delete_geo_objects''), ''true''),
     ((''users'', ''is_admin''), ''true''),
     ((''sync_remotes'', ''enabled''), ''true''),
     ((''sync_remotes'', ''sync_all_maps''), ''true''),
     ((''sync_remotes'', ''poll_interval_sec''), ''300'')]"

section \<open>The statements\<close>

type_synonym ('w, 'a) mig = "(catalog \<times> 'w store_scheme, gerror, 'a) action"

text \<open>A statement on the catalogue may fail like any other.\<close>

definition ddl :: "(catalog \<Rightarrow> db \<Rightarrow> gerror + 'a \<times> catalog) \<Rightarrow> ('w, 'a) mig" where
  "ddl f st =
     (case st of (c, s) \<Rightarrow>
        if faults s \<noteq> [] \<and> hd (faults s) then (Inl (OpaqueErr ''database''), (c, s\<lparr>faults := tl (faults s)\<rparr>))
        else case f c (st_db s) of
               Inl e \<Rightarrow> (Inl e, (c, s\<lparr>faults := tl (faults s)\<rparr>))
             | Inr (x, c') \<Rightarrow> (Inr x, (c', s\<lparr>faults := tl (faults s)\<rparr>)))"

definition constraint_exists :: "string \<Rightarrow> catalog \<Rightarrow> db \<Rightarrow> gerror + bool \<times> catalog" where
  "constraint_exists n c d = Inr (n \<in> set (cg_constraints c), c)"

definition add_constraint :: "namedConstraint \<Rightarrow> catalog \<Rightarrow> db \<Rightarrow> gerror + unit \<times> catalog" where
  "add_constraint k c d =
     (if nc_name k \<in> set (cg_constraints c) then Inl (OpaqueErr ''constraint already exists'')
      else if \<not> nc_holds k d then Inl (OpaqueErr ''violates foreign key constraint'')
      else Inr ((), c\<lparr>cg_constraints := nc_name k # cg_constraints c\<rparr>))"

definition create_index :: "string \<times> (db \<Rightarrow> bool) \<Rightarrow> catalog \<Rightarrow> db \<Rightarrow> gerror + unit \<times> catalog" where
  "create_index i c d =
     (if fst i \<in> set (cg_indexes c) then Inr ((), c)
      else if \<not> snd i d then Inl (OpaqueErr ''could not create unique index'')
      else Inr ((), c\<lparr>cg_indexes := fst i # cg_indexes c\<rparr>))"

definition set_default :: "(string \<times> string) \<times> string \<Rightarrow> catalog \<Rightarrow> db \<Rightarrow> gerror + unit \<times> catalog" where
  "set_default x c d = Inr ((), c\<lparr>cg_defaults := (cg_defaults c)(fst x := Some (snd x))\<rparr>)"

section \<open>The migration\<close>

definition addConstraintsIfMissing :: "namedConstraint list \<Rightarrow> ('w, unit) mig" where
  "addConstraintsIfMissing constraints =
     forE constraints (\<lambda>k.
       bindE (mapErrE (Wrap ''check constraint'') (ddl (constraint_exists (nc_name k)))) (\<lambda>exists.
       if exists then okE ()
       else mapErrE (Wrap ''add constraint'') (ddl (add_constraint k))))"

text \<open>\<open>AutoMigrate\<close> creates what is missing of the tables, with their primary keys and single-column unique indexes.\<close>

type_synonym automigrate = "catalog \<times> db \<Rightarrow> gerror + catalog \<times> db"

definition run_automigrate :: "automigrate \<Rightarrow> ('w, unit) mig" where
  "run_automigrate am st =
     (case st of (c, s) \<Rightarrow>
        case am (c, st_db s) of Inl e \<Rightarrow> (Inl e, st) | Inr (c', d) \<Rightarrow> (Inr (), (c', s\<lparr>st_db := d\<rparr>)))"

definition Migrate :: "automigrate \<Rightarrow> ('w, unit) mig" where
  "Migrate am =
     bindE (mapErrE (Wrap ''automigrate'') (run_automigrate am)) (\<lambda>_.
     bindE (addConstraintsIfMissing foreignKeys) (\<lambda>_.
     bindE (forE secondaryIndexes (\<lambda>i. mapErrE (Wrap ''create index'') (ddl (create_index i)))) (\<lambda>_.
     forE columnDefaults (\<lambda>x. mapErrE (Wrap ''set column default'') (ddl (set_default x))))))"

section \<open>What holds of a catalogue\<close>

text \<open>A constraint or a unique index that exists is enforced, so the rows satisfy it.\<close>

definition enforced :: "catalog \<Rightarrow> db \<Rightarrow> bool" where
  "enforced c d \<longleftrightarrow>
     (\<forall>k\<in>set foreignKeys. nc_name k \<in> set (cg_constraints c) \<longrightarrow> nc_holds k d) \<and>
     (\<forall>i\<in>set secondaryIndexes. fst i \<in> set (cg_indexes c) \<longrightarrow> snd i d)"

text \<open>
  Documented of \<open>AutoMigrate\<close>: the tables it leaves have their primary keys and unique columns; it adds to the schema
  and does not touch the constraints and indexes it does not know.
\<close>

definition automigrate_contract :: "automigrate \<Rightarrow> bool" where
  "automigrate_contract am \<longleftrightarrow>
     (\<forall>c d c' d'. am (c, d) = Inr (c', d') \<longrightarrow> keys_ok d' \<and> (enforced c d \<longrightarrow> enforced c' d'))"

lemma foreignKeys_distinct: "distinct (map nc_name foreignKeys)"
  by (simp add: foreignKeys_def references_def fk_maps_sync_remote_def)

lemma secondaryIndexes_distinct: "distinct (map fst secondaryIndexes)"
  by (simp add: secondaryIndexes_def)

lemma foreignKeys_hold: "(\<forall>k\<in>set foreignKeys. nc_holds k d) \<longleftrightarrow> foreignKeys_ok d"
  by (simp add: foreignKeys_def references_def fk_maps_sync_remote_def foreignKeys_ok_def split: option.split)

lemma secondaryIndexes_hold: "(\<forall>i\<in>set secondaryIndexes. snd i d) \<longleftrightarrow> identities_ok d"
  by (simp add: secondaryIndexes_def identities_ok_def)

end
