(* ===== verification/MigrationFacts.thy ===== *)
theory MigrationFacts
  imports Migration
begin

text \<open>
  What a migration guarantees: a successful one leaves the schema every other theory relies on, it succeeds exactly on
  rows that satisfy the schema, and running it again changes nothing.
\<close>

section \<open>Statements\<close>

lemma ddl_Inr:
  assumes "ddl f (c, s) = (Inr x, (c', s'))"
  shows "f c (st_db s) = Inr (x, c') \<and> st_db s' = st_db s \<and> (caches_fresh s \<longrightarrow> caches_fresh s')"
  using assms by (auto simp: ddl_def split: if_splits sum.splits)

text \<open>Every statement keeps what is enforced, and what exists.\<close>

definition grows :: "catalog \<Rightarrow> catalog \<Rightarrow> bool" where
  "grows c c' \<longleftrightarrow> set (cg_constraints c) \<subseteq> set (cg_constraints c') \<and> set (cg_indexes c) \<subseteq> set (cg_indexes c')"

lemma grows_refl [simp]: "grows c c"
  by (simp add: grows_def)

lemma grows_trans: "grows a b \<Longrightarrow> grows b c \<Longrightarrow> grows a c"
  by (auto simp: grows_def)

lemma add_constraint_Inr:
  assumes "add_constraint k c d = Inr (x, c')" and "k \<in> set foreignKeys"
  shows "nc_name k \<in> set (cg_constraints c')" "grows c c'" "enforced c d \<Longrightarrow> enforced c' d"
proof -
  have c': "c' = c\<lparr>cg_constraints := nc_name k # cg_constraints c\<rparr>" "nc_holds k d"
    using assms(1) by (auto simp: add_constraint_def split: if_splits)
  then show "nc_name k \<in> set (cg_constraints c')" "grows c c'" by (auto simp: grows_def)
  have same: "k' = k" if "k' \<in> set foreignKeys" "nc_name k' = nc_name k" for k'
    using that assms(2) foreignKeys_distinct by (meson distinct_map inj_onD)
  have "nc_holds k' d" if "k' \<in> set foreignKeys" "nc_name k' = nc_name k" for k'
    using same [OF that] c'(2) by simp
  then show "enforced c d \<Longrightarrow> enforced c' d" by (simp add: enforced_def c'(1))
qed

lemma create_index_Inr:
  assumes "create_index i c d = Inr (x, c')" and "i \<in> set secondaryIndexes"
  shows "fst i \<in> set (cg_indexes c')" "grows c c'" "enforced c d \<Longrightarrow> enforced c' d"
proof -
  have c': "(c' = c \<and> fst i \<in> set (cg_indexes c)) \<or> (c' = c\<lparr>cg_indexes := fst i # cg_indexes c\<rparr> \<and> snd i d)"
    using assms(1) by (auto simp: create_index_def split: if_splits)
  then show "fst i \<in> set (cg_indexes c')" "grows c c'" by (auto simp: grows_def)
  have same: "i' = i" if "i' \<in> set secondaryIndexes" "fst i' = fst i" for i'
    using that assms(2) secondaryIndexes_distinct by (meson distinct_map inj_onD)
  have "snd i' d" if "snd i d" "i' \<in> set secondaryIndexes" "fst i' = fst i" for i'
    using same [OF that(2,3)] that(1) by simp
  note unique = this
  assume e: "enforced c d"
  from c' show "enforced c' d"
  proof (elim disjE conjE)
    assume *: "c' = c\<lparr>cg_indexes := fst i # cg_indexes c\<rparr>" "snd i d"
    show ?thesis
      unfolding enforced_def
    proof (intro conjI ballI impI)
      fix k assume "k \<in> set foreignKeys" "nc_name k \<in> set (cg_constraints c')"
      then show "nc_holds k d" using e *(1) by (simp add: enforced_def)
    next
      fix j assume j: "j \<in> set secondaryIndexes" "fst j \<in> set (cg_indexes c')"
      show "snd j d"
      proof (cases "fst j = fst i")
        case True
        then show ?thesis by (rule unique [OF *(2) j(1)])
      next
        case False
        then have "fst j \<in> set (cg_indexes c)" using j(2) *(1) by simp
        then show ?thesis using e j(1) by (simp only: enforced_def)
      qed
    qed
  qed (use e in simp)
qed

text \<open>A loop of statements establishes a condition of each element that later statements keep.\<close>

definition kept :: "catalog \<times> 'w store_scheme \<Rightarrow> catalog \<times> 'w store_scheme \<Rightarrow> bool" where
  "kept st st' \<longleftrightarrow> st_db (snd st') = st_db (snd st) \<and> grows (fst st) (fst st') \<and>
     (enforced (fst st) (st_db (snd st)) \<longrightarrow> enforced (fst st') (st_db (snd st))) \<and>
     (caches_fresh (snd st) \<longrightarrow> caches_fresh (snd st'))"

lemma kept_refl: "kept st st"
  by (simp add: kept_def)

lemma kept_trans: "kept a b \<Longrightarrow> kept b c \<Longrightarrow> kept a c"
  by (auto simp: kept_def intro: grows_trans)

lemma forE_kept:
  assumes "forE xs f st = (Inr u, st')"
    and "\<And>x st st'. x \<in> set xs \<Longrightarrow> f x st = (Inr (), st') \<Longrightarrow> kept st st' \<and> Q x (fst st')"
    and "\<And>x c c'. Q x c \<Longrightarrow> grows c c' \<Longrightarrow> Q x c'"
  shows "kept st st' \<and> (\<forall>x\<in>set xs. Q x (fst st'))"
  using assms(1,2)
proof (induction xs arbitrary: st)
  case (Cons x xs)
  from Cons.prems(1) obtain st1 where s1: "f x st = (Inr (), st1)" "forE xs f st1 = (Inr u, st')"
    by (auto elim!: bindE_InrE)
  have "kept st st1 \<and> Q x (fst st1)" by (rule Cons.prems(2) [OF _ s1(1)]) simp
  moreover have "kept st1 st' \<and> (\<forall>x\<in>set xs. Q x (fst st'))" 
  proof (rule Cons.IH [OF s1(2)])
    fix y st st' assume "y \<in> set xs" and run: "f y st = (Inr (), st')"
    then have "y \<in> set (x # xs)" by simp
    from Cons.prems(2) [OF this run] show "kept st st' \<and> Q y (fst st')" .
  qed
  moreover from calculation have "Q x (fst st')" using assms(3) unfolding kept_def by blast
  ultimately show ?case using kept_trans [of st st1 st'] by (metis set_ConsD)
qed (simp add: okE_def kept_refl)

lemma addConstraints_kept:
  assumes "addConstraintsIfMissing foreignKeys st = (Inr u, st')"
  shows "kept st st' \<and> (\<forall>k\<in>set foreignKeys. nc_name k \<in> set (cg_constraints (fst st')))"
proof (rule forE_kept [OF assms [unfolded addConstraintsIfMissing_def]])
  fix k and st st' :: "catalog \<times> 'a store_scheme"
  assume k: "k \<in> set foreignKeys"
    and run: "bindE (mapErrE (Wrap ''check constraint'') (ddl (constraint_exists (nc_name k)))) (\<lambda>exists.
       if exists then okE () else mapErrE (Wrap ''add constraint'') (ddl (add_constraint k))) st = (Inr (), st')"
  obtain c s where st: "st = (c, s)" by (meson surj_pair)
  obtain c' s' where st': "st' = (c', s')" by (meson surj_pair)
  from run obtain e c1 s1 where 1: "ddl (constraint_exists (nc_name k)) (c, s) = (Inr e, (c1, s1))"
    and 2: "(if e then okE () else mapErrE (Wrap ''add constraint'') (ddl (add_constraint k))) (c1, s1) = (Inr (), st')"
    unfolding st by (auto elim!: bindE_InrE dest!: mapErrE_InrD)
  note d1 = ddl_Inr [OF 1]
  show "kept st st' \<and> nc_name k \<in> set (cg_constraints (fst st'))"
  proof (cases e)
    case True
    with d1 2 show ?thesis by (auto simp: st kept_def constraint_exists_def okE_def)
  next
    case False
    with 2 st' have 3: "ddl (add_constraint k) (c1, s1) = (Inr (), (c', s'))" by (auto dest: mapErrE_InrD)
    from ddl_Inr [OF 3] have "add_constraint k c1 (st_db s1) = Inr ((), c')" by simp
    from add_constraint_Inr [OF this k] ddl_Inr [OF 3] d1 show ?thesis
      by (auto simp: st st' kept_def constraint_exists_def)
  qed
qed (auto simp: grows_def)

lemma createIndexes_kept:
  assumes "forE secondaryIndexes (\<lambda>i. mapErrE (Wrap ''create index'') (ddl (create_index i))) st = (Inr u, st')"
  shows "kept st st' \<and> (\<forall>i\<in>set secondaryIndexes. fst i \<in> set (cg_indexes (fst st')))"
proof (rule forE_kept [OF assms])
  fix i and st st' :: "catalog \<times> 'a store_scheme"
  assume i: "i \<in> set secondaryIndexes" and run: "mapErrE (Wrap ''create index'') (ddl (create_index i)) st = (Inr (), st')"
  obtain c s where st: "st = (c, s)" by (meson surj_pair)
  obtain c' s' where st': "st' = (c', s')" by (meson surj_pair)
  have 1: "ddl (create_index i) (c, s) = (Inr (), (c', s'))" using run by (auto simp: st st' dest: mapErrE_InrD)
  from ddl_Inr [OF 1] have "create_index i c (st_db s) = Inr ((), c')" by simp
  from create_index_Inr [OF this i] ddl_Inr [OF 1] show "kept st st' \<and> fst i \<in> set (cg_indexes (fst st'))"
    by (auto simp: st st' kept_def)
qed (auto simp: grows_def)

lemma setDefaults_kept:
  "forE xs (\<lambda>x. mapErrE (Wrap ''set column default'') (ddl (set_default x))) st = (Inr u, st') \<Longrightarrow> kept st st'"
proof (drule forE_kept [where Q = "\<lambda>_ _. True"])
  fix x and st st' :: "catalog \<times> 'a store_scheme"
  assume run: "mapErrE (Wrap ''set column default'') (ddl (set_default x)) st = (Inr (), st')"
  obtain c s where st: "st = (c, s)" by (meson surj_pair)
  obtain c' s' where st': "st' = (c', s')" by (meson surj_pair)
  have 1: "ddl (set_default x) (c, s) = (Inr (), (c', s'))" using run by (auto simp: st st' dest: mapErrE_InrD)
  from ddl_Inr [OF 1] show "kept st st' \<and> True"
    by (auto simp: st st' kept_def set_default_def enforced_def grows_def)
qed simp_all

lemma Migrate_run:
  assumes am: "automigrate_contract am" and e: "enforced c (st_db s)" and run: "Migrate am (c, s) = (Inr u, (c', s'))"
  obtains c1 d where "am (c, st_db s) = Inr (c1, d)" "st_db s' = d" "db_wf d" "enforced c' d"
    "nc_name ` set foreignKeys \<subseteq> set (cg_constraints c')" "fst ` set secondaryIndexes \<subseteq> set (cg_indexes c')"
    "caches_fresh s \<Longrightarrow> caches_fresh s'"
proof -
  from run obtain st1 st2 st3 where 1: "run_automigrate am (c, s) = (Inr (), st1)"
    and 2: "addConstraintsIfMissing foreignKeys st1 = (Inr (), st2)"
    and 3: "forE secondaryIndexes (\<lambda>i. mapErrE (Wrap ''create index'') (ddl (create_index i))) st2 = (Inr (), st3)"
    and 4: "forE columnDefaults (\<lambda>x. mapErrE (Wrap ''set column default'') (ddl (set_default x))) st3 = (Inr u, (c', s'))"
    unfolding Migrate_def by (auto elim!: bindE_InrE dest!: mapErrE_InrD)
  from 1 obtain c1 d where am1: "am (c, st_db s) = Inr (c1, d)" and st1: "st1 = (c1, s\<lparr>st_db := d\<rparr>)"
    by (auto simp: run_automigrate_def split: sum.splits)
  have a: "keys_ok d" "enforced c1 d" using am am1 e unfolding automigrate_contract_def by blast+
  note k = addConstraints_kept [OF 2] createIndexes_kept [OF 3] setDefaults_kept [OF 4]
  have all: "kept st1 (c', s')" using k kept_trans by blast
  then have d: "st_db s' = d" "enforced c' d" "caches_fresh s \<Longrightarrow> caches_fresh s'"
    using a(2) by (auto simp: kept_def st1)
  have names: "nc_name ` set foreignKeys \<subseteq> set (cg_constraints c')" "fst ` set secondaryIndexes \<subseteq> set (cg_indexes c')"
    using k by (auto simp: kept_def grows_def)
  with d(2) have "foreignKeys_ok d" "identities_ok d"
    unfolding foreignKeys_hold [symmetric] secondaryIndexes_hold [symmetric] enforced_def by auto
  with a(1) have "db_wf d" by (simp add: db_wf_def)
  with that am1 d names show thesis by blast
qed

lemma forE_skips: "(\<And>x. x \<in> set xs \<Longrightarrow> f x st = (Inr (), st)) \<Longrightarrow> forE xs f st = (Inr (), st)"
  by (induction xs) (simp_all add: okE_def bindE_def tryE_def)

lemma forE_succeeds:
  assumes "P st" and "\<And>x st. x \<in> set xs \<Longrightarrow> P st \<Longrightarrow> \<exists>st'. f x st = (Inr (), st') \<and> P st'"
  shows "\<exists>st'. forE xs f st = (Inr (), st') \<and> P st'"
  using assms
proof (induction xs arbitrary: st)
  case (Cons x xs)
  obtain st1 where "f x st = (Inr (), st1)" "P st1" using Cons.prems by fastforce
  moreover have "\<exists>st'. forE xs f st1 = (Inr (), st') \<and> P st'" using Cons.IH [OF \<open>P st1\<close>] Cons.prems(2) by simp
  ultimately show ?case by (auto simp: bindE_Inr)
qed (simp add: okE_def)

lemma ddl_no_fault:
  "faults s = [] \<Longrightarrow> ddl f (c, s) = (case f c (st_db s) of Inl e \<Rightarrow> (Inl e, (c, s)) | Inr (x, c') \<Rightarrow> (Inr x, (c', s)))"
  by (simp add: ddl_def split: sum.split prod.split)

lemma setDefaults_set:
  assumes "forE xs (\<lambda>x. mapErrE (Wrap ''set column default'') (ddl (set_default x))) (c, s) = (Inr u, (c', s'))"
  shows "cg_defaults c' = fold (\<lambda>x m. m(fst x := Some (snd x))) xs (cg_defaults c)"
  using assms
proof (induction xs arbitrary: c s)
  case (Cons x xs)
  from Cons.prems obtain c1 s1 where 1: "ddl (set_default x) (c, s) = (Inr (), (c1, s1))"
    and 2: "forE xs (\<lambda>x. mapErrE (Wrap ''set column default'') (ddl (set_default x))) (c1, s1) = (Inr u, (c', s'))"
    by (auto elim!: bindE_InrE dest!: mapErrE_InrD)
  from ddl_Inr [OF 1] have "c1 = c\<lparr>cg_defaults := (cg_defaults c)(fst x := Some (snd x))\<rparr>" by (auto simp: set_default_def)
  with Cons.IH [OF 2] show ?case by (simp del: fun_upd_apply)
qed (simp add: okE_def)

lemma fold_defaults_other:
  "k \<notin> fst ` set xs \<Longrightarrow> fold (\<lambda>x m. m(fst x := Some (snd x))) xs f k = f k"
  by (induction xs arbitrary: f) simp_all

lemma fold_defaults:
  "distinct (map fst xs) \<Longrightarrow> x \<in> set xs \<Longrightarrow> fold (\<lambda>x m. m(fst x := Some (snd x))) xs f (fst x) = Some (snd x)"
proof (induction xs arbitrary: f)
  case (Cons y ys)
  then show ?case using fold_defaults_other [of "fst y" ys "f(fst y := Some (snd y))"] by (auto simp del: fun_upd_apply) simp
qed simp

lemma columnDefaults_distinct: "distinct (map fst columnDefaults)"
  by (simp add: columnDefaults_def)

section \<open>Properties\<close>

text \<open>
  C36. A migration that succeeds, whatever it found, leaves a database that satisfies the whole schema: keys, linked
  identities and every foreign key; every constraint and index of the code exists and is enforced from then on.
\<close>

theorem Migrate_establishes_schema:
  assumes "automigrate_contract am" and "enforced c (st_db s)" and "Migrate am (c, s) = (Inr (), (c', s'))"
  shows "db_wf (st_db s') \<and> enforced c' (st_db s') \<and>
     (\<forall>k\<in>set foreignKeys. nc_name k \<in> set (cg_constraints c')) \<and>
     (\<forall>i\<in>set secondaryIndexes. fst i \<in> set (cg_indexes c'))"
  by (rule Migrate_run [OF assms]) auto

text \<open>
  C37. Without failing statements, a migration succeeds exactly when \<open>AutoMigrate\<close> does and the rows it leaves satisfy
  the foreign keys and the unique identities; in particular on an empty database.
\<close>

theorem Migrate_outcome:
  assumes "automigrate_contract am" and "enforced c (st_db s)" and "faults s = []"
  shows "fst (Migrate am (c, s)) = Inr () \<longleftrightarrow>
     (\<exists>c1 d. am (c, st_db s) = Inr (c1, d) \<and> foreignKeys_ok d \<and> identities_ok d)"
proof
  assume "fst (Migrate am (c, s)) = Inr ()"
  then obtain c' s' where "Migrate am (c, s) = (Inr (), (c', s'))" by (metis prod.collapse)
  from Migrate_run [OF assms(1,2) this] show "\<exists>c1 d. am (c, st_db s) = Inr (c1, d) \<and> foreignKeys_ok d \<and> identities_ok d"
    by (metis db_wf_def)
next
  assume "\<exists>c1 d. am (c, st_db s) = Inr (c1, d) \<and> foreignKeys_ok d \<and> identities_ok d"
  then obtain c1 d where am: "am (c, st_db s) = Inr (c1, d)" and ok: "foreignKeys_ok d" "identities_ok d" by blast
  let ?P = "\<lambda>st :: catalog \<times> 'a store_scheme. faults (snd st) = [] \<and> st_db (snd st) = d"
  have 1: "run_automigrate am (c, s) = (Inr (), (c1, s\<lparr>st_db := d\<rparr>))" by (simp add: run_automigrate_def am)
  have P1: "?P (c1, s\<lparr>st_db := d\<rparr>)" using assms(3) by simp
  have "\<exists>st'. addConstraintsIfMissing foreignKeys (c1, s\<lparr>st_db := d\<rparr>) = (Inr (), st') \<and> ?P st'"
    unfolding addConstraintsIfMissing_def
    by (rule forE_succeeds [of ?P, OF P1])
      (use ok(1) in \<open>auto simp: foreignKeys_hold [symmetric] bindE_def mapErrE_def tryE_def raiseE_def okE_def ddl_no_fault
        constraint_exists_def add_constraint_def\<close>)
  then obtain st2 where 2: "addConstraintsIfMissing foreignKeys (c1, s\<lparr>st_db := d\<rparr>) = (Inr (), st2)" "?P st2" by blast
  have "\<exists>st'. forE secondaryIndexes (\<lambda>i. mapErrE (Wrap ''create index'') (ddl (create_index i))) st2 = (Inr (), st') \<and> ?P st'"
    by (rule forE_succeeds [of ?P, OF 2(2)])
      (use ok(2) in \<open>auto simp: secondaryIndexes_hold [symmetric] mapErrE_def tryE_def raiseE_def okE_def ddl_no_fault
        create_index_def\<close>)
  then obtain st3 where 3: "forE secondaryIndexes (\<lambda>i. mapErrE (Wrap ''create index'') (ddl (create_index i))) st2 = (Inr (), st3)"
    "?P st3" by blast
  have "\<exists>st'. forE columnDefaults (\<lambda>x. mapErrE (Wrap ''set column default'') (ddl (set_default x))) st3 = (Inr (), st') \<and> ?P st'"
    by (rule forE_succeeds [of ?P, OF 3(2)]) (auto simp: mapErrE_def tryE_def raiseE_def okE_def ddl_no_fault set_default_def)
  with 1 2(1) 3(1) show "fst (Migrate am (c, s)) = Inr ()"
    by (auto simp: Migrate_def bindE_def mapErrE_def tryE_def okE_def)
qed

text \<open>
  C38. A migration is idempotent: after a successful one, when \<open>AutoMigrate\<close> finds nothing left to do, running it again
  succeeds and changes neither the catalogue nor anything else, so it is safe at every start.
\<close>

theorem Migrate_idempotent:
  assumes "automigrate_contract am" and "enforced c (st_db s)" and "Migrate am (c, s) = (Inr (), (c', s'))"
    and "am (c', st_db s') = Inr (c', st_db s')" and "faults s' = []"
  shows "Migrate am (c', s') = (Inr (), (c', s'))"
proof (rule Migrate_run [OF assms(1-3)])
  assume names: "nc_name ` set foreignKeys \<subseteq> set (cg_constraints c')" "fst ` set secondaryIndexes \<subseteq> set (cg_indexes c')"
  from assms(3) obtain st3 where
    "forE columnDefaults (\<lambda>x. mapErrE (Wrap ''set column default'') (ddl (set_default x))) st3 = (Inr (), (c', s'))"
    unfolding Migrate_def by (auto elim!: bindE_InrE)
  then have "forE columnDefaults (\<lambda>x. mapErrE (Wrap ''set column default'') (ddl (set_default x))) (fst st3, snd st3) =
      (Inr (), (c', s'))" by simp
  note eq = setDefaults_set [OF this]
  have defaults: "cg_defaults c' (fst x) = Some (snd x)" if "x \<in> set columnDefaults" for x
    unfolding eq by (rule fold_defaults [OF columnDefaults_distinct that])
  have 1: "run_automigrate am (c', s') = (Inr (), (c', s'))" using assms(4) by (simp add: run_automigrate_def)
  have 2: "addConstraintsIfMissing foreignKeys (c', s') = (Inr (), (c', s'))"
    unfolding addConstraintsIfMissing_def
    by (rule forE_skips) (use names(1) assms(5) in \<open>auto simp: bindE_def mapErrE_def tryE_def okE_def ddl_no_fault constraint_exists_def\<close>)
  have 3: "forE secondaryIndexes (\<lambda>i. mapErrE (Wrap ''create index'') (ddl (create_index i))) (c', s') = (Inr (), (c', s'))"
    by (rule forE_skips) (use names(2) assms(5) in \<open>auto simp: mapErrE_def tryE_def okE_def ddl_no_fault create_index_def image_subset_iff\<close>)
  have 4: "forE columnDefaults (\<lambda>x. mapErrE (Wrap ''set column default'') (ddl (set_default x))) (c', s') = (Inr (), (c', s'))"
  proof (rule forE_skips)
    fix x assume "x \<in> set columnDefaults"
    then have "(cg_defaults c')(fst x := Some (snd x)) = cg_defaults c'" using defaults by (simp only: fun_upd_idem)
    then show "mapErrE (Wrap ''set column default'') (ddl (set_default x)) (c', s') = (Inr (), (c', s'))"
      using assms(5) by (simp add: mapErrE_def tryE_def okE_def ddl_no_fault set_default_def)
  qed
  from 1 2 3 4 show ?thesis by (simp add: Migrate_def bindE_def mapErrE_def tryE_def okE_def)
qed

section \<open>A first start\<close>

definition empty_catalog :: catalog where
  "empty_catalog = \<lparr>cg_constraints = [], cg_indexes = [], cg_defaults = (\<lambda>_. None)\<rparr>"

text \<open>On the tables the examples use, \<open>AutoMigrate\<close> finds everything there; other rows it refuses.\<close>

definition ex_automigrate :: automigrate where
  "ex_automigrate cd = (if keys_ok (snd cd) then Inr cd else Inl (OpaqueErr ''duplicate key''))"

lemma ex_automigrate_contract: "automigrate_contract ex_automigrate"
  by (simp add: automigrate_contract_def ex_automigrate_def)

lemma nothing_enforced: "enforced empty_catalog d"
  by (simp add: enforced_def empty_catalog_def)

lemma keys_ok_empty: "keys_ok empty_db" "foreignKeys_ok empty_db" "identities_ok empty_db"
  using db_wf_empty by (simp_all add: db_wf_def)

definition ex_migrated :: "catalog \<times> store" where
  "ex_migrated = snd (Migrate ex_automigrate (empty_catalog, NewStore empty_db 1000 []))"

lemma ex_migrates: "Migrate ex_automigrate (empty_catalog, NewStore empty_db 1000 []) = (Inr (), (fst ex_migrated, snd ex_migrated))"
proof -
  let ?run = "Migrate ex_automigrate (empty_catalog, NewStore empty_db 1000 [])"
  have "fst ?run = Inr ()" by code_simp
  then show ?thesis by (simp add: ex_migrated_def prod_eq_iff)
qed

lemma ex_migrated_db: "st_db (snd ex_migrated) = empty_db" "faults (snd ex_migrated) = []"
  unfolding ex_migrated_def by code_simp+

theorem Migrate_establishes_schema_witness:
  "nc_name fk_maps_sync_remote \<in> set (cg_constraints (fst ex_migrated)) \<and> enforced (fst ex_migrated) (st_db (snd ex_migrated))"
  using Migrate_establishes_schema [OF ex_automigrate_contract nothing_enforced ex_migrates]
  by (simp add: foreignKeys_def)

theorem Migrate_outcome_witness:
  "fst (Migrate ex_automigrate (empty_catalog, NewStore empty_db 1000 [])) = Inr () \<and>
   fst (Migrate ex_automigrate (empty_catalog, NewStore (empty_db\<lparr>t_maps := [\<lparr>m_UUID = 1, m_Name = [], m_CurrentVersion = [],
     m_VisibleToAll = True, m_AnonymousAllowed = True, m_CreatedAt = 1, m_UpdatedAt = 1, m_CreatedBy = [], m_UpdatedBy = [],
     m_OwnerID = 7, m_SyncRemoteID = None, m_Owner = []\<rparr>]\<rparr>) 1000 [])) \<noteq> Inr ()"
proof -
  have s: "st_db (NewStore d 1000 []) = d" "faults (NewStore d 1000 []) = []" for d by (simp_all add: NewStore_def)
  note outcome = Migrate_outcome [OF ex_automigrate_contract nothing_enforced s(2), unfolded s(1)]
  show ?thesis
    unfolding outcome by (simp add: ex_automigrate_def keys_ok_empty) (simp add: foreignKeys_ok_def empty_db_def)
qed

theorem Migrate_idempotent_witness:
  "Migrate ex_automigrate ex_migrated = (Inr (), ex_migrated)"
proof -
  have "ex_automigrate (fst ex_migrated, st_db (snd ex_migrated)) = Inr (fst ex_migrated, st_db (snd ex_migrated))"
    by (simp add: ex_automigrate_def ex_migrated_db keys_ok_empty)
  from Migrate_idempotent [OF ex_automigrate_contract nothing_enforced ex_migrates this
      ex_migrated_db(2)] show ?thesis by simp
qed

end
