(* ===== verification/Examples.thy ===== *)
theory Examples
  imports Server
begin

text \<open>
  A small installation, used to show that the hypotheses of the properties can hold: three accounts and the sync
  account, two maps with versions, a group, an API key that is scoped to one version of one map, and a remote.
\<close>

definition ex_user :: "int \<Rightarrow> string \<Rightarrow> UserRecord" where
  "ex_user i name = zero_UserRecord\<lparr>u_ID := i, u_Username := name, u_PasswordHash := ''hash:'' @ name\<rparr>"

definition ex_map :: "uuid \<Rightarrow> string \<Rightarrow> string \<Rightarrow> bool \<Rightarrow> int \<Rightarrow> time \<Rightarrow> MapRecord" where
  "ex_map i name cur public owner when =
     \<lparr>m_UUID = i, m_Name = name, m_CurrentVersion = cur, m_VisibleToAll = public, m_AnonymousAllowed = public,
      m_CreatedAt = when, m_UpdatedAt = when, m_CreatedBy = ''alice'', m_UpdatedBy = ''alice'', m_OwnerID = owner,
      m_SyncRemoteID = None, m_Owner = []\<rparr>"

definition ex_remote :: SyncRemote where
  "ex_remote = \<lparr>sr_ID = 40, sr_Name = ''peer'', sr_BaseURL = ''https://peer'', sr_RemoteAPIKeyID = 41,
     sr_PollIntervalSec = 60, sr_Enabled = True, sr_SyncAllMaps = True, sr_SyncNewMaps = False,
     sr_SyncGeoObjects = False, sr_LastSyncAt = None, sr_LastSyncStatus = [], sr_LastSyncError = [],
     sr_CreatedAt = 5, sr_UpdatedAt = 5, sr_CreatedBy = ''alice'', sr_UpdatedBy = ''alice''\<rparr>"

definition ex_group :: GroupRecord where
  "ex_group = \<lparr>g_ID = 20, g_Name = ''crew'', g_CanCreate = False, g_CanEdit = False, g_CanDelete = False,
     g_CanEditGeoObjects = False, g_CanDeleteGeoObjects = False, g_CanViewAll = False, g_IsAdmin = False,
     g_LDAPGroupDN = ''cn=crew'', g_OIDCGroupClaim = [], g_CreatedAt = 3, g_UpdatedAt = 3,
     g_CreatedBy = ''alice'', g_UpdatedBy = ''alice''\<rparr>"

definition ex_db :: db where
  "ex_db = empty_db\<lparr>
     t_users := [(ex_user 1 ''alice'')\<lparr>u_IsAdmin := True\<rparr>, ex_user 2 ''bob'', ex_user 3 ''carol'',
                 (ex_user 4 ''sync'')\<lparr>u_PasswordHash := []\<rparr>],
     t_groups := [ex_group],
     t_group_members := [\<lparr>gm_GroupID = 20, gm_Username = ''bob'', gm_SyncedAt = 4\<rparr>],
     t_maps := [ex_map 10 ''harbour'' ''2'' False 1 6, ex_map 11 ''city'' ''1'' True 3 7],
     t_map_versions := [\<lparr>mv_MapUUID = 10, mv_Version = ''1'', mv_CreatedAt = 6, mv_CreatedBy = ''alice''\<rparr>,
                        \<lparr>mv_MapUUID = 10, mv_Version = ''2'', mv_CreatedAt = 7, mv_CreatedBy = ''alice''\<rparr>,
                        \<lparr>mv_MapUUID = 11, mv_Version = ''1'', mv_CreatedAt = 8, mv_CreatedBy = ''carol''\<rparr>],
     t_group_map_permissions := [\<lparr>gmp_MapUUID = 10, gmp_GroupID = 20, gmp_CanView = True, gmp_CanEdit = False,
       gmp_CanDelete = False, gmp_CanEditGeoObjects = False, gmp_CanDeleteGeoObjects = False,
       gmp_GrantedAt = 9, gmp_GrantedBy = ''alice''\<rparr>],
     t_map_version_aliases := [\<lparr>a_MapUUID = 10, a_Alias = ''stable'', a_Version = ''1'', a_CreatedAt = 9,
       a_UpdatedAt = 9, a_CreatedBy = ''alice'', a_UpdatedBy = ''alice''\<rparr>],
     t_refresh_tokens := [\<lparr>rt_TokenHash = ''H:old'', rt_Username = ''bob'', rt_ExpiresAt = 5000, rt_CreatedAt = 9,
       rt_RevokedAt = None\<rparr>],
     t_api_keys := [\<lparr>k_ID = 30, k_PublicKeyPEM = ''pem'', k_Username = ''bob'', k_Name = ''reader'',
       k_CreatedAt = 9, k_CreatedBy = ''alice'', k_LastUsedAt = None, k_RevokedAt = None, k_Scoped = True\<rparr>],
     t_api_key_scopes := [\<lparr>sc_APIKeyID = 30, sc_MapUUID = 10, sc_Versions = Some [''1''], sc_GrantedAt = 9\<rparr>],
     t_sync_remotes := [ex_remote],
     seq_users := 5\<rparr>"

lemmas ex_db_defs = ex_db_def ex_user_def ex_map_def ex_remote_def ex_group_def empty_db_def zero_UserRecord_def

lemma ex_db_wf: "db_wf ex_db"
  by (simp add: wf_simps ex_db_defs)

definition ex_store :: store where
  "ex_store = NewStore ex_db 1000 []"

lemma ex_store_simps [simp]:
  "st_db ex_store = ex_db" "clock ex_store = 1000" "faults ex_store = []"
  "cache_get n (mapCache ex_store) i = None" "cache_get n (currentVersionCache ex_store) i = None"
  "cache_get n (permsCache ex_store) u = None" "cache_get n (mapPermCache ex_store) k = None"
  "cache_get n (mapAliasCache ex_store) k = None" "cache_get n (apiKeyCache ex_store) i = None"
  "cache_get n (apiKeyScopeCache ex_store) j = None"
  by (simp_all add: ex_store_def NewStore_def newTTLCache_def cache_get_def)

definition ex_msys :: msys where
  "ex_msys = \<lparr>st_db = ex_db, mapCache = newTTLCache cacheTTL, currentVersionCache = newTTLCache mapVersionTTL,
     permsCache = newTTLCache cacheTTL, mapPermCache = newTTLCache cacheTTL,
     mapAliasCache = newTTLCache cacheTTL, apiKeyCache = newTTLCache cacheTTL,
     apiKeyScopeCache = newTTLCache cacheTTL, clock = 1000, faults = [],
     disk = [([''data''], FDir), ([''data'', ''11''], FDir), ([''data'', ''11'', ''1''], FDir),
       ([''data'', ''11'', ''1'', ''0''], FDir), ([''data'', ''11'', ''1'', ''0'', ''0''], FDir),
       ([''data'', ''11'', ''1'', ''0'', ''0'', ''0.png''], FFile ''tile'')], boundsCache = (\<lambda>_. None), logEntries = (\<lambda>_. []), workers = [],
     routines = [], nextRoutine = 0, ctxDone = False, phase = Idle\<rparr>"

lemma ex_fresh [simp]: "caches_fresh ex_store" "caches_fresh ex_msys"
  by (simp add: ex_store_def caches_fresh_NewStore) (simp add: caches_fresh_def ex_msys_def)

text \<open>UUIDs are written in decimal in the examples.\<close>

definition ex_env :: webenv where
  "ex_env = \<lparr>uuid_Parse = (\<lambda>s. if all_digits s then Some (nat (digits_val s)) else None),
     uuid_String = (\<lambda>n. Itoa (int n)), ParseFloat = (\<lambda>_. None), ParseRFC3339 = (\<lambda>_. None), Quote = (\<lambda>s. s)\<rparr>"

definition ex_request :: "string \<Rightarrow> uuid option \<Rightarrow> request" where
  "ex_request user key =
     \<lparr>Method = ''GET'', PathValue = (\<lambda>_. []), URLPath = ''/'', RawPath = [], QueryGet = (\<lambda>_. []),
      HeaderGet = (\<lambda>_. []), RemoteAddr = ''192.0.2.1:4711'', Cookie = (\<lambda>_. None), OverTLS = True,
      ctxUsername = user, ctxAPIKeyID = key\<rparr>"

end
