(* ===== verification/Lookups.thy ===== *)
theory Lookups
  imports Examples
begin

text \<open>
  What the cached lookups of the store mean. While the caches agree with the database, an operation that only
  reads behaves like a function of the database: \<open>reads m f\<close> says that \<open>m\<close> changes nothing but the caches, that
  every result it returns is the one \<open>f\<close> gives, whichever statements fail, and that without failures it returns
  exactly what \<open>f\<close> says. The rules follow the combinators, so the meaning of a guard is read off its definition.
\<close>

section \<open>Coherent caches\<close>

definition permissions_in :: "db \<Rightarrow> string \<Rightarrow> Permissions option" where
  "permissions_in d u = (case select_permissions d u of Inl e \<Rightarrow> None | Inr p \<Rightarrow> Some p)"

definition grants_in :: "db \<Rightarrow> uuid \<times> string \<Rightarrow> MapPermission" where
  "grants_in d k = bool_or_grants (grant_rows d (fst k) (snd k))"

definition current_in :: "db \<Rightarrow> uuid \<Rightarrow> string option" where
  "current_in d i = map_option m_CurrentVersion (sql_take (\<lambda>m. m_UUID m = i) (t_maps d))"

definition alias_in :: "db \<Rightarrow> uuid \<times> string \<Rightarrow> string option" where
  "alias_in d k = map_option a_Version
     (sql_take (\<lambda>a. a_MapUUID a = fst k \<and> a_Alias a = snd k) (t_map_version_aliases d))"

definition key_in :: "db \<Rightarrow> uuid \<Rightarrow> apiKeySigningKey option" where
  "key_in d i = (case select_live_key i d of Inl e \<Rightarrow> None
     | Inr k \<Rightarrow> Some \<lparr>sk_username = k_Username k, sk_publicKeyPEM = k_PublicKeyPEM k, sk_scoped = k_Scoped k\<rparr>)"

definition scope_in :: "db \<Rightarrow> uuid \<times> uuid \<Rightarrow> apiKeyScopeEntry" where
  "scope_in d k = (case sql_take (\<lambda>c. sc_APIKeyID c = fst k \<and> sc_MapUUID c = snd k) (t_api_key_scopes d) of
       None \<Rightarrow> no_scope_entry
     | Some c \<Rightarrow> \<lparr>se_inScope = True, se_versions = (case sc_Versions c of None \<Rightarrow> [] | Some vs \<Rightarrow> vs)\<rparr>)"

definition caches_coherent :: "'w store_scheme \<Rightarrow> bool" where
  "caches_coherent s \<longleftrightarrow>
     ttl_cache.coherent (clock s) (mapCache s) (find_map (st_db s)) \<and>
     ttl_cache.coherent (clock s) (currentVersionCache s) (current_in (st_db s)) \<and>
     ttl_cache.coherent (clock s) (permsCache s) (permissions_in (st_db s)) \<and>
     ttl_cache.coherent (clock s) (mapPermCache s) (\<lambda>k. Some (grants_in (st_db s) k)) \<and>
     ttl_cache.coherent (clock s) (mapAliasCache s) (alias_in (st_db s)) \<and>
     ttl_cache.coherent (clock s) (apiKeyCache s) (key_in (st_db s)) \<and>
     ttl_cache.coherent (clock s) (apiKeyScopeCache s) (\<lambda>k. Some (scope_in (st_db s) k))"

lemma caches_coherent_NewStore: "caches_coherent (NewStore d now fs)"
  by (simp add: caches_coherent_def NewStore_def coherent_new)

lemma caches_coherent_ex: "caches_coherent ex_store"
  by (simp add: ex_store_def caches_coherent_NewStore)

lemma caches_coherent_faults [simp]: "caches_coherent (s\<lparr>faults := fs\<rparr>) = caches_coherent s"
  by (simp add: caches_coherent_def)

section \<open>The judgement\<close>

definition reads_step :: "'w store_scheme \<Rightarrow> 'e + 'a \<Rightarrow> 'w store_scheme \<Rightarrow> 'e + 'a \<Rightarrow> bool" where
  "reads_step s x s' r \<longleftrightarrow>
     caches_coherent s' \<and> st_db s' = st_db s \<and> clock s' = clock s \<and>
     (\<not> isl x \<longrightarrow> r = x) \<and> (faults s = [] \<longrightarrow> faults s' = [] \<and> r = x)"

definition reads :: "('w store_scheme, 'e, 'a) action \<Rightarrow> (db \<Rightarrow> 'e + 'a) \<Rightarrow> bool" where
  "reads m f \<longleftrightarrow>
     (\<forall>s. caches_coherent s \<longrightarrow> reads_step s (fst (m s)) (snd (m s)) (f (st_db s)))"

named_theorems reads_rules \<open>the meaning of a reading operation, by its combinators\<close>

lemma readsI:
  "(\<And>s. caches_coherent s \<Longrightarrow> reads_step s (fst (m s)) (snd (m s)) (f (st_db s))) \<Longrightarrow> reads m f"
  by (simp add: reads_def)

lemma readsD: "reads m f \<Longrightarrow> caches_coherent s \<Longrightarrow> m s = (x, s') \<Longrightarrow> reads_step s x s' (f (st_db s))"
  unfolding reads_def by (drule spec [of _ s]) simp

lemma reads_step_trans:
  assumes "reads_step s (Inr z) s1 q" and "reads_step s1 x s' (g z)"
  shows "reads_step s x s' (case q of Inl e \<Rightarrow> Inl e | Inr z \<Rightarrow> g z)"
proof -
  have "q = Inr z" using assms(1) by (simp add: reads_step_def)
  with assms show ?thesis by (simp add: reads_step_def)
qed

lemma reads_step_Inl:
  "reads_step s (Inl e) s' q \<Longrightarrow> reads_step s (Inl (h e)) s' (case q of Inl e \<Rightarrow> Inl (h e) | Inr z \<Rightarrow> g z)"
  by (auto simp: reads_step_def split: sum.splits)

lemma reads_step_Inr:
  "reads_step s (Inr z) s' q \<Longrightarrow> reads_step s (Inr z) s' (case q of Inl e \<Rightarrow> Inl (h e) | Inr z \<Rightarrow> Inr z)"
  by (auto simp: reads_step_def)

lemma isl_case_simps [simp]:
  "isl (case q of Inl e \<Rightarrow> Inl (h e) | Inr z \<Rightarrow> Inr (k z)) = isl q"
  by (cases q) auto

lemma reads_okE [reads_rules]: "reads (okE x) (\<lambda>_. Inr x)"
  by (simp add: reads_def reads_step_def okE_def)

lemma reads_raiseE [reads_rules]: "reads (raiseE e) (\<lambda>_. Inl e)"
  by (simp add: reads_def reads_step_def raiseE_def)

lemma reads_bindE [reads_rules]:
  fixes m :: "('w store_scheme, 'e, 'a) action"
  assumes m: "reads m f" and k: "\<And>x. reads (k x) (g x)"
  shows "reads (bindE m k) (\<lambda>d. case f d of Inl e \<Rightarrow> Inl e | Inr x \<Rightarrow> g x d)"
proof (rule readsI)
  fix s :: "'w store_scheme" assume c: "caches_coherent s"
  obtain y s1 where m1: "m s = (y, s1)" by (meson surj_pair)
  note step = readsD [OF m c m1]
  show "reads_step s (fst (bindE m k s)) (snd (bindE m k s)) (case f (st_db s) of Inl e \<Rightarrow> Inl e | Inr x \<Rightarrow> g x (st_db s))"
  proof (cases y)
    case (Inl e)
    with step m1 reads_step_Inl [of s e s1 "f (st_db s)" "\<lambda>e. e"] show ?thesis by (simp add: bindE_Inl)
  next
    case (Inr z)
    then have "caches_coherent s1" "st_db s1 = st_db s" using step by (simp_all add: reads_step_def)
    then have "reads_step s1 (fst (k z s1)) (snd (k z s1)) (g z (st_db s))"
      using readsD [OF k [of z] \<open>caches_coherent s1\<close>, OF surjective_pairing] by simp
    with step m1 Inr reads_step_trans [of s z s1 "f (st_db s)" _ _ "\<lambda>z. g z (st_db s)"] show ?thesis
      by (simp add: bindE_Inr)
  qed
qed

lemma reads_mapErrE [reads_rules]:
  fixes m :: "('w store_scheme, 'e, 'a) action"
  assumes m: "reads m f" shows "reads (mapErrE h m) (\<lambda>d. case f d of Inl e \<Rightarrow> Inl (h e) | Inr x \<Rightarrow> Inr x)"
proof (rule readsI)
  fix s :: "'w store_scheme" assume c: "caches_coherent s"
  obtain y s1 where m1: "m s = (y, s1)" by (meson surj_pair)
  from readsD [OF m c m1] m1 show
    "reads_step s (fst (mapErrE h m s)) (snd (mapErrE h m s)) (case f (st_db s) of Inl e \<Rightarrow> Inl (h e) | Inr x \<Rightarrow> Inr x)"
    by (cases y) (simp_all add: mapErrE_def tryE_def raiseE_def okE_def reads_step_Inl reads_step_Inr)
qed

lemma reads_attempt [reads_rules]:
  "reads m f \<Longrightarrow> reads (attempt m h) (\<lambda>d. case f d of Inl e \<Rightarrow> Inl (h e) | Inr x \<Rightarrow> Inr x)"
  unfolding attempt_def by (rule reads_mapErrE)

lemma reads_if [reads_rules]:
  "reads m f \<Longrightarrow> reads n g \<Longrightarrow> reads (if b then m else n) (\<lambda>d. if b then f d else g d)"
  by simp

lemma reads_query [reads_rules]: "reads (query f) f"
proof (rule readsI)
  fix s :: "'w store_scheme" assume "caches_coherent s"
  then show "reads_step s (fst (query f s)) (snd (query f s)) (f (st_db s))"
    by (cases "f (st_db s)") (auto simp: query_def exec_def reads_step_def)
qed

lemma reads_cong: "reads m f \<Longrightarrow> (\<And>d. f d = g d) \<Longrightarrow> reads m g"
  by (simp add: reads_def)


section \<open>The lookups\<close>

text \<open>
  A lookup reads through its cache: a live entry answers, otherwise a query does and its answer is entered.
\<close>

lemma caches_coherent_set [simp]:
  assumes "caches_coherent s"
  shows "find_map (st_db s) i = Some m \<Longrightarrow>
      caches_coherent (s\<lparr>mapCache := cache_set (clock s) (mapCache s) i m\<rparr>)"
    and "current_in (st_db s) i = Some v \<Longrightarrow>
      caches_coherent (s\<lparr>currentVersionCache := cache_set (clock s) (currentVersionCache s) i v\<rparr>)"
    and "permissions_in (st_db s) u = Some p \<Longrightarrow>
      caches_coherent (s\<lparr>permsCache := cache_set (clock s) (permsCache s) u p\<rparr>)"
    and "grants_in (st_db s) k = mp \<Longrightarrow>
      caches_coherent (s\<lparr>mapPermCache := cache_set (clock s) (mapPermCache s) k mp\<rparr>)"
    and "alias_in (st_db s) k = Some v \<Longrightarrow>
      caches_coherent (s\<lparr>mapAliasCache := cache_set (clock s) (mapAliasCache s) k v\<rparr>)"
    and "key_in (st_db s) i = Some sk \<Longrightarrow>
      caches_coherent (s\<lparr>apiKeyCache := cache_set (clock s) (apiKeyCache s) i sk\<rparr>)"
    and "scope_in (st_db s) j = e \<Longrightarrow>
      caches_coherent (s\<lparr>apiKeyScopeCache := cache_set (clock s) (apiKeyScopeCache s) j e\<rparr>)"
  using assms by (auto simp: caches_coherent_def intro!: ttl_cache.coherent_set)

lemma reads_through:
  fixes m :: "('w store_scheme, 'e, 'a) action"
  assumes hit: "\<And>s v. caches_coherent s \<Longrightarrow> look s = Some v \<Longrightarrow> f (st_db s) = Inr (out v)" and m: "reads m f"
  shows "reads (bindE (getE look) (\<lambda>c. case c of None \<Rightarrow> m | Some v \<Rightarrow> okE (out v))) f"
proof (rule readsI)
  fix s :: "'w store_scheme" assume c: "caches_coherent s"
  let ?m = "bindE (getE look) (\<lambda>c. case c of None \<Rightarrow> m | Some v \<Rightarrow> okE (out v))"
  show "reads_step s (fst (?m s)) (snd (?m s)) (f (st_db s))"
  proof (cases "look s")
    case None
    with readsD [OF m c surjective_pairing] show ?thesis by (simp add: bindE_def tryE_def getE_def)
  next
    case (Some v)
    with hit [OF c] c show ?thesis by (simp add: bindE_def tryE_def getE_def okE_def reads_step_def)
  qed
qed

lemma reads_then_cache:
  fixes m :: "('w store_scheme, 'e, 'a) action"
  assumes m: "reads m f"
    and upd: "\<And>s v. caches_coherent s \<Longrightarrow> f (st_db s) = Inr v \<Longrightarrow> caches_coherent (upd v s)"
    and same: "\<And>s v. st_db (upd v s) = st_db s \<and> clock (upd v s) = clock s \<and> faults (upd v s) = faults s"
  shows "reads (bindE m (\<lambda>v. bindE (modifyE (upd v)) (\<lambda>_. okE (out v))))
           (\<lambda>d. case f d of Inl e \<Rightarrow> Inl e | Inr v \<Rightarrow> Inr (out v))"
proof (rule readsI)
  fix s :: "'w store_scheme" assume c: "caches_coherent s"
  let ?m = "bindE m (\<lambda>v. bindE (modifyE (upd v)) (\<lambda>_. okE (out v)))"
  obtain y s1 where m1: "m s = (y, s1)" by (meson surj_pair)
  note step = readsD [OF m c m1]
  show "reads_step s (fst (?m s)) (snd (?m s)) (case f (st_db s) of Inl e \<Rightarrow> Inl e | Inr v \<Rightarrow> Inr (out v))"
  proof (cases y)
    case (Inl e)
    with step m1 reads_step_Inl [of s e s1 "f (st_db s)" "\<lambda>e. e"] show ?thesis
      by (auto simp: bindE_Inl reads_step_def)
  next
    case (Inr v)
    with step have *: "f (st_db s) = Inr v" "caches_coherent s1" "st_db s1 = st_db s" "clock s1 = clock s"
      "faults s = [] \<Longrightarrow> faults s1 = []" by (simp_all add: reads_step_def)
    then have "caches_coherent (upd v s1)" using upd [of s1 v] by simp
    with * m1 Inr same [of v s1] show ?thesis
      by (simp add: bindE_Inr bindE_def tryE_def modifyE_def okE_def reads_step_def)
  qed
qed

text \<open>A handler that only renames the error.\<close>

lemma tryE_rename:
  "tryE m (\<lambda>e. if P e then raiseE (a e) else raiseE (b e)) k = bindE (mapErrE (\<lambda>e. if P e then a e else b e) m) k"
  by (auto simp: fun_eq_iff bindE_def mapErrE_def tryE_def raiseE_def okE_def split: prod.splits sum.splits)

lemma tryE_raise: "tryE m (\<lambda>e. raiseE (a e)) k = bindE (mapErrE a m) k"
  by (auto simp: fun_eq_iff bindE_def mapErrE_def tryE_def raiseE_def okE_def split: prod.splits sum.splits)

text \<open>What the lookups answer, as functions of the database.\<close>

definition get_permissions :: "string \<Rightarrow> db \<Rightarrow> gerror + Permissions" where
  "get_permissions u d = (case select_permissions d u of Inl e \<Rightarrow> Inl (Wrap ''get permissions'' e) | Inr p \<Rightarrow> Inr p)"

definition get_map :: "uuid \<Rightarrow> db \<Rightarrow> gerror + MapRecord" where
  "get_map i d = (case find_map d i of None \<Rightarrow> Inl ErrMapNotFound | Some m \<Rightarrow> Inr m)"

definition get_current :: "uuid \<Rightarrow> db \<Rightarrow> gerror + string" where
  "get_current i d = (case current_in d i of None \<Rightarrow> Inl ErrMapNotFound | Some v \<Rightarrow> Inr v)"

definition get_alias :: "uuid \<Rightarrow> string \<Rightarrow> db \<Rightarrow> gerror + string" where
  "get_alias i a d = (case alias_in d (i, a) of None \<Rightarrow> Inl ErrMapVersionAliasNotFound | Some v \<Rightarrow> Inr v)"

definition scoped_flag :: "uuid \<Rightarrow> db \<Rightarrow> gerror + bool" where
  "scoped_flag k d = (case key_in d k of None \<Rightarrow> Inl ErrInvalidAPIKey | Some sk \<Rightarrow> Inr (sk_scoped sk))"

lemmas coherent_defs = permissions_in_def current_in_def alias_in_def key_in_def

lemma coherent_hits:
  assumes "caches_coherent s"
  shows "cache_get (clock s) (mapCache s) i = Some m \<Longrightarrow> find_map (st_db s) i = Some m"
    and "cache_get (clock s) (currentVersionCache s) i = Some v \<Longrightarrow> current_in (st_db s) i = Some v"
    and "cache_get (clock s) (permsCache s) u = Some p \<Longrightarrow> permissions_in (st_db s) u = Some p"
    and "cache_get (clock s) (mapPermCache s) k = Some mp \<Longrightarrow> grants_in (st_db s) k = mp"
    and "cache_get (clock s) (mapAliasCache s) k = Some v \<Longrightarrow> alias_in (st_db s) k = Some v"
    and "cache_get (clock s) (apiKeyCache s) i = Some sk \<Longrightarrow> key_in (st_db s) i = Some sk"
    and "cache_get (clock s) (apiKeyScopeCache s) j = Some e \<Longrightarrow> scope_in (st_db s) j = e"
  using assms unfolding caches_coherent_def by (blast dest: ttl_cache.coherentD)+

lemma GetPermissions_reads [reads_rules]: "reads (GetPermissions u) (get_permissions u)"
  unfolding GetPermissions_def
proof (rule reads_through)
  show "reads (bindE (mapErrE (Wrap ''get permissions'') (query (\<lambda>d. select_permissions d u)))
      (\<lambda>p. bindE (modifyE (\<lambda>s. s\<lparr>permsCache := cache_set (clock s) (permsCache s) u p\<rparr>)) (\<lambda>_. okE p)))
      (get_permissions u)"
    by (rule reads_cong, rule reads_then_cache [OF reads_mapErrE [OF reads_query]])
       (auto simp: permissions_in_def get_permissions_def split: sum.splits)
qed (auto simp: permissions_in_def get_permissions_def dest!: coherent_hits(3) split: sum.splits)


lemma loadMapWithOwner_reads [reads_rules]: "reads (loadMapWithOwner i) (get_map i)"
  unfolding loadMapWithOwner_def tryE_rename
  by (rule reads_cong, rule reads_bindE [OF reads_mapErrE [OF reads_query]], rule reads_okE)
     (auto simp: get_map_def split: option.splits)

lemma GetMap_reads [reads_rules]: "reads (GetMap i) (get_map i)"
  unfolding GetMap_def
proof (rule reads_through)
  show "reads (bindE (loadMapWithOwner i)
      (\<lambda>m. bindE (modifyE (\<lambda>s. s\<lparr>mapCache := cache_set (clock s) (mapCache s) i m\<rparr>)) (\<lambda>_. okE m))) (get_map i)"
    by (rule reads_cong, rule reads_then_cache [OF loadMapWithOwner_reads])
       (auto simp: get_map_def split: option.splits)
qed (simp add: get_map_def coherent_hits(1))

lemma GetMapPermission_reads [reads_rules]: "reads (GetMapPermission i u) (\<lambda>d. Inr (grants_in d (i, u)))"
  unfolding GetMapPermission_def
proof (rule reads_through)
  show "reads (bindE (mapErrE (Wrap ''get map permission'') (query (\<lambda>d. Inr (bool_or_grants (grant_rows d i u)))))
      (\<lambda>mp. bindE (modifyE (\<lambda>s. s\<lparr>mapPermCache := cache_set (clock s) (mapPermCache s) (i, u) mp\<rparr>)) (\<lambda>_. okE mp)))
      (\<lambda>d. Inr (grants_in d (i, u)))"
    by (rule reads_cong, rule reads_then_cache [OF reads_mapErrE [OF reads_query]])
       (simp_all add: grants_in_def)
qed (simp add: coherent_hits(4))

lemma GetCurrentVersion_reads [reads_rules]: "reads (GetCurrentVersion i) (get_current i)"
  unfolding GetCurrentVersion_def tryE_rename
proof (rule reads_through)
  show "reads (bindE (mapErrE (\<lambda>e. if errors_Is e ErrRecordNotFound then ErrMapNotFound else Wrap ''get current version'' e)
        (query (\<lambda>d. case sql_take (\<lambda>m. m_UUID m = i) (t_maps d) of None \<Rightarrow> Inl ErrRecordNotFound | Some m \<Rightarrow> Inr (m_CurrentVersion m))))
      (\<lambda>v. bindE (modifyE (\<lambda>s. s\<lparr>currentVersionCache := cache_set (clock s) (currentVersionCache s) i v\<rparr>)) (\<lambda>_. okE v)))
      (get_current i)"
    by (rule reads_cong, rule reads_then_cache [OF reads_mapErrE [OF reads_query]])
       (auto simp: get_current_def current_in_def split: option.splits)
qed (simp add: get_current_def coherent_hits(2))

lemma GetMapVersionAlias_reads [reads_rules]: "reads (GetMapVersionAlias i a) (get_alias i a)"
  unfolding GetMapVersionAlias_def tryE_rename
proof (rule reads_through)
  show "reads (bindE (mapErrE (\<lambda>e. if errors_Is e ErrNoRows then ErrMapVersionAliasNotFound else Wrap ''get map version alias'' e)
        (query (\<lambda>d. case sql_take (\<lambda>x. a_MapUUID x = i \<and> a_Alias x = a) (t_map_version_aliases d) of
           None \<Rightarrow> Inl ErrNoRows | Some x \<Rightarrow> Inr (a_Version x))))
      (\<lambda>v. bindE (modifyE (\<lambda>s. s\<lparr>mapAliasCache := cache_set (clock s) (mapAliasCache s) (i, a) v\<rparr>)) (\<lambda>_. okE v)))
      (get_alias i a)"
    by (rule reads_cong, rule reads_then_cache [OF reads_mapErrE [OF reads_query]])
       (auto simp: get_alias_def alias_in_def split: option.splits)
qed (simp add: get_alias_def coherent_hits(5))

lemma apiKeyScopedFlag_reads [reads_rules]: "reads (apiKeyScopedFlag k) (scoped_flag k)"
  unfolding apiKeyScopedFlag_def tryE_rename
proof (rule reads_through)
  show "reads (bindE (mapErrE (\<lambda>e. if errors_Is e ErrNoRows then ErrInvalidAPIKey else Wrap ''get api key scoped flag'' e)
        (query (select_live_key k))) (\<lambda>x. okE (k_Scoped x))) (scoped_flag k)"
    by (rule reads_cong, rule reads_bindE [OF reads_mapErrE [OF reads_query]], rule reads_okE)
       (auto simp: scoped_flag_def key_in_def select_live_key_def split: option.splits)
qed (simp add: scoped_flag_def coherent_hits(6))

text \<open>\<open>resolveAPIKeyMapScope\<close>: the missing row is an answer, and is cached like one.\<close>

definition get_scope :: "uuid \<Rightarrow> uuid \<Rightarrow> db \<Rightarrow> gerror + bool \<times> apiKeyScopeEntry" where
  "get_scope k i d = (case scoped_flag k d of Inl e \<Rightarrow> Inl e
     | Inr scoped \<Rightarrow> if scoped then Inr (True, scope_in d (k, i)) else Inr (False, no_scope_entry))"

lemma cache_scope_run:
  "cache_scope k i e s =
     (Inr (True, e), s\<lparr>apiKeyScopeCache := cache_set (clock s) (apiKeyScopeCache s) (k, i) e\<rparr>)"
  by (simp add: cache_scope_def action_defs)

lemma resolve_scope_miss:
  fixes k i :: uuid
  shows "reads (tryE (query (\<lambda>d. case sql_take (\<lambda>c. sc_APIKeyID c = k \<and> sc_MapUUID c = i) (t_api_key_scopes d) of
                              None \<Rightarrow> Inl ErrNoRows | Some c \<Rightarrow> Inr (sc_Versions c)))
             (\<lambda>e. if errors_Is e ErrNoRows then cache_scope k i no_scope_entry
                  else raiseE (Wrap ''resolve api key map scope'' e))
             (\<lambda>versions. cache_scope k i
                \<lparr>se_inScope = True, se_versions = (case versions of None \<Rightarrow> [] | Some vs \<Rightarrow> vs)\<rparr>))
     (\<lambda>d. Inr (True, scope_in d (k, i)))" (is "reads ?m ?f")
proof (rule readsI)
  fix s :: "'a store_scheme" assume c: "caches_coherent s"
  then show "reads_step s (fst (?m s)) (snd (?m s)) (?f (st_db s))"
    by (cases "sql_take (\<lambda>c. sc_APIKeyID c = k \<and> sc_MapUUID c = i) (t_api_key_scopes (st_db s))")
       (auto simp: tryE_def query_def exec_def raiseE_def cache_scope_run reads_step_def scope_in_def
          intro!: caches_coherent_set(7) [where s = "s\<lparr>faults := fs\<rparr>" for fs, simplified])
qed

lemma resolveAPIKeyMapScope_reads [reads_rules]: "reads (resolveAPIKeyMapScope k i) (get_scope k i)"
proof -
  have *: "reads (bindE (getE (\<lambda>s. cache_get (clock s) (apiKeyScopeCache s) (k, i))) (\<lambda>cached. case cached of
      None \<Rightarrow> tryE (query (\<lambda>d. case sql_take (\<lambda>c. sc_APIKeyID c = k \<and> sc_MapUUID c = i) (t_api_key_scopes d) of
                              None \<Rightarrow> Inl ErrNoRows | Some c \<Rightarrow> Inr (sc_Versions c)))
             (\<lambda>e. if errors_Is e ErrNoRows then cache_scope k i no_scope_entry
                  else raiseE (Wrap ''resolve api key map scope'' e))
             (\<lambda>versions. cache_scope k i
                \<lparr>se_inScope = True, se_versions = (case versions of None \<Rightarrow> [] | Some vs \<Rightarrow> vs)\<rparr>)
      | Some e \<Rightarrow> okE (True, e))) (\<lambda>d. Inr (True, scope_in d (k, i)))"
    by (rule reads_through [OF _ resolve_scope_miss]) (simp add: coherent_hits(7))
  show ?thesis
    unfolding resolveAPIKeyMapScope_def
    by (rule reads_cong, rule reads_bindE [OF apiKeyScopedFlag_reads], rule reads_if, rule reads_okE, rule *)
       (auto simp: get_scope_def split: sum.splits)
qed

end
