(* ===== verification/StoreFacts.thy ===== *)
theory StoreFacts
  imports Lookups
begin

text \<open>
  What the operations of the store promise: new versions are new, failures change nothing, a refresh token works
  once, an account goes only without maps, a revoked key dies with its cache entry; and the two encodings the store
  writes into SQL, array literals and substring patterns, mean what they should.
\<close>

section \<open>Runs of statements\<close>

lemma sql_count_pos_iff [simp]: "0 < sql_count p t \<longleftrightarrow> (\<exists>r\<in>set t. p r)"
  using sql_count_0_iff [of p t] by (simp only: neq0_conv [symmetric]) blast

lemma exec_Inr:
  assumes "exec f s = (Inr x, s')"
  shows "\<exists>d fs. f (clock s) (st_db s) = Inr (x, d) \<and> s' = s\<lparr>st_db := d, faults := fs\<rparr>"
proof (cases "f (clock s) (st_db s)")
  case (Inr r)
  with assms show ?thesis by (cases r) (auto simp: exec_def split: if_splits)
qed (use assms in \<open>simp add: exec_def split: if_splits\<close>)

lemma exec_Inl:
  assumes "exec f s = (Inl e, s')" shows "s' = s\<lparr>faults := tl (faults s)\<rparr>"
  using assms by (cases "f (clock s) (st_db s)") (auto simp: exec_def split: if_splits)

lemma query_Inr:
  assumes "query f s = (Inr x, s')" shows "f (st_db s) = Inr x \<and> (\<exists>fs. s' = s\<lparr>faults := fs\<rparr>)"
proof -
  obtain d fs where "(case f (st_db s) of Inl e \<Rightarrow> Inl e | Inr x \<Rightarrow> Inr (x, st_db s)) = Inr (x, d)"
    "s' = s\<lparr>st_db := d, faults := fs\<rparr>" using exec_Inr [OF assms [unfolded query_def]] by blast
  then show ?thesis by (cases "f (st_db s)") auto
qed

lemma transaction_Inr:
  assumes "transaction m s = (Inr x, s')" shows "\<exists>s1 fs. m s = (Inr x, s1) \<and> s' = s1\<lparr>faults := fs\<rparr>"
  using assms by (cases "m s"; cases "fst (m s)") (auto simp: transaction_def split: if_splits)

section \<open>Failures\<close>

text \<open>An operation that reads, and one that changes the database only if it succeeds.\<close>

definition quiet :: "('w store_scheme, 'e, 'a) action \<Rightarrow> bool" where
  "quiet m \<longleftrightarrow> (\<forall>d. preserves (\<lambda>s. st_db s = d) m)"

definition succeeds :: "('s, 'e, 'a) action \<Rightarrow> bool" where
  "succeeds m \<longleftrightarrow> (\<forall>s. \<not> isl (fst (m s)))"

definition atomic :: "('w store_scheme, 'e, 'a) action \<Rightarrow> bool" where
  "atomic m \<longleftrightarrow> (\<forall>s e s'. m s = (Inl e, s') \<longrightarrow> st_db s' = st_db s)"

named_theorems quiet_rules \<open>operations that leave the database alone\<close>
named_theorems atomic_rules \<open>operations that change nothing when they fail\<close>

lemma quiet_basic [quiet_rules]: "quiet (okE x)" "quiet (raiseE e)" "quiet (getE f)"
  by (simp_all add: quiet_def pres)

lemma quiet_modifyE [quiet_rules]: "(\<And>s. st_db (f s) = st_db s) \<Longrightarrow> quiet (modifyE f)"
  by (simp add: quiet_def preserves_modifyE)

lemma quiet_query [quiet_rules]: "quiet (query f)"
  by (simp add: quiet_def preserves_query)

lemma quiet_tryE [quiet_rules]: "quiet m \<Longrightarrow> (\<And>e. quiet (h e)) \<Longrightarrow> (\<And>x. quiet (k x)) \<Longrightarrow> quiet (tryE m h k)"
  by (simp add: quiet_def preserves_tryE)

lemma quiet_bindE [quiet_rules]: "quiet m \<Longrightarrow> (\<And>x. quiet (k x)) \<Longrightarrow> quiet (bindE m k)"
  by (simp add: quiet_def preserves_bindE)

lemma quiet_mapErrE [quiet_rules]: "quiet m \<Longrightarrow> quiet (mapErrE f m)"
  by (simp add: quiet_def preserves_mapErrE)

lemma quiet_if [quiet_rules]: "quiet m \<Longrightarrow> quiet n \<Longrightarrow> quiet (if b then m else n)"
  by simp

lemma quiet_pureE [quiet_rules]: "quiet (pureE r)"
  by (simp add: quiet_def preserves_def pureE_def)

lemma quiet_hashPassword [quiet_rules]: "quiet (hashPassword h p)"
  by (auto simp: quiet_def preserves_def hashPassword_def split: sum.split)

lemma quiet_lookupUserID [quiet_rules]: "quiet (lookupUserID u)"
  unfolding lookupUserID_def by (intro quiet_rules)

lemma quietD: "quiet m \<Longrightarrow> m s = (x, s') \<Longrightarrow> st_db s' = st_db s"
  unfolding quiet_def by (blast dest: preservesD)

lemma succeeds_modifyE: "succeeds (modifyE f)"
  by (simp add: succeeds_def modifyE_def)

lemma succeeds_okE: "succeeds (okE x)"
  by (simp add: succeeds_def okE_def)

lemma succeeds_bindE: "succeeds m \<Longrightarrow> (\<And>x. succeeds (k x)) \<Longrightarrow> succeeds (bindE m k)"
  unfolding succeeds_def bindE_def tryE_def
  by (intro allI, rename_tac s, case_tac "m s", case_tac "fst (m s)") (metis fst_conv isl_def, simp)

lemma succeeds_forget_map: "succeeds (forget_map i)"
  unfolding forget_map_def by (intro succeeds_bindE succeeds_modifyE)

lemmas succeeds_rules = succeeds_modifyE succeeds_okE succeeds_bindE succeeds_forget_map

lemma atomic_exec [atomic_rules]: "atomic (exec f)"
  by (auto simp: atomic_def dest: exec_Inl)

lemma atomic_transaction [atomic_rules]: "atomic (transaction m)"
  by (auto simp: atomic_def transaction_def split: prod.splits sum.splits if_splits)

lemma atomic_quiet: "quiet m \<Longrightarrow> atomic m"
  by (auto simp: atomic_def dest: quietD)

lemma atomic_mapErrE [atomic_rules]: "atomic m \<Longrightarrow> atomic (mapErrE f m)"
  by (auto simp: atomic_def mapErrE_def tryE_def raiseE_def okE_def split: prod.splits sum.splits)

text \<open>After a statement that may change the database, only what cannot fail or what the statement did not touch.\<close>

lemma atomic_tryE:
  assumes "atomic m" and "\<And>e. quiet (h e)" and "\<And>x. succeeds (k x)"
  shows "atomic (tryE m h k)"
  unfolding atomic_def
proof (intro allI impI)
  fix s e s' assume run: "tryE m h k s = (Inl e, s')"
  show "st_db s' = st_db s"
  proof (cases rule: tryE_cases [OF run])
    case (1 e' s1)
    with assms(1) have "st_db s1 = st_db s" by (auto simp: atomic_def)
    with quietD [OF assms(2) 1(2)] show ?thesis by simp
  next
    case (2 x s1)
    with assms(3) [of x] have False unfolding succeeds_def by (metis fst_conv isl_def)
    then show ?thesis ..
  qed
qed

lemma atomic_bindE: "atomic m \<Longrightarrow> (\<And>x. succeeds (k x)) \<Longrightarrow> atomic (bindE m k)"
  unfolding bindE_def by (rule atomic_tryE) (auto intro: quiet_rules)

lemma atomic_after_quiet: "quiet m \<Longrightarrow> (\<And>x. atomic (k x)) \<Longrightarrow> atomic (bindE m k)"
  unfolding atomic_def
  by (auto simp: bindE_def tryE_def raiseE_def split: prod.splits sum.splits dest: quietD)

text \<open>A statement that reports how many rows it changed: the error of \<open>no row\<close> comes when nothing changed.\<close>

lemma atomic_counted:
  assumes "\<And>now d d'. f now d = Inr (0, d') \<Longrightarrow> d' = d" and "\<And>s. succeeds k"
  shows "atomic (bindE (mapErrE h (exec f)) (\<lambda>n. if n = 0 then raiseE e else k))"
  unfolding atomic_def
proof (intro allI impI)
  fix s err s' assume run: "bindE (mapErrE h (exec f)) (\<lambda>n. if n = 0 then raiseE e else k) s = (Inl err, s')"
  show "st_db s' = st_db s"
  proof (cases rule: tryE_cases [OF run [unfolded bindE_def]])
    case (1 e' s1)
    have "atomic (mapErrE h (exec f))" by (intro atomic_rules)
    with 1 show ?thesis by (auto simp: atomic_def raiseE_def)
  next
    case (2 n s1)
    from exec_Inr [OF mapErrE_InrD [OF 2(1)]] obtain d fs where d: "f (clock s) (st_db s) = Inr (n, d)"
      "s1 = s\<lparr>st_db := d, faults := fs\<rparr>" by blast
    show ?thesis
    proof (cases "n = 0")
      case True
      with 2(2) d assms(1) show ?thesis by (auto simp: raiseE_def)
    next
      case False
      with 2(2) assms(2) have False unfolding succeeds_def by (metis fst_conv isl_def)
      then show ?thesis ..
    qed
  qed
qed

lemma delete_map_none: "delete_map i now d = Inr (0, d') \<Longrightarrow> d' = d"
  by (auto simp: delete_map_def split: if_splits)

lemma succeeds_case_prod: "(\<And>a b. succeeds (k a b)) \<Longrightarrow> succeeds (case x of (a, b) \<Rightarrow> k a b)"
  by (cases x) simp

lemma atomic_DeleteMap: "atomic (DeleteMap i)"
  unfolding DeleteMap_def by (rule atomic_counted) (auto intro: succeeds_rules delete_map_none)

lemma atomic_DeleteUser: "atomic (DeleteUser u)"
  unfolding atomic_def
proof (intro allI impI)
  fix s :: "'a store_scheme" and e s' assume run: "DeleteUser u s = (Inl e, s')"
  show "st_db s' = st_db s"
  proof (cases rule: tryE_cases [OF run [unfolded DeleteUser_def]])
    case (1 e' s1)
    then show ?thesis by (auto simp: raiseE_def dest!: exec_Inl split: if_splits)
  next
    case (2 n s1)
    then have "n = 0" "s' = s1" by (auto simp: modifyE_def raiseE_def split: if_splits)
    with exec_Inr [OF 2(1)] show ?thesis
      by (auto simp: delete_user_def Let_def split: if_splits)
  qed
qed


section \<open>New versions\<close>

lemma foldr_max_ge: "x \<in> insert b (the ` set ns) \<Longrightarrow> x \<le> foldr (\<lambda>x m. max (the x) m) ns (b :: int)"
  by (induction ns) (auto simp: le_max_iff_disj)

lemma max_version_bound:
  assumes "max_version i d = Inr n" and "v \<in> mv_Version ` set (versions_of d i)"
  shows "\<exists>k. pg_int4 v = Some k \<and> k \<le> n"
proof -
  let ?ns = "map (pg_int4 \<circ> mv_Version) (versions_of d i)"
  have mem: "pg_int4 v \<in> set ?ns" using assms(2) by auto
  then have "None \<notin> set ?ns" "?ns \<noteq> []" and n: "n = foldr (\<lambda>x m. max (the x) m) (tl ?ns) (the (hd ?ns))"
    using assms(1) by (auto simp: max_version_def Let_def split: if_splits)
  then obtain k where k: "pg_int4 v = Some k" using mem by (cases "pg_int4 v") auto
  have "set ?ns = insert (hd ?ns) (set (tl ?ns))" using \<open>?ns \<noteq> []\<close> by (metis hd_Cons_tl list.simps(15))
  with mem k have "k \<in> insert (the (hd ?ns)) (the ` set (tl ?ns))" by (metis image_eqI insert_iff option.sel)
  from foldr_max_ge [OF this] k n show ?thesis by simp
qed

lemma current_in_update:
  assumes "\<exists>m\<in>set (t_maps d). m_UUID m = i" and "\<And>m. m_UUID (f m) = m_UUID m" and "\<And>m. m_CurrentVersion (f m) = v"
  shows "current_in (d\<lparr>t_maps := sql_update (\<lambda>m. m_UUID m = i) f (t_maps d), t_map_versions := vs\<rparr>) j =
     (if j = i then Some v else current_in d j)"
proof -
  have "sql_take (\<lambda>m. m_UUID m = i) (t_maps d) \<noteq> None" using assms(1) by (auto simp: sql_take_None)
  moreover have "sql_take (\<lambda>m. m_UUID m = j) (sql_update (\<lambda>m. m_UUID m = i) f (t_maps d)) =
      map_option (\<lambda>m. if m_UUID m = i then f m else m) (sql_take (\<lambda>m. m_UUID m = j) (t_maps d))"
    by (rule sql_take_update_key) (simp add: assms(2))
  ultimately show ?thesis
    using assms(3) by (cases "sql_take (\<lambda>m. m_UUID m = j) (t_maps d)") (auto simp: current_in_def dest: sql_take_Some)
qed

lemma loadMapWithOwner_Inr:
  assumes "loadMapWithOwner i s = (Inr m, s')"
  shows "find_map (st_db s) i = Some m \<and> (\<exists>fs. s' = s\<lparr>faults := fs\<rparr>)"
proof (cases rule: tryE_cases [OF assms [unfolded loadMapWithOwner_def]])
  case (1 e s1)
  then show ?thesis by (auto simp: raiseE_def split: if_splits)
next
  case (2 x s1)
  then show ?thesis by (auto simp: okE_def dest!: query_Inr split: option.splits)
qed

lemma find_map_current: "find_map d i = Some m \<Longrightarrow> current_in d i = Some (m_CurrentVersion m)"
  by (auto simp: find_map_def current_in_def with_owner_def bind_eq_Some_conv)

text \<open>What a successful run of the transaction has done.\<close>

definition with_new_version :: "uuid \<Rightarrow> string \<Rightarrow> string \<Rightarrow> time \<Rightarrow> db \<Rightarrow> db" where
  "with_new_version i v u now d =
     d\<lparr>t_maps := sql_update (\<lambda>m. m_UUID m = i)
         (\<lambda>m. m\<lparr>m_CurrentVersion := v, m_UpdatedBy := u, m_UpdatedAt := now\<rparr>) (t_maps d),
       t_map_versions := t_map_versions d @
         [\<lparr>mv_MapUUID = i, mv_Version = v, mv_CreatedAt = now, mv_CreatedBy = u\<rparr>]\<rparr>"

lemma current_in_new_version:
  "\<exists>m\<in>set (t_maps d). m_UUID m = i \<Longrightarrow>
   current_in (with_new_version i v u now d) j = (if j = i then Some v else current_in d j)"
  unfolding with_new_version_def by (rule current_in_update) auto

lemma versions_of_iff: "v \<in> mv_Version ` set (versions_of d i) \<longleftrightarrow> (i, v) \<in> mv_key ` set (t_map_versions d)"
  by (auto simp: versions_of_def)

lemma increment_tx_Inr:
  assumes "increment_tx i u s = (Inr m, s')"
  shows "\<exists>n fs. max_version i (st_db s) = Inr n \<and> m_CurrentVersion m = Itoa (n + 1) \<and>
    s' = s\<lparr>st_db := with_new_version i (Itoa (n + 1)) u (clock s) (st_db s), faults := fs\<rparr> \<and>
    (\<exists>m\<in>set (t_maps (st_db s)). m_UUID m = i) \<and>
    Itoa (n + 1) \<notin> mv_Version ` set (versions_of (st_db s) i)"
proof -
  let ?d = "st_db s"
  obtain there s1 n s2 k s3 t s4 where
    q: "mapErrE (Wrap ''lock map'') (query (\<lambda>d. Inr (sql_exists (\<lambda>m. m_UUID m = i) (t_maps d)))) s = (Inr there, s1)" "there"
    and mx: "mapErrE (Wrap ''get last map version'') (query (max_version i)) s1 = (Inr n, s2)"
    and up: "mapErrE (Wrap ''update map version'') (exec (update_map i (\<lambda>now m. m\<lparr>m_CurrentVersion := Itoa (n + 1),
              m_UpdatedBy := u, m_UpdatedAt := now\<rparr>))) s2 = (Inr k, s3)"
    and ins: "mapErrE (Wrap ''record map version'') (exec (insert_map_version i (Itoa (n + 1)) u)) s3 = (Inr t, s4)"
    and ld: "loadMapWithOwner i s4 = (Inr m, s')"
    using assms unfolding increment_tx_def Let_def
    by (auto simp: raiseE_def split: if_splits elim!: bindE_InrE)
  obtain f1 where s1: "s1 = s\<lparr>faults := f1\<rparr>" and th: "\<exists>m\<in>set (t_maps ?d). m_UUID m = i"
    using query_Inr [OF mapErrE_InrD [OF q(1)]] q(2) by (auto simp: sql_exists_iff)
  obtain f2 where s2: "s2 = s\<lparr>faults := f2\<rparr>" and n: "max_version i ?d = Inr n"
    using query_Inr [OF mapErrE_InrD [OF mx]] s1 by auto
  let ?up = "sql_update (\<lambda>m. m_UUID m = i)
      (\<lambda>m. m\<lparr>m_CurrentVersion := Itoa (n + 1), m_UpdatedBy := u, m_UpdatedAt := clock s\<rparr>) (t_maps ?d)"
  obtain f3 where s3: "s3 = s\<lparr>st_db := ?d\<lparr>t_maps := ?up\<rparr>, faults := f3\<rparr>"
    using exec_Inr [OF mapErrE_InrD [OF up]] s2 by (auto simp: update_map_def)
  let ?d1 = "with_new_version i (Itoa (n + 1)) u (clock s) ?d"
  obtain f4 where s4: "s4 = s\<lparr>st_db := ?d1, faults := f4\<rparr>"
    and new: "Itoa (n + 1) \<notin> mv_Version ` set (versions_of ?d i)"
    using exec_Inr [OF mapErrE_InrD [OF ins]] s3
    by (auto simp: insert_map_version_def versions_of_iff with_new_version_def split: if_splits)
  obtain f5 where s': "s' = s\<lparr>st_db := ?d1, faults := f5\<rparr>" and m: "find_map ?d1 i = Some m"
    using loadMapWithOwner_Inr [OF ld] s4 by auto
  have "current_in ?d1 i = Some (m_CurrentVersion m)" by (rule find_map_current [OF m])
  then have "m_CurrentVersion m = Itoa (n + 1)" using current_in_new_version [OF th] by simp
  with n s' th new show ?thesis by blast
qed

lemma GetCurrentVersion_miss:
  assumes "GetCurrentVersion i s = (Inr v, s')" and "cache_get (clock s) (currentVersionCache s) i = None"
  shows "current_in (st_db s) i = Some v"
  using assms unfolding GetCurrentVersion_def
  by (auto simp: bindE_def getE_def tryE_def modifyE_def raiseE_def okE_def current_in_def
      dest!: query_Inr split: option.splits if_splits prod.splits sum.splits)





lemma ex_increment: "map_sum id m_CurrentVersion (fst (IncrementMapVersion 10 ''alice'' ex_store)) = Inr ''3''"
  by code_simp


section \<open>Refresh tokens\<close>

lemma rotate_tx_Inr:
  assumes "rotate_tx H tok h ttl s = (Inr (u, new, e), s')"
  shows "\<exists>t fs. t \<in> set (t_refresh_tokens (st_db s)) \<and> rt_TokenHash t = h \<and> rt_RevokedAt t = None \<and>
     clock s \<le> rt_ExpiresAt t \<and> rt_Username t = u \<and> tok = Inr new \<and> e = clock s + ttl \<and>
     H new \<notin> rt_TokenHash ` set (t_refresh_tokens (st_db s)) \<and>
     s' = s\<lparr>st_db := (st_db s)\<lparr>t_refresh_tokens :=
        sql_update (\<lambda>t. rt_TokenHash t = h) (\<lambda>t. t\<lparr>rt_RevokedAt := Some (clock s)\<rparr>) (t_refresh_tokens (st_db s)) @
        [(new_refresh_token (H new) u e)\<lparr>rt_CreatedAt := clock s\<rparr>]\<rparr>, faults := fs\<rparr>"
proof (cases rule: tryE_cases [OF assms [unfolded rotate_tx_def]])
  case (1 err s1)
  then show ?thesis by (auto simp: raiseE_def split: if_splits)
next
  case (2 t s1)
  have t: "t \<in> set (t_refresh_tokens (st_db s))" "rt_TokenHash t = h" "rt_RevokedAt t = None"
    and s1: "\<exists>fs. s1 = s\<lparr>faults := fs\<rparr>"
    using query_Inr [OF 2(1)] by (auto simp: select_live_token_def dest!: sql_take_Some split: option.splits)
  from 2(2) s1 have live: "clock s \<le> rt_ExpiresAt t"
    by (auto simp: bindE_def getE_def tryE_def raiseE_def split: if_splits)
  with 2(2) s1 obtain x s2 y s4 where
    rev: "mapErrE (Wrap ''revoke refresh token'') (exec (revoke_refresh_token h)) s1 = (Inr x, s2)"
    and tok: "tok = Inr new" and e: "e = clock s2 + ttl" and u: "u = rt_Username t"
    and ins: "mapErrE (Wrap ''insert rotated refresh token'')
                (exec (insert_refresh_token (new_refresh_token (H new) (rt_Username t) e))) s2 = (Inr y, s4)"
    and s': "s' = s4"
    by (auto simp: getE_def pureE_def okE_def raiseE_def split: if_splits elim!: bindE_InrE)
  let ?up = "sql_update (\<lambda>t. rt_TokenHash t = h) (\<lambda>t. t\<lparr>rt_RevokedAt := Some (clock s)\<rparr>) (t_refresh_tokens (st_db s))"
  obtain f2 where s2: "s2 = s\<lparr>st_db := (st_db s)\<lparr>t_refresh_tokens := ?up\<rparr>, faults := f2\<rparr>"
    using exec_Inr [OF mapErrE_InrD [OF rev]] s1 by (auto simp: revoke_refresh_token_def)
  have keep: "rt_TokenHash ` set ?up = rt_TokenHash ` set (t_refresh_tokens (st_db s))" by simp
  obtain f4 where "s4 = s\<lparr>st_db := (st_db s)\<lparr>t_refresh_tokens := ?up @
        [(new_refresh_token (H new) u e)\<lparr>rt_CreatedAt := clock s\<rparr>]\<rparr>, faults := f4\<rparr>"
    and "H new \<notin> rt_TokenHash ` set (t_refresh_tokens (st_db s))"
    using exec_Inr [OF mapErrE_InrD [OF ins]] s2 u keep
    by (auto simp: insert_refresh_token_def new_refresh_token_def split: if_splits)
  moreover have "e = clock s + ttl" using e s2 by simp
  ultimately show ?thesis using t live u tok s' by blast
qed

lemma RotateRefreshToken_dead:
  assumes "\<forall>t\<in>set (t_refresh_tokens (st_db s)). rt_TokenHash t = H old \<longrightarrow> rt_RevokedAt t \<noteq> None"
  shows "isl (fst (RotateRefreshToken H tok old ttl s))"
    and "faults s = [] \<Longrightarrow> fst (RotateRefreshToken H tok old ttl s) = Inl ErrInvalidRefreshToken"
proof -
  have none: "select_live_token (H old) (st_db s) = Inl ErrNoRows"
    using assms by (auto simp: select_live_token_def sql_take_None split: option.splits)
  then have "isl (fst (rotate_tx H tok (H old) ttl s))"
    by (auto simp: rotate_tx_def tryE_def query_def exec_def raiseE_def)
  then obtain e s1 where "rotate_tx H tok (H old) ttl s = (Inl e, s1)"
    by (metis isl_def prod.collapse)
  then show "isl (fst (RotateRefreshToken H tok old ttl s))"
    by (simp add: RotateRefreshToken_def tryE_def transaction_def raiseE_def)
  assume "faults s = []"
  with none have "rotate_tx H tok (H old) ttl s = (Inl ErrInvalidRefreshToken, s)"
    by (simp add: rotate_tx_def tryE_def raiseE_def)
  then show "fst (RotateRefreshToken H tok old ttl s) = Inl ErrInvalidRefreshToken"
    by (simp add: RotateRefreshToken_def tryE_def transaction_def raiseE_def)
qed

text \<open>
  C16. A refresh token works once: when \<open>RotateRefreshToken\<close> succeeds, the token presented was that of a row that was
  neither revoked nor expired, the account is the row's, the new token is recorded for the same account with the
  full lifetime; and presenting the old token again fails, with \<open>ErrInvalidRefreshToken\<close> unless a statement fails.
\<close>

theorem RotateRefreshToken_single_use:
  assumes "RotateRefreshToken H tok old ttl s = (Inr (u, new, e), s')"
  shows "(\<exists>t\<in>set (t_refresh_tokens (st_db s)). rt_TokenHash t = H old \<and> rt_RevokedAt t = None \<and>
       clock s \<le> rt_ExpiresAt t \<and> rt_Username t = u) \<and>
     (\<exists>t\<in>set (t_refresh_tokens (st_db s')). rt_TokenHash t = H new \<and> rt_RevokedAt t = None \<and>
       rt_ExpiresAt t = clock s + ttl \<and> rt_Username t = u) \<and>
     isl (fst (RotateRefreshToken H tok' old ttl' s')) \<and>
     (faults s' = [] \<longrightarrow> fst (RotateRefreshToken H tok' old ttl' s') = Inl ErrInvalidRefreshToken)"
proof -
  have "transaction (rotate_tx H tok (H old) ttl) s = (Inr (u, new, e), s')"
  proof (cases rule: tryE_cases [OF assms [unfolded RotateRefreshToken_def]])
    case (1 err s1)
    then show ?thesis by (simp add: raiseE_def split: if_splits)
  next
    case (2 r s1)
    then show ?thesis by (simp add: okE_def)
  qed
  from transaction_Inr [OF this] obtain s0 f0 where
    run: "rotate_tx H tok (H old) ttl s = (Inr (u, new, e), s0)" and s': "s' = s0\<lparr>faults := f0\<rparr>" by blast
  obtain t fs where t: "t \<in> set (t_refresh_tokens (st_db s))" "rt_TokenHash t = H old" "rt_RevokedAt t = None"
      "clock s \<le> rt_ExpiresAt t" "rt_Username t = u" "e = clock s + ttl"
    and fresh: "H new \<notin> rt_TokenHash ` set (t_refresh_tokens (st_db s))"
    and s0: "s0 = s\<lparr>st_db := (st_db s)\<lparr>t_refresh_tokens :=
        sql_update (\<lambda>t. rt_TokenHash t = H old) (\<lambda>t. t\<lparr>rt_RevokedAt := Some (clock s)\<rparr>) (t_refresh_tokens (st_db s)) @
        [(new_refresh_token (H new) u e)\<lparr>rt_CreatedAt := clock s\<rparr>]\<rparr>, faults := fs\<rparr>"
    using rotate_tx_Inr [OF run] by blast
  have "H new \<noteq> H old" using t(1,2) fresh by (metis image_eqI)
  then have dead: "\<forall>t\<in>set (t_refresh_tokens (st_db s')). rt_TokenHash t = H old \<longrightarrow> rt_RevokedAt t \<noteq> None"
    unfolding s' s0 by (auto simp: set_sql_update new_refresh_token_def)
  have "\<exists>t\<in>set (t_refresh_tokens (st_db s')). rt_TokenHash t = H new \<and> rt_RevokedAt t = None \<and>
       rt_ExpiresAt t = clock s + ttl \<and> rt_Username t = u"
    unfolding s' s0 using t(6) by (simp add: new_refresh_token_def)
  with t RotateRefreshToken_dead [where H = H and old = old and s = s', OF dead] show ?thesis by blast
qed

lemma ex_rotate:
  "fst (RotateRefreshToken (\<lambda>t. ''H:'' @ t) (Inr ''new'') ''old'' 60 ex_store) = Inr (''bob'', ''new'', 1000 + 60)"
  by code_simp

theorem RotateRefreshToken_single_use_witness:
  "fst (RotateRefreshToken (\<lambda>t. ''H:'' @ t) (Inr ''newer'') ''old'' 60
     (snd (RotateRefreshToken (\<lambda>t. ''H:'' @ t) (Inr ''new'') ''old'' 60 ex_store))) = Inl ErrInvalidRefreshToken"
proof -
  let ?run = "RotateRefreshToken (\<lambda>t. ''H:'' @ t) (Inr ''new'') ''old'' 60 ex_store"
  have run: "?run = (Inr (''bob'', ''new'', 1060), snd ?run)" using ex_rotate by (simp add: prod_eq_iff)
  have "faults (snd ?run) = []" by code_simp
  with RotateRefreshToken_single_use [OF run, of "Inr ''newer''" 60] show ?thesis by blast
qed

section \<open>Accounts\<close>

definition owns_maps :: "db \<Rightarrow> string \<Rightarrow> bool" where
  "owns_maps d u \<longleftrightarrow> (\<exists>m\<in>set (t_maps d). \<exists>a\<in>set (t_users d). u_ID a = m_OwnerID m \<and> u_Username a = u)"

lemma owns_maps_sql:
  "sql_exists (\<lambda>m. m_OwnerID m \<in> set (map u_ID (filter (\<lambda>a. u_Username a = u) (t_users d)))) (t_maps d) \<longleftrightarrow> owns_maps d u"
  by (simp add: sql_exists_iff image_iff owns_maps_def) metis

lemma delete_user_owner: "owns_maps d u \<Longrightarrow> delete_user u now d = Inl foreign_key_violation"
  unfolding delete_user_def Let_def owns_maps_sql by simp

lemma delete_user_missing: "\<not> owns_maps d u \<Longrightarrow> u \<notin> u_Username ` set (t_users d) \<Longrightarrow> delete_user u now d = Inr (0, d)"
  unfolding delete_user_def Let_def owns_maps_sql by auto

lemma delete_user_gone:
  assumes "\<not> owns_maps d u" and "u \<in> u_Username ` set (t_users d)"
  shows "\<exists>k d'. delete_user u now d = Inr (k, d') \<and> k \<noteq> 0 \<and> t_maps d' = t_maps d \<and> u \<notin> u_Username ` set (t_users d') \<and>
    u \<notin> mpm_Username ` set (t_map_permissions d') \<and> u \<notin> rt_Username ` set (t_refresh_tokens d') \<and>
    u \<notin> k_Username ` set (t_api_keys d') \<and> u \<notin> gm_Username ` set (t_group_members d')"
proof -
  have n: "sql_count (\<lambda>a. u_Username a = u) (t_users d) \<noteq> 0" using assms(2) by auto
  have "\<exists>y. delete_user u now d = Inr y" using assms(1) unfolding delete_user_def Let_def owns_maps_sql by simp
  then obtain k d' where d': "delete_user u now d = Inr (k, d')" by (metis surj_pair)
  moreover have "k \<noteq> 0" using n d' by (auto simp: delete_user_def Let_def split: if_splits)
  moreover have "t_maps d' = t_maps d \<and> u \<notin> u_Username ` set (t_users d') \<and>
      u \<notin> mpm_Username ` set (t_map_permissions d') \<and> u \<notin> rt_Username ` set (t_refresh_tokens d') \<and>
      u \<notin> k_Username ` set (t_api_keys d') \<and> u \<notin> gm_Username ` set (t_group_members d')"
    using n d' by (auto simp: delete_user_def Let_def set_sql_delete split: if_splits)
  ultimately show ?thesis by blast
qed

text \<open>
  C30. Deleting an account: without a failing statement, \<open>DeleteUser\<close> refuses exactly the accounts that own a map,
  reports a missing one, and otherwise removes the account with its grants, refresh tokens, API keys and group
  memberships; the maps stay as they are.
\<close>

theorem DeleteUser_outcome:
  assumes "faults s = []" and "DeleteUser u s = (x, s')"
  shows "x = (if \<exists>m\<in>set (t_maps (st_db s)). \<exists>a\<in>set (t_users (st_db s)). u_ID a = m_OwnerID m \<and> u_Username a = u
              then Inl ErrUserOwnsMaps
              else if u \<notin> u_Username ` set (t_users (st_db s)) then Inl ErrUserNotFound else Inr ()) \<and>
     t_maps (st_db s') = t_maps (st_db s) \<and>
     (x = Inr () \<longrightarrow> u \<notin> u_Username ` set (t_users (st_db s')) \<and>
        u \<notin> mpm_Username ` set (t_map_permissions (st_db s')) \<and> u \<notin> rt_Username ` set (t_refresh_tokens (st_db s')) \<and>
        u \<notin> k_Username ` set (t_api_keys (st_db s')) \<and> u \<notin> gm_Username ` set (t_group_members (st_db s')))"
proof -
  let ?d = "st_db s"
  have own: "(\<exists>m\<in>set (t_maps ?d). \<exists>a\<in>set (t_users ?d). u_ID a = m_OwnerID m \<and> u_Username a = u) \<longleftrightarrow> owns_maps ?d u"
    by (simp add: owns_maps_def)
  consider "owns_maps ?d u" | "\<not> owns_maps ?d u" "u \<notin> u_Username ` set (t_users ?d)"
    | "\<not> owns_maps ?d u" "u \<in> u_Username ` set (t_users ?d)" by blast
  then show ?thesis
  proof cases
    case 1
    with assms delete_user_owner [OF 1] have "x = Inl ErrUserOwnsMaps" "s' = s"
      by (auto simp: DeleteUser_def tryE_def raiseE_def)
    with 1 show ?thesis unfolding own by simp
  next
    case 2
    with assms delete_user_missing [OF 2] have "x = Inl ErrUserNotFound" "s' = s"
      by (auto simp: DeleteUser_def tryE_def raiseE_def)
    with 2 show ?thesis unfolding own by simp
  next
    case 3
    from delete_user_gone [OF 3, of "clock s"] obtain k d' where d': "delete_user u (clock s) ?d = Inr (k, d')" "k \<noteq> 0"
      and gone: "t_maps d' = t_maps ?d" "u \<notin> u_Username ` set (t_users d')"
        "u \<notin> mpm_Username ` set (t_map_permissions d')" "u \<notin> rt_Username ` set (t_refresh_tokens d')"
        "u \<notin> k_Username ` set (t_api_keys d')" "u \<notin> gm_Username ` set (t_group_members d')" by blast
    have "x = Inr ()" "st_db s' = d'" using assms d' by (auto simp: DeleteUser_def tryE_def modifyE_def)
    with 3 gone show ?thesis unfolding own by simp
  qed
qed

theorem DeleteUser_outcome_witness:
  "fst (DeleteUser ''alice'' ex_store) = Inl ErrUserOwnsMaps \<and> fst (DeleteUser ''bob'' ex_store) = Inr ()"
  using DeleteUser_outcome [OF _ surjective_pairing, of ex_store "''alice''"]
    DeleteUser_outcome [OF _ surjective_pairing, of ex_store "''bob''"]
  by simp (simp add: ex_db_defs)

section \<open>Revoked keys\<close>

lemma ResolveAPIKeySigningKey_dead:
  assumes "\<forall>x\<in>set (t_api_keys (st_db s)). k_ID x = k \<longrightarrow> k_RevokedAt x \<noteq> None"
    and "cache_get (clock s) (apiKeyCache s) k = None"
  shows "isl (fst (ResolveAPIKeySigningKey k s))"
    and "faults s = [] \<Longrightarrow> fst (ResolveAPIKeySigningKey k s) = Inl ErrInvalidAPIKey"
proof -
  have none: "select_live_key k (st_db s) = Inl ErrNoRows"
    using assms(1) by (auto simp: select_live_key_def sql_take_None split: option.splits)
  with assms(2) show "isl (fst (ResolveAPIKeySigningKey k s))"
    by (auto simp: ResolveAPIKeySigningKey_def bindE_def getE_def tryE_def query_def exec_def raiseE_def)
  assume "faults s = []"
  with none assms(2) show "fst (ResolveAPIKeySigningKey k s) = Inl ErrInvalidAPIKey"
    by (simp add: ResolveAPIKeySigningKey_def bindE_def getE_def tryE_def raiseE_def)
qed

lemma RevokeAPIKey_Inr:
  assumes "RevokeAPIKey u k s = (Inr r, s')" and "distinct (map k_ID (t_api_keys (st_db s)))"
  shows "(\<forall>x\<in>set (t_api_keys (st_db s')). k_ID x = k \<longrightarrow> k_RevokedAt x \<noteq> None) \<and>
     apiKeyCache s' = apiKeyCache s \<and> clock s' = clock s"
proof -
  obtain n s1 where "exec (update_api_keys (live_key_of k u) (\<lambda>now k. k\<lparr>k_RevokedAt := Some now\<rparr>)) s = (Inr n, s1)"
    "n \<noteq> 0" "s' = s1"
    using assms(1) unfolding RevokeAPIKey_def
    by (auto simp: raiseE_def okE_def split: if_splits elim!: bindE_InrE dest!: mapErrE_InrD)
  from exec_Inr [OF this(1)] this(2,3) obtain fs where
    n: "sql_count (live_key_of k u) (t_api_keys (st_db s)) \<noteq> 0" and
    s': "s' = s\<lparr>st_db := (st_db s)\<lparr>t_api_keys := sql_update (live_key_of k u)
       (\<lambda>x. x\<lparr>k_RevokedAt := Some (clock s)\<rparr>) (t_api_keys (st_db s))\<rparr>, faults := fs\<rparr>"
    by (auto simp: update_api_keys_def)
  obtain y where y: "y \<in> set (t_api_keys (st_db s))" "live_key_of k u y" using n by auto
  have "x = y" if "x \<in> set (t_api_keys (st_db s))" "k_ID x = k" for x
    using assms(2) that y by (auto simp: live_key_of_def distinct_map dest: inj_onD)
  then show ?thesis unfolding s' using y(2) by (auto simp: set_sql_update live_key_of_def split: if_splits)
qed


lemma ex_revoke: "fst (RevokeAPIKey ''bob'' 30 ex_store) = Inr ()" "faults (snd (RevokeAPIKey ''bob'' 30 ex_store)) = []"
  by code_simp+


text \<open>Within that time a key that has been used just before is still accepted: the revocation does not clear its entry.\<close>

lemma revoked_key_still_accepted:
  "fst (ResolveAPIKeySigningKey 30 (snd (RevokeAPIKey ''bob'' 30 (snd (ResolveAPIKeySigningKey 30 ex_store))))) =
     Inr (''bob'', ''pem'')"
  by code_simp

section \<open>Array literals\<close>

lemma scan_escape:
  "scan_loop out cur True False (escape x @ rest) = scan_loop out (cur @ x) True False rest"
  by (induction x arbitrary: cur) auto

lemma scan_quote:
  "scan_loop out cur False False (quote x @ rest) = scan_loop out (cur @ x) False False rest"
  by (simp add: quote_def scan_escape)

lemma scan_join: "xs \<noteq> [] \<Longrightarrow> scan_loop out [] False False (join_with (CHR '','') (map quote xs)) = out @ xs"
proof (induction xs arbitrary: out)
  case (Cons x xs)
  show ?case
  proof (cases xs)
    case Nil
    then show ?thesis using scan_quote [of out "[]" x "[]"] by simp
  next
    case (Cons y ys)
    then have "scan_loop out [] False False (join_with (CHR '','') (map quote (x # xs))) =
      scan_loop (out @ [x]) [] False False (join_with (CHR '','') (map quote xs))"
      by (simp add: scan_quote)
    also have "\<dots> = (out @ [x]) @ xs" using Cons.IH Cons by simp
    finally show ?thesis by simp
  qed
qed simp


section \<open>Substring filters\<close>

definition wildcard :: "char \<Rightarrow> bool" where
  "wildcard c \<longleftrightarrow> c = CHR ''%'' \<or> c = CHR ''_'' \<or> c = CHR 0x5C"

lemma like_literal:
  "\<forall>c\<in>set x. \<not> wildcard c \<Longrightarrow> like (x @ ps) s \<longleftrightarrow> (\<exists>r. s = x @ r \<and> like ps r)"
  by (induction x arbitrary: s) (auto simp: wildcard_def split: list.splits)

lemma like_any: "like ''%'' s"
  by (induction s) auto

lemma like_percent: "like (CHR ''%'' # ps) s \<longleftrightarrow> (\<exists>a b. s = a @ b \<and> like ps b)"
proof (induction s)
  case (Cons c s)
  have "like (CHR ''%'' # ps) (c # s) \<longleftrightarrow> like ps (c # s) \<or> like (CHR ''%'' # ps) s" by simp
  then show ?case using Cons.IH by (auto simp: Cons_eq_append_conv)
qed simp

lemma lower_wildcard: "wildcard (lower c) \<longleftrightarrow> wildcard c"
proof -
  have "lower c = c \<or> 97 \<le> (of_char (lower c) :: nat) \<and> (of_char (lower c) :: nat) \<le> 122 \<and>
      65 \<le> (of_char c :: nat) \<and> (of_char c :: nat) \<le> 90"
    by (auto simp: lower_def Let_def)
  then show ?thesis by (auto simp: wildcard_def)
qed



text \<open>With one of them in it, a filter accepts other values too.\<close>

lemma like_filter_wildcard: "like_filter ''a_c'' ''abc'' \<and> \<not> Contains ''abc'' ''a_c''"
  by code_simp

end
