(* ===== verification/AnswerFacts.thy ===== *)
theory AnswerFacts
  imports Server
begin

text \<open>
  The type of the answers. \<open>contract\<close> lists, for every endpoint, the status and the schema of the answers it gives when it
  runs to its end, as \<open>internal/webserver/openapi.yaml\<close> documents them for the endpoints it covers. The judgement
  \<open>answers c m\<close> says that a handler keeps to the contract \<open>c\<close>: it has one rule for every combinator, one lemma for every
  helper and handler, and the server as a whole at the end.
\<close>

section \<open>Schemas and contracts\<close>

text \<open>The schema of a body: the schema of \<open>openapi.yaml\<close> it is written with, alone or as an array, or the members of an object written in place.\<close>

datatype schema = NoContent | Document | Archive | Item string | Items string | Object "string list"

primrec schema_of :: "body \<Rightarrow> schema" where
  "schema_of NoBody = NoContent"
| "schema_of (Message x) = Document"
| "schema_of (JMap x) = Item ''Map''"
| "schema_of (JMaps x) = Items ''Map''"
| "schema_of (JVersions x) = Items ''MapVersion''"
| "schema_of (JMapPerms x) = Items ''MapPermission''"
| "schema_of (JMapPerm x) = Item ''MapPermission''"
| "schema_of (JGroupPerms x) = Items ''GroupMapPermission''"
| "schema_of (JGroupPerm x) = Item ''GroupMapPermission''"
| "schema_of (JAllPerms x) = Items ''UserMapPermission''"
| "schema_of (JOwner x) = Item ''MapOwner''"
| "schema_of (JAliases x) = Items ''MapVersionAlias''"
| "schema_of (JAlias x) = Item ''MapVersionAlias''"
| "schema_of (JGeos x) = Items ''GeoObject''"
| "schema_of (JGeo x) = Item ''GeoObject''"
| "schema_of (JUsers x) = Items ''User''"
| "schema_of (JUser x) = Item ''User''"
| "schema_of (JGroups x) = Items ''Group''"
| "schema_of (JGroup x) = Item ''Group''"
| "schema_of (JPermissions x) = Item ''Permissions''"
| "schema_of (JKeys x) = Items ''APIKey''"
| "schema_of (JKey x) = Item ''APIKey''"
| "schema_of (JScopes x) = Items ''APIKeyScope''"
| "schema_of (JScope x) = Item ''APIKeyScope''"
| "schema_of (JRemotes x) = Items ''SyncRemote''"
| "schema_of (JRemote x) = Item ''SyncRemote''"
| "schema_of (JUUIDs x) = Items ''UUID''"
| "schema_of (JAudit x) = Items ''AuditLogEntry''"
| "schema_of (JError x) = Item ''Error''"
| "schema_of (Hyperlink x) = Document"
| "schema_of (JTokens t u) = Item ''LoginResponse''"
| "schema_of (JBounds x) = Item ''TileBounds''"
| "schema_of (JAuthMethods x) = Item ''AuthMethods''"
| "schema_of (JLogs x) = Items ''LogEntry''"
| "schema_of (FileOf p x) = Document"
| "schema_of (Listing x) = Document"
| "schema_of (JObject x) = Object (map fst x)"
| "schema_of (Raw x) = Document"
| "schema_of (ZipOf x) = Archive"

text \<open>
  Below the documented operations \<open>openapi.yaml\<close> leaves out: \<open>/version\<close>, the API-key scopes, the logs and the map lists
  of a sync remote, the download of a version, \<open>/permissions\<close> and \<open>/permissions/me\<close>. A redirect (301) is an answer of Go's file
  server for a directory without its slash.
\<close>

fun contract :: "endpoint \<Rightarrow> (nat \<times> schema) list" where
  "contract (Open Healthz) = [(200, Document)]"
| "contract (Open Version) = [(200, Object [''commit'']), (200, Object [''commit'', ''version''])]"
| "contract (Open LoginEP) = [(200, Item ''LoginResponse'')]"
| "contract (Open RefreshEP) = [(200, Item ''LoginResponse'')]"
| "contract (Open AuthMethods) = [(200, Item ''AuthMethods'')]"
| "contract (Open OIDCLogin) = [(302, Document)]"
| "contract (Open OIDCCallback) = [(302, Document)]"
| "contract (Open SPA) = [(200, Document), (301, NoContent)]"
| "contract (Open OpenAPI) = [(200, Document)]"
| "contract (OnMap MapsList) = [(200, Items ''Map'')]"
| "contract (OnMap MapCreate) = [(201, Item ''Map'')]"
| "contract (OnMap GetMapEP) = [(200, Item ''Map'')]"
| "contract (OnMap UpdateMapEP) = [(200, Item ''Map'')]"
| "contract (OnMap DeleteMapEP) = [(204, NoContent)]"
| "contract (OnMap Upload) = [(201, Item ''Map'')]"
| "contract (OnMap MapVersions) = [(200, Items ''MapVersion'')]"
| "contract (OnMap MapVersionBounds) = [(200, Item ''TileBounds'')]"
| "contract (OnMap MapVersionArchive) = [(200, Archive)]"
| "contract (OnMap MapVersionDownload) = [(200, Archive)]"
| "contract (OnMap ServeFile) = [(200, Document), (301, NoContent)]"
| "contract (OnSharing MapPermissionsList) = [(200, Items ''MapPermission'')]"
| "contract (OnSharing MapPermissionSet) = [(200, Item ''MapPermission'')]"
| "contract (OnSharing MapPermissionDelete) = [(204, NoContent)]"
| "contract (OnSharing GroupMapPermissionsList) = [(200, Items ''GroupMapPermission'')]"
| "contract (OnSharing GroupMapPermissionSet) = [(200, Item ''GroupMapPermission'')]"
| "contract (OnSharing GroupMapPermissionDelete) = [(204, NoContent)]"
| "contract (OnSharing MapAliasesList) = [(200, Items ''MapVersionAlias'')]"
| "contract (OnSharing MapAliasGet) = [(200, Item ''MapVersionAlias'')]"
| "contract (OnSharing MapAliasSet) = [(200, Item ''MapVersionAlias'')]"
| "contract (OnSharing MapAliasDelete) = [(204, NoContent)]"
| "contract (OnSharing MapOwnerGet) = [(200, Item ''MapOwner'')]"
| "contract (OnSharing MapOwnerSet) = [(200, Item ''MapOwner'')]"
| "contract (OnGeo GeoObjectsList) = [(200, Items ''GeoObject'')]"
| "contract (OnGeo GeoObjectCreate) = [(201, Item ''GeoObject'')]"
| "contract (OnGeo GeoObjectGet) = [(200, Item ''GeoObject'')]"
| "contract (OnGeo GeoObjectUpdate) = [(200, Item ''GeoObject'')]"
| "contract (OnGeo GeoObjectDelete) = [(204, NoContent)]"
| "contract (OnAccount UsersList) = [(200, Items ''User'')]"
| "contract (OnAccount UserCreate) = [(201, Item ''User'')]"
| "contract (OnAccount UserUpdate) = [(200, Item ''User'')]"
| "contract (OnAccount UserDelete) = [(204, NoContent)]"
| "contract (OnAccount GroupsList) = [(200, Items ''Group'')]"
| "contract (OnAccount GroupCreate) = [(201, Item ''Group'')]"
| "contract (OnAccount GroupGet) = [(200, Item ''Group'')]"
| "contract (OnAccount GroupUpdate) = [(200, Item ''Group'')]"
| "contract (OnAccount GroupDelete) = [(204, NoContent)]"
| "contract (OnAccount APIKeysList) = [(200, Items ''APIKey'')]"
| "contract (OnAccount APIKeyCreate) = [(201, Item ''APIKey'')]"
| "contract (OnAccount APIKeyDelete) = [(204, NoContent)]"
| "contract (OnAccount APIKeyScopesList) = [(200, Items ''APIKeyScope'')]"
| "contract (OnAccount APIKeyScopesClear) = [(204, NoContent)]"
| "contract (OnAccount APIKeyScopeSet) = [(200, Item ''APIKeyScope'')]"
| "contract (OnAccount APIKeyScopeDelete) = [(204, NoContent)]"
| "contract (OnServer SyncRemotesList) = [(200, Items ''SyncRemote'')]"
| "contract (OnServer SyncRemoteCreate) = [(201, Item ''SyncRemote'')]"
| "contract (OnServer SyncRemoteGet) = [(200, Item ''SyncRemote'')]"
| "contract (OnServer SyncRemoteUpdate) = [(200, Item ''SyncRemote'')]"
| "contract (OnServer SyncRemoteDelete) = [(204, NoContent)]"
| "contract (OnServer SyncRemoteTrigger) = [(202, NoContent)]"
| "contract (OnServer SyncRemoteLogs) = [(200, Items ''LogEntry'')]"
| "contract (OnServer SyncRemoteRemoteMaps) = [(200, Items ''Map'')]"
| "contract (OnServer SyncRemoteSelectedMaps) = [(200, Items ''UUID'')]"
| "contract (OnServer GenerateKeyPair) = [(200, Object [''privateKeyPem'', ''publicKeyPem''])]"
| "contract (OnServer ServerPublicKey) = [(200, Object [''publicKeyPem''])]"
| "contract (OnServer AuditLogs) = [(200, Items ''AuditLogEntry'')]"
| "contract (OnServer PermissionsCollection) = [(200, Items ''UserMapPermission'')]"
| "contract (OnServer CurrentPermissions) = [(200, Item ''Permissions'')]"

definition fits :: "(nat \<times> schema) list \<Rightarrow> response \<Rightarrow> bool" where
  "fits c resp \<longleftrightarrow> (status resp, schema_of (payload resp)) \<in> set c"

text \<open>An error answer carries an error status and a message, as plain text or as the member of a JSON object.\<close>

definition error_answer :: "response \<Rightarrow> bool" where
  "error_answer r \<longleftrightarrow> 400 \<le> status r \<and> status r < 600 \<and> (\<exists>m. payload r = Message m \<or> payload r = JError m)"

definition refuses :: "('s, response, 'a) action \<Rightarrow> bool" where
  "refuses m \<longleftrightarrow> (\<forall>s e s'. m s = (Inl e, s') \<longrightarrow> error_answer e)"

definition answers :: "(nat \<times> schema) list \<Rightarrow> ('s, response, response) action \<Rightarrow> bool" where
  "answers c m \<longleftrightarrow> refuses m \<and> (\<forall>s r s'. m s = (Inr r, s') \<longrightarrow> fits c r)"

named_theorems answer_rules \<open>the answers of an operation, by its combinators\<close>

lemma error_answers [simp]:
  "error_answer (http_Error c m) = (400 \<le> c \<and> c < 600)" "error_answer (add_headers hs r) = error_answer r"
  "error_answer (check_failed e)"
  by (auto simp: error_answer_def http_Error_def add_headers_def check_failed_def)

lemma error_writeStoreError [simp]: "400 \<le> c \<Longrightarrow> c < 600 \<Longrightarrow> error_answer (writeStoreError x c m f e)"
  by (simp add: writeStoreError_def)

lemma fits_simps [simp]:
  "fits c \<lparr>status = n, payload = p, headers = hs\<rparr> = ((n, schema_of p) \<in> set c)"
  "fits c (add_headers hs r) = fits c r"
  by (simp_all add: fits_def add_headers_def)

lemma error_answer_json [simp]: "error_answer \<lparr>status = n, payload = JError m, headers = hs\<rparr> = (400 \<le> n \<and> n < 600)"
  by (simp add: error_answer_def)

lemma refuses_basic [answer_rules]:
  "refuses (okE x)" "refuses (getE f)" "refuses (modifyE g)" "error_answer e \<Longrightarrow> refuses (raiseE e)"
  by (simp_all add: refuses_def okE_def getE_def modifyE_def raiseE_def)

lemma refuses_fail [answer_rules]: "400 \<le> c \<Longrightarrow> c < 600 \<Longrightarrow> refuses (fail c msg)"
  by (simp add: fail_def answer_rules)

lemma refuses_tryE [answer_rules]: "(\<And>e. refuses (h e)) \<Longrightarrow> (\<And>x. refuses (k x)) \<Longrightarrow> refuses (tryE m h k)"
  unfolding refuses_def by (auto simp: tryE_def split: prod.splits sum.splits)

lemma refuses_bindE [answer_rules]: "refuses m \<Longrightarrow> (\<And>x. refuses (k x)) \<Longrightarrow> refuses (bindE m k)"
  unfolding refuses_def by (auto simp: bindE_def tryE_def raiseE_def split: prod.splits sum.splits)

lemma refuses_mapErrE [answer_rules]: "(\<And>e. error_answer (h e)) \<Longrightarrow> refuses (mapErrE h m)"
  by (auto simp: refuses_def mapErrE_def tryE_def raiseE_def okE_def split: prod.splits sum.splits)

lemma refuses_attempt [answer_rules]: "(\<And>e. error_answer (h e)) \<Longrightarrow> refuses (attempt m h)"
  unfolding attempt_def by (rule refuses_mapErrE)

lemma refuses_ignoreE [answer_rules]: "refuses (ignoreE m)"
  unfolding ignoreE_def by (intro answer_rules)

lemma refuses_finallyE [answer_rules]: "refuses m \<Longrightarrow> refuses (finallyE m f)"
  by (auto simp: refuses_def finallyE_def split: prod.splits)

lemma refuses_branches [answer_rules]:
  "refuses m \<Longrightarrow> refuses n \<Longrightarrow> refuses (if b then m else n)"
  "refuses m \<Longrightarrow> (\<And>y. refuses (k y)) \<Longrightarrow> refuses (case z of None \<Rightarrow> m | Some y \<Rightarrow> k y)"
  by (auto split: option.split)

lemma answers_basic [answer_rules]:
  "fits c r \<Longrightarrow> answers c (okE r)" "error_answer e \<Longrightarrow> answers c (raiseE e)"
  by (simp_all add: answers_def answer_rules okE_def raiseE_def refuses_def)

lemma answers_fail [answer_rules]: "400 \<le> n \<Longrightarrow> n < 600 \<Longrightarrow> answers c (fail n msg)"
  by (simp add: fail_def answer_rules)

lemma answers_write [answer_rules]:
  "(n, schema_of v) \<in> set c \<Longrightarrow> answers c (WriteJSON n v)" "(n, NoContent) \<in> set c \<Longrightarrow> answers c (WriteHeader n)"
  by (auto simp: WriteJSON_def WriteHeader_def intro!: answer_rules)

lemma answers_tryE [answer_rules]: "(\<And>e. answers c (h e)) \<Longrightarrow> (\<And>x. answers c (k x)) \<Longrightarrow> answers c (tryE m h k)"
  unfolding answers_def refuses_def by (auto simp: tryE_def split: prod.splits sum.splits)

lemma answers_bindE [answer_rules]: "refuses m \<Longrightarrow> (\<And>x. answers c (k x)) \<Longrightarrow> answers c (bindE m k)"
  unfolding answers_def refuses_def by (auto simp: bindE_def tryE_def raiseE_def split: prod.splits sum.splits)

lemma answersD:
  "answers c m \<Longrightarrow> m s = (x, s') \<Longrightarrow> (case x of Inl e \<Rightarrow> error_answer e | Inr r \<Rightarrow> fits c r)"
  unfolding answers_def refuses_def by (cases x; clarsimp; blast)

lemma serve_cases:
  assumes "answers c h" and "serve h s = (resp, s')" and "status resp < 400"
  shows "h s = (Inr resp, s')"
  using answersD [OF assms(1)] assms(2,3) by (fastforce simp: serve_def error_answer_def split: prod.splits sum.splits)

lemma answers_finallyE [answer_rules]: "answers c m \<Longrightarrow> answers c (finallyE m f)"
  unfolding answers_def refuses_def finallyE_def by (auto split: prod.splits) blast+

lemma answers_with_headers [answer_rules]:
  fixes h :: "('w, response) hnd"
  assumes "answers c h" shows "answers c (with_headers hs h)"
  using assms unfolding answers_def refuses_def with_headers_def tryE_def raiseE_def okE_def
  by (auto split: prod.splits sum.splits) blast+

lemma answers_with_cache_control [answer_rules]:
  fixes h :: "('w, response) fhnd"
  assumes "answers c h" shows "answers c (with_cache_control h)"
  using assms unfolding answers_def refuses_def with_cache_control_def bindE_def tryE_def raiseE_def okE_def
  by (auto split: prod.splits sum.splits) blast+

lemma answers_branches [answer_rules]:
  "answers c m \<Longrightarrow> answers c n \<Longrightarrow> answers c (if b then m else n)"
  "answers c m \<Longrightarrow> (\<And>y. answers c (k y)) \<Longrightarrow> answers c (case z of None \<Rightarrow> m | Some y \<Rightarrow> k y)"
  by (auto split: option.split)

section \<open>Helpers and handlers\<close>

lemma RequireMethod_refuses [answer_rules]: "refuses (RequireMethod r m)"
  unfolding RequireMethod_def
  by (auto intro!: answer_rules split: option.split sum.split prod.split)

lemma DecodeJSON_refuses [answer_rules]: "refuses (DecodeJSON v)"
  unfolding DecodeJSON_def
  by (auto intro!: answer_rules split: option.split sum.split prod.split)

lemma PathUUID_refuses [answer_rules]: "refuses (PathUUID env r n l)"
  unfolding PathUUID_def
  by (auto intro!: answer_rules split: option.split sum.split prod.split)

lemma QueryBoolParam_refuses [answer_rules]: "refuses (QueryBoolParam r n)"
  unfolding QueryBoolParam_def Let_def
  by (auto intro!: answer_rules split: option.split sum.split prod.split)

lemma QueryFloatParam_refuses [answer_rules]: "refuses (QueryFloatParam env r n)"
  unfolding QueryFloatParam_def Let_def
  by (auto intro!: answer_rules split: option.split sum.split prod.split)

lemma QueryTimeParam_refuses [answer_rules]: "refuses (QueryTimeParam env r n)"
  unfolding QueryTimeParam_def Let_def
  by (auto intro!: answer_rules split: option.split sum.split prod.split)

lemma QueryIntParam_refuses [answer_rules]: "refuses (QueryIntParam r n)"
  unfolding QueryIntParam_def Let_def
  by (auto intro!: answer_rules split: option.split sum.split prod.split)

lemma RecordAudit_refuses [answer_rules]: "refuses (RecordAudit r a e i x)"
  unfolding RecordAudit_def
  by (auto intro!: answer_rules split: option.split sum.split prod.split)

lemma RequireAuthenticated_refuses [answer_rules]: "refuses (RequireAuthenticated r)"
  unfolding RequireAuthenticated_def
  by (auto intro!: answer_rules split: option.split sum.split prod.split)

lemma GetPermissionsOrFail_refuses [answer_rules]: "refuses (GetPermissionsOrFail r)"
  unfolding GetPermissionsOrFail_def
  by (auto intro!: answer_rules split: option.split sum.split prod.split)

lemma RequirePermission_refuses [answer_rules]: "refuses (RequirePermission r a)"
  unfolding RequirePermission_def
  by (auto intro!: answer_rules split: option.split sum.split prod.split)

lemma RequireAdmin_refuses [answer_rules]: "refuses (RequireAdmin r)"
  unfolding RequireAdmin_def
  by (auto intro!: answer_rules split: option.split sum.split prod.split)

lemma forbid_unless_refuses [answer_rules]: "refuses (forbid_unless b)"
  unfolding forbid_unless_def
  by (auto intro!: answer_rules split: option.split sum.split prod.split)

lemma requireMapPermission_refuses [answer_rules]: "refuses (requireMapPermission r i g a)"
  unfolding requireMapPermission_def
  by (auto intro!: answer_rules split: option.split sum.split prod.split)

lemma requireMapAdmin_refuses [answer_rules]: "refuses (requireMapAdmin r i)"
  unfolding requireMapAdmin_def
  by (auto intro!: answer_rules split: option.split sum.split prod.split)

lemma requireMapView_refuses [answer_rules]: "refuses (requireMapView r m)"
  unfolding requireMapView_def
  by (auto intro!: answer_rules split: option.split sum.split prod.split)

lemma getViewableMap_refuses [answer_rules]: "refuses (getViewableMap r i)"
  unfolding getViewableMap_def
  by (auto intro!: answer_rules split: option.split sum.split prod.split)

lemma resolveCurrentVersion_refuses [answer_rules]: "refuses (resolveCurrentVersion i)"
  unfolding resolveCurrentVersion_def
  by (auto intro!: answer_rules split: option.split sum.split prod.split)

lemma resolveVersionSegment_refuses [answer_rules]: "refuses (resolveVersionSegment r i seg)"
  unfolding resolveVersionSegment_def
  by (auto intro!: answer_rules split: option.split sum.split prod.split versionSegmentKind.split)

lemma validateAliasName_refuses [answer_rules]: "refuses (validateAliasName a)"
  unfolding validateAliasName_def
  by (auto intro!: answer_rules split: option.split sum.split prod.split)

lemma CurrentPermissionsHandler_answers [answer_rules]: "answers [(200, Item ''Permissions'')] (CurrentPermissionsHandler r)"
  unfolding CurrentPermissionsHandler_def
  by (auto intro!: answer_rules split: option.split sum.split prod.split)

lemma decodeGeoObjectRequest_refuses [answer_rules]: "refuses (decodeGeoObjectRequest b)"
  unfolding decodeGeoObjectRequest_def
  by (auto intro!: answer_rules split: option.split sum.split prod.split)

lemma geoObjectFilterFromQuery_refuses [answer_rules]: "refuses (geoObjectFilterFromQuery env r)"
  unfolding geoObjectFilterFromQuery_def Let_def
  by (auto intro!: answer_rules split: option.split sum.split prod.split)

lemma MapsListHandler_answers [answer_rules]: "answers [(200, Items ''Map'')] (MapsListHandler r)"
  unfolding MapsListHandler_def
  by (auto intro!: answer_rules split: option.split sum.split prod.split)

lemma MapCreateHandler_answers [answer_rules]: "answers [(201, Item ''Map'')] (MapCreateHandler env uid r b)"
  unfolding MapCreateHandler_def
  by (auto intro!: answer_rules split: option.split sum.split prod.split)

lemma GetMapHandler_answers [answer_rules]: "answers [(200, Item ''Map'')] (GetMapHandler env r)"
  unfolding GetMapHandler_def
  by (auto intro!: answer_rules split: option.split sum.split prod.split)

lemma UpdateMapHandler_answers [answer_rules]: "answers [(200, Item ''Map'')] (UpdateMapHandler env r b)"
  unfolding UpdateMapHandler_def updateMapItem_def
  by (auto intro!: answer_rules split: option.split sum.split prod.split)

lemma MapVersionsHandler_answers [answer_rules]: "answers [(200, Items ''MapVersion'')] (MapVersionsHandler env r)"
  unfolding MapVersionsHandler_def
  by (auto intro!: answer_rules split: option.split sum.split prod.split)

lemma MapPermissionsListHandler_answers [answer_rules]: "answers [(200, Items ''MapPermission'')] (MapPermissionsListHandler env r)"
  unfolding MapPermissionsListHandler_def
  by (auto intro!: answer_rules split: option.split sum.split prod.split)

lemma MapPermissionSetHandler_answers [answer_rules]: "answers [(200, Item ''MapPermission'')] (MapPermissionSetHandler env r b)"
  unfolding MapPermissionSetHandler_def
  by (auto intro!: answer_rules split: option.split sum.split prod.split)

lemma MapPermissionDeleteHandler_answers [answer_rules]: "answers [(204, NoContent)] (MapPermissionDeleteHandler env r)"
  unfolding MapPermissionDeleteHandler_def
  by (auto intro!: answer_rules split: option.split sum.split prod.split)

lemma GroupMapPermissionsListHandler_answers [answer_rules]: "answers [(200, Items ''GroupMapPermission'')] (GroupMapPermissionsListHandler env r)"
  unfolding GroupMapPermissionsListHandler_def
  by (auto intro!: answer_rules split: option.split sum.split prod.split)

lemma GroupMapPermissionSetHandler_answers [answer_rules]: "answers [(200, Item ''GroupMapPermission'')] (GroupMapPermissionSetHandler env r b)"
  unfolding GroupMapPermissionSetHandler_def
  by (auto intro!: answer_rules split: option.split sum.split prod.split)

lemma GroupMapPermissionDeleteHandler_answers [answer_rules]: "answers [(204, NoContent)] (GroupMapPermissionDeleteHandler env r)"
  unfolding GroupMapPermissionDeleteHandler_def
  by (auto intro!: answer_rules split: option.split sum.split prod.split)

lemma MapOwnerGetHandler_answers [answer_rules]: "answers [(200, Item ''MapOwner'')] (MapOwnerGetHandler env r)"
  unfolding MapOwnerGetHandler_def
  by (auto intro!: answer_rules split: option.split sum.split prod.split)

lemma MapOwnerSetHandler_answers [answer_rules]: "answers [(200, Item ''MapOwner'')] (MapOwnerSetHandler env r b)"
  unfolding MapOwnerSetHandler_def
  by (auto intro!: answer_rules split: option.split sum.split prod.split)

lemma MapAliasesListHandler_answers [answer_rules]: "answers [(200, Items ''MapVersionAlias'')] (MapAliasesListHandler env r)"
  unfolding MapAliasesListHandler_def
  by (auto intro!: answer_rules split: option.split sum.split prod.split)

lemma MapAliasGetHandler_answers [answer_rules]: "answers [(200, Item ''MapVersionAlias'')] (MapAliasGetHandler env r)"
  unfolding MapAliasGetHandler_def
  by (auto intro!: answer_rules split: option.split sum.split prod.split)

lemma MapAliasSetHandler_answers [answer_rules]: "answers [(200, Item ''MapVersionAlias'')] (MapAliasSetHandler env r b)"
  unfolding MapAliasSetHandler_def
  by (auto intro!: answer_rules split: option.split sum.split prod.split)

lemma MapAliasDeleteHandler_answers [answer_rules]: "answers [(204, NoContent)] (MapAliasDeleteHandler env r)"
  unfolding MapAliasDeleteHandler_def
  by (auto intro!: answer_rules split: option.split sum.split prod.split)

lemma GeoObjectsListHandler_answers [answer_rules]: "answers [(200, Items ''GeoObject'')] (GeoObjectsListHandler env r)"
  unfolding GeoObjectsListHandler_def
  by (auto intro!: answer_rules split: option.split sum.split prod.split)

lemma GeoObjectCreateHandler_answers [answer_rules]: "answers [(201, Item ''GeoObject'')] (GeoObjectCreateHandler env uid r b)"
  unfolding GeoObjectCreateHandler_def
  by (auto intro!: answer_rules split: option.split sum.split prod.split)

lemma GeoObjectGetHandler_answers [answer_rules]: "answers [(200, Item ''GeoObject'')] (GeoObjectGetHandler env r)"
  unfolding GeoObjectGetHandler_def getScopedGeoObject_def
  by (auto intro!: answer_rules split: option.split sum.split prod.split)

lemma GeoObjectUpdateHandler_answers [answer_rules]: "answers [(200, Item ''GeoObject'')] (GeoObjectUpdateHandler env r b)"
  unfolding GeoObjectUpdateHandler_def
  by (auto intro!: answer_rules split: option.split sum.split prod.split)

lemma GeoObjectDeleteHandler_answers [answer_rules]: "answers [(204, NoContent)] (GeoObjectDeleteHandler env r)"
  unfolding GeoObjectDeleteHandler_def
  by (auto intro!: answer_rules split: option.split sum.split prod.split)

lemma userFilterFromQuery_refuses [answer_rules]: "refuses (userFilterFromQuery r)"
  unfolding userFilterFromQuery_def
  by (auto intro!: answer_rules split: option.split sum.split prod.split)

lemma validateSyncRemoteRequest_refuses [answer_rules]: "refuses (validateSyncRemoteRequest env req)"
  unfolding validateSyncRemoteRequest_def
  by (auto intro!: answer_rules split: option.split sum.split prod.split)

lemma parseUUIDList_refuses [answer_rules]: "refuses (parseUUIDList env ss)"
  by (induction ss) (auto intro!: answer_rules split: option.split)

lemma UsersListHandler_answers [answer_rules]: "answers [(200, Items ''User'')] (UsersListHandler r)"
  unfolding UsersListHandler_def
  by (auto intro!: answer_rules split: option.split sum.split prod.split)

lemma UserCreateHandler_answers [answer_rules]: "answers [(201, Item ''User'')] (UserCreateHandler hash r b)"
  unfolding UserCreateHandler_def
  by (auto intro!: answer_rules split: option.split sum.split prod.split)

lemma UserUpdateHandler_answers [answer_rules]: "answers [(200, Item ''User'')] (UserUpdateHandler hash r b)"
  unfolding UserUpdateHandler_def
  by (auto intro!: answer_rules split: option.split sum.split prod.split)

lemma UserDeleteHandler_answers [answer_rules]: "answers [(204, NoContent)] (UserDeleteHandler r)"
  unfolding UserDeleteHandler_def Let_def
  by (auto intro!: answer_rules split: option.split sum.split prod.split)

lemma GroupsListHandler_answers [answer_rules]: "answers [(200, Items ''Group'')] (GroupsListHandler r)"
  unfolding GroupsListHandler_def
  by (auto intro!: answer_rules split: option.split sum.split prod.split)

lemma GroupGetHandler_answers [answer_rules]: "answers [(200, Item ''Group'')] (GroupGetHandler env r)"
  unfolding GroupGetHandler_def
  by (auto intro!: answer_rules split: option.split sum.split prod.split)

lemma GroupCreateHandler_answers [answer_rules]: "answers [(201, Item ''Group'')] (GroupCreateHandler env uid r b)"
  unfolding GroupCreateHandler_def
  by (auto intro!: answer_rules split: option.split sum.split prod.split)

lemma GroupUpdateHandler_answers [answer_rules]: "answers [(200, Item ''Group'')] (GroupUpdateHandler env r b)"
  unfolding GroupUpdateHandler_def
  by (auto intro!: answer_rules split: option.split sum.split prod.split)

lemma GroupDeleteHandler_answers [answer_rules]: "answers [(204, NoContent)] (GroupDeleteHandler env r)"
  unfolding GroupDeleteHandler_def
  by (auto intro!: answer_rules split: option.split sum.split prod.split)

lemma APIKeysListHandler_answers [answer_rules]: "answers [(200, Items ''APIKey'')] (APIKeysListHandler r)"
  unfolding APIKeysListHandler_def
  by (auto intro!: answer_rules split: option.split sum.split prod.split)

lemma APIKeyCreateHandler_answers [answer_rules]: "answers [(201, Item ''APIKey'')] (APIKeyCreateHandler env pk uid r b)"
  unfolding APIKeyCreateHandler_def Let_def
  by (auto intro!: answer_rules split: option.split sum.split prod.split)

lemma APIKeyDeleteHandler_answers [answer_rules]: "answers [(204, NoContent)] (APIKeyDeleteHandler env r)"
  unfolding APIKeyDeleteHandler_def Let_def
  by (auto intro!: answer_rules split: option.split sum.split prod.split)

lemma APIKeyScopesListHandler_answers [answer_rules]: "answers [(200, Items ''APIKeyScope'')] (APIKeyScopesListHandler env r)"
  unfolding APIKeyScopesListHandler_def
  by (auto intro!: answer_rules split: option.split sum.split prod.split)

lemma APIKeyScopesClearHandler_answers [answer_rules]: "answers [(204, NoContent)] (APIKeyScopesClearHandler env r)"
  unfolding APIKeyScopesClearHandler_def Let_def
  by (auto intro!: answer_rules split: option.split sum.split prod.split)

lemma APIKeyScopeSetHandler_answers [answer_rules]: "answers [(200, Item ''APIKeyScope'')] (APIKeyScopeSetHandler env r b)"
  unfolding APIKeyScopeSetHandler_def Let_def
  by (auto intro!: answer_rules split: option.split sum.split prod.split)

lemma APIKeyScopeDeleteHandler_answers [answer_rules]: "answers [(204, NoContent)] (APIKeyScopeDeleteHandler env r)"
  unfolding APIKeyScopeDeleteHandler_def Let_def
  by (auto intro!: answer_rules split: option.split sum.split prod.split)

lemma SyncRemotesListHandler_answers [answer_rules]: "answers [(200, Items ''SyncRemote'')] (SyncRemotesListHandler r)"
  unfolding SyncRemotesListHandler_def
  by (auto intro!: answer_rules split: option.split sum.split prod.split)

lemma SyncRemoteCreateHandler_answers [answer_rules]: "answers [(201, Item ''SyncRemote'')] (SyncRemoteCreateHandler env uid r b)"
  unfolding SyncRemoteCreateHandler_def
  by (auto intro!: answer_rules split: option.split sum.split prod.split)

lemma SyncRemoteGetHandler_answers [answer_rules]: "answers [(200, Item ''SyncRemote'')] (SyncRemoteGetHandler env r)"
  unfolding SyncRemoteGetHandler_def
  by (auto intro!: answer_rules split: option.split sum.split prod.split)

lemma SyncRemoteUpdateHandler_answers [answer_rules]: "answers [(200, Item ''SyncRemote'')] (SyncRemoteUpdateHandler env r b)"
  unfolding SyncRemoteUpdateHandler_def
  by (auto intro!: answer_rules split: option.split sum.split prod.split)

lemma SyncRemoteDeleteHandler_answers [answer_rules]: "answers [(204, NoContent)] (SyncRemoteDeleteHandler env r)"
  unfolding SyncRemoteDeleteHandler_def
  by (auto intro!: answer_rules split: option.split sum.split prod.split)

lemma SyncRemoteSelectedMapsHandler_answers [answer_rules]: "answers [(200, Items ''UUID'')] (SyncRemoteSelectedMapsHandler env r)"
  unfolding SyncRemoteSelectedMapsHandler_def
  by (auto intro!: answer_rules split: option.split sum.split prod.split)

lemma AuditLogsCollectionHandler_answers [answer_rules]: "answers [(200, Items ''AuditLogEntry'')] (AuditLogsCollectionHandler env r)"
  unfolding AuditLogsCollectionHandler_def auditLogFilterFromQuery_def
  by (auto intro!: answer_rules split: option.split sum.split prod.split)

lemma PermissionsCollectionHandler_answers [answer_rules]: "answers [(200, Items ''UserMapPermission'')] (PermissionsCollectionHandler r)"
  unfolding PermissionsCollectionHandler_def
  by (auto intro!: answer_rules split: option.split sum.split prod.split)

lemma LoginHandler_answers [answer_rules]: "answers [(200, Item ''LoginResponse'')] (LoginHandler cr jl lib rnd secret a body r)"
  unfolding LoginHandler_def
  by (auto intro!: answer_rules split: option.split sum.split prod.split)

lemma RefreshHandler_answers [answer_rules]: "answers [(200, Item ''LoginResponse'')] (RefreshHandler cr jl rnd secret body r)"
  unfolding RefreshHandler_def
  by (auto intro!: answer_rules split: option.split sum.split prod.split)

lemma http_Redirect_answers [answer_rules]: "answers [(302, Document)] (http_Redirect p d u)"
  unfolding http_Redirect_def
  by (auto intro!: answer_rules split: option.split sum.split prod.split)

lemma AuthMethodsHandler_answers [answer_rules]: "answers [(200, Item ''AuthMethods'')] (AuthMethodsHandler b r)"
  unfolding AuthMethodsHandler_def
  by (auto intro!: answer_rules split: option.split sum.split prod.split)

lemma OIDCLoginHandler_answers [answer_rules]: "answers [(302, Document)] (OIDCLoginHandler lib a st no r)"
  unfolding OIDCLoginHandler_def
  by (auto intro!: answer_rules split: option.split sum.split prod.split)

lemma OIDCCallbackHandler_answers [answer_rules]: "answers [(302, Document)] (OIDCCallbackHandler cr jl lib rnd a secret r)"
  unfolding OIDCCallbackHandler_def
  by (auto intro!: answer_rules split: option.split sum.split prod.split)

lemma zip_walk_refuses [answer_rules]: "refuses (zip_walk base rels zw)"
  by (induction base rels zw rule: zip_walk.induct) (auto intro!: answer_rules)

lemma receiveUpload_refuses [answer_rules]: "refuses (receiveUpload t b)"
  unfolding receiveUpload_def
  by (auto intro!: answer_rules split: option.split sum.split prod.split uploadBody.split)

lemma MapVersionBoundsHandler_answers [answer_rules]: "answers [(200, Item ''TileBounds'')] (MapVersionBoundsHandler env dr r)"
  unfolding MapVersionBoundsHandler_def mapVersionBoundsHandler_def
  by (auto intro!: answer_rules split: option.split sum.split prod.split)

lemma mapVersionArchiveHandler_answers [answer_rules]: "answers [(200, Archive)] (mapVersionArchiveHandler env dr i v)"
  unfolding mapVersionArchiveHandler_def Let_def
  by (auto intro!: answer_rules split: option.split sum.split prod.split)

lemma MapVersionArchiveHandler_answers [answer_rules]: "answers [(200, Archive)] (MapVersionArchiveHandler env dr r)"
  unfolding MapVersionArchiveHandler_def
  by (auto intro!: answer_rules split: option.split sum.split prod.split)

lemma MapVersionDownloadHandler_answers [answer_rules]: "answers [(200, Archive)] (MapVersionDownloadHandler env dr r)"
  unfolding MapVersionDownloadHandler_def
  by (auto intro!: answer_rules split: option.split sum.split prod.split)

lemma open_error_answer [simp]: "error_answer (open_error e)"
  by (simp add: open_error_def)

lemma localRedirect_answers [answer_rules]: "(301, NoContent) \<in> set c \<Longrightarrow> answers c (localRedirect loc)"
  unfolding localRedirect_def by (auto intro!: answer_rules)

lemma serve_dir_answers [answer_rules]: "answers [(200, Document), (301, NoContent)] (serve_dir full)"
  unfolding serve_dir_def by (auto intro!: answer_rules)

lemma answers_case_fnode [answer_rules]:
  "answers c d \<Longrightarrow> (\<And>x. answers c (f x)) \<Longrightarrow> answers c (case n of FDir \<Rightarrow> d | FFile x \<Rightarrow> f x)"
  by (cases n) auto

lemma FileServer_answers [answer_rules]: "answers [(200, Document), (301, NoContent)] (FileServer dir p)"
  unfolding FileServer_def Let_def by (intro answer_rules) (simp_all add: open_error_def)

lemma ServeMapVersionFileHandler_answers [answer_rules]: "answers [(200, Document), (301, NoContent)] (ServeMapVersionFileHandler env dr d sn r)"
  unfolding ServeMapVersionFileHandler_def
  by (auto intro!: answer_rules split: option.split sum.split prod.split)

lemma DeleteMapHandler_answers [answer_rules]: "answers [(204, NoContent)] (DeleteMapHandler env dr r)"
  unfolding DeleteMapHandler_def deleteMapItem_def
  by (auto intro!: answer_rules split: option.split sum.split prod.split)

lemma UploadMapVersionHandler_answers [answer_rules]: "answers [(201, Item ''Map'')] (UploadMapVersionHandler env lib t rnd dr b r)"
  unfolding UploadMapVersionHandler_def extractUploadedArchive_def storeUpload_def
  by (auto intro!: answer_rules split: option.split sum.split prod.split)

lemma ServerPublicKeyHandler_answers [answer_rules]: "answers [(200, Object [''publicKeyPem''])] (ServerPublicKeyHandler d r)"
  unfolding ServerPublicKeyHandler_def Let_def
  by (auto intro!: answer_rules split: option.split sum.split prod.split)

lemma GenerateKeyPairHandler_answers [answer_rules]: "answers [(200, Object [''privateKeyPem'', ''publicKeyPem''])] (GenerateKeyPairHandler g r)"
  unfolding GenerateKeyPairHandler_def Let_def
  by (auto intro!: answer_rules split: option.split sum.split prod.split)

lemma VersionHandler_answers [answer_rules]: "answers [(200, Object [''commit'']), (200, Object [''commit'', ''version''])] (VersionHandler c v r)"
  unfolding VersionHandler_def Let_def
  by (auto intro!: answer_rules split: option.split sum.split prod.split)

lemma OpenAPIHandler_answers [answer_rules]: "answers [(200, Document)] (OpenAPIHandler sp r)"
  unfolding OpenAPIHandler_def Let_def
  by (auto intro!: answer_rules split: option.split sum.split prod.split)

lemma SPAHandler_answers [answer_rules]: "answers [(200, Document), (301, NoContent)] (SPAHandler f i r)"
  unfolding SPAHandler_def Let_def
  by (auto intro!: answer_rules split: option.split sum.split prod.split)

lemma SyncRemoteTriggerHandler_answers [answer_rules]: "answers [(202, NoContent)] (SyncRemoteTriggerHandler env r)"
  unfolding SyncRemoteTriggerHandler_def Let_def
  by (auto intro!: answer_rules split: option.split sum.split prod.split)

lemma SyncRemoteLogsHandler_answers [answer_rules]: "answers [(200, Items ''LogEntry'')] (SyncRemoteLogsHandler env r)"
  unfolding SyncRemoteLogsHandler_def Let_def
  by (auto intro!: answer_rules split: option.split sum.split prod.split)

lemma SyncRemoteRemoteMapsHandler_answers [answer_rules]: "answers [(200, Items ''Map'')] (SyncRemoteRemoteMapsHandler et env lib k r)"
  unfolding SyncRemoteRemoteMapsHandler_def Let_def
  by (auto intro!: answer_rules split: option.split sum.split prod.split)

section \<open>The server\<close>

lemma answers_Middleware:
  fixes k :: "request \<Rightarrow> ('w, response) hnd"
  assumes "\<And>r. answers c (k r)"
  shows "answers c (Middleware env lib secret req k r)"
proof -
  have n: "case x of Inl e \<Rightarrow> error_answer e | Inr y \<Rightarrow> fits c y" if "k r' s = (x, s')" for r' s s' x
    using answersD [OF assms that] .
  show ?thesis
    by (auto simp: answers_def refuses_def Middleware_def fail_def raiseE_def split: prod.splits if_splits dest!: n)
qed

lemma answers_guarded:
  assumes "\<And>r. answers c (h r)"
  shows "answers c (guarded g env jl secret h r)"
  unfolding guarded_def checkAuth_def guardAuth_def guardAdmin_def
  by (cases g) (auto intro!: answers_Middleware answer_rules assms)

lemma run_endpoint_answers: "answers (contract e) (run_endpoint a bd rn e r)"
proof (cases e)
  case (Open x)
  then show ?thesis by (cases x) (auto intro!: answer_rules)
next
  case (OnMap x)
  then show ?thesis by (cases x) (auto intro!: answer_rules)
next
  case (OnSharing x)
  then show ?thesis by (cases x) (auto intro!: answer_rules)
next
  case (OnGeo x)
  then show ?thesis by (cases x) (auto intro!: answer_rules)
next
  case (OnAccount x)
  then show ?thesis by (cases x) (auto intro!: answer_rules)
next
  case (OnServer x)
  then show ?thesis by (cases x) (auto intro!: answer_rules)
qed


end
