(* ===== verification/AccessFacts.thy ===== *)
theory AccessFacts
  imports Lookups AnswerFacts
begin

text \<open>
  Who may do what, stated on the rows of the database, and the proofs that the guards, the map list and the
  version resolution of the handlers decide exactly that.
\<close>

section \<open>The policy\<close>

text \<open>A global permission: a flag of the account, or of a group it is a member of.\<close>

definition has_perm :: "db \<Rightarrow> string \<Rightarrow> (Permissions \<Rightarrow> bool) \<Rightarrow> bool" where
  "has_perm d u p \<longleftrightarrow>
     (\<exists>x\<in>set (t_users d). u_Username x = u \<and> p (user_perms x)) \<or>
     (\<exists>g\<in>set (t_groups d). \<exists>gm\<in>set (t_group_members d).
        gm_GroupID gm = g_ID g \<and> gm_Username gm = u \<and> p (group_perms g))"

text \<open>A permission on one map: a grant to the account, or to a group it is a member of.\<close>

definition has_grant :: "db \<Rightarrow> uuid \<Rightarrow> string \<Rightarrow> (MapPermission \<Rightarrow> bool) \<Rightarrow> bool" where
  "has_grant d i u p \<longleftrightarrow>
     (\<exists>x\<in>set (t_map_permissions d). mpm_MapUUID x = i \<and> mpm_Username x = u \<and> p (user_map_perm x)) \<or>
     (\<exists>x\<in>set (t_group_map_permissions d). \<exists>gm\<in>set (t_group_members d).
        gmp_MapUUID x = i \<and> gm_GroupID gm = gmp_GroupID x \<and> gm_Username gm = u \<and> p (group_map_perm x))"

definition owns :: "db \<Rightarrow> uuid \<Rightarrow> string \<Rightarrow> bool" where
  "owns d i u \<longleftrightarrow>
     (\<exists>m\<in>set (t_maps d). m_UUID m = i \<and> (\<exists>x\<in>set (t_users d). u_ID x = m_OwnerID m \<and> u_Username x = u))"

definition may_view :: "db \<Rightarrow> MapRecord \<Rightarrow> string \<Rightarrow> bool" where
  "may_view d m u \<longleftrightarrow> m_VisibleToAll m \<or> m_Owner m = u \<or> has_perm d u GrantsMapVisibility \<or>
     has_grant d (m_UUID m) u GrantsVisibility"

text \<open>An API key reaches a map, or one version of it, unless its scope leaves it out; a revoked key reaches nothing.\<close>

definition key_reaches :: "db \<Rightarrow> uuid option \<Rightarrow> uuid \<Rightarrow> bool" where
  "key_reaches d key i \<longleftrightarrow>
     (\<forall>k. key = Some k \<longrightarrow> (\<exists>x\<in>set (t_api_keys d). k_ID x = k \<and> k_RevokedAt x = None \<and>
        (k_Scoped x \<longrightarrow> (\<exists>c\<in>set (t_api_key_scopes d). sc_APIKeyID c = k \<and> sc_MapUUID c = i))))"

definition key_reaches_version :: "db \<Rightarrow> uuid option \<Rightarrow> uuid \<Rightarrow> string \<Rightarrow> bool" where
  "key_reaches_version d key i v \<longleftrightarrow>
     (\<forall>k. key = Some k \<longrightarrow> (\<exists>x\<in>set (t_api_keys d). k_ID x = k \<and> k_RevokedAt x = None \<and>
        (k_Scoped x \<longrightarrow> (\<exists>c\<in>set (t_api_key_scopes d). sc_APIKeyID c = k \<and> sc_MapUUID c = i \<and>
            (sc_Versions c = None \<or> sc_Versions c = Some [] \<or> v \<in> set (the (sc_Versions c)))))))"

definition account_exists :: "db \<Rightarrow> string \<Rightarrow> bool" where
  "account_exists d u \<longleftrightarrow> (\<exists>x\<in>set (t_users d). u_Username x = u)"

definition key_live :: "db \<Rightarrow> uuid option \<Rightarrow> bool" where
  "key_live d key \<longleftrightarrow> (\<forall>k. key = Some k \<longrightarrow> (\<exists>x\<in>set (t_api_keys d). k_ID x = k \<and> k_RevokedAt x = None))"

section \<open>The lookups decide the policy\<close>

lemma in_groups_of:
  "g \<in> set (groups_of d u) \<longleftrightarrow>
     g \<in> set (t_groups d) \<and> (\<exists>gm\<in>set (t_group_members d). gm_GroupID gm = g_ID g \<and> gm_Username gm = u)"
  by (auto simp: groups_of_def)

lemma permission_rows_ex: "list_ex p (permission_rows d u) \<longleftrightarrow> has_perm d u p"
  unfolding permission_rows_def has_perm_def list_ex_iff set_append bex_Un set_map bex_simps
  by (simp add: Bex_def in_groups_of) blast

lemma get_permissions_flags:
  assumes "get_permissions u d = Inr ps"
  shows "p_CanCreate ps = has_perm d u p_CanCreate" "p_CanEdit ps = has_perm d u p_CanEdit"
    "p_CanDelete ps = has_perm d u p_CanDelete" "p_CanEditGeoObjects ps = has_perm d u p_CanEditGeoObjects"
    "p_CanDeleteGeoObjects ps = has_perm d u p_CanDeleteGeoObjects"
    "p_CanViewAll ps = has_perm d u p_CanViewAll" "p_IsAdmin ps = has_perm d u p_IsAdmin"
    "GrantsMapVisibility ps = has_perm d u GrantsMapVisibility"
proof -
  have ps: "ps = bool_or_perms (permission_rows d u)"
    using assms by (auto simp: get_permissions_def select_permissions_def Let_def split: if_splits)
  show "p_CanCreate ps = has_perm d u p_CanCreate" "p_CanEdit ps = has_perm d u p_CanEdit"
    "p_CanDelete ps = has_perm d u p_CanDelete" "p_CanEditGeoObjects ps = has_perm d u p_CanEditGeoObjects"
    "p_CanDeleteGeoObjects ps = has_perm d u p_CanDeleteGeoObjects"
    "p_CanViewAll ps = has_perm d u p_CanViewAll" "p_IsAdmin ps = has_perm d u p_IsAdmin"
    by (simp_all add: ps bool_or_perms_def permission_rows_ex)
  show "GrantsMapVisibility ps = has_perm d u GrantsMapVisibility"
    unfolding permission_rows_ex [symmetric] ps
    by (auto simp: GrantsMapVisibility_def bool_or_perms_def list_ex_iff)
qed

lemma get_permissions_total: "account_exists d u \<Longrightarrow> \<exists>ps. get_permissions u d = Inr ps"
  by (auto simp: get_permissions_def select_permissions_def Let_def permission_rows_def account_exists_def
      filter_empty_conv)

lemma grant_rows_ex: "list_ex p (grant_rows d i u) \<longleftrightarrow> has_grant d i u p"
  by (auto simp: grant_rows_def list_ex_iff has_grant_def)

lemma grants_in_flags:
  "mp_CanView (grants_in d (i, u)) = has_grant d i u mp_CanView"
  "mp_CanEdit (grants_in d (i, u)) = has_grant d i u mp_CanEdit"
  "mp_CanDelete (grants_in d (i, u)) = has_grant d i u mp_CanDelete"
  "mp_CanEditGeoObjects (grants_in d (i, u)) = has_grant d i u mp_CanEditGeoObjects"
  "mp_CanDeleteGeoObjects (grants_in d (i, u)) = has_grant d i u mp_CanDeleteGeoObjects"
  "GrantsVisibility (grants_in d (i, u)) = has_grant d i u GrantsVisibility"
proof -
  show "GrantsVisibility (grants_in d (i, u)) = has_grant d i u GrantsVisibility"
    unfolding grant_rows_ex [symmetric]
    by (auto simp: GrantsVisibility_def grants_in_def bool_or_grants_def list_ex_iff)
qed (simp_all add: grants_in_def bool_or_grants_def grant_rows_ex)

lemma find_map_owner:
  assumes "db_wf d" and "find_map d i = Some m"
  shows "m_UUID m = i" and "m_Owner m = u \<longleftrightarrow> owns d i u"
proof -
  obtain r where r: "sql_take (\<lambda>m. m_UUID m = i) (t_maps d) = Some r" "with_owner d r = Some m"
    using assms(2) by (auto simp: find_map_def bind_eq_Some_conv)
  then obtain x where x: "sql_take (\<lambda>x. u_ID x = m_OwnerID r) (t_users d) = Some x" "m = r\<lparr>m_Owner := u_Username x\<rparr>"
    by (auto simp: with_owner_def)
  have d: "distinct (map m_UUID (t_maps d))" "distinct (map u_ID (t_users d))"
    using assms(1) by (simp_all add: wf_simps)
  have r1: "r \<in> set (t_maps d)" "m_UUID r = i" using sql_take_Some [OF r(1)] by auto
  have x1: "x \<in> set (t_users d)" "u_ID x = m_OwnerID r" using sql_take_Some [OF x(1)] by auto
  have ru: "r' = r" if "r' \<in> set (t_maps d)" "m_UUID r' = i" for r'
    using that r1 d(1) by (metis distinct_map inj_onD)
  have xu: "x' = x" if "x' \<in> set (t_users d)" "u_ID x' = m_OwnerID r" for x'
    using that x1 d(2) by (metis distinct_map inj_onD)
  show "m_UUID m = i" using r1 x(2) by simp
  show "m_Owner m = u \<longleftrightarrow> owns d i u"
  proof -
    have "owns d i u \<longleftrightarrow> (\<exists>x'\<in>set (t_users d). u_ID x' = m_OwnerID r \<and> u_Username x' = u)"
      unfolding owns_def using r1 ru by blast
    also have "\<dots> \<longleftrightarrow> u_Username x = u" using x1 xu by blast
    finally show ?thesis by (simp add: x(2))
  qed
qed

lemma find_map_None: "db_wf d \<Longrightarrow> find_map d i = None \<Longrightarrow> \<not> owns d i u"
proof
  assume wf: "db_wf d" and n: "find_map d i = None" and "owns d i u"
  then obtain m x where m: "m \<in> set (t_maps d)" "m_UUID m = i" "x \<in> set (t_users d)" "u_ID x = m_OwnerID m"
    by (auto simp: owns_def)
  have "sql_take (\<lambda>m. m_UUID m = i) (t_maps d) = Some m" "sql_take (\<lambda>x. u_ID x = m_OwnerID m) (t_users d) = Some x"
    using wf m by (simp_all add: sql_take_key_iff wf_simps)
  with n show False by (simp add: find_map_def with_owner_def)
qed

lemma select_live_key_eq:
  assumes "db_wf d" and "x \<in> set (t_api_keys d)" and "k_ID x = k" and "k_RevokedAt x = None"
  shows "select_live_key k d = Inr x"
proof -
  have "sql_take (\<lambda>x. k_ID x = k \<and> k_RevokedAt x = None) (t_api_keys d) = Some x"
    by (rule sql_take_unique [where k = k_ID]) (use assms in \<open>auto simp: wf_simps\<close>)
  then show ?thesis by (simp add: select_live_key_def)
qed

lemma scope_in_eq:
  assumes "db_wf d" and "c \<in> set (t_api_key_scopes d)" and "sc_APIKeyID c = k" and "sc_MapUUID c = i"
  shows "scope_in d (k, i) = \<lparr>se_inScope = True, se_versions = (case sc_Versions c of None \<Rightarrow> [] | Some vs \<Rightarrow> vs)\<rparr>"
proof -
  have "sql_take (\<lambda>c. sc_APIKeyID c = k \<and> sc_MapUUID c = i) (t_api_key_scopes d) = Some c"
    by (rule sql_take_unique [where k = sc_key]) (use assms in \<open>auto simp: wf_simps\<close>)
  then show ?thesis by (simp add: scope_in_def)
qed

lemma scope_in_none:
  assumes "\<not> (\<exists>c\<in>set (t_api_key_scopes d). sc_APIKeyID c = k \<and> sc_MapUUID c = i)"
  shows "scope_in d (k, i) = no_scope_entry"
proof -
  have "sql_take (\<lambda>c. sc_APIKeyID c = k \<and> sc_MapUUID c = i) (t_api_key_scopes d) = None"
    using assms by (simp add: sql_take_None)
  then show ?thesis by (simp add: scope_in_def)
qed

text \<open>What a key reaches, as the scope lookup answers it.\<close>

text \<open>A live key and its scope rows decide what the key reaches.\<close>

lemma key_reaches_live:
  assumes wf: "db_wf d" and live: "select_live_key k d = Inr x"
  shows "key_reaches d (Some k) i \<longleftrightarrow>
      (k_Scoped x \<longrightarrow> (\<exists>c\<in>set (t_api_key_scopes d). sc_APIKeyID c = k \<and> sc_MapUUID c = i))"
    and "key_reaches_version d (Some k) i v \<longleftrightarrow>
      (k_Scoped x \<longrightarrow> (\<exists>c\<in>set (t_api_key_scopes d). sc_APIKeyID c = k \<and> sc_MapUUID c = i \<and>
         (sc_Versions c = None \<or> sc_Versions c = Some [] \<or> v \<in> set (the (sc_Versions c)))))"
proof -
  have mem: "x \<in> set (t_api_keys d)" "k_ID x = k" "k_RevokedAt x = None"
    using live by (auto simp: select_live_key_def split: option.splits dest: sql_take_Some)
  have uniq: "y = x" if "y \<in> set (t_api_keys d)" "k_ID y = k" "k_RevokedAt y = None" for y
    using select_live_key_eq [OF wf that] live by simp
  show "key_reaches d (Some k) i \<longleftrightarrow>
      (k_Scoped x \<longrightarrow> (\<exists>c\<in>set (t_api_key_scopes d). sc_APIKeyID c = k \<and> sc_MapUUID c = i))"
    unfolding key_reaches_def using mem uniq by blast
  show "key_reaches_version d (Some k) i v \<longleftrightarrow>
      (k_Scoped x \<longrightarrow> (\<exists>c\<in>set (t_api_key_scopes d). sc_APIKeyID c = k \<and> sc_MapUUID c = i \<and>
         (sc_Versions c = None \<or> sc_Versions c = Some [] \<or> v \<in> set (the (sc_Versions c)))))"
    unfolding key_reaches_version_def using mem uniq by blast
qed

lemma scope_row_unique:
  assumes "db_wf d" and "c \<in> set (t_api_key_scopes d)" and "c' \<in> set (t_api_key_scopes d)" and "sc_key c' = sc_key c"
  shows "c' = c"
proof -
  have "distinct (map sc_key (t_api_key_scopes d))" using assms(1) by (simp add: wf_simps)
  with assms(2-4) show ?thesis by (meson distinct_map inj_onD)
qed

lemma get_scope_decides:
  assumes wf: "db_wf d" and g: "get_scope k i d = Inr (scoped, e)"
  shows "(\<not> scoped \<or> se_inScope e) \<longleftrightarrow> key_reaches d (Some k) i"
    and "(\<not> scoped \<or> se_inScope e \<and> (se_versions e = [] \<or> v \<in> set (se_versions e))) \<longleftrightarrow>
      key_reaches_version d (Some k) i v"
proof -
  obtain x where x: "select_live_key k d = Inr x" "scoped = k_Scoped x" "scoped \<longrightarrow> e = scope_in d (k, i)"
    using g by (auto simp: get_scope_def scoped_flag_def key_in_def split: sum.splits option.splits if_splits)
  note key = key_reaches_live [OF wf x(1), of i] and keyv = key_reaches_live(2) [OF wf x(1), of i v]
  have "((\<not> scoped \<or> se_inScope e) \<longleftrightarrow> key_reaches d (Some k) i) \<and>
    ((\<not> scoped \<or> se_inScope e \<and> (se_versions e = [] \<or> v \<in> set (se_versions e))) \<longleftrightarrow> key_reaches_version d (Some k) i v)"
  proof (cases "\<exists>c\<in>set (t_api_key_scopes d). sc_APIKeyID c = k \<and> sc_MapUUID c = i")
    case True
    then obtain c where c: "c \<in> set (t_api_key_scopes d)" "sc_APIKeyID c = k" "sc_MapUUID c = i" by blast
    have cu: "c' = c" if "c' \<in> set (t_api_key_scopes d)" "sc_APIKeyID c' = k" "sc_MapUUID c' = i" for c'
      using scope_row_unique [OF wf c(1) that(1)] c that by simp
    have "key_reaches_version d (Some k) i v \<longleftrightarrow>
        (k_Scoped x \<longrightarrow> sc_Versions c = None \<or> sc_Versions c = Some [] \<or> v \<in> set (the (sc_Versions c)))"
      unfolding keyv using c cu by blast
    with x scope_in_eq [OF wf c] True show ?thesis unfolding key(1) by (cases "sc_Versions c") auto
  next
    case False
    from scope_in_none [OF this] have "\<not> se_inScope (scope_in d (k, i))" by (simp add: no_scope_entry_def)
    with x False show ?thesis unfolding key(1) keyv by auto
  qed
  then show "(\<not> scoped \<or> se_inScope e) \<longleftrightarrow> key_reaches d (Some k) i"
    and "(\<not> scoped \<or> se_inScope e \<and> (se_versions e = [] \<or> v \<in> set (se_versions e))) \<longleftrightarrow> key_reaches_version d (Some k) i v"
    by blast+
qed

lemma get_scope_total:
  assumes "db_wf d" and "key_live d (Some k)"
  shows "\<exists>r. get_scope k i d = Inr r"
proof -
  obtain x where "x \<in> set (t_api_keys d)" "k_ID x = k" "k_RevokedAt x = None"
    using assms(2) by (auto simp: key_live_def)
  from select_live_key_eq [OF assms(1) this] show ?thesis
    by (auto simp: get_scope_def scoped_flag_def key_in_def)
qed


section \<open>The meaning of the guards\<close>

definition reaches_map :: "uuid option \<Rightarrow> uuid \<Rightarrow> db \<Rightarrow> gerror + bool" where
  "reaches_map key i d =
     (case key of None \<Rightarrow> Inr True
      | Some k \<Rightarrow> (case get_scope k i d of Inl e \<Rightarrow> Inl e | Inr (scoped, e) \<Rightarrow> Inr (\<not> scoped \<or> se_inScope e)))"

lemma APIKeyCanAccessMap_reads [reads_rules]:
  "reads (APIKeyCanAccessMap k i) (reaches_map (Some k) i)"
  unfolding APIKeyCanAccessMap_def case_prod_unfold
  by (rule reads_cong, rule reads_bindE [OF resolveAPIKeyMapScope_reads], rule reads_okE)
     (auto simp: reaches_map_def split: sum.splits prod.splits)

lemma apiKeyMapAllowed_reads [reads_rules]:
  "reads (apiKeyMapAllowed r i) (reaches_map (ctxAPIKeyID r) i)"
proof (cases "ctxAPIKeyID r")
  case None
  then show ?thesis
    using reads_okE [of True] by (simp add: apiKeyMapAllowed_def reaches_map_def [abs_def])
next
  case (Some k)
  then show ?thesis using APIKeyCanAccessMap_reads [of k i] by (simp add: apiKeyMapAllowed_def)
qed

lemma reaches_map_decides:
  assumes "db_wf d"
  shows "reaches_map key i d = Inr b \<Longrightarrow> b = key_reaches d key i"
    and "key_live d key \<Longrightarrow> \<exists>b. reaches_map key i d = Inr b"
proof -
  show "reaches_map key i d = Inr b \<Longrightarrow> b = key_reaches d key i"
    using get_scope_decides(1) [OF assms]
    by (auto simp: reaches_map_def key_reaches_def [of d None] split: option.splits sum.splits prod.splits)
  show "key_live d key \<Longrightarrow> \<exists>b. reaches_map key i d = Inr b"
    using get_scope_total [OF assms, of "the key" i]
    by (cases key) (auto simp: reaches_map_def split: sum.splits)
qed

definition views :: "MapRecord \<Rightarrow> string \<Rightarrow> db \<Rightarrow> gerror + bool" where
  "views m u d =
     (if m_VisibleToAll m \<or> m_Owner m = u then Inr True
      else case get_permissions u d of Inl e \<Rightarrow> Inl e
       | Inr ps \<Rightarrow> Inr (GrantsMapVisibility ps \<or> GrantsVisibility (grants_in d (m_UUID m, u))))"

lemma userCanViewMap_reads [reads_rules]: "reads (userCanViewMap m u) (views m u)"
  unfolding userCanViewMap_def
  by (rule reads_cong, (rule reads_rules)+) (auto simp: views_def split: sum.splits)

lemma views_decides:
  "views m u d = Inr b \<Longrightarrow> b = may_view d m u"
  "account_exists d u \<Longrightarrow> \<exists>b. views m u d = Inr b"
  using get_permissions_total [of d u]
  by (auto simp: views_def may_view_def get_permissions_flags grants_in_flags split: sum.splits if_splits)

lemma canViewMap_reads [reads_rules]:
  "reads (canViewMap r m u)
     (\<lambda>d. case views m u d of Inl e \<Rightarrow> Inl e
        | Inr visible \<Rightarrow> if \<not> visible then Inr False else reaches_map (ctxAPIKeyID r) (m_UUID m) d)"
  unfolding canViewMap_def by (rule reads_cong, (rule reads_rules)+) simp

text \<open>The owner: here a missing map is an answer.\<close>

lemma GetMap_not_found:
  assumes "GetMap i s = (Inl e, s')" and "errors_Is e ErrMapNotFound"
  shows "find_map (st_db s) i = None"
  using assms
  by (auto simp: GetMap_def loadMapWithOwner_def action_defs query_def exec_def
      split: option.splits if_splits sum.splits prod.splits)

lemma tryE_GetMap_reads:
  assumes k: "\<And>m. reads (k m) (g m)"
  shows "reads (tryE (GetMap i) (\<lambda>e. if errors_Is e ErrMapNotFound then okE c else raiseE e) k)
     (\<lambda>d. case find_map d i of None \<Rightarrow> Inr c | Some m \<Rightarrow> g m d)"
proof (rule readsI)
  fix s :: "'a store_scheme" assume c: "caches_coherent s"
  let ?m = "tryE (GetMap i) (\<lambda>e. if errors_Is e ErrMapNotFound then okE c else raiseE e) k"
  let ?r = "case find_map (st_db s) i of None \<Rightarrow> Inr c | Some m \<Rightarrow> g m (st_db s)"
  obtain x s1 where m1: "GetMap i s = (x, s1)" by (meson surj_pair)
  note step = readsD [OF GetMap_reads c m1]
  show "reads_step s (fst (?m s)) (snd (?m s)) ?r"
  proof (cases x)
    case (Inl e)
    with step m1 GetMap_not_found [of i s e s1] show ?thesis
      by (auto simp: tryE_def okE_def raiseE_def reads_step_def get_map_def split: option.splits)
  next
    case (Inr m)
    with step have "find_map (st_db s) i = Some m" "caches_coherent s1" "st_db s1 = st_db s"
      by (auto simp: reads_step_def get_map_def split: option.splits)
    moreover from this have "reads_step s1 (fst (k m s1)) (snd (k m s1)) (g m (st_db s))"
      using readsD [OF k [of m] _ surjective_pairing, of s1] by simp
    ultimately show ?thesis using step m1 Inr
      by (simp add: tryE_def reads_step_def)
  qed
qed

lemma isMapOwner_reads [reads_rules]:
  "reads (isMapOwner i u) (\<lambda>d. case find_map d i of None \<Rightarrow> Inr False | Some m \<Rightarrow> Inr (m_Owner m = u))"
  unfolding isMapOwner_def by (rule tryE_GetMap_reads) (rule reads_rules)

definition map_owner :: "uuid \<Rightarrow> string \<Rightarrow> db \<Rightarrow> bool" where
  "map_owner i u d = (case find_map d i of None \<Rightarrow> False | Some m \<Rightarrow> m_Owner m = u)"

lemma map_owner_owns: "db_wf d \<Longrightarrow> map_owner i u d = owns d i u"
  by (auto simp: map_owner_def find_map_None find_map_owner split: option.split)

lemma ownerOrMapAllowed_reads [reads_rules]:
  "reads (ownerOrMapAllowed i u a) (\<lambda>d. Inr (map_owner i u d \<or> a (grants_in d (i, u))))"
  unfolding ownerOrMapAllowed_def
  by (rule reads_cong, (rule reads_rules)+) (simp add: map_owner_def split: option.split)

lemma forbid_unless_reads [reads_rules]:
  "reads (forbid_unless b) (\<lambda>_. if b then Inr () else Inl (http_Error 403 ''forbidden''))"
  by (cases b) (simp_all add: forbid_unless_def fail_def reads_okE reads_raiseE)

lemma GetPermissionsOrFail_reads [reads_rules]:
  "reads (GetPermissionsOrFail r) (\<lambda>d. case get_permissions (ctxUsername r) d of
      Inl e \<Rightarrow> Inl (http_Error 500 ''failed to check permissions'') | Inr p \<Rightarrow> Inr p)"
  unfolding GetPermissionsOrFail_def by (rule reads_rules)+

definition map_guard ::
  "request \<Rightarrow> uuid \<Rightarrow> (Permissions \<Rightarrow> bool) \<Rightarrow> (MapPermission \<Rightarrow> bool) \<Rightarrow> db \<Rightarrow> response + unit" where
  "map_guard r i g a d =
     (case get_permissions (ctxUsername r) d of
        Inl e \<Rightarrow> Inl (http_Error 500 ''failed to check permissions'')
      | Inr ps \<Rightarrow>
          if p_IsAdmin ps \<or> g ps \<or> map_owner i (ctxUsername r) d \<or> a (grants_in d (i, ctxUsername r))
          then (case reaches_map (ctxAPIKeyID r) i d of
                  Inl e \<Rightarrow> Inl (http_Error 500 ''failed to check permissions'')
                | Inr b \<Rightarrow> if b then Inr () else Inl (http_Error 403 ''forbidden''))
          else Inl (http_Error 403 ''forbidden''))"

lemma requireMapPermission_reads [reads_rules]:
  "reads (requireMapPermission r i g a) (map_guard r i g a)"
  unfolding requireMapPermission_def
  by (rule reads_cong, (rule reads_rules)+)
     (auto simp: map_guard_def check_failed_def split: sum.splits)

definition may_change :: "db \<Rightarrow> request \<Rightarrow> uuid \<Rightarrow> (Permissions \<Rightarrow> bool) \<Rightarrow> (MapPermission \<Rightarrow> bool) \<Rightarrow> bool" where
  "may_change d r i g a \<longleftrightarrow>
     (has_perm d (ctxUsername r) p_IsAdmin \<or> has_perm d (ctxUsername r) g \<or> owns d i (ctxUsername r) \<or>
      has_grant d i (ctxUsername r) a) \<and> key_reaches d (ctxAPIKeyID r) i"

definition paired :: "((Permissions \<Rightarrow> bool) \<times> (MapPermission \<Rightarrow> bool)) set" where
  "paired = {(p_CanEdit, mp_CanEdit), (p_CanDelete, mp_CanDelete), (p_CanCreate, mp_CanEdit),
     (p_CanEditGeoObjects, mp_CanEditGeoObjects), (p_CanDeleteGeoObjects, mp_CanDeleteGeoObjects)}"

lemma map_guard_decides:
  assumes wf: "db_wf d" and p: "(g, a) \<in> paired"
  shows "map_guard r i g a d = Inr () \<Longrightarrow> may_change d r i g a"
    and "account_exists d (ctxUsername r) \<Longrightarrow> key_live d (ctxAPIKeyID r) \<Longrightarrow>
      map_guard r i g a d = (if may_change d r i g a then Inr () else Inl (http_Error 403 ''forbidden''))"
proof -
  let ?u = "ctxUsername r"
  have g: "g ps = has_perm d ?u g" "p_IsAdmin ps = has_perm d ?u p_IsAdmin" if "get_permissions ?u d = Inr ps" for ps
    using p get_permissions_flags [OF that] by (auto simp: paired_def)
  have a: "a (grants_in d (i, ?u)) = has_grant d i ?u a"
    using p grants_in_flags [of d i ?u] by (auto simp: paired_def)
  note owner = map_owner_owns [OF wf, of i ?u]
  note key = reaches_map_decides [OF wf, of "ctxAPIKeyID r" i]
  show "map_guard r i g a d = Inr () \<Longrightarrow> may_change d r i g a"
    by (auto simp: map_guard_def may_change_def g a owner split: sum.splits if_splits dest!: key(1))
  assume "account_exists d ?u" and "key_live d (ctxAPIKeyID r)"
  then obtain ps b where "get_permissions ?u d = Inr ps" "reaches_map (ctxAPIKeyID r) i d = Inr b"
    using get_permissions_total key(2) by blast
  moreover from this have "b = key_reaches d (ctxAPIKeyID r) i" by (simp add: key(1))
  ultimately show "map_guard r i g a d = (if may_change d r i g a then Inr () else Inl (http_Error 403 ''forbidden''))"
    using g [of ps] by (simp add: map_guard_def may_change_def a owner)
qed

section \<open>The list of maps\<close>

primrec keep_reached :: "uuid \<Rightarrow> MapRecord list \<Rightarrow> db \<Rightarrow> gerror + MapRecord list" where
  "keep_reached k [] d = Inr []"
| "keep_reached k (m # ms) d =
     (case reaches_map (Some k) (m_UUID m) d of Inl e \<Rightarrow> Inl e
      | Inr b \<Rightarrow> (case keep_reached k ms d of Inl e \<Rightarrow> Inl e | Inr rest \<Rightarrow> Inr (if b then m # rest else rest)))"

lemma filterMapsByScope_reads [reads_rules]: "reads (filterMapsByScope k ms) (keep_reached k ms)"
proof (induction ms)
  case Nil
  have "keep_reached k [] = (\<lambda>_. Inr [])" by auto
  then show ?case by (simp add: reads_okE)
next
  case (Cons m ms)
  show ?case unfolding filterMapsByScope.simps
    by (rule reads_cong, (rule Cons reads_rules)+) simp
qed

lemma keep_reached_filter:
  "db_wf d \<Longrightarrow> keep_reached k ms d = Inr ms' \<Longrightarrow> ms' = filter (\<lambda>m. key_reaches d (Some k) (m_UUID m)) ms"
  by (induction ms arbitrary: ms') (auto split: sum.splits if_splits dest!: reaches_map_decides(1))

definition kept :: "request \<Rightarrow> MapRecord list \<Rightarrow> db \<Rightarrow> gerror + MapRecord list" where
  "kept r ms d = (case ctxAPIKeyID r of None \<Rightarrow> Inr ms | Some k \<Rightarrow> keep_reached k ms d)"

lemma filterMapsByAPIKeyScope_reads [reads_rules]: "reads (filterMapsByAPIKeyScope r ms) (kept r ms)"
proof (cases "ctxAPIKeyID r")
  case None
  then have "kept r ms = (\<lambda>_. Inr ms)" by (auto simp: kept_def)
  with None show ?thesis by (simp add: filterMapsByAPIKeyScope_def reads_okE)
next
  case (Some k)
  then have "kept r ms = keep_reached k ms" by (auto simp: kept_def)
  with Some show ?thesis by (simp add: filterMapsByAPIKeyScope_def filterMapsByScope_reads)
qed

lemma kept_filter:
  "db_wf d \<Longrightarrow> kept r ms d = Inr ms' \<Longrightarrow> ms' = filter (\<lambda>m. key_reaches d (ctxAPIKeyID r) (m_UUID m)) ms"
  by (auto simp: kept_def key_reaches_def [of d None] keep_reached_filter split: option.splits)

lemma ListMaps_reads [reads_rules]: "reads (ListMaps u b f) (\<lambda>d. Inr (select_maps d u b f))"
  unfolding ListMaps_def by (rule reads_cong, (rule reads_rules)+) simp

lemma list_maps_where_view:
  assumes "get_permissions u d = Inr ps"
  shows "list_maps_where d u (GrantsMapVisibility ps) m \<longleftrightarrow> may_view d m u"
proof -
  have "user_grant d i u \<or> group_grant d i u \<longleftrightarrow> has_grant d i u GrantsVisibility" for i
    unfolding user_grant_def group_grant_def has_grant_def GrantsVisibility_def user_map_perm_def
      group_map_perm_def sql_exists_iff MapPermission.simps by blast
  then show ?thesis
    using get_permissions_flags(8) [OF assms] by (auto simp: list_maps_where_def may_view_def)
qed

text \<open>The maps of the database, as a reader sees them: every row with the name of its owner.\<close>

definition all_maps :: "db \<Rightarrow> MapRecord set" where
  "all_maps d = {m. \<exists>row\<in>set (t_maps d). with_owner d row = Some m}"

lemma set_select_maps:
  assumes "get_permissions u d = Inr ps"
  shows "set (select_maps d u (GrantsMapVisibility ps) f) = {m \<in> all_maps d. may_view d m u \<and> MapFilter_Scope f m}"
  using list_maps_where_view [OF assms]
  by (auto simp: select_maps_def all_maps_def List.map_filter_def intro!: rev_image_eqI)

section \<open>Errors\<close>

lemma status_check_failed [simp]: "status (check_failed e) = 500"
  by (simp add: check_failed_def)

section \<open>Queries of the list\<close>

definition query_flag :: "request \<Rightarrow> string \<Rightarrow> response + bool option" where
  "query_flag r n =
     (if QueryGet r n = [] then Inr None
      else case ParseBool (QueryGet r n) of
        None \<Rightarrow> Inl (http_Error 400 (''invalid '' @ n @ '': must be true or false'')) | Some b \<Rightarrow> Inr (Some b))"

lemma QueryBoolParam_reads [reads_rules]: "reads (QueryBoolParam r n) (\<lambda>_. query_flag r n)"
  by (auto simp: QueryBoolParam_def query_flag_def Let_def fail_def split: option.split intro: reads_rules)

definition list_filter :: "request \<Rightarrow> MapFilter" where
  "list_filter r = (let flag = (\<lambda>n. if QueryGet r n = [] then None else ParseBool (QueryGet r n))
     in \<lparr>mf_Name = QueryGet r ''name'', mf_CreatedBy = QueryGet r ''createdBy'',
        mf_VisibleToAll = flag ''visibleToAll'', mf_AnonymousAllowed = flag ''anonymousAllowed''\<rparr>)"

lemma query_flag_Inr: "query_flag r n = Inr b \<Longrightarrow> b = (if QueryGet r n = [] then None else ParseBool (QueryGet r n))"
  by (auto simp: query_flag_def split: if_splits option.splits)

definition map_list :: "request \<Rightarrow> db \<Rightarrow> response + response" where
  "map_list r d =
     (case get_permissions (ctxUsername r) d of
        Inl e \<Rightarrow> Inl (http_Error 500 ''failed to check permissions'')
      | Inr ps \<Rightarrow> (case query_flag r ''visibleToAll'' of Inl e \<Rightarrow> Inl e
      | Inr v \<Rightarrow> (case query_flag r ''anonymousAllowed'' of Inl e \<Rightarrow> Inl e
      | Inr a \<Rightarrow> (case kept r (select_maps d (ctxUsername r) (GrantsMapVisibility ps) (list_filter r)) d of
          Inl e \<Rightarrow> Inl (http_Error 500 ''failed to list maps'')
        | Inr ms \<Rightarrow> Inr \<lparr>status = 200, payload = JMaps ms, headers = []\<rparr>))))"

lemma WriteJSON_reads [reads_rules]:
  "reads (WriteJSON c b) (\<lambda>_. Inr \<lparr>status = c, payload = b, headers = []\<rparr>)"
  unfolding WriteJSON_def by (rule reads_okE)

lemma MapsListHandler_reads: "reads (MapsListHandler r) (map_list r)"
  unfolding MapsListHandler_def
  by (rule reads_cong, (rule reads_rules)+)
     (auto simp: map_list_def list_filter_def dest!: query_flag_Inr split: sum.splits)

section \<open>Versions and files\<close>

definition reaches_version :: "uuid option \<Rightarrow> uuid \<Rightarrow> string \<Rightarrow> db \<Rightarrow> gerror + bool" where
  "reaches_version key i v d =
     (case key of None \<Rightarrow> Inr True
      | Some k \<Rightarrow> (case get_scope k i d of Inl e \<Rightarrow> Inl e
         | Inr (scoped, e) \<Rightarrow> Inr (\<not> scoped \<or> se_inScope e \<and> (se_versions e = [] \<or> v \<in> set (se_versions e)))))"

lemma apiKeyMapVersionAllowed_reads [reads_rules]:
  "reads (apiKeyMapVersionAllowed r i v) (reaches_version (ctxAPIKeyID r) i v)"
proof (cases "ctxAPIKeyID r")
  case None
  then show ?thesis
    using reads_okE [of True] by (simp add: apiKeyMapVersionAllowed_def reaches_version_def [abs_def])
next
  case (Some k)
  have "reads (APIKeyCanAccessMapVersion k i v) (reaches_version (Some k) i v)"
    unfolding APIKeyCanAccessMapVersion_def case_prod_unfold
    by (rule reads_cong, (rule reads_rules)+) (auto simp: reaches_version_def split: sum.splits prod.splits)
  with Some show ?thesis by (simp add: apiKeyMapVersionAllowed_def)
qed

lemma reaches_version_decides:
  "db_wf d \<Longrightarrow> reaches_version key i v d = Inr b \<Longrightarrow> b = key_reaches_version d key i v"
  by (auto simp: reaches_version_def key_reaches_version_def [of d None] get_scope_decides(2) [symmetric]
      split: option.splits sum.splits prod.splits)

text \<open>The version a segment names.\<close>

definition names_version :: "db \<Rightarrow> uuid \<Rightarrow> string \<Rightarrow> string \<Rightarrow> bool" where
  "names_version d i seg v \<longleftrightarrow>
     (if seg = ''current'' then current_in d i = Some v \<and> v \<noteq> []
      else if all_digits seg then v = seg
      else alias_in d (i, seg) = Some v)"

definition segment_lookup :: "uuid \<Rightarrow> string \<Rightarrow> db \<Rightarrow> response + string" where
  "segment_lookup i seg d =
     (if seg = ''current'' then
        (case get_current i d of
           Inl e \<Rightarrow> Inl (writeStoreError ErrMapNotFound 404 ''map not found'' ''failed to get map'' e)
         | Inr v \<Rightarrow> if v = [] then Inl (http_Error 404 ''map has no current version'') else Inr v)
      else if all_digits seg then Inr seg
      else (case get_alias i seg d of
           Inl e \<Rightarrow> Inl (writeStoreError ErrMapVersionAliasNotFound 404 ''alias not found'' ''failed to resolve alias'' e)
         | Inr v \<Rightarrow> Inr v))"

lemma fail_reads [reads_rules]: "reads (fail c m) (\<lambda>_. Inl (http_Error c m))"
  unfolding fail_def by (rule reads_raiseE)

lemma segment_lookup_reads:
  "reads (case classifyVersionSegment seg of
              versionSegmentCurrent \<Rightarrow> resolveCurrentVersion i
            | versionSegmentNumeric \<Rightarrow> okE seg
            | versionSegmentAlias \<Rightarrow>
                attempt (GetMapVersionAlias i seg)
                  (writeStoreError ErrMapVersionAliasNotFound 404 ''alias not found'' ''failed to resolve alias''))
     (segment_lookup i seg)"
proof (cases "classifyVersionSegment seg")
  case versionSegmentCurrent
  then have "seg = ''current''" by (auto simp: classifyVersionSegment_def currentVersionKeyword_def split: if_splits)
  then show ?thesis
    unfolding versionSegmentCurrent versionSegmentKind.case resolveCurrentVersion_def
    by - (rule reads_cong, (rule reads_rules)+, auto simp: segment_lookup_def split: sum.splits)
next
  case versionSegmentNumeric
  then have "segment_lookup i seg = (\<lambda>_. Inr seg)"
    by (auto simp: segment_lookup_def classifyVersionSegment_def currentVersionKeyword_def split: if_splits)
  with versionSegmentNumeric show ?thesis by (simp add: reads_okE)
next
  case versionSegmentAlias
  then have "seg \<noteq> ''current'' \<and> \<not> all_digits seg"
    by (auto simp: classifyVersionSegment_def currentVersionKeyword_def split: if_splits)
  then show ?thesis
    unfolding versionSegmentAlias versionSegmentKind.case
    by - (rule reads_cong, (rule reads_rules)+, auto simp: segment_lookup_def split: sum.splits)
qed

lemma segment_lookup_names: "segment_lookup i seg d = Inr v \<Longrightarrow> names_version d i seg v"
  by (auto simp: segment_lookup_def names_version_def get_current_def get_alias_def
      split: if_splits sum.splits option.splits)

definition resolved :: "request \<Rightarrow> uuid \<Rightarrow> string \<Rightarrow> db \<Rightarrow> response + string" where
  "resolved r i seg d =
     (case segment_lookup i seg d of Inl e \<Rightarrow> Inl e
      | Inr v \<Rightarrow> (case reaches_version (ctxAPIKeyID r) i v d of
           Inl e \<Rightarrow> Inl (http_Error 500 ''failed to check permissions'')
         | Inr b \<Rightarrow> if b then Inr v else Inl (http_Error 403 ''forbidden'')))"

lemma resolveVersionSegment_reads [reads_rules]: "reads (resolveVersionSegment r i seg) (resolved r i seg)"
  unfolding resolveVersionSegment_def
  by (rule reads_cong, (rule segment_lookup_reads reads_rules)+)
     (auto simp: resolved_def check_failed_def split: sum.splits)

lemma resolved_in_scope:
  assumes "db_wf (st_db s)" and "caches_coherent s" and "resolveVersionSegment r i seg s = (Inr v, s')"
  shows "names_version (st_db s) i seg v" "key_reaches_version (st_db s) (ctxAPIKeyID r) i v"
    "st_db s' = st_db s" "caches_coherent s'"
  using readsD [OF resolveVersionSegment_reads assms(2,3)]
  by (auto simp: reads_step_def resolved_def split: sum.splits if_splits
      dest: segment_lookup_names reaches_version_decides [OF assms(1)])

lemma requireMapView_passes:
  assumes "db_wf (st_db s)" and "caches_coherent s" and "requireMapView r m s = (Inr t, s')"
  shows "may_view (st_db s) m (ctxUsername r)" "key_reaches (st_db s) (ctxAPIKeyID r) (m_UUID m)"
    "st_db s' = st_db s" "caches_coherent s'"
proof -
  have "reads (requireMapView r m) (\<lambda>d. case views m (ctxUsername r) d of Inl e \<Rightarrow> Inl (check_failed e)
     | Inr visible \<Rightarrow> if \<not> visible then Inl (http_Error 403 ''forbidden'')
         else case reaches_map (ctxAPIKeyID r) (m_UUID m) d of Inl e \<Rightarrow> Inl (check_failed e)
         | Inr b \<Rightarrow> if b then Inr () else Inl (http_Error 403 ''forbidden''))"
    unfolding requireMapView_def
    by (rule reads_cong, (rule canViewMap_reads reads_rules)+) (auto split: sum.splits)
  from readsD [OF this assms(2,3)]
  show "may_view (st_db s) m (ctxUsername r)" "key_reaches (st_db s) (ctxAPIKeyID r) (m_UUID m)"
    "st_db s' = st_db s" "caches_coherent s'"
    using views_decides(1) [of m "ctxUsername r" "st_db s"]
      reaches_map_decides(1) [OF assms(1), of "ctxAPIKeyID r" "m_UUID m"]
    by (auto simp: reads_step_def split: sum.splits if_splits)
qed

lemma anonymous_or_viewer:
  assumes "db_wf (st_db s)" and "caches_coherent s"
    and "(if \<not> anon then bindE (RequireAuthenticated r) (\<lambda>_. requireMapView r m) else okE ()) s = (Inr t, s')"
  shows "anon \<or> ctxUsername r \<noteq> [] \<and> may_view (st_db s) m (ctxUsername r) \<and>
      key_reaches (st_db s) (ctxAPIKeyID r) (m_UUID m)" "st_db s' = st_db s" "caches_coherent s'"
proof -
  have "anon \<and> s' = s \<or> ctxUsername r \<noteq> [] \<and> requireMapView r m s = (Inr t, s')"
    using assms(3) by (auto simp: RequireAuthenticated_def fail_def raiseE_def okE_def elim!: bindE_InrE split: if_splits)
  then show "anon \<or> ctxUsername r \<noteq> [] \<and> may_view (st_db s) m (ctxUsername r) \<and>
      key_reaches (st_db s) (ctxAPIKeyID r) (m_UUID m)" "st_db s' = st_db s" "caches_coherent s'"
    using requireMapView_passes [OF assms(1,2)] assms(2) by blast+
qed

section \<open>Properties\<close>

text \<open>
  C1. While the caches agree with the database, \<open>canViewMap\<close> never answers wrongly, whatever statements fail: a
  yes or no is exactly the policy (public, owner, a global permission or a grant, of the account or of one of its
  groups; and within the scope of the API key). Without failures, a caller whose account and key exist always
  gets an answer. The database is not changed.
\<close>

theorem canViewMap_decides:
  assumes "db_wf (st_db s)" and "caches_coherent s" and "canViewMap r m u s = (x, s')"
  shows "(\<forall>b. x = Inr b \<longrightarrow> b = (may_view (st_db s) m u \<and> key_reaches (st_db s) (ctxAPIKeyID r) (m_UUID m))) \<and>
    (faults s = [] \<and> account_exists (st_db s) u \<and> key_live (st_db s) (ctxAPIKeyID r) \<longrightarrow> (\<exists>b. x = Inr b)) \<and>
    st_db s' = st_db s \<and> caches_coherent s'"
proof -
  note step = readsD [OF canViewMap_reads assms(2,3)]
  note dec = views_decides(1) [of m u "st_db s"] reaches_map_decides(1) [OF assms(1)]
  note tot = views_decides(2) [of "st_db s" u m]
    reaches_map_decides(2) [OF assms(1), of "ctxAPIKeyID r" "m_UUID m"]
  show ?thesis
    using step tot by (cases x) (auto simp: reads_step_def split: sum.splits if_splits dest: dec)
qed


theorem canViewMap_decides_witness:
  "fst (canViewMap (ex_request ''bob'' (Some 30)) ((ex_map 10 ''harbour'' ''2'' False 1 6)\<lparr>m_Owner := ''alice''\<rparr>)
     ''bob'' ex_store) = Inr True"
proof -
  let ?r = "ex_request ''bob'' (Some 30)" and ?m = "(ex_map 10 ''harbour'' ''2'' False 1 6)\<lparr>m_Owner := ''alice''\<rparr>"
  have d: "db_wf (st_db ex_store)" by (simp add: ex_db_wf)
  have "may_view ex_db ?m ''bob''"
    by (simp add: may_view_def has_grant_def ex_db_defs GrantsVisibility_def group_map_perm_def)
  moreover have "key_reaches ex_db (Some 30) 10" "key_live ex_db (Some 30)" "account_exists ex_db ''bob''"
    by (simp_all add: key_reaches_def key_live_def account_exists_def ex_db_defs)
  ultimately show ?thesis
    using canViewMap_decides [OF d caches_coherent_ex surjective_pairing [of "canViewMap ?r ?m ''bob'' ex_store"]]
    by (auto simp: ex_request_def ex_map_def)
qed

text \<open>
  C2. \<open>requireMapPermission\<close>, the guard of every operation that changes a map or its objects: it lets a request
  pass only if the account is an administrator, has the global permission, owns the map or has the grant (itself or
  through a group), and the API key reaches the map; whichever statements fail. Without failures, it lets exactly
  these pass and answers 403 to the others.
\<close>

theorem requireMapPermission_decides:
  assumes "db_wf (st_db s)" and "caches_coherent s" and "requireMapPermission r i g a s = (x, s')"
    and "(g, a) \<in> paired"
  shows "(x = Inr () \<longrightarrow> may_change (st_db s) r i g a) \<and> st_db s' = st_db s \<and>
    (faults s = [] \<and> account_exists (st_db s) (ctxUsername r) \<and> key_live (st_db s) (ctxAPIKeyID r) \<longrightarrow>
       x = (if may_change (st_db s) r i g a then Inr () else Inl (http_Error 403 ''forbidden'')))"
  using readsD [OF requireMapPermission_reads assms(2,3)] map_guard_decides [OF assms(1,4), of r i]
  by (auto simp: reads_step_def)

theorem requireMapPermission_decides_witness:
  "fst (requireMapPermission (ex_request ''bob'' None) 10 p_CanEdit mp_CanEdit ex_store) =
     Inl (http_Error 403 ''forbidden'') \<and>
   fst (requireMapPermission (ex_request ''carol'' None) 11 p_CanEdit mp_CanEdit ex_store) = Inr ()"
proof -
  let ?b = "ex_request ''bob'' None" and ?c = "ex_request ''carol'' None"
  have d: "db_wf (st_db ex_store)" "(p_CanEdit, mp_CanEdit) \<in> paired" by (simp_all add: ex_db_wf paired_def)
  have "\<not> may_change ex_db ?b 10 p_CanEdit mp_CanEdit" "may_change ex_db ?c 11 p_CanEdit mp_CanEdit"
    by (simp_all add: may_change_def has_perm_def has_grant_def owns_def key_reaches_def ex_request_def ex_db_defs
        user_perms_def group_perms_def group_map_perm_def)
  moreover have "account_exists ex_db ''bob''" "account_exists ex_db ''carol''" "key_live ex_db None"
    by (simp_all add: account_exists_def key_live_def ex_db_defs)
  ultimately show ?thesis
    using requireMapPermission_decides [OF d(1) caches_coherent_ex surjective_pairing d(2), of ?b 10]
      requireMapPermission_decides [OF d(1) caches_coherent_ex surjective_pairing d(2), of ?c 11]
    by (simp add: ex_request_def)
qed


text \<open>
  C6. The list of maps and the view of a single map agree: a successful \<open>GET /maps\<close> lists exactly the maps of
  the database that the caller may view, that the API key reaches and that pass the query's filters, newest first.
\<close>

theorem MapsListHandler_lists_viewable:
  assumes "db_wf (st_db s)" and "caches_coherent s" and "serve (MapsListHandler r) s = (resp, s')"
    and "status resp = 200"
  shows "\<exists>ms. payload resp = JMaps ms \<and>
     set ms = {m \<in> all_maps (st_db s). may_view (st_db s) m (ctxUsername r) \<and>
                 key_reaches (st_db s) (ctxAPIKeyID r) (m_UUID m) \<and> MapFilter_Scope (list_filter r) m} \<and>
     sorted (rev (map m_CreatedAt ms))"
proof -
  have "MapsListHandler r s = (Inr resp, s')"
    by (rule serve_cases [OF MapsListHandler_answers assms(3)]) (simp add: assms(4))
  from readsD [OF MapsListHandler_reads assms(2) this] have "map_list r (st_db s) = Inr resp"
    by (simp add: reads_step_def)
  then obtain ps ms where ps: "get_permissions (ctxUsername r) (st_db s) = Inr ps"
    and ms: "kept r (select_maps (st_db s) (ctxUsername r) (GrantsMapVisibility ps) (list_filter r)) (st_db s) = Inr ms"
    and resp: "payload resp = JMaps ms"
    by (auto simp: map_list_def split: sum.splits)
  have f: "ms = filter (\<lambda>m. key_reaches (st_db s) (ctxAPIKeyID r) (m_UUID m))
      (select_maps (st_db s) (ctxUsername r) (GrantsMapVisibility ps) (list_filter r))"
    by (rule kept_filter [OF assms(1) ms])
  have "sorted (rev (map m_CreatedAt ms))"
    unfolding f select_maps_def
    using sorted_filter [OF sorted_order_desc [unfolded rev_map]] by (simp add: rev_map rev_filter)
  moreover have "set ms = {m \<in> all_maps (st_db s). may_view (st_db s) m (ctxUsername r) \<and>
                 key_reaches (st_db s) (ctxAPIKeyID r) (m_UUID m) \<and> MapFilter_Scope (list_filter r) m}"
    unfolding f by (auto simp: set_select_maps [OF ps])
  ultimately show ?thesis using resp by blast
qed


theorem MapsListHandler_lists_viewable_witness:
  "\<exists>ms. payload (fst (serve (MapsListHandler (ex_request ''bob'' (Some 30))) ex_store)) = JMaps ms \<and>
     m_UUID ` set ms = {10}"
proof -
  let ?r = "ex_request ''bob'' (Some 30)"
  have "map_list ?r ex_db = Inr \<lparr>status = 200, payload = JMaps [(ex_map 10 ''harbour'' ''2'' False 1 6)\<lparr>m_Owner := ''alice''\<rparr>],
      headers = []\<rparr>"
    by (simp add: map_list_def get_permissions_def select_permissions_def permission_rows_def groups_of_def Let_def
        query_flag_def kept_def reaches_map_def get_scope_def scoped_flag_def key_in_def select_live_key_def
        scope_in_def sql_take_def select_maps_def List.map_filter_simps with_owner_def list_maps_where_def
        user_grant_def group_grant_def sql_exists_def MapFilter_Scope_def list_filter_def like_filter_def eq_filter_def
        flag_filter_def order_desc_def bool_or_perms_def GrantsMapVisibility_def user_perms_def group_perms_def
        no_scope_entry_def ex_request_def ex_db_defs)
  moreover have "reads_step ex_store (fst (MapsListHandler ?r ex_store)) (snd (MapsListHandler ?r ex_store)) (map_list ?r ex_db)"
    using readsD [OF MapsListHandler_reads caches_coherent_ex surjective_pairing] by simp
  ultimately have run: "fst (MapsListHandler ?r ex_store) = Inr \<lparr>status = 200,
      payload = JMaps [(ex_map 10 ''harbour'' ''2'' False 1 6)\<lparr>m_Owner := ''alice''\<rparr>], headers = []\<rparr>"
    by (simp add: reads_step_def)
  then have st: "status (fst (serve (MapsListHandler ?r) ex_store)) = 200"
    by (simp add: serve_Inr)
  from run have "payload (fst (serve (MapsListHandler ?r) ex_store)) =
      JMaps [(ex_map 10 ''harbour'' ''2'' False 1 6)\<lparr>m_Owner := ''alice''\<rparr>]"
    by (simp add: serve_Inr)
  moreover from MapsListHandler_lists_viewable [OF _ caches_coherent_ex surjective_pairing st] obtain ms
    where "payload (fst (serve (MapsListHandler ?r) ex_store)) = JMaps ms" by (auto simp: ex_db_wf)
  ultimately show ?thesis by (simp add: ex_map_def)
qed

text \<open>
  C5. \<open>resolveVersionSegment\<close>, which every handler of a \<open>{version}\<close> route goes through, returns a version only if
  the segment names it (\<open>current\<close>, a numeric version, or an alias of the map) and the API key reaches that version:
  an alias or \<open>current\<close> is no way around a key's version scope, whatever statements fail.
\<close>

theorem resolveVersionSegment_in_scope:
  assumes "db_wf (st_db s)" and "caches_coherent s" and "resolveVersionSegment r i seg s = (Inr v, s')"
  shows "names_version (st_db s) i seg v \<and> key_reaches_version (st_db s) (ctxAPIKeyID r) i v \<and>
     st_db s' = st_db s"
  using resolved_in_scope [OF assms] by blast

theorem resolveVersionSegment_in_scope_witness:
  "\<exists>s'. resolveVersionSegment (ex_request ''bob'' (Some 30)) 10 ''stable'' ex_store = (Inr ''1'', s') \<and>
     key_reaches_version ex_db (Some 30) 10 ''1'' \<and> \<not> key_reaches_version ex_db (Some 30) 10 ''2''"
proof -
  let ?r = "ex_request ''bob'' (Some 30)"
  have "resolved ?r 10 ''stable'' ex_db = Inr ''1''"
    by (simp add: resolved_def segment_lookup_def get_alias_def alias_in_def reaches_version_def get_scope_def
        scoped_flag_def key_in_def select_live_key_def scope_in_def sql_take_def all_digits_def is_digit_def
        ex_request_def ex_db_defs)
  moreover have "reads_step ex_store (fst (resolveVersionSegment ?r 10 ''stable'' ex_store))
      (snd (resolveVersionSegment ?r 10 ''stable'' ex_store)) (resolved ?r 10 ''stable'' ex_db)"
    using readsD [OF resolveVersionSegment_reads caches_coherent_ex surjective_pairing] by simp
  ultimately have run: "resolveVersionSegment ?r 10 ''stable'' ex_store =
      (Inr ''1'', snd (resolveVersionSegment ?r 10 ''stable'' ex_store))"
    by (simp add: reads_step_def prod_eq_iff)
  have "key_reaches_version ex_db (Some 30) 10 ''1''"
    using resolveVersionSegment_in_scope [OF _ caches_coherent_ex run] by (simp add: ex_db_wf ex_request_def)
  moreover have "\<not> key_reaches_version ex_db (Some 30) 10 ''2''"
    by (simp add: key_reaches_version_def ex_db_defs)
  ultimately show ?thesis using run by blast
qed


text \<open>The guards of a version route leave the disk alone.\<close>

lemma exec_keeps_disk: "preserves (\<lambda>w. disk w = d) (exec f)" "preserves (\<lambda>w. disk w = d) (query g)"
proof -
  show e: "preserves (\<lambda>w. disk w = d) (exec f)" for f
    by (auto simp: preserves_def exec_def split: sum.split prod.split)
  show "preserves (\<lambda>w. disk w = d) (query g)" unfolding query_def by (rule e)
qed

lemmas guard_defs = attempt_def GetMap_def requireMapView_def canViewMap_def userCanViewMap_def GetPermissions_def
  GetMapPermission_def apiKeyMapAllowed_def APIKeyCanAccessMap_def resolveVersionSegment_def resolveCurrentVersion_def
  GetCurrentVersion_def GetMapVersionAlias_def apiKeyMapVersionAllowed_def APIKeyCanAccessMapVersion_def
  resolveAPIKeyMapScope_def loadMapWithOwner_def apiKeyScopedFlag_def cache_scope_def

lemma guards_keep_disk:
  shows "preserves (\<lambda>w. disk w = d) (attempt (GetMap i) h)"
    and "preserves (\<lambda>w. disk w = d) (if b then bindE (RequireAuthenticated r) (\<lambda>_. requireMapView r m) else okE ())"
    and "preserves (\<lambda>w. disk w = d) (resolveVersionSegment r i seg)"
  unfolding guard_defs by (intro pres exec_keeps_disk; simp)+
    (cases "classifyVersionSegment seg"; simp only: versionSegmentKind.case; intro pres exec_keeps_disk; simp)

lemma serve_file_run:
  assumes "db_wf (st_db s)" and "caches_coherent s"
    and "serve (ServeMapVersionFileHandler env dataRoot dis subnets r) s = (resp, s')" and "status resp < 400"
  shows "\<exists>i m v p s1 resp1.
     uuid_Parse env (PathValue r ''id'') = Some i \<and> find_map (st_db s) i = Some m \<and>
     (anonymous_allowed dis subnets r m \<or>
      ctxUsername r \<noteq> [] \<and> may_view (st_db s) m (ctxUsername r) \<and> key_reaches (st_db s) (ctxAPIKeyID r) i) \<and>
     names_version (st_db s) i (PathValue r ''version'') v \<and>
     key_reaches_version (st_db s) (ctxAPIKeyID r) i v \<and>
     FileServer (MapVersionDir env dataRoot i v) p s1 = (Inr resp1, s') \<and> st_db s1 = st_db s \<and> disk s1 = disk s \<and>
     resp = add_headers cacheControl resp1"
proof -
  let ?u = "ctxUsername r" and ?d = "st_db s"
  have "ServeMapVersionFileHandler env dataRoot dis subnets r s = (Inr resp, s')"
    by (rule serve_cases [OF ServeMapVersionFileHandler_answers assms(3,4)])
  then obtain i s1 m s2 t s3 v s4 where i: "PathUUID env r ''id'' ''map id'' s = (Inr i, s1)"
    and m: "attempt (GetMap i) (writeStoreError ErrMapNotFound 404 ''map not found'' ''failed to get map'') s1 = (Inr m, s2)"
    and g: "(if \<not> anonymous_allowed dis subnets r m
            then bindE (RequireAuthenticated r) (\<lambda>_. requireMapView r m) else okE ()) s2 = (Inr t, s3)"
    and v: "resolveVersionSegment r i (PathValue r ''version'') s3 = (Inr v, s4)"
    and k: "(case StripPrefix (''/maps/'' @ PathValue r ''id'' @ ''/version/'' @ PathValue r ''version'' @ ''/'') r of
       None \<Rightarrow> raiseE (add_headers cacheControl (http_Error 404 ''404 page not found''))
     | Some p \<Rightarrow> with_cache_control (FileServer (MapVersionDir env dataRoot i v) p)) s4 = (Inr resp, s')"
    unfolding ServeMapVersionFileHandler_def by (elim bindE_InrE) (rule that)
  have i': "uuid_Parse env (PathValue r ''id'') = Some i" "s1 = s"
    using i by (auto simp: PathUUID_def fail_def raiseE_def okE_def split: option.splits)
  have m': "find_map ?d i = Some m" and s2: "caches_coherent s2" "st_db s2 = ?d"
    using readsD [OF reads_attempt [OF GetMap_reads] assms(2) m [unfolded i'(2)]]
    by (auto simp: reads_step_def get_map_def split: option.splits sum.splits)
  have g': "anonymous_allowed dis subnets r m \<or> ?u \<noteq> [] \<and> may_view ?d m ?u \<and> key_reaches ?d (ctxAPIKeyID r) i"
    "caches_coherent s3" "st_db s3 = ?d"
    using anonymous_or_viewer [OF _ s2(1) g] find_map_owner(1) [OF assms(1) m'] assms(1) s2(2) by simp_all
  have v': "names_version ?d i (PathValue r ''version'') v" "key_reaches_version ?d (ctxAPIKeyID r) i v" "st_db s4 = ?d"
    using resolved_in_scope [OF _ _ v] g' assms(1) by simp_all
  have "disk s2 = disk s" by (rule preservesD [OF guards_keep_disk(1) _ m]) (simp add: i'(2))
  then have "disk s3 = disk s" by (rule preservesD [OF guards_keep_disk(2) _ g])
  then have "disk s4 = disk s" by (rule preservesD [OF guards_keep_disk(3) _ v])
  moreover from k obtain p resp1 where "FileServer (MapVersionDir env dataRoot i v) p s4 = (Inr resp1, s')"
    "resp = add_headers cacheControl resp1"
    by (auto simp: with_cache_control_def raiseE_def okE_def split: option.splits elim!: bindE_InrE)
  ultimately show ?thesis using i'(1) m' g' v' by blast
qed

text \<open>
  C3. A tile or any other file of a map version is served only if the map allows anonymous access, anonymous access is
  not switched off and the client's address is in an allowed subnet, or the caller is authenticated, may view the
  map and uses a key that reaches it; and only from the directory of a version that the segment names and the key's
  scope contains.
\<close>

theorem ServeMapVersionFileHandler_authorised:
  assumes "db_wf (st_db s)" and "caches_coherent s"
    and "serve (ServeMapVersionFileHandler env dataRoot dis subnets r) s = (resp, s')" and "status resp < 400"
  shows "\<exists>i m v p s1 resp1.
     uuid_Parse env (PathValue r ''id'') = Some i \<and> find_map (st_db s) i = Some m \<and>
     (anonymous_allowed dis subnets r m \<or>
      ctxUsername r \<noteq> [] \<and> may_view (st_db s) m (ctxUsername r) \<and> key_reaches (st_db s) (ctxAPIKeyID r) i) \<and>
     names_version (st_db s) i (PathValue r ''version'') v \<and>
     key_reaches_version (st_db s) (ctxAPIKeyID r) i v \<and>
     FileServer (MapVersionDir env dataRoot i v) p s1 = (Inr resp1, s') \<and> st_db s1 = st_db s \<and>
     resp = add_headers cacheControl resp1"
  using serve_file_run [OF assms] by blast

definition landing_request :: request where
  "landing_request = (ex_request [] None)\<lparr>
     PathValue := (\<lambda>n. if n = ''id'' then ''11'' else if n = ''version'' then ''current'' else []),
     URLPath := ''/maps/11/version/current/index.html''\<rparr>"

lemma landing_redirected:
  "status (fst (serve (ServeMapVersionFileHandler ex_env ''data'' False [] landing_request) ex_msys)) = 301"
  by code_simp

lemma caches_coherent_ex_msys: "caches_coherent ex_msys"
  by (simp add: ex_msys_def caches_coherent_def coherent_new)

theorem ServeMapVersionFileHandler_authorised_witness:
  "\<exists>m v. find_map ex_db 11 = Some m \<and> anonymous_allowed False [] landing_request m \<and>
     names_version ex_db 11 ''current'' v"
proof -
  have d: "st_db ex_msys = ex_db" by (simp add: ex_msys_def)
  have wf: "db_wf (st_db ex_msys)" by (simp add: d ex_db_wf)
  have ok: "status (fst (serve (ServeMapVersionFileHandler ex_env ''data'' False [] landing_request) ex_msys)) < 400"
    by (simp add: landing_redirected)
  have r: "PathValue landing_request ''id'' = ''11''" "PathValue landing_request ''version'' = ''current''"
    "ctxUsername landing_request = []"
    by (simp_all add: landing_request_def ex_request_def)
  have u: "uuid_Parse ex_env ''11'' = Some 11"
    by (simp add: ex_env_def all_digits_def is_digit_def digits_val_def digit_val_def)
  show ?thesis
    using ServeMapVersionFileHandler_authorised [OF wf caches_coherent_ex_msys surjective_pairing ok]
    by (auto simp: r u d)
qed

end
