(* ===== verification/TokenFacts.thy ===== *)
theory TokenFacts
  imports AccessFacts
begin

text \<open>
  Who a request is: the identity behind a bearer token comes from a signature the server's secret or a live key of the
  database verifies; the guards of the routes act on that identity, and every administrative route has the guard.
\<close>

section \<open>Resolving a signing key\<close>

text \<open>The one thing a resolution changes: when the key was last used.\<close>

definition touched :: "db \<Rightarrow> db \<Rightarrow> bool" where
  "touched d d' \<longleftrightarrow> (\<exists>ks. d' = d\<lparr>t_api_keys := ks\<rparr>) \<and> key_in d' = key_in d \<and> (db_wf d \<longrightarrow> db_wf d')"

lemma touched_refl [simp]: "touched d d"
  by (simp add: touched_def exI [of _ "t_api_keys d"])

lemma sql_take_update_irrelevant:
  "(\<And>r. q (f r) = q r) \<Longrightarrow>
   sql_take q (sql_update p f t) = map_option (\<lambda>r. if p r then f r else r) (sql_take q t)"
  by (induction t) (auto simp: sql_take_def sql_update_def)

lemma touched_update:
  "touched d (d\<lparr>t_api_keys := sql_update (\<lambda>k. k_ID k = i) (\<lambda>k. k\<lparr>k_LastUsedAt := Some now\<rparr>) (t_api_keys d)\<rparr>)"
proof -
  let ?d = "d\<lparr>t_api_keys := sql_update (\<lambda>k. k_ID k = i) (\<lambda>k. k\<lparr>k_LastUsedAt := Some now\<rparr>) (t_api_keys d)\<rparr>"
  have "key_in ?d j = key_in d j" for j
    by (simp add: key_in_def select_live_key_def sql_take_update_irrelevant split: option.splits)
  moreover have "db_wf d \<longrightarrow> db_wf ?d" by (simp add: wf_simps)
  ultimately show ?thesis by (auto simp: touched_def fun_eq_iff)
qed

lemma key_table_irrelevant [simp]:
  "find_map (d\<lparr>t_api_keys := ks\<rparr>) = find_map d"
  "current_in (d\<lparr>t_api_keys := ks\<rparr>) = current_in d"
  "permissions_in (d\<lparr>t_api_keys := ks\<rparr>) = permissions_in d"
  "grants_in (d\<lparr>t_api_keys := ks\<rparr>) = grants_in d"
  "alias_in (d\<lparr>t_api_keys := ks\<rparr>) = alias_in d"
  "scope_in (d\<lparr>t_api_keys := ks\<rparr>) = scope_in d"
  "has_perm (d\<lparr>t_api_keys := ks\<rparr>) = has_perm d"
  by (simp_all add: fun_eq_iff find_map_def with_owner_def [abs_def] current_in_def permissions_in_def select_permissions_def
      permission_rows_def groups_of_def grants_in_def grant_rows_def alias_in_def scope_in_def has_perm_def)

lemma caches_coherent_touched:
  assumes "caches_coherent s" "touched (st_db s) d'"
  shows "caches_coherent (s\<lparr>st_db := d'\<rparr>)"
proof -
  obtain ks where "d' = (st_db s)\<lparr>t_api_keys := ks\<rparr>" and "key_in d' = key_in (st_db s)"
    using assms(2) by (auto simp: touched_def)
  then show ?thesis using assms(1) by (simp add: caches_coherent_def)
qed

lemma TouchAPIKeyLastUsed_run:
  "\<exists>d fs. TouchAPIKeyLastUsed i s = (Inr (), s\<lparr>st_db := d, faults := fs\<rparr>) \<and> touched (st_db s) d"
proof -
  let ?f = "update_api_keys (\<lambda>k. k_ID k = i) (\<lambda>now k. k\<lparr>k_LastUsedAt := Some now\<rparr>)"
  have t: "TouchAPIKeyLastUsed i s = (Inr (), snd (exec ?f s))"
    by (simp add: TouchAPIKeyLastUsed_def tryE_def okE_def split: prod.split sum.split)
  show ?thesis
  proof (cases "faults s \<noteq> [] \<and> hd (faults s)")
    case True
    then have "snd (exec ?f s) = s\<lparr>st_db := st_db s, faults := tl (faults s)\<rparr>" by (simp add: exec_def)
    with t show ?thesis by (metis touched_refl)
  next
    case False
    then have "snd (exec ?f s) = s\<lparr>st_db := (st_db s)\<lparr>t_api_keys := sql_update (\<lambda>k. k_ID k = i)
      (\<lambda>k. k\<lparr>k_LastUsedAt := Some (clock s)\<rparr>) (t_api_keys (st_db s))\<rparr>, faults := tl (faults s)\<rparr>"
      by (auto simp: exec_def update_api_keys_def)
    with t show ?thesis using touched_update by metis
  qed
qed

lemma ResolveAPIKeySigningKey_run:
  assumes "caches_coherent s" and "ResolveAPIKeySigningKey k s = (x, s')"
  shows "caches_coherent s'" "touched (st_db s) (st_db s')" "clock s' = clock s"
    "x = Inr (u, pem) \<Longrightarrow> \<exists>sk. key_in (st_db s) k = Some sk \<and> sk_username sk = u \<and> sk_publicKeyPEM sk = pem"
proof -
  have "caches_coherent s' \<and> touched (st_db s) (st_db s') \<and> clock s' = clock s \<and>
    (x = Inr (u, pem) \<longrightarrow> (\<exists>sk. key_in (st_db s) k = Some sk \<and> sk_username sk = u \<and> sk_publicKeyPEM sk = pem))"
  proof (cases "cache_get (clock s) (apiKeyCache s) k")
    case (Some sk)
    with assms coherent_hits(6) [OF assms(1) Some] show ?thesis
      by (auto simp: ResolveAPIKeySigningKey_def bindE_def getE_def tryE_def okE_def)
  next
    case None
    obtain y s1 where y: "query (select_live_key k) s = (y, s1)" by (meson surj_pair)
    have r: "reads_step s y s1 (select_live_key k (st_db s))"
      by (rule readsD [OF reads_query assms(1) y])
    show ?thesis
    proof (cases y)
      case (Inl e)
      with None y r assms(2) show ?thesis
        by (auto simp: ResolveAPIKeySigningKey_def bindE_def getE_def tryE_def raiseE_def reads_step_def split: if_splits)
    next
      case (Inr row)
      define sk where "sk = \<lparr>sk_username = k_Username row, sk_publicKeyPEM = k_PublicKeyPEM row, sk_scoped = k_Scoped row\<rparr>"
      have s1: "caches_coherent s1" "st_db s1 = st_db s" "clock s1 = clock s" and key: "key_in (st_db s) k = Some sk"
        using r Inr by (auto simp: reads_step_def key_in_def sk_def)
      define s2 where "s2 = s1\<lparr>apiKeyCache := cache_set (clock s1) (apiKeyCache s1) k sk\<rparr>"
      have s2: "caches_coherent s2" "st_db s2 = st_db s" "clock s2 = clock s"
        using caches_coherent_set(6) [OF s1(1), of k sk] s1 key by (simp_all add: s2_def)
      obtain d fs where t: "TouchAPIKeyLastUsed k s2 = (Inr (), s2\<lparr>st_db := d, faults := fs\<rparr>)" "touched (st_db s2) d"
        using TouchAPIKeyLastUsed_run by blast
      have "x = Inr (k_Username row, k_PublicKeyPEM row)" "s' = s2\<lparr>st_db := d, faults := fs\<rparr>"
        using None y Inr assms(2) t(1)
        by (auto simp: ResolveAPIKeySigningKey_def bindE_def getE_def tryE_def okE_def modifyE_def sk_def s2_def)
      moreover have "caches_coherent (s2\<lparr>st_db := d, faults := fs\<rparr>)"
        using caches_coherent_touched [OF s2(1) t(2)] by simp
      ultimately show ?thesis using s2 t(2) key by (auto simp: sk_def)
    qed
  qed
  then show "caches_coherent s'" "touched (st_db s) (st_db s')" "clock s' = clock s"
    "x = Inr (u, pem) \<Longrightarrow> \<exists>sk. key_in (st_db s) k = Some sk \<and> sk_username sk = u \<and> sk_publicKeyPEM sk = pem" by blast+
qed

section \<open>Bearer tokens\<close>

text \<open>
  What stands behind an identity: \<open>vouched\<close> says that a token string of user \<open>u\<close>, presented with the key \<open>i\<close> (\<open>0\<close>: none), is
  signed and unexpired: either by the server's secret, or by the holder of a live key of the user, for at most the
  15 minutes allowed.
\<close>

definition vouched ::
  "(jwtToken \<Rightarrow> 'k jwtKey \<Rightarrow> string \<Rightarrow> bool) \<Rightarrow> ('k, 'w) jwtlib \<Rightarrow> string \<Rightarrow> db \<Rightarrow> time \<Rightarrow> string \<Rightarrow> string \<Rightarrow> uuid \<Rightarrow> bool" where
  "vouched verifies lib secret d now str u i \<longleftrightarrow>
     (\<exists>(t :: jwtToken) e. cl_ExpiresAt (t_Claims t) = Some e \<and> now < e \<and>
       (t_Method t = ''HS256'' \<and> verifies t (SecretKey secret) str \<and> u = cl_Subject (t_Claims t) \<and> i = 0 \<or>
        (\<exists>row pk b. row \<in> set (t_api_keys d) \<and> k_ID row = i \<and> k_RevokedAt row = None \<and> k_Username row = u \<and>
           ParseRSAPublicKeyFromPEM lib (k_PublicKeyPEM row) = Some pk \<and>
           t_Method t = ''RS256'' \<and> verifies t (PublicKey pk) str \<and>
           cl_IssuedAt (t_Claims t) = Some b \<and> e - b \<le> 15 * minute)))"

lemma key_in_row:
  "key_in d i = Some sk \<Longrightarrow> \<exists>row\<in>set (t_api_keys d). k_ID row = i \<and> k_RevokedAt row = None \<and>
     k_Username row = sk_username sk \<and> k_PublicKeyPEM row = sk_publicKeyPEM sk"
  by (auto simp: key_in_def select_live_key_def dest!: sql_take_Some split: option.splits)

lemma resolveTokenKey_run:
  assumes "caches_coherent s" and "resolveTokenKey env lib secret t (None, s) = (x, (cap, s'))"
  shows "caches_coherent s' \<and> touched (st_db s) (st_db s') \<and> clock s' = clock s"
    and "x = Inr k \<Longrightarrow>
      t_Method t = ''HS256'' \<and> k = SecretKey secret \<and> cap = None \<or>
      (\<exists>i sk pk. t_Method t = ''RS256'' \<and> key_in (st_db s) i = Some sk \<and>
         ParseRSAPublicKeyFromPEM lib (sk_publicKeyPEM sk) = Some pk \<and> k = PublicKey pk \<and> cap = Some (sk_username sk, i))"
proof -
  have "(caches_coherent s' \<and> touched (st_db s) (st_db s') \<and> clock s' = clock s) \<and> (x = Inr k \<longrightarrow>
      t_Method t = ''HS256'' \<and> k = SecretKey secret \<and> cap = None \<or>
      (\<exists>i sk pk. t_Method t = ''RS256'' \<and> key_in (st_db s) i = Some sk \<and>
         ParseRSAPublicKeyFromPEM lib (sk_publicKeyPEM sk) = Some pk \<and> k = PublicKey pk \<and> cap = Some (sk_username sk, i)))"
  proof (cases "\<exists>str i. t_kid t = Some (KidString str) \<and> t_Method t = ''RS256'' \<and> uuid_Parse env str = Some i")
    case False
    with assms show ?thesis
      by (auto simp: resolveTokenKey_def raiseE_def okE_def split: option.splits if_splits kidHeader.splits)
  next
    case True
    then obtain str i where t: "t_kid t = Some (KidString str)" "t_Method t = ''RS256''" "uuid_Parse env str = Some i"
      by blast
    obtain y s1 where y: "ResolveAPIKeySigningKey i s = (y, s1)" by (meson surj_pair)
    note run = ResolveAPIKeySigningKey_run [OF assms(1) y]
    show ?thesis
    proof (cases y)
      case (Inl e)
      with assms(2) t y run(1-3) show ?thesis
        by (auto simp: resolveTokenKey_def on_store_def bindE_def tryE_def raiseE_def)
    next
      case (Inr z)
      obtain u pem where z: "z = (u, pem)" by (meson surj_pair)
      from run(4) Inr z obtain sk where "key_in (st_db s) i = Some sk" "sk_username sk = u" "sk_publicKeyPEM sk = pem"
        by blast
      moreover have "(x, (cap, s')) = (case ParseRSAPublicKeyFromPEM lib pem of
          None \<Rightarrow> (Inl (OpaqueErr ''invalid key''), (None, s1)) | Some pk \<Rightarrow> (Inr (PublicKey pk), (Some (u, i), s1)))"
        by (cases "ParseRSAPublicKeyFromPEM lib pem"; use assms(2) t y Inr z in
            \<open>simp add: resolveTokenKey_def on_store_def capture_def bindE_def tryE_def raiseE_def okE_def\<close>)
      ultimately show ?thesis using t(2) run(1-3) by (cases "ParseRSAPublicKeyFromPEM lib pem") auto
    qed
  qed
  then show "caches_coherent s' \<and> touched (st_db s) (st_db s') \<and> clock s' = clock s"
    and "x = Inr k \<Longrightarrow>
      t_Method t = ''HS256'' \<and> k = SecretKey secret \<and> cap = None \<or>
      (\<exists>i sk pk. t_Method t = ''RS256'' \<and> key_in (st_db s) i = Some sk \<and>
         ParseRSAPublicKeyFromPEM lib (sk_publicKeyPEM sk) = Some pk \<and> k = PublicKey pk \<and> cap = Some (sk_username sk, i))"
    by blast+
qed

lemma jwt_contractD:
  "jwt_contract verifies lib \<Longrightarrow> jwtParse lib str kf st = (Inr t, st') \<Longrightarrow>
   \<exists>k e. kf t st = (Inr k, st') \<and> verifies t k str \<and> cl_ExpiresAt (t_Claims t) = Some e \<and> clock (snd st) < e"
  unfolding jwt_contract_def by blast

lemma jwtParse_frame:
  fixes lib :: "('k, 'w) jwtlib"
  assumes jwt: "jwt_contract verifies lib" and coh: "caches_coherent s"
    and p: "jwtParse lib str (resolveTokenKey env lib secret) (None, s) = (x, (cap, s1))"
  shows "caches_coherent s1 \<and> touched (st_db s) (st_db s1) \<and> clock s1 = clock s"
proof -
  let ?kf = "resolveTokenKey env lib secret"
  have "(cap, s1) = (None, s) \<or> (\<exists>t. (cap, s1) = snd (?kf t (None, s)))"
    using jwt p unfolding jwt_contract_def by (cases x) (metis snd_conv)+
  then show ?thesis
  proof
    assume "\<exists>t. (cap, s1) = snd (?kf t (None, s))"
    then obtain t where "?kf t (None, s) = (fst (?kf t (None, s)), (cap, s1))" by (metis prod.collapse)
    from resolveTokenKey_run(1) [OF coh this] show ?thesis .
  qed (use coh in simp)
qed

lemma ParseBearerToken_run:
  assumes jwt: "jwt_contract verifies lib" and coh: "caches_coherent s"
    and run: "ParseBearerToken env lib secret r s = (b, s')"
  shows "caches_coherent s' \<and> touched (st_db s) (st_db s') \<and> clock s' = clock s"
    and "b_valid b \<Longrightarrow> vouched verifies lib secret (st_db s) (clock s) (bearer_token r) (b_username b) (b_apiKeyID b)"
    and "b_hadToken b \<longleftrightarrow> bearer_token r \<noteq> []"
    and "\<not> b_valid b \<Longrightarrow> b_username b = [] \<and> b_apiKeyID b = 0"
proof -
  let ?kf = "resolveTokenKey env lib secret"
  obtain x cap s1 where p: "jwtParse lib (bearer_token r) ?kf (None, s) = (x, (cap, s1))" by (metis surj_pair)
  show "b_hadToken b \<longleftrightarrow> bearer_token r \<noteq> []" "\<not> b_valid b \<Longrightarrow> b_username b = [] \<and> b_apiKeyID b = 0"
    using run by (auto simp: ParseBearerToken_def Let_def split: sum.splits option.splits prod.splits if_splits)
  have s': "s' = s \<or> s' = s1"
    using run p by (cases x; cases cap) (simp_all add: ParseBearerToken_def Let_def split: if_splits prod.splits)
  from jwtParse_frame [OF jwt coh p]
  show "caches_coherent s' \<and> touched (st_db s) (st_db s') \<and> clock s' = clock s"
    using s' coh by auto
  assume v: "b_valid b"
  then obtain t where x: "x = Inr t" and str: "bearer_token r \<noteq> []"
    using run p by (auto simp: ParseBearerToken_def Let_def split: sum.splits option.splits prod.splits if_splits)
  from jwt_contractD [OF jwt p [unfolded x]]
  obtain k e where k: "?kf t (None, s) = (Inr k, (cap, s1))" "verifies t k (bearer_token r)"
    "cl_ExpiresAt (t_Claims t) = Some e" "clock s < e" by auto
  note e = k(4)
  from resolveTokenKey_run(2) [OF coh k(1) refl]
  show "vouched verifies lib secret (st_db s) (clock s) (bearer_token r) (b_username b) (b_apiKeyID b)"
  proof (elim disjE exE conjE)
    assume h: "t_Method t = ''HS256''" "k = SecretKey secret" "cap = None"
    then have "b_username b = cl_Subject (t_Claims t)" "b_apiKeyID b = 0"
      using run p x str by (auto simp: ParseBearerToken_def)
    with h k(2,3) e show ?thesis unfolding vouched_def by auto
  next
    fix i sk pk
    assume h: "t_Method t = ''RS256''" "key_in (st_db s) i = Some sk"
      "ParseRSAPublicKeyFromPEM lib (sk_publicKeyPEM sk) = Some pk" "k = PublicKey pk" "cap = Some (sk_username sk, i)"
    then have b: "b_username b = sk_username sk" "b_apiKeyID b = i" "TokenWithinLifetime (t_Claims t)"
      using run p x str v by (auto simp: ParseBearerToken_def split: if_splits)
    from key_in_row [OF h(2)] b(1,2) h k(2) obtain row where
      "row \<in> set (t_api_keys (st_db s)) \<and> k_ID row = b_apiKeyID b \<and> k_RevokedAt row = None \<and> k_Username row = b_username b \<and>
       ParseRSAPublicKeyFromPEM lib (k_PublicKeyPEM row) = Some pk \<and> verifies t (PublicKey pk) (bearer_token r)"
      by force
    moreover from b(3) k(3) obtain issued where "cl_IssuedAt (t_Claims t) = Some issued" "e - issued \<le> 15 * minute"
      by (auto simp: TokenWithinLifetime_def maxAPIKeyTokenLifetime_def split: option.splits)
    ultimately show ?thesis unfolding vouched_def using k(3) e h(1) by blast
  qed
qed

text \<open>A library for the examples: a token is its subject, or \<open>k30\<close> for one signed with the key of the example row.\<close>

definition ex_token :: "string \<Rightarrow> jwtToken" where
  "ex_token str =
     (if str = ''k30'' then \<lparr>t_Method = ''RS256'', t_kid = Some (KidString ''30''),
        t_Claims = \<lparr>cl_Subject = [], cl_IssuedAt = Some 900, cl_ExpiresAt = Some 5000\<rparr>\<rparr>
      else \<lparr>t_Method = ''HS256'', t_kid = None,
        t_Claims = \<lparr>cl_Subject = str, cl_IssuedAt = Some 900, cl_ExpiresAt = Some 5000\<rparr>\<rparr>)"

definition ex_verifies :: "jwtToken \<Rightarrow> unit jwtKey \<Rightarrow> string \<Rightarrow> bool" where
  "ex_verifies t k str \<longleftrightarrow> t = ex_token str \<and> str \<noteq> [] \<and>
     (case k of SecretKey sec \<Rightarrow> t_Method t = ''HS256'' \<and> sec = ''s3cret'' | PublicKey _ \<Rightarrow> t_Method t = ''RS256'')"

definition ex_jwtParse :: "string \<Rightarrow> (jwtToken \<Rightarrow> ('w, unit jwtKey) kst) \<Rightarrow> ('w, jwtToken) kst" where
  "ex_jwtParse str kf st =
     (case kf (ex_token str) st of
        (Inl e, st') \<Rightarrow> (Inl e, st')
      | (Inr k, st') \<Rightarrow>
          if ex_verifies (ex_token str) k str \<and> clock (snd st) < 5000 then (Inr (ex_token str), st')
          else (Inl (OpaqueErr ''token is invalid''), st'))"

definition ex_jwt :: "(unit, 'w) jwtlib" where
  "ex_jwt = \<lparr>jwtParse = ex_jwtParse, jwtSign = (\<lambda>_ c. Inr (cl_Subject c)), ParseRSAPublicKeyFromPEM = (\<lambda>_. Some ())\<rparr>"

lemma ex_jwt_contract: "jwt_contract ex_verifies ex_jwt"
proof -
  have "cl_ExpiresAt (t_Claims (ex_token str)) = Some 5000" for str by (simp add: ex_token_def)
  then show ?thesis
    by (auto simp: jwt_contract_def ex_jwt_def ex_jwtParse_def split: prod.splits sum.splits if_splits intro: sym)
      (metis snd_conv)+
qed

definition bearing :: "string \<Rightarrow> request \<Rightarrow> request" where
  "bearing str r = r\<lparr>HeaderGet := (\<lambda>h. if h = ''Authorization'' then ''Bearer '' @ str else [])\<rparr>"

text \<open>
  C10. A valid bearer token is vouched for: with the documented contract of the JWT library and coherent caches, a token that
  \<open>ParseBearerToken\<close> accepts is unexpired and either carries a signature by the server's secret, and then the identity is its
  subject, or one by the public key of a row of \<open>api_keys\<close> that is not revoked, and then the identity is the row's owner
  and the token lives for at most 15 minutes. A refused token gives no identity, and nothing but last-used times changes.
\<close>

theorem ParseBearerToken_sound:
  assumes "jwt_contract verifies lib" and "caches_coherent s" and "ParseBearerToken env lib secret r s = (b, s')"
  shows "(if b_valid b then vouched verifies lib secret (st_db s) (clock s) (bearer_token r) (b_username b) (b_apiKeyID b)
          else b_username b = [] \<and> b_apiKeyID b = 0) \<and>
     (b_hadToken b \<longleftrightarrow> bearer_token r \<noteq> []) \<and> caches_coherent s' \<and> touched (st_db s) (st_db s')"
  using ParseBearerToken_run [OF assms] by simp

theorem ParseBearerToken_sound_witness:
  "(let b = fst (ParseBearerToken ex_env ex_jwt ''s3cret'' (bearing ''k30'' (ex_request [] None)) ex_store)
    in b_username b = ''bob'' \<and> b_apiKeyID b = 30) \<and>
   vouched ex_verifies (ex_jwt :: (unit, unit) jwtlib) ''s3cret'' ex_db 1000 ''k30'' ''bob'' 30"
proof -
  let ?p = "ParseBearerToken ex_env ex_jwt ''s3cret'' (bearing ''k30'' (ex_request [] None)) ex_store"
  have run: "b_username (fst ?p) = ''bob''" "b_apiKeyID (fst ?p) = 30" "b_valid (fst ?p)"
    "bearer_token (bearing ''k30'' (ex_request [] None)) = ''k30''"
    by code_simp+
  from ParseBearerToken_sound [OF ex_jwt_contract caches_coherent_ex surjective_pairing,
      of ex_env "''s3cret''" "bearing ''k30'' (ex_request [] None)"] run
  show ?thesis by simp
qed

end
