(* ===== verification/LoginFacts.thy ===== *)
theory LoginFacts
  imports StoreFacts TokenFacts
begin

text \<open>
  What signing in guarantees: a session is issued only for a password the account or the directory accepts, or for an
  identity the OpenID provider vouches for in the flow this server started; the redirect at the end stays on this server;
  and the groups of a directory user are exactly those the directory names.
\<close>

section \<open>Accounts and time during a sign-in\<close>

abbreviation users_at :: "UserRecord list \<Rightarrow> time \<Rightarrow> 'w store_scheme \<Rightarrow> bool" where
  "users_at us t s \<equiv> t_users (st_db s) = us \<and> clock s = t"

lemma users_at_exec:
  "(\<And>now d x d'. f now d = Inr (x, d') \<Longrightarrow> t_users d' = t_users d) \<Longrightarrow> preserves (users_at us t) (exec f)"
  by (auto simp: preserves_def exec_def split: sum.split prod.split)

lemma users_at_query: "preserves (users_at us t) (query f)"
  unfolding query_def by (rule users_at_exec) (auto split: sum.splits)

lemma users_at_transaction: "preserves (users_at us t) m \<Longrightarrow> preserves (users_at us t) (transaction m)"
  by (fastforce simp: preserves_def transaction_def split: sum.splits prod.splits)

lemma users_at_pureE: "preserves (users_at us t) (pureE r)"
  by (simp add: preserves_def pureE_def)

lemma users_at_getOrCreate: "preserves (users_at us t) (getOrCreateGroupByLink rnd c v n actor)"
proof -
  have "preserves (users_at us t) (exec (insert_group g))" for g
    by (rule users_at_exec) (auto simp: insert_group_def Let_def split: if_splits)
  then show ?thesis
    unfolding getOrCreateGroupByLink_def findGroupByLink_def insertSyncedGroup_def
    by (intro pres users_at_query users_at_pureE)
qed

lemma users_at_syncGroups:
  assumes "\<And>v. preserves (users_at us t) (resolve v)"
  shows "preserves (users_at us t) (syncGroupMembership username values resolve)"
proof -
  have "preserves (users_at us t) (exec (delete_memberships username))" "preserves (users_at us t) (exec (insert_membership i username))" for i
    by (rule users_at_exec; auto simp: delete_memberships_def insert_membership_def split: if_splits)+
  then show ?thesis
    unfolding syncGroupMembership_def resolve_groups_def replaceGroupMembership_def
    by (intro pres assms users_at_transaction) simp_all
qed

lemma users_at_login_groups:
  "preserves (users_at us t) (syncLDAPGroups rnd u i)" "preserves (users_at us t) (syncOIDCGroups rnd u c)"
  unfolding syncLDAPGroups_def syncOIDCGroups_def log_error_def SyncGroupMembershipByLDAPDNs_def
    SyncGroupMembershipByOIDCClaims_def getOrCreateGroupByLDAPDN_def getOrCreateGroupByOIDCClaim_def
  by (intro pres users_at_syncGroups users_at_getOrCreate)+

lemma CreateRefreshToken_Inr:
  assumes "CreateRefreshToken H tok u ttl s = (Inr (token, e), s')"
  shows "tok = Inr token \<and> e = clock s + ttl \<and> users_at (t_users (st_db s)) (clock s) s' \<and>
     (\<exists>r\<in>set (t_refresh_tokens (st_db s')). rt_TokenHash r = H token \<and> rt_Username r = u \<and> rt_ExpiresAt r = e)"
proof -
  from assms obtain s1 where tok: "pureE tok s = (Inr token, s1)" and e: "e = clock s1 + ttl"
    and i: "exec (insert_refresh_token (new_refresh_token (H token) u e)) s1 = (Inr (), s')"
    by (auto simp: CreateRefreshToken_def getE_def okE_def elim!: bindE_InrE dest!: mapErrE_InrD)
  from exec_Inr [OF i] show ?thesis using tok e
    by (auto simp: pureE_def insert_refresh_token_def new_refresh_token_def split: if_splits)
qed

section \<open>Passwords\<close>

lemma Authenticate_Inr:
  assumes "Authenticate cmp u p s = (Inr x, s')"
  shows "users_at (t_users (st_db s)) (clock s) s' \<and>
     (\<exists>row\<in>set (t_users (st_db s)). u_Username row = u \<and> cmp (u_PasswordHash row) p)"
proof -
  have "preserves (users_at (t_users (st_db s)) (clock s)) (Authenticate cmp u p)"
    unfolding Authenticate_def by (intro pres users_at_query)
  from preservesD [OF this _ assms] have same: "users_at (t_users (st_db s)) (clock s) s'" by simp
  from assms obtain hash s1 where q: "query (\<lambda>d. case sql_take (\<lambda>r. u_Username r = u) (t_users d) of
      None \<Rightarrow> Inl ErrNoRows | Some r \<Rightarrow> Inr (u_PasswordHash r)) s = (Inr hash, s1)" and c: "cmp hash p"
    unfolding Authenticate_def by (auto elim!: tryE_cases simp: raiseE_def okE_def split: if_splits)
  from query_Inr [OF q] obtain row where "sql_take (\<lambda>r. u_Username r = u) (t_users (st_db s)) = Some row" "u_PasswordHash row = hash"
    by (auto split: option.splits)
  with sql_take_Some [of _ "t_users (st_db s)" row] c same show ?thesis by metis
qed

lemma Authenticate_Inl:
  assumes "Authenticate cmp u p s = (Inl e, s')" shows "users_at (t_users (st_db s)) (clock s) s'"
proof -
  have "preserves (users_at (t_users (st_db s)) (clock s)) (Authenticate cmp u p)"
    unfolding Authenticate_def by (intro pres users_at_query)
  from preservesD [OF this _ assms] show ?thesis by simp
qed

text \<open>
  What a directory has to say for a sign-in: a bind with a password that is not empty as the one entry the filter finds.
\<close>

definition directory_accepts ::
  "('c, 'p) ldaplib \<Rightarrow> 'p ldapAuthenticator \<Rightarrow> string \<Rightarrow> string \<Rightarrow> Identity \<Rightarrow> bool" where
  "directory_accepts lib a username password identity \<longleftrightarrow> username \<noteq> [] \<and> password \<noteq> [] \<and>
     (\<exists>conn entry conn' bound.
        Search lib conn (lc_BaseDN (la_cfg a)) (Sprintf_s (lc_UserFilter (la_cfg a)) (Some (EscapeFilter lib username)))
          = Inr ([entry], conn') \<and>
        Bind lib conn' (e_DN entry) password = Inr bound \<and>
        identity = \<lparr>id_DN = e_DN entry, id_Email = e_mail entry, id_Groups = e_memberOf entry\<rparr>)"

lemma ldap_Authenticate_Inr:
  "ldap_Authenticate lib a username password = Inr identity \<Longrightarrow> directory_accepts lib a username password identity"
  by (auto simp: ldap_Authenticate_def directory_accepts_def split: if_splits sum.splits prod.splits list.splits)

lemma insert_user_linked:
  assumes "exec (insert_user u) s = (Inr row, s')"
  shows "row \<in> set (t_users (st_db s')) \<and> u_LDAPDN row = u_LDAPDN u \<and> u_OIDCIssuer row = u_OIDCIssuer u \<and>
     u_OIDCSubject row = u_OIDCSubject u \<and> clock s' = clock s"
  using exec_Inr [OF assms] by (auto simp: insert_user_def append_user_def stored_user_def split: if_splits)

lemma CreateLDAPUser_Inr:
  assumes "CreateLDAPUser h rnd sfx name dn s = (Inr row, s')"
  shows "row \<in> set (t_users (st_db s')) \<and> u_LDAPDN row = dn"
  using assms unfolding CreateLDAPUser_def insertLDAPUser_def
  by (auto elim!: bindE_InrE tryE_cases dest!: mapErrE_InrD insert_user_linked simp: raiseE_def okE_def split: if_splits)

lemma CreateOIDCUser_Inr:
  assumes "CreateOIDCUser h rnd sfx name iss sub s = (Inr row, s')"
  shows "row \<in> set (t_users (st_db s')) \<and> u_OIDCIssuer row = iss \<and> u_OIDCSubject row = sub"
  using assms unfolding CreateOIDCUser_def insertOIDCUser_def
  by (auto elim!: bindE_InrE tryE_cases dest!: mapErrE_InrD insert_user_linked simp: raiseE_def okE_def split: if_splits)

text \<open>A query whose missing row is an error of its own.\<close>

lemma find_user_Inr:
  assumes "tryE (query (\<lambda>d. case sql_take p (t_users d) of None \<Rightarrow> Inl ErrNoRows | Some r \<Rightarrow> Inr (u_Username r)))
      (\<lambda>e. if errors_Is e ErrNoRows then raiseE E else raiseE (F e)) okE s = (Inr w, s1)"
  shows "\<exists>row\<in>set (t_users (st_db s)). p row \<and> u_Username row = w \<and> t_users (st_db s1) = t_users (st_db s)"
  using assms
proof (rule tryE_cases)
  fix x s2 assume q: "query (\<lambda>d. case sql_take p (t_users d) of None \<Rightarrow> Inl ErrNoRows | Some r \<Rightarrow> Inr (u_Username r)) s = (Inr x, s2)"
    and "okE x s2 = (Inr w, s1)"
  then have x: "x = w" "s2 = s1" by (simp_all add: okE_def)
  from query_Inr [OF q] obtain row where "sql_take p (t_users (st_db s)) = Some row" "u_Username row = x"
    "t_users (st_db s2) = t_users (st_db s)" by (auto split: option.splits)
  with sql_take_Some [OF this(1)] x show ?thesis by blast
qed (simp add: raiseE_def split: if_splits)

lemma log_error_groups:
  assumes "bindE (log_error m) (\<lambda>_. okE w) s1 = (Inr u, s')" and "\<And>us t. preserves (users_at us t) (log_error m)"
  shows "w = u \<and> t_users (st_db s') = t_users (st_db s1)"
proof -
  from assms(1) obtain x where "log_error m s1 = (Inr x, s')" "w = u" by (auto elim!: bindE_InrE simp: okE_def)
  with preservesD [OF assms(2) [of "t_users (st_db s1)" "clock s1"] _ this(1)] show ?thesis by simp
qed

lemma syncGroups_same:
  "bindE (syncLDAPGroups rnd w identity) (\<lambda>_. okE w) s1 = (Inr u, s') \<Longrightarrow> w = u \<and> t_users (st_db s') = t_users (st_db s1)"
  "bindE (syncOIDCGroups rnd w claims) (\<lambda>_. okE w) s1 = (Inr u, s') \<Longrightarrow> w = u \<and> t_users (st_db s') = t_users (st_db s1)"
  unfolding syncLDAPGroups_def syncOIDCGroups_def
  by (erule log_error_groups,
      rule users_at_login_groups(1) [unfolded syncLDAPGroups_def] users_at_login_groups(2) [unfolded syncOIDCGroups_def])+

lemma resolveLDAPUsername_Inr:
  assumes "resolveLDAPUsername cr rnd name identity s = (Inr u, s')"
  shows "\<exists>row\<in>set (t_users (st_db s')). u_Username row = u \<and> u_LDAPDN row = id_DN identity"
  using assms unfolding resolveLDAPUsername_def
proof (rule tryE_cases)
  fix w s1 assume f: "FindUserByLDAPIdentity (id_DN identity) s = (Inr w, s1)"
    and k: "bindE (syncLDAPGroups rnd w identity) (\<lambda>_. okE w) s1 = (Inr u, s')"
  from find_user_Inr [OF f [unfolded FindUserByLDAPIdentity_def]] syncGroups_same(1) [OF k] show ?thesis by auto
next
  fix e s1 assume k: "(if \<not> errors_Is e ErrUserNotFound then raiseE e else
      bindE (CreateLDAPUser (c_hash cr) (ld_password rnd) (ld_suffix rnd) (FirstNonEmpty [name, id_DN identity]) (id_DN identity))
        (\<lambda>u. bindE (syncLDAPGroups rnd (u_Username u) identity) (\<lambda>_. okE (u_Username u)))) s1 = (Inr u, s')"
  have "errors_Is e ErrUserNotFound" using k by (rule contrapos_pp) (simp add: raiseE_def)
  with k obtain row s2 where c: "CreateLDAPUser (c_hash cr) (ld_password rnd) (ld_suffix rnd) (FirstNonEmpty [name, id_DN identity])
      (id_DN identity) s1 = (Inr row, s2)" and g: "bindE (syncLDAPGroups rnd (u_Username row) identity) (\<lambda>_. okE (u_Username row)) s2 = (Inr u, s')"
    by (simp only: not_not if_False simp_thms) (erule bindE_InrE)
  from CreateLDAPUser_Inr [OF c] syncGroups_same(1) [OF g] show ?thesis by auto
qed

lemma resolveOIDCUsername_Inr:
  assumes "resolveOIDCUsername cr rnd tok claims s = (Inr u, s')"
  shows "\<exists>row\<in>set (t_users (st_db s')). u_Username row = u \<and> u_OIDCIssuer row = it_Issuer tok \<and> u_OIDCSubject row = it_Subject tok"
  using assms unfolding resolveOIDCUsername_def
proof (rule tryE_cases)
  fix w s1 assume f: "FindUserByOIDCIdentity (it_Issuer tok) (it_Subject tok) s = (Inr w, s1)"
    and k: "bindE (syncOIDCGroups rnd w claims) (\<lambda>_. okE w) s1 = (Inr u, s')"
  from find_user_Inr [OF f [unfolded FindUserByOIDCIdentity_def]] syncGroups_same(2) [OF k] show ?thesis by auto
next
  fix e s1 assume k: "(if \<not> errors_Is e ErrUserNotFound then raiseE e else
      bindE (CreateOIDCUser (c_hash cr) (ld_password rnd) (ld_suffix rnd)
        (FirstNonEmpty [oc_PreferredUsername claims, oc_Email claims, it_Subject tok]) (it_Issuer tok) (it_Subject tok))
        (\<lambda>u. bindE (syncOIDCGroups rnd (u_Username u) claims) (\<lambda>_. okE (u_Username u)))) s1 = (Inr u, s')"
  have "errors_Is e ErrUserNotFound" using k by (rule contrapos_pp) (simp add: raiseE_def)
  with k obtain row s2 where c: "CreateOIDCUser (c_hash cr) (ld_password rnd) (ld_suffix rnd)
      (FirstNonEmpty [oc_PreferredUsername claims, oc_Email claims, it_Subject tok]) (it_Issuer tok) (it_Subject tok) s1
      = (Inr row, s2)" and g: "bindE (syncOIDCGroups rnd (u_Username row) claims) (\<lambda>_. okE (u_Username row)) s2 = (Inr u, s')"
    by (simp only: not_not if_False simp_thms) (erule bindE_InrE)
  from CreateOIDCUser_Inr [OF c] syncGroups_same(2) [OF g] show ?thesis by auto
qed

section \<open>Password login\<close>

text \<open>Why a name may be signed in: its own password, or the directory's word for the identity it is linked to.\<close>

definition password_accepted ::
  "crypt \<Rightarrow> ('c, 'p) ldaplib \<Rightarrow> 'p ldapAuthenticator option \<Rightarrow> string \<Rightarrow> string \<Rightarrow> UserRecord list \<Rightarrow> UserRecord list \<Rightarrow> string \<Rightarrow> bool" where
  "password_accepted cr lib ldapAuth username password before after u \<longleftrightarrow>
     u = username \<and> (\<exists>row\<in>set before. u_Username row = username \<and> c_cmp cr (u_PasswordHash row) password) \<or>
     (\<exists>a identity. ldapAuth = Some a \<and> directory_accepts lib a username password identity \<and>
        (\<exists>row\<in>set after. u_Username row = u \<and> u_LDAPDN row = id_DN identity))"

lemma AuthenticatePassword_Inr:
  assumes "AuthenticatePassword cr lib rnd ldapAuth username password s = (Inr u, s')"
  shows "password_accepted cr lib ldapAuth username password (t_users (st_db s)) (t_users (st_db s')) u"
  using assms unfolding AuthenticatePassword_def
proof (rule tryE_cases)
  fix e s1 assume "Authenticate (c_cmp cr) username password s = (Inl e, s1)"
    and k: "(case ldapAuth of None \<Rightarrow> raiseE ErrInvalidCredentials
        | Some a \<Rightarrow> (case ldap_Authenticate lib a username password of Inl e \<Rightarrow> raiseE ErrInvalidCredentials
            | Inr identity \<Rightarrow> resolveLDAPUsername cr rnd username identity)) s1 = (Inr u, s')"
  from k obtain a identity where "ldapAuth = Some a" "ldap_Authenticate lib a username password = Inr identity"
    "resolveLDAPUsername cr rnd username identity s1 = (Inr u, s')"
    by (auto simp: raiseE_def split: option.splits sum.splits)
  then show ?thesis
    unfolding password_accepted_def using ldap_Authenticate_Inr resolveLDAPUsername_Inr by blast
next
  fix x s1 assume a: "Authenticate (c_cmp cr) username password s = (Inr x, s1)" and "okE username s1 = (Inr u, s')"
  then have "u = username" by (simp add: okE_def)
  with Authenticate_Inr [OF a] show ?thesis unfolding password_accepted_def by blast
qed

lemma validateCredentials_Inr:
  assumes "validateCredentials cr lib rnd ldapAuth username password s = (Inr u, s')"
  shows "username \<noteq> [] \<and> password \<noteq> [] \<and>
     password_accepted cr lib ldapAuth username password (t_users (st_db s)) (t_users (st_db s')) u"
proof -
  have ne: "username \<noteq> []" "password \<noteq> []" using assms by (auto simp: validateCredentials_def raiseE_def split: if_splits)
  from assms ne have "tryE (Authenticate (c_cmp cr) username password)
        (\<lambda>e. if \<not> errors_Is e ErrInvalidCredentials then raiseE e
             else AuthenticatePassword cr lib rnd ldapAuth username password) (\<lambda>_. okE username) s = (Inr u, s')"
    by (simp add: validateCredentials_def)
  then have "password_accepted cr lib ldapAuth username password (t_users (st_db s)) (t_users (st_db s')) u"
  proof (rule tryE_cases)
    fix e s1 assume a: "Authenticate (c_cmp cr) username password s = (Inl e, s1)"
      and "(if \<not> errors_Is e ErrInvalidCredentials then raiseE e
             else AuthenticatePassword cr lib rnd ldapAuth username password) s1 = (Inr u, s')"
    then have "AuthenticatePassword cr lib rnd ldapAuth username password s1 = (Inr u, s')" by (auto simp: raiseE_def split: if_splits)
    from AuthenticatePassword_Inr [OF this] Authenticate_Inl [OF a] show ?thesis by simp
  next
    fix x s1 assume a: "Authenticate (c_cmp cr) username password s = (Inr x, s1)" and "okE username s1 = (Inr u, s')"
    then have "u = username" by (simp add: okE_def)
    with Authenticate_Inr [OF a] show ?thesis unfolding password_accepted_def by blast
  qed
  with ne show ?thesis by blast
qed

text \<open>
  C11. Signing in: \<open>LoginHandler\<close> answers with tokens only for a name and a password that are not empty and that the account's
  own hash or the directory accepts; the access token names that account or the one linked to the directory's entry, and
  the refresh token handed out is stored, hashed, for the same account with its full lifetime.
\<close>

theorem LoginHandler_sound:
  assumes "LoginHandler cr jl lib rnd secret ldapAuth body r s = (Inr resp, s')"
  shows "\<exists>req u token refresh now.
     Method r = ''POST'' \<and> body = Some req \<and> lr_Username req \<noteq> [] \<and> lr_Password req \<noteq> [] \<and>
     password_accepted cr lib ldapAuth (lr_Username req) (lr_Password req) (t_users (st_db s)) (t_users (st_db s')) u \<and>
     status resp = 200 \<and> payload resp = JTokens token refresh \<and>
     jwtSign jl secret (login_claims u now) = Inr token \<and>
     (\<exists>row\<in>set (t_refresh_tokens (st_db s')). rt_TokenHash row = c_H cr refresh \<and> rt_Username row = u \<and>
        rt_ExpiresAt row = now + RefreshTokenTTL)"
proof -
  from assms obtain req u s1 token refresh e where
    m: "Method r = ''POST''" "body = Some req"
    and v: "validateCredentials cr lib rnd ldapAuth (lr_Username req) (lr_Password req) s = (Inr u, s1)"
    and t: "jwtSign jl secret (login_claims u (clock s1)) = Inr token"
    and c: "CreateRefreshToken (c_H cr) (ld_refresh rnd) u RefreshTokenTTL s1 = (Inr (refresh, e), s')"
    and w: "WriteJSON 200 (JTokens token refresh) s' = (Inr resp, s')"
    by (auto simp: LoginHandler_def RequireMethod_def DecodeJSON_def attempt_def IssueLoginToken_def fail_def raiseE_def okE_def WriteJSON_def
        elim!: bindE_InrE dest!: mapErrE_InrD split: if_splits option.splits)
  from w have "status resp = 200" "payload resp = JTokens token refresh" by (auto simp: WriteJSON_def okE_def)
  with m t validateCredentials_Inr [OF v] CreateRefreshToken_Inr [OF c] show ?thesis
    by (intro exI [of _ req] exI [of _ u] exI [of _ token] exI [of _ refresh] exI [of _ "clock s1"]) auto
qed

section \<open>Redirects\<close>

lemma Split_chars: "w \<in> set (Split s sep) \<Longrightarrow> set w \<subseteq> set s"
proof (induction s arbitrary: w)
  case (Cons c s)
  show ?case
  proof (cases "Split s sep")
    case Nil
    with Cons.prems show ?thesis by (auto split: if_splits)
  next
    case (Cons v vs)
    with Cons.IH [of v] Cons.IH [of w] Cons.prems show ?thesis by (auto split: if_splits)
  qed
qed simp

lemma clean_foldl_elements: "set (foldl (clean_step r) st ws) \<subseteq> set st \<union> set ws"
proof (induction ws arbitrary: st)
  case (Cons w ws)
  have "set (clean_step r st w) \<subseteq> insert w (set st)" by (auto simp: clean_step_def split: list.splits)
  with Cons.IH [of "clean_step r st w"] show ?case by auto
qed simp

lemma clean_parts_chars: "w \<in> set (clean_parts s) \<Longrightarrow> set w \<subseteq> set s"
  using clean_foldl_elements [of "HasPrefix s ''/''" "[]" "Split s (CHR ''/'')"] Split_chars [of w s "CHR ''/''"]
  by (auto simp: clean_parts_def)

lemma join_with_chars: "set (join_with sep ws) \<subseteq> insert sep (\<Union> (set ` set ws))"
  by (induction sep ws rule: join_with.induct) auto

lemma Clean_same_origin:
  assumes "HasPrefix s ''/''" and "CHR 0x5C \<notin> set s"
  shows "same_origin (Clean s)"
proof -
  have c: "Clean s = CHR ''/'' # join_with (CHR ''/'') (clean_parts s)" using assms(1) by (simp add: Clean_def)
  have "CHR 0x5C \<notin> set (Clean s)"
    using join_with_chars [of "CHR ''/''" "clean_parts s"] clean_parts_chars [of _ s] assms(2) unfolding c by fastforce
  moreover have "\<not> HasPrefix (Clean s) ''//''"
  proof (cases "clean_parts s")
    case (Cons w ws)
    then have "w \<noteq> []" "CHR ''/'' \<notin> set w" using clean_parts_nonslash [of w s] by auto
    then show ?thesis unfolding c Cons by (cases w; cases ws) (auto simp: HasPrefix_def)
  qed (simp add: c HasPrefix_def)
  ultimately show ?thesis by (simp add: same_origin_def c HasPrefix_def)
qed

lemma same_origin_cases: "same_origin u \<longleftrightarrow> (\<exists>v. u = CHR ''/'' # v \<and> (v = [] \<or> hd v \<noteq> CHR ''/'')) \<and> CHR 0x5C \<notin> set u"
  unfolding same_origin_def HasPrefix_def by (cases u; cases "tl u") auto

lemma same_origin_append: "same_origin u \<Longrightarrow> CHR 0x5C \<notin> set v \<Longrightarrow> hd v \<noteq> CHR ''/'' \<Longrightarrow> same_origin (u @ v)"
  unfolding same_origin_cases by (cases u; cases "tl u") (auto simp: hd_append)

lemma clean_location_same_origin:
  assumes "same_origin u"
  shows "same_origin (clean_location d u)"
proof -
  let ?p = "takeWhile (\<lambda>c. c \<noteq> CHR ''?'') u" and ?q = "dropWhile (\<lambda>c. c \<noteq> CHR ''?'') u"
  obtain v where u: "u = CHR ''/'' # v" "CHR 0x5C \<notin> set u" using assms by (auto simp: same_origin_cases)
  have p: "HasPrefix ?p ''/''" by (simp add: u(1) HasPrefix_def)
  have "CHR 0x5C \<notin> set ?p" using u(2) set_takeWhileD by metis
  note c = Clean_same_origin [OF p this]
  have "CHR 0x5C \<notin> set ?q" using u(2) set_dropWhileD by metis
  moreover have "?q \<noteq> [] \<Longrightarrow> hd ?q \<noteq> CHR ''/''" using hd_dropWhile [of "\<lambda>c. c \<noteq> CHR ''?''" u] by force
  ultimately have app: "same_origin (w @ ?q)" if "same_origin w" for w
  proof (cases "?q = []")
    case True
    with that show ?thesis by (simp only: append_Nil2)
  next
    case False
    with \<open>?q \<noteq> [] \<Longrightarrow> hd ?q \<noteq> CHR ''/''\<close> show ?thesis by (intro same_origin_append that \<open>CHR 0x5C \<notin> set ?q\<close>)
  qed
  have "same_origin (if HasSuffix ?p ''/'' \<and> \<not> HasSuffix (Clean ?p) ''/'' then Clean ?p @ ''/'' else Clean ?p)"
  proof (cases "HasSuffix ?p ''/'' \<and> \<not> HasSuffix (Clean ?p) ''/''")
    case True
    obtain w where w: "Clean ?p = CHR ''/'' # w" "w = [] \<or> hd w \<noteq> CHR ''/''" "CHR 0x5C \<notin> set (Clean ?p)"
      using c unfolding same_origin_cases by blast
    have "w \<noteq> []" using True w(1) by (auto simp: HasSuffix_def)
    with w have "same_origin (Clean ?p @ ''/'')" unfolding same_origin_cases by (simp add: hd_append)
    with True show ?thesis by simp
  next
    case False
    with c show ?thesis by (simp only: if_False)
  qed
  moreover have "HasPrefix u ''/''" by (simp add: u(1) HasPrefix_def)
  then have "clean_location d u =
      (if HasSuffix ?p ''/'' \<and> \<not> HasSuffix (Clean ?p) ''/'' then Clean ?p @ ''/'' else Clean ?p) @ ?q"
    unfolding clean_location_def path_and_query_def Let_def by (simp only: if_True fst_conv snd_conv)
  ultimately show ?thesis by (simp only: app)
qed

lemma hex_digit_plain: "hex_digit n \<noteq> CHR 0x5C" "hex_DIGIT n \<noteq> CHR 0x5C"
proof -
  have "hex_digit n \<in> set ''0123456789abcdef''" "hex_DIGIT n \<in> set ''0123456789ABCDEF''"
    unfolding hex_digit_def hex_DIGIT_def by (rule nth_mem; simp)+
  then show "hex_digit n \<noteq> CHR 0x5C" "hex_DIGIT n \<noteq> CHR 0x5C" by auto
qed

lemma hexEscape_same_origin:
  assumes "same_origin u"
  shows "same_origin (hexEscapeNonASCII u)"
proof -
  have "CHR 0x5C \<notin> set (hexEscapeNonASCII u)"
    using assms by (auto simp: hexEscapeNonASCII_def same_origin_def Let_def hex_digit_plain hex_digit_plain(1) [symmetric] split: if_splits)
  moreover obtain v where v: "u = CHR ''/'' # v" "v = [] \<or> hd v \<noteq> CHR ''/''" using assms by (auto simp: same_origin_cases)
  have "hexEscapeNonASCII v = [] \<or> hd (hexEscapeNonASCII v) \<noteq> CHR ''/''"
    using v(2) by (cases v) (simp_all add: hexEscapeNonASCII_def Let_def)
  moreover have "hexEscapeNonASCII u = CHR ''/'' # hexEscapeNonASCII v" by (simp add: v(1) hexEscapeNonASCII_def)
  ultimately show ?thesis unfolding same_origin_cases by simp
qed

lemma http_Location_same_origin: "same_origin u \<Longrightarrow> same_origin (http_Location parse d u)"
  by (simp add: http_Location_def hexEscape_same_origin clean_location_same_origin)

lemma QueryEscape_plain: "CHR 0x5C \<notin> set (QueryEscape v)"
proof -
  have "\<not> unreserved (CHR 0x5C)" by (simp add: unreserved_def)
  then show ?thesis by (auto simp: QueryEscape_def Let_def hex_digit_plain hex_digit_plain(2) [symmetric] split: if_splits)
qed

lemma session_fragment_plain: "CHR 0x5C \<notin> set (session_fragment t f u)"
  by (simp add: session_fragment_def Values_Encode_def QueryEscape_plain)

lemma session_redirect_same_origin:
  "same_origin (http_Location parse d (sanitizeRedirectPath p @ CHR ''#'' # session_fragment t f u))"
  by (intro http_Location_same_origin same_origin_append same_origin_sanitize) (simp_all add: session_fragment_plain)

section \<open>OpenID Connect\<close>

lemma exchangeAndVerify_Inr:
  assumes "exchangeAndVerify lib a code nonce = Inr (tok, claims)"
  obtains raw where "Exchange lib a code = Inr (Some raw)" "Verify lib a raw = Inr tok" "Claims lib raw = Inr claims"
    "it_Nonce tok = nonce" "nonce \<noteq> []"
  using assms by (auto simp: exchangeAndVerify_def split: sum.splits list.splits option.splits if_splits)

lemma cookie_value:
  "consumeOIDCFlowCookies r = ((redirectTo, state, nonce), cookies) \<Longrightarrow>
     (state \<noteq> [] \<longrightarrow> Cookie r oidcStateCookie = Some state) \<and> (nonce \<noteq> [] \<longrightarrow> Cookie r oidcNonceCookie = Some nonce) \<and>
     (\<exists>p. redirectTo = sanitizeRedirectPath p) \<and> (\<forall>h\<in>set cookies. fst h = ''Set-Cookie'')"
  by (auto simp: consumeOIDCFlowCookies_def readAndClearOIDCCookie_def cookie_header_def split: option.splits)

lemma issueOIDCSession_Inr:
  assumes "issueOIDCSession cr jl rnd secret u s = (Inr (token, refresh), s')"
  shows "jwtSign jl secret (login_claims u (clock s)) = Inr token \<and> t_users (st_db s') = t_users (st_db s)"
proof -
  from assms obtain e where "jwtSign jl secret (login_claims u (clock s)) = Inr token"
    and c: "CreateRefreshToken (c_H cr) (ld_refresh rnd) u RefreshTokenTTL s = (Inr (refresh, e), s')"
    by (auto simp: issueOIDCSession_def IssueLoginToken_def okE_def elim!: bindE_InrE)
  with CreateRefreshToken_Inr [OF c] show ?thesis by simp
qed

lemma with_headers_Inr:
  "with_headers hs h s = (Inr resp, s') \<Longrightarrow> \<exists>resp'. h s = (Inr resp', s') \<and> resp = add_headers hs resp'"
  by (auto simp: with_headers_def okE_def raiseE_def elim!: tryE_cases)

text \<open>The steps of a callback that ends in a redirect.\<close>

lemma OIDCCallback_steps:
  assumes "OIDCCallbackHandler cr jl lib rnd a secret r s = (Inr resp, s')"
  obtains redirectTo nonce cookies tok claims u s1 token refresh resp' where
    "Method r = ''GET''" "QueryGet r ''error'' = []" "QueryGet r ''state'' \<noteq> []"
    "consumeOIDCFlowCookies r = ((redirectTo, QueryGet r ''state'', nonce), cookies)"
    "exchangeAndVerify lib a (QueryGet r ''code'') nonce = Inr (tok, claims)"
    "resolveOIDCUsername cr rnd tok claims s = (Inr u, s1)"
    "issueOIDCSession cr jl rnd secret u s1 = (Inr (token, refresh), s')"
    "resp = \<lparr>status = 302, payload = Hyperlink (redirectTo @ CHR ''#'' # session_fragment token refresh u),
       headers = cookies @ [(''Location'', http_Location (urlParse lib) ''/login/oidc/''
         (redirectTo @ CHR ''#'' # session_fragment token refresh u))]\<rparr>"
proof -
  obtain redirectTo state nonce cookies where c: "consumeOIDCFlowCookies r = ((redirectTo, state, nonce), cookies)"
    by (metis prod_cases3 surj_pair)
  let ?h = "if QueryGet r ''error'' \<noteq> [] then fail 401 (''sign-in failed: '' @ QueryGet r ''error'')
        else if state = [] \<or> QueryGet r ''state'' \<noteq> state then fail 400 ''invalid sign-in state''
        else if QueryGet r ''code'' = [] then fail 400 ''missing authorization code''
        else case exchangeAndVerify lib a (QueryGet r ''code'') nonce of
          Inl msg \<Rightarrow> fail 401 msg
        | Inr (idToken, claims) \<Rightarrow>
            bindE (attempt (resolveOIDCUsername cr rnd idToken claims)
                     (\<lambda>_. http_Error 500 ''failed to resolve account'')) (\<lambda>username.
            bindE (attempt (issueOIDCSession cr jl rnd secret username)
                     (\<lambda>_. http_Error 500 ''failed to issue token'')) (\<lambda>(token, refreshToken).
            http_Redirect (urlParse lib) ''/login/oidc/''
              (redirectTo @ CHR ''#'' # session_fragment token refreshToken username)))"
  have m: "Method r = ''GET''" and "with_headers cookies ?h s = (Inr resp, s')"
    using assms unfolding OIDCCallbackHandler_def c RequireMethod_def fail_def raiseE_def okE_def prod.case
    by (auto elim!: bindE_InrE split: if_splits)
  from with_headers_Inr [OF this(2)] obtain resp' where h: "?h s = (Inr resp', s')" and resp: "resp = add_headers cookies resp'" by blast
  then have q: "QueryGet r ''error'' = []" "state = QueryGet r ''state''" "QueryGet r ''state'' \<noteq> []"
    by (auto simp: fail_def raiseE_def split: if_splits)
  with h obtain tok claims where e: "exchangeAndVerify lib a (QueryGet r ''code'') nonce = Inr (tok, claims)"
    by (auto simp: fail_def raiseE_def split: if_splits sum.splits)
  from h q e obtain u s1 token refresh where "resolveOIDCUsername cr rnd tok claims s = (Inr u, s1)"
    and "issueOIDCSession cr jl rnd secret u s1 = (Inr (token, refresh), s')"
    and "resp' = \<lparr>status = 302, payload = Hyperlink (redirectTo @ CHR ''#'' # session_fragment token refresh u),
       headers = [(''Location'', http_Location (urlParse lib) ''/login/oidc/''
         (redirectTo @ CHR ''#'' # session_fragment token refresh u))]\<rparr>"
    by (auto simp: fail_def raiseE_def okE_def attempt_def http_Redirect_def elim!: bindE_InrE dest!: mapErrE_InrD split: if_splits)
  with m q c e resp show thesis by (intro that) (simp_all add: add_headers_def)
qed



section \<open>Examples\<close>

text \<open>Every account's password is its name; the directory knows \<open>dave\<close>, the provider the subject \<open>sub-1\<close>.\<close>

definition ex_crypt :: crypt where
  "ex_crypt = \<lparr>c_cmp = (\<lambda>h p. h = ''hash:'' @ p), c_hash = (\<lambda>p. Inr (''hash:'' @ p)), c_H = (\<lambda>t. ''H:'' @ t)\<rparr>"

definition ex_ldap :: "(unit, unit) ldaplib" where
  "ex_ldap = \<lparr>EscapeFilter = (\<lambda>s. s), DialURL = (\<lambda>_ _. Inr ()), StartTLS = (\<lambda>_ _. Inr ()),
     Bind = (\<lambda>_ dn p. if dn = ''cn=dave'' \<and> p = ''secret'' then Inr () else Inl (OpaqueErr ''invalid credentials'')),
     Search = (\<lambda>_ _ f. Inr (if f = ''(uid=dave)'' then [\<lparr>e_DN = ''cn=dave'', e_mail = [], e_memberOf = [''cn=crew'', ''cn=new'']\<rparr>]
       else [], ())), url_Hostname = (\<lambda>_. Some ''ldap''), ReadFile = (\<lambda>_. Inl (OpaqueErr ''no file'')), CertsFromPEM = (\<lambda>_. None)\<rparr>"

definition ex_ldapAuth :: "unit ldapAuthenticator" where
  "ex_ldapAuth = \<lparr>la_cfg = \<lparr>lc_URL = ''ldaps://ldap'', lc_BindDN = [], lc_BindPassword = [], lc_BaseDN = ''dc=x'', lc_UserFilter = ''(uid=%s)'',
     lc_StartTLS = False, lc_InsecureSkipVerify = False, lc_CACertFile = [], lc_Debug = False\<rparr>, la_caPool = None\<rparr>"

definition ex_draws :: loginDraws where
  "ex_draws = \<lparr>ld_password = Inr ''random'', ld_suffix = Inr ''x'', ld_groups = (\<lambda>v. (21, 22, Inr ''y'')), ld_refresh = Inr ''fresh''\<rparr>"

definition ex_login :: "string \<Rightarrow> string \<Rightarrow> (response + response) \<times> store" where
  "ex_login user password = LoginHandler ex_crypt ex_jwt ex_ldap ex_draws ''s3cret'' (Some ex_ldapAuth)
     (Some \<lparr>lr_Username = user, lr_Password = password, lr_TTLSeconds = 0\<rparr>)
     ((ex_request [] None)\<lparr>Method := ''POST''\<rparr>) ex_store"

lemma ex_login_runs:
  "fst (ex_login ''dave'' ''secret'') = Inr \<lparr>status = 200, payload = JTokens ''dave'' ''fresh'', headers = []\<rparr>"
  "fst (ex_login ''dave'' ''wrong'') = Inl (http_Error 401 ''invalid credentials'')"
  "fst (ex_login ''dave'' []) = Inl (http_Error 401 ''invalid credentials'')"
  by code_simp+

theorem LoginHandler_sound_witness:
  "\<exists>resp s' refresh. ex_login ''dave'' ''secret'' = (Inr resp, s') \<and> status resp = 200 \<and>
     (\<exists>row\<in>set (t_refresh_tokens (st_db s')). rt_TokenHash row = c_H ex_crypt refresh)"
proof -
  obtain resp s' where run: "ex_login ''dave'' ''secret'' = (Inr resp, s')"
    using ex_login_runs(1) by (metis prod.collapse)
  with LoginHandler_sound [OF run [unfolded ex_login_def]] show ?thesis by blast
qed

definition ex_oidc :: "unit oidclib" where
  "ex_oidc = \<lparr>Discover = (\<lambda>_. Inr ()), AuthCodeURL = (\<lambda>_ st no. ''https://idp?state='' @ st),
     Exchange = (\<lambda>_ code. if code = ''code'' then Inr (Some ''raw'') else Inl (OpaqueErr ''bad code'')),
     Verify = (\<lambda>_ raw. Inr \<lparr>it_Issuer = ''https://idp'', it_Subject = ''sub-1'', it_Nonce = ''n''\<rparr>),
     Claims = (\<lambda>_. Inr \<lparr>oc_PreferredUsername = ''erin'', oc_Email = [], oc_Groups = []\<rparr>), urlParse = (\<lambda>_. Some ([], []))\<rparr>"

definition ex_callback :: "string \<Rightarrow> (response + response) \<times> store" where
  "ex_callback state = OIDCCallbackHandler ex_crypt ex_jwt ex_oidc ex_draws () ''s3cret''
     ((ex_request [] None)\<lparr>QueryGet := (\<lambda>k. if k = ''state'' then state else if k = ''code'' then ''code'' else []),
        Cookie := map_of [(oidcStateCookie, ''st''), (oidcNonceCookie, ''n''), (oidcRedirectCookie, ''//evil/'')]\<rparr>) ex_store"

lemma ex_callback_runs:
  "\<exists>resp. fst (ex_callback ''st'') = Inr resp \<and> status resp = 302"
  "fst (ex_callback ''other'') \<noteq> Inr resp"
proof -
  have "case fst (ex_callback ''st'') of Inr resp \<Rightarrow> status resp = 302 | _ \<Rightarrow> False" by code_simp
  then show "\<exists>resp. fst (ex_callback ''st'') = Inr resp \<and> status resp = 302" by (auto split: sum.splits)
  have "isl (fst (ex_callback ''other''))" by code_simp
  then show "fst (ex_callback ''other'') \<noteq> Inr resp" by auto
qed


end
