(* ===== verification/MembershipFacts.thy ===== *)
theory MembershipFacts
  imports LoginFacts
begin

text \<open>
  The groups of a directory user: after a synchronisation the memberships are exactly those the directory names, groups it
  names for the first time exist with no permission, and nobody else's membership has changed.
\<close>

section \<open>Resolving one value\<close>

text \<open>Groups are only added; what came before stays.\<close>

definition extends :: "'w store_scheme \<Rightarrow> 'w store_scheme \<Rightarrow> bool" where
  "extends s s' \<longleftrightarrow> set (t_groups (st_db s)) \<subseteq> set (t_groups (st_db s')) \<and>
     t_group_members (st_db s') = t_group_members (st_db s)"

lemma extends_refl: "extends s s"
  by (simp add: extends_def)

lemma extends_trans: "extends a b \<Longrightarrow> extends b c \<Longrightarrow> extends a c"
  by (auto simp: extends_def)

abbreviation resolves :: "linkColumn \<Rightarrow> string \<Rightarrow> uuid \<Rightarrow> 'w store_scheme \<Rightarrow> bool" where
  "resolves c v i s \<equiv> \<exists>g\<in>set (t_groups (st_db s)). link_of c g = v \<and> g_ID g = i"

lemma findGroupByLink_Inr:
  assumes "findGroupByLink c v s = (Inr i, s')"
  shows "resolves c v i s' \<and> extends s s'"
  using assms unfolding findGroupByLink_def
proof (rule tryE_cases)
  fix x s1 assume q: "query (\<lambda>d. case sql_take (\<lambda>g. link_of c g = v) (t_groups d) of None \<Rightarrow> Inl ErrNoRows | Some g \<Rightarrow> Inr (g_ID g)) s
      = (Inr x, s1)" and "okE x s1 = (Inr i, s')"
  then have x: "x = i" "s1 = s'" by (simp_all add: okE_def)
  from query_Inr [OF q] obtain g where "sql_take (\<lambda>g. link_of c g = v) (t_groups (st_db s)) = Some g" "g_ID g = x" "st_db s1 = st_db s"
    by (auto split: option.splits)
  with sql_take_Some [OF this(1)] x show ?thesis by (auto simp: extends_def)
qed (simp add: raiseE_def split: if_splits)

lemma findGroupByLink_same: "findGroupByLink c v s = (r, s') \<Longrightarrow> st_db s' = st_db s"
proof -
  have "preserves (\<lambda>t. st_db t = st_db s) (findGroupByLink c v)"
    unfolding findGroupByLink_def by (intro pres preserves_query) simp_all
  then show "findGroupByLink c v s = (r, s') \<Longrightarrow> st_db s' = st_db s" by (auto dest: preservesD)
qed

lemma insertSyncedGroup_Inr:
  assumes "insertSyncedGroup uid c v name actor s = (Inr i, s')"
  shows "resolves c v i s' \<and> extends s s'"
proof -
  from assms obtain g where e: "exec (insert_group (synced_group uid c v name actor)) s = (Inr g, s')" and "i = uid"
    by (auto simp: insertSyncedGroup_def okE_def elim!: bindE_InrE)
  with exec_Inr [OF e] show ?thesis
    by (auto simp: insert_group_def Let_def synced_group_def new_group_def link_of_def extends_def split: if_splits linkColumn.splits)
qed

lemma insertSyncedGroup_same:
  assumes "insertSyncedGroup uid c v name actor s = (Inl e, s')" shows "st_db s' = st_db s"
proof -
  have "tryE (exec (insert_group (synced_group uid c v name actor))) raiseE (\<lambda>_. okE uid) s = (Inl e, s')"
    using assms by (simp add: insertSyncedGroup_def bindE_def)
  then show ?thesis
    by (rule tryE_cases) (auto simp: raiseE_def okE_def dest: exec_Inl)
qed

text \<open>An operation that yields the group linked to the value, and changes nothing when it fails.\<close>

definition settles :: "linkColumn \<Rightarrow> string \<Rightarrow> ('w, uuid) sto \<Rightarrow> bool" where
  "settles c v m \<longleftrightarrow> (\<forall>s i s'. m s = (Inr i, s') \<longrightarrow> resolves c v i s' \<and> extends s s')"

lemma settles_retry:
  assumes "settles c v m" and "atomic m" and "\<And>e. settles c v (h e)"
  shows "settles c v (tryE m h okE)"
  unfolding settles_def
proof (intro allI impI)
  fix s i s' assume "tryE m h okE s = (Inr i, s')"
  then show "resolves c v i s' \<and> extends s s'"
  proof (rule tryE_cases)
    fix e s1 assume m: "m s = (Inl e, s1)" and "h e s1 = (Inr i, s')"
    then have "resolves c v i s' \<and> extends s1 s'" using assms(3) unfolding settles_def by blast
    moreover have "st_db s1 = st_db s" using m assms(2) unfolding atomic_def by blast
    ultimately show ?thesis by (simp add: extends_def)
  next
    fix x s1 assume "m s = (Inr x, s1)" and "okE x s1 = (Inr i, s')"
    then show ?thesis using assms(1) unfolding settles_def by (simp add: okE_def)
  qed
qed

lemma settles_rules:
  "settles c v (raiseE e)" "settles c v m \<Longrightarrow> settles c v n \<Longrightarrow> settles c v (if b then m else n)"
  "settles c v m \<Longrightarrow> settles c v (mapErrE f m)"
  "(\<And>x. settles c v (k x)) \<Longrightarrow> settles c v (bindE (pureE r) k)"
  by (auto simp: settles_def raiseE_def pureE_def dest!: mapErrE_InrD elim!: bindE_InrE)

lemma settles_statements: "settles c v (findGroupByLink c v)" "settles c v (insertSyncedGroup uid c v name actor)"
  unfolding settles_def using findGroupByLink_Inr insertSyncedGroup_Inr by blast+

lemma atomic_statements: "atomic (findGroupByLink c v)" "atomic (insertSyncedGroup uid c v name actor)"
  unfolding atomic_def using findGroupByLink_same insertSyncedGroup_same by blast+

lemma getOrCreate_Inr:
  assumes "getOrCreateGroupByLink rnd c v name actor s = (Inr i, s')"
  shows "resolves c v i s' \<and> extends s s'"
proof -
  have "settles c v (getOrCreateGroupByLink rnd c v name actor)"
    unfolding getOrCreateGroupByLink_def
    by (cases rnd) (simp add: settles_retry settles_rules settles_statements atomic_statements)
  with assms show ?thesis unfolding settles_def by blast
qed

section \<open>The whole synchronisation\<close>

lemma wanted_values_set: "set (wanted_values seen vs) = set vs - set seen - {[]}"
  by (induction seen vs rule: wanted_values.induct) auto

lemma wanted_values_distinct: "distinct (wanted_values seen vs)"
  by (induction seen vs rule: wanted_values.induct) (auto simp: wanted_values_set)

lemma resolves_extends: "resolves c v i s \<Longrightarrow> extends s s' \<Longrightarrow> resolves c v i s'"
  by (auto simp: extends_def)

lemma okE_eq: "okE x s = (r, s') \<longleftrightarrow> r = Inr x \<and> s' = s"
  by (auto simp: okE_def)

lemma resolve_groups_Inr:
  assumes run: "\<And>v s i s'. resolve v s = (Inr i, s') \<Longrightarrow> resolves c v i s' \<and> extends s s'"
    and "foldE (\<lambda>v ids. bindE (mapErrE W (resolve v)) (\<lambda>i. okE (ids @ [i]))) vs ids s = (Inr out, s')"
  shows "extends s s' \<and> (\<exists>new. out = ids @ new \<and> list_all2 (\<lambda>v i. resolves c v i s') vs new)"
  using assms(2)
proof (induction vs arbitrary: ids s)
  case Nil
  then show ?case by (simp add: okE_def extends_refl)
next
  case (Cons v vs)
  from Cons.prems obtain i s1 where 1: "resolve v s = (Inr i, s1)"
    and 2: "foldE (\<lambda>v ids. bindE (mapErrE W (resolve v)) (\<lambda>i. okE (ids @ [i]))) vs (ids @ [i]) s1 = (Inr out, s')"
    by (auto simp: okE_eq elim!: bindE_InrE dest!: mapErrE_InrD)
  from Cons.IH [OF 2] obtain new where new: "extends s1 s'" "out = ids @ i # new" "list_all2 (\<lambda>v i. resolves c v i s') vs new" by auto
  have "resolves c v i s'" by (rule resolves_extends [OF _ new(1)]) (use run [OF 1] in blast)
  moreover have "extends s s'" using run [OF 1] new(1) by (blast intro: extends_trans)
  ultimately show ?case by (intro conjI exI [of _ "i # new"]) (simp_all add: new)
qed

text \<open>\<open>w\<close> is a member of the group \<open>g\<close>.\<close>

definition member_of :: "db \<Rightarrow> string \<Rightarrow> uuid \<Rightarrow> bool" where
  "member_of d w g \<longleftrightarrow> (\<exists>m\<in>set (t_group_members d). gm_GroupID m = g \<and> gm_Username m = w)"

lemma insert_memberships_Inr:
  assumes "forE ids (\<lambda>i. mapErrE W (exec (insert_membership i u))) s = (Inr x, s')"
  shows "t_groups (st_db s') = t_groups (st_db s) \<and>
     (\<forall>w g. member_of (st_db s') w g \<longleftrightarrow> member_of (st_db s) w g \<or> w = u \<and> g \<in> set ids)"
  using assms
proof (induction ids arbitrary: s)
  case (Cons i ids)
  from Cons.prems obtain s1 where 1: "exec (insert_membership i u) s = (Inr (), s1)"
    and 2: "forE ids (\<lambda>i. mapErrE W (exec (insert_membership i u))) s1 = (Inr x, s')"
    by (auto elim!: bindE_InrE dest!: mapErrE_InrD)
  from exec_Inr [OF 1] have "t_groups (st_db s1) = t_groups (st_db s)" "\<exists>t. t_group_members (st_db s1) =
      t_group_members (st_db s) @ [\<lparr>gm_GroupID = i, gm_Username = u, gm_SyncedAt = t\<rparr>]"
    by (auto simp: insert_membership_def split: if_splits)
  then have "member_of (st_db s1) w g \<longleftrightarrow> member_of (st_db s) w g \<or> w = u \<and> g = i" for w g
    by (auto simp: member_of_def)
  with Cons.IH [OF 2] \<open>t_groups (st_db s1) = t_groups (st_db s)\<close> show ?case by auto
qed (simp add: okE_def)

lemma replaceGroupMembership_Inr:
  assumes "replaceGroupMembership u ids s = (Inr x, s')"
  shows "t_groups (st_db s') = t_groups (st_db s) \<and>
     (\<forall>w g. member_of (st_db s') w g \<longleftrightarrow> (if w = u then g \<in> set ids else member_of (st_db s) w g))"
proof -
  let ?body = "bindE (mapErrE (Wrap ''sync group membership: clear existing'') (exec (delete_memberships u))) (\<lambda>_.
    forE ids (\<lambda>i. mapErrE (Wrap ''sync group membership: insert'') (exec (insert_membership i u))))"
  from assms obtain s1 where "transaction ?body s = (Inr (), s1)" and s': "st_db s' = st_db s1"
    by (auto simp: replaceGroupMembership_def modifyE_def elim!: bindE_InrE)
  from transaction_Inr [OF this(1)] obtain s2 where b: "?body s = (Inr (), s2)" "st_db s1 = st_db s2" by auto
  from b(1) obtain s3 where 1: "exec (delete_memberships u) s = (Inr (), s3)"
    and 2: "forE ids (\<lambda>i. mapErrE (Wrap ''sync group membership: insert'') (exec (insert_membership i u))) s3 = (Inr (), s2)"
    by (auto elim!: bindE_InrE dest!: mapErrE_InrD)
  from exec_Inr [OF 1] have 3: "t_groups (st_db s3) = t_groups (st_db s)" "t_group_members (st_db s3) =
      sql_delete (\<lambda>r. gm_Username r = u) (t_group_members (st_db s))"
    by (auto simp: delete_memberships_def)
  have "member_of (st_db s3) w g \<longleftrightarrow> w \<noteq> u \<and> member_of (st_db s) w g" for w g
    unfolding member_of_def 3(2) by (auto simp: sql_delete_def)
  with insert_memberships_Inr [OF 2] 3(1) show ?thesis by (simp add: s' b(2))
qed

lemma list_all2_left: "list_all2 P xs ys \<Longrightarrow> x \<in> set xs \<Longrightarrow> \<exists>y\<in>set ys. P x y"
  by (induction rule: list_all2_induct) auto

lemma list_all2_right: "list_all2 P xs ys \<Longrightarrow> y \<in> set ys \<Longrightarrow> \<exists>x\<in>set xs. P x y"
  by (induction rule: list_all2_induct) auto

lemma syncGroupMembership_exact:
  assumes run: "\<And>v s i s'. resolve v s = (Inr i, s') \<Longrightarrow> resolves c v i s' \<and> extends s s'"
    and ids: "identities_ok (st_db s')"
    and "syncGroupMembership u vs resolve s = (Inr x, s')"
  shows "set (t_groups (st_db s)) \<subseteq> set (t_groups (st_db s')) \<and>
     (\<forall>v\<in>set vs - {[]}. \<exists>g\<in>set (t_groups (st_db s')). link_of c g = v) \<and>
     (\<forall>i. member_of (st_db s') u i \<longleftrightarrow> (\<exists>g\<in>set (t_groups (st_db s')). g_ID g = i \<and> link_of c g \<in> set vs - {[]})) \<and>
     (\<forall>w i. w \<noteq> u \<longrightarrow> member_of (st_db s') w i = member_of (st_db s) w i)"
proof -
  from assms(3) obtain out s1 where 1: "resolve_groups resolve vs s = (Inr out, s1)" and 2: "replaceGroupMembership u out s1 = (Inr x, s')"
    by (auto simp: syncGroupMembership_def elim!: bindE_InrE)
  from resolve_groups_Inr [OF run 1 [unfolded resolve_groups_def]] obtain
    ext: "extends s s1" and all: "list_all2 (\<lambda>v i. resolves c v i s1) (wanted_values [] vs) out" by auto
  note rep = replaceGroupMembership_Inr [OF 2]
  then have groups: "t_groups (st_db s') = t_groups (st_db s1)" by blast
  have unique: "g = h" if "g \<in> set (t_groups (st_db s1))" "h \<in> set (t_groups (st_db s1))" "link_of c g = link_of c h" "link_of c g \<noteq> []" for g h
    using that ids groups unfolding identities_ok_def link_of_def
    by (cases c) (auto simp: distinct_map inj_on_def)
  have "i \<in> set out \<longleftrightarrow> (\<exists>g\<in>set (t_groups (st_db s1)). g_ID g = i \<and> link_of c g \<in> set vs - {[]})" for i
  proof
    assume "i \<in> set out"
    from list_all2_right [OF all this] obtain v where "v \<in> set (wanted_values [] vs)" "resolves c v i s1" by blast
    then show "\<exists>g\<in>set (t_groups (st_db s1)). g_ID g = i \<and> link_of c g \<in> set vs - {[]}" by (auto simp: wanted_values_set)
  next
    assume "\<exists>g\<in>set (t_groups (st_db s1)). g_ID g = i \<and> link_of c g \<in> set vs - {[]}"
    then obtain g where g: "g \<in> set (t_groups (st_db s1))" "g_ID g = i" "link_of c g \<in> set (wanted_values [] vs)"
      by (auto simp: wanted_values_set)
    from list_all2_left [OF all g(3)] obtain h where h: "g_ID h \<in> set out" "h \<in> set (t_groups (st_db s1))" "link_of c h = link_of c g" by blast
    have "link_of c g \<noteq> []" using g(3) by (auto simp: wanted_values_set)
    with unique [OF g(1) h(2)] h(3) have "g = h" by simp
    with h(1) g(2) show "i \<in> set out" by simp
  qed
  moreover have "\<forall>v\<in>set vs - {[]}. \<exists>g\<in>set (t_groups (st_db s1)). link_of c g = v"
  proof
    fix v assume "v \<in> set vs - {[]}"
    then have "v \<in> set (wanted_values [] vs)" by (simp add: wanted_values_set)
    from list_all2_left [OF all this] show "\<exists>g\<in>set (t_groups (st_db s1)). link_of c g = v" by blast
  qed
  moreover have "member_of (st_db s1) w i = member_of (st_db s) w i" for w i using ext by (simp add: member_of_def extends_def)
  ultimately show ?thesis using ext rep by (simp add: groups extends_def)
qed

section \<open>Property\<close>


lemma ex_sync_runs:
  "fst (SyncGroupMembershipByLDAPDNs (\<lambda>v. (21, 22, Inr ''y'')) ''carol'' [''cn=crew'', [], ''cn=new''] ex_store) = Inr ()"
  by code_simp


end
