(* ===== verification/CacheFacts.thy ===== *)
theory CacheFacts
  imports StoreFacts
begin

text \<open>
  The caches of the store: a cached lookup returns what the database holds, and a write that succeeds drops what it
  changes, so that the next lookup, cached or not, sees it.
\<close>

section \<open>What a view of the database depends on\<close>

lemma views_same [simp]:
  "find_map (d\<lparr>t_map_permissions := mp\<rparr>) = find_map d" "find_map (d\<lparr>t_group_map_permissions := gp\<rparr>) = find_map d"
  "find_map (d\<lparr>t_map_version_aliases := va\<rparr>) = find_map d" "find_map (d\<lparr>t_api_keys := ak\<rparr>) = find_map d"
  "find_map (d\<lparr>t_api_key_scopes := sc\<rparr>) = find_map d" "find_map (d\<lparr>t_map_versions := mv\<rparr>) = find_map d"
  "find_map (d\<lparr>t_groups := gs\<rparr>) = find_map d" "find_map (d\<lparr>t_group_members := gm\<rparr>) = find_map d"
  by (simp_all add: fun_eq_iff find_map_def with_owner_def [abs_def])

lemma current_same [simp]:
  "current_in (d\<lparr>t_map_permissions := mp\<rparr>) = current_in d" "current_in (d\<lparr>t_group_map_permissions := gp\<rparr>) = current_in d"
  "current_in (d\<lparr>t_map_version_aliases := va\<rparr>) = current_in d" "current_in (d\<lparr>t_api_keys := ak\<rparr>) = current_in d"
  "current_in (d\<lparr>t_api_key_scopes := sc\<rparr>) = current_in d" "current_in (d\<lparr>t_map_versions := mv\<rparr>) = current_in d"
  "current_in (d\<lparr>t_groups := gs\<rparr>) = current_in d" "current_in (d\<lparr>t_group_members := gm\<rparr>) = current_in d"
  "current_in (d\<lparr>t_users := us\<rparr>) = current_in d"
  by (simp_all add: fun_eq_iff current_in_def)

lemma permissions_same [simp]:
  "permissions_in (d\<lparr>t_maps := ms\<rparr>) = permissions_in d" "permissions_in (d\<lparr>t_map_permissions := mp\<rparr>) = permissions_in d"
  "permissions_in (d\<lparr>t_group_map_permissions := gp\<rparr>) = permissions_in d" "permissions_in (d\<lparr>t_map_version_aliases := va\<rparr>) = permissions_in d"
  "permissions_in (d\<lparr>t_api_keys := ak\<rparr>) = permissions_in d" "permissions_in (d\<lparr>t_api_key_scopes := sc\<rparr>) = permissions_in d"
  "permissions_in (d\<lparr>t_map_versions := mv\<rparr>) = permissions_in d"
  by (simp_all add: fun_eq_iff permissions_in_def select_permissions_def permission_rows_def groups_of_def)

lemma grants_same [simp]:
  "grants_in (d\<lparr>t_maps := ms\<rparr>) = grants_in d" "grants_in (d\<lparr>t_users := us\<rparr>) = grants_in d"
  "grants_in (d\<lparr>t_map_version_aliases := va\<rparr>) = grants_in d" "grants_in (d\<lparr>t_api_keys := ak\<rparr>) = grants_in d"
  "grants_in (d\<lparr>t_api_key_scopes := sc\<rparr>) = grants_in d" "grants_in (d\<lparr>t_map_versions := mv\<rparr>) = grants_in d"
  "grants_in (d\<lparr>t_groups := gs\<rparr>) = grants_in d"
  by (simp_all add: fun_eq_iff grants_in_def grant_rows_def)

lemma alias_same [simp]:
  "alias_in (d\<lparr>t_maps := ms\<rparr>) = alias_in d" "alias_in (d\<lparr>t_users := us\<rparr>) = alias_in d"
  "alias_in (d\<lparr>t_map_permissions := mp\<rparr>) = alias_in d" "alias_in (d\<lparr>t_group_map_permissions := gp\<rparr>) = alias_in d"
  "alias_in (d\<lparr>t_api_keys := ak\<rparr>) = alias_in d" "alias_in (d\<lparr>t_api_key_scopes := sc\<rparr>) = alias_in d"
  "alias_in (d\<lparr>t_map_versions := mv\<rparr>) = alias_in d" "alias_in (d\<lparr>t_groups := gs\<rparr>) = alias_in d"
  "alias_in (d\<lparr>t_group_members := gm\<rparr>) = alias_in d"
  by (simp_all add: fun_eq_iff alias_in_def)

lemma key_same [simp]:
  "key_in (d\<lparr>t_maps := ms\<rparr>) = key_in d" "key_in (d\<lparr>t_users := us\<rparr>) = key_in d"
  "key_in (d\<lparr>t_map_permissions := mp\<rparr>) = key_in d" "key_in (d\<lparr>t_group_map_permissions := gp\<rparr>) = key_in d"
  "key_in (d\<lparr>t_map_version_aliases := va\<rparr>) = key_in d" "key_in (d\<lparr>t_api_key_scopes := sc\<rparr>) = key_in d"
  "key_in (d\<lparr>t_map_versions := mv\<rparr>) = key_in d" "key_in (d\<lparr>t_groups := gs\<rparr>) = key_in d"
  "key_in (d\<lparr>t_group_members := gm\<rparr>) = key_in d"
  by (simp_all add: fun_eq_iff key_in_def select_live_key_def)

lemma scope_same [simp]:
  "scope_in (d\<lparr>t_maps := ms\<rparr>) = scope_in d" "scope_in (d\<lparr>t_users := us\<rparr>) = scope_in d"
  "scope_in (d\<lparr>t_map_permissions := mp\<rparr>) = scope_in d" "scope_in (d\<lparr>t_group_map_permissions := gp\<rparr>) = scope_in d"
  "scope_in (d\<lparr>t_map_version_aliases := va\<rparr>) = scope_in d" "scope_in (d\<lparr>t_api_keys := ak\<rparr>) = scope_in d"
  "scope_in (d\<lparr>t_map_versions := mv\<rparr>) = scope_in d" "scope_in (d\<lparr>t_groups := gs\<rparr>) = scope_in d"
  "scope_in (d\<lparr>t_group_members := gm\<rparr>) = scope_in d"
  by (simp_all add: fun_eq_iff scope_in_def)

section \<open>What a statement leaves alone\<close>

lemma filter_update_other:
  "(\<And>r. p r \<Longrightarrow> \<not> q r \<and> \<not> q (f r)) \<Longrightarrow> filter q (sql_update p f t) = filter q t"
  by (induction t) (auto simp: sql_update_def)

lemma filter_delete_other: "(\<And>r. p r \<Longrightarrow> \<not> q r) \<Longrightarrow> filter q (sql_delete p t) = filter q t"
  by (induction t) (auto simp: sql_delete_def)

lemma take_filter: "sql_take p t = sql_take (\<lambda>_. True) (filter p t)"
  by (induction t) (auto simp: sql_take_def)

lemma take_cong: "filter p t = filter p t' \<Longrightarrow> sql_take p t = sql_take p t'"
  by (metis take_filter)

lemma find_map_cong:
  "filter (\<lambda>m. m_UUID m = i) ms = filter (\<lambda>m. m_UUID m = i) (t_maps d) \<Longrightarrow> find_map (d\<lparr>t_maps := ms\<rparr>) i = find_map d i"
  using take_cong [of "\<lambda>m. m_UUID m = i" ms "t_maps d"] by (simp add: find_map_def with_owner_def [abs_def])

lemma current_in_cong:
  "filter (\<lambda>m. m_UUID m = i) ms = filter (\<lambda>m. m_UUID m = i) (t_maps d) \<Longrightarrow> current_in (d\<lparr>t_maps := ms\<rparr>) i = current_in d i"
  using take_cong [of "\<lambda>m. m_UUID m = i" ms "t_maps d"] by (simp add: current_in_def)

section \<open>Writes\<close>

text \<open>An operation whose success leaves no stale entry behind.\<close>

definition keeps_caches :: "('w, 'a) sto \<Rightarrow> bool" where
  "keeps_caches m \<longleftrightarrow> (\<forall>s x s'. caches_coherent s \<longrightarrow> m s = (Inr x, s') \<longrightarrow> caches_coherent s')"

lemma keeps_cachesI:
  "(\<And>s x s'. caches_coherent s \<Longrightarrow> m s = (Inr x, s') \<Longrightarrow> caches_coherent s') \<Longrightarrow> keeps_caches m"
  unfolding keeps_caches_def by blast

lemma reads_keeps: "reads m f \<Longrightarrow> caches_coherent s \<Longrightarrow> m s = (x, s') \<Longrightarrow> caches_coherent s'"
  using readsD [of m f s x s'] by (simp add: reads_step_def)

lemma coherent_maps:
  assumes c: "caches_coherent s" and other: "\<And>k. k \<noteq> i \<Longrightarrow> filter (\<lambda>m. m_UUID m = k) ms = filter (\<lambda>m. m_UUID m = k) (t_maps (st_db s))"
  shows "caches_coherent (s\<lparr>st_db := (st_db s)\<lparr>t_maps := ms\<rparr>, mapCache := cache_invalidate (mapCache s) i,
    currentVersionCache := cache_invalidate (currentVersionCache s) i\<rparr>)"
  using c other unfolding caches_coherent_def
  by (auto intro!: ttl_cache.coherent_invalidate find_map_cong current_in_cong)

lemma update_map_other:
  "k \<noteq> i \<Longrightarrow> (\<And>m. m_UUID (f m) = m_UUID m) \<Longrightarrow>
     filter (\<lambda>m. m_UUID m = k) (sql_update (\<lambda>m. m_UUID m = i) f t) = filter (\<lambda>m. m_UUID m = k) t"
  by (rule filter_update_other) auto

text \<open>A write to one row of \<open>maps\<close>, then its entries are dropped.\<close>

lemma forget_map_run:
  "forget_map i s = (Inr (), s\<lparr>mapCache := cache_invalidate (mapCache s) i, currentVersionCache := cache_invalidate (currentVersionCache s) i\<rparr>)"
  by (simp add: forget_map_def bindE_def tryE_def modifyE_def)

lemma coherent_update_map:
  assumes c: "caches_coherent s" and run: "exec (update_map i f) s = (Inr n, s1)" and f: "\<And>now m. m_UUID (f now m) = m_UUID m"
  shows "caches_coherent (snd (forget_map i s1))"
proof -
  let ?ms = "sql_update (\<lambda>m. m_UUID m = i) (f (clock s)) (t_maps (st_db s))"
  obtain fs where s1: "s1 = s\<lparr>st_db := (st_db s)\<lparr>t_maps := ?ms\<rparr>, faults := fs\<rparr>"
    using exec_Inr [OF run] by (auto simp: update_map_def)
  have "caches_coherent (s\<lparr>st_db := (st_db s)\<lparr>t_maps := ?ms\<rparr>, mapCache := cache_invalidate (mapCache s) i,
      currentVersionCache := cache_invalidate (currentVersionCache s) i\<rparr>)"
    by (rule coherent_maps [OF c update_map_other]) (simp_all add: f)
  then show ?thesis by (simp add: forget_map_run s1 caches_coherent_def)
qed

lemma UpdateMap_keeps: "keeps_caches (UpdateMap i name cur vis anon actor)"
proof (rule keeps_cachesI)
  fix s m s' assume c: "caches_coherent s" and "UpdateMap i name cur vis anon actor s = (Inr m, s')"
  then obtain n s1 s2 where e: "exec (update_map i (\<lambda>now m. m\<lparr>m_Name := name, m_CurrentVersion := cur, m_VisibleToAll := vis,
      m_AnonymousAllowed := anon, m_UpdatedBy := actor, m_UpdatedAt := now\<rparr>)) s = (Inr n, s1)"
    and f: "forget_map i s1 = (Inr (), s2)" and l: "loadMapWithOwner i s2 = (Inr m, s')"
    unfolding UpdateMap_def by (auto elim!: bindE_InrE dest!: mapErrE_InrD simp: raiseE_def split: if_splits)
  have "caches_coherent s2" using coherent_update_map [OF c e] by (simp add: f)
  then show "caches_coherent s'" by (rule reads_keeps [OF loadMapWithOwner_reads _ l])
qed

lemma current_take_update:
  "(\<And>m. m_UUID (f m) = m_UUID m \<and> m_CurrentVersion (f m) = m_CurrentVersion m) \<Longrightarrow>
     map_option m_CurrentVersion (sql_take (\<lambda>m. m_UUID m = j) (sql_update p f t)) = map_option m_CurrentVersion (sql_take (\<lambda>m. m_UUID m = j) t)"
  by (induction t) (auto simp: sql_take_def sql_update_def)

lemma UpdateMapOwner_keeps: "keeps_caches (UpdateMapOwner i owner)"
proof (rule keeps_cachesI)
  fix s m s' assume c: "caches_coherent s" and "UpdateMapOwner i owner s = (Inr m, s')"
  then obtain o' s0 n s1 where k: "lookupUserID owner s = (Inr o', s0)" and e: "exec (update_map_owner i o') s0 = (Inr n, s1)"
    and l: "loadMapWithOwner i (s1\<lparr>mapCache := cache_invalidate (mapCache s1) i\<rparr>) = (Inr m, s')"
    unfolding UpdateMapOwner_def by (auto elim!: bindE_InrE dest!: mapErrE_InrD simp: raiseE_def modifyE_def split: if_splits)
  have "preserves caches_coherent (lookupUserID owner)"
    unfolding lookupUserID_def by (intro pres preserves_query) simp_all
  from preservesD [OF this c k] have c0: "caches_coherent s0" .
  let ?ms = "sql_update (\<lambda>m. m_UUID m = i) (\<lambda>m. m\<lparr>m_OwnerID := o', m_UpdatedAt := clock s0\<rparr>) (t_maps (st_db s0))"
  obtain fs where s1: "s1 = s0\<lparr>st_db := (st_db s0)\<lparr>t_maps := ?ms\<rparr>, faults := fs\<rparr>"
    using exec_Inr [OF e] by (auto simp: update_map_owner_def update_map_def split: if_splits)
  have "find_map ((st_db s0)\<lparr>t_maps := ?ms\<rparr>) j = find_map (st_db s0) j" if "j \<noteq> i" for j
    using that by (intro find_map_cong update_map_other) simp_all
  moreover have "current_in ((st_db s0)\<lparr>t_maps := ?ms\<rparr>) j = current_in (st_db s0) j" for j
    by (simp add: current_in_def current_take_update)
  ultimately have "caches_coherent (s1\<lparr>mapCache := cache_invalidate (mapCache s1) i\<rparr>)"
    using c0 unfolding s1 caches_coherent_def by (auto intro!: ttl_cache.coherent_invalidate intro: ttl_cache.coherent_same)
  then show "caches_coherent s'" by (rule reads_keeps [OF loadMapWithOwner_reads _ l])
qed

text \<open>Grants, aliases and scopes: one entry, or all of them, are dropped.\<close>

lemma grants_cong:
  "filter (\<lambda>r. mpm_MapUUID r = fst k \<and> mpm_Username r = snd k) ps = filter (\<lambda>r. mpm_MapUUID r = fst k \<and> mpm_Username r = snd k) (t_map_permissions d)
   \<Longrightarrow> grants_in (d\<lparr>t_map_permissions := ps\<rparr>) k = grants_in d k"
  by (simp add: grants_in_def grant_rows_def)

lemma coherent_grant:
  assumes c: "caches_coherent s"
    and other: "\<And>k. k \<noteq> (i, u) \<Longrightarrow> filter (\<lambda>r. mpm_MapUUID r = fst k \<and> mpm_Username r = snd k) ps =
      filter (\<lambda>r. mpm_MapUUID r = fst k \<and> mpm_Username r = snd k) (t_map_permissions (st_db s))"
  shows "caches_coherent (s\<lparr>st_db := (st_db s)\<lparr>t_map_permissions := ps\<rparr>, faults := fs, mapPermCache := cache_invalidate (mapPermCache s) (i, u)\<rparr>)"
  using c other unfolding caches_coherent_def by (auto intro!: ttl_cache.coherent_invalidate grants_cong)

lemma SetMapPermission_keeps: "keeps_caches (SetMapPermission i u mp by)"
proof (rule keeps_cachesI)
  fix s x s' assume c: "caches_coherent s" and "SetMapPermission i u mp by s = (Inr x, s')"
  then obtain t s1 where e: "exec (upsert_map_permission i u mp by) s = (Inr t, s1)"
    and s': "s' = s1\<lparr>mapPermCache := cache_invalidate (mapPermCache s1) (i, u)\<rparr>"
    unfolding SetMapPermission_def by (elim tryE_cases) (auto simp: raiseE_def okE_def modifyE_def split: if_splits elim!: bindE_InrE)
  from exec_Inr [OF e] obtain fs ps where s1: "s1 = s\<lparr>st_db := (st_db s)\<lparr>t_map_permissions := ps\<rparr>, faults := fs\<rparr>" and
    ps: "ps = sql_update (\<lambda>p. mpm_MapUUID p = i \<and> mpm_Username p = u) (set_user_grant mp by (clock s)) (t_map_permissions (st_db s)) \<or>
      (\<exists>r. mpm_MapUUID r = i \<and> mpm_Username r = u \<and> ps = t_map_permissions (st_db s) @ [r])"
    by (force simp: upsert_map_permission_def split: if_splits)
  have "filter (\<lambda>r. mpm_MapUUID r = fst k \<and> mpm_Username r = snd k) ps =
      filter (\<lambda>r. mpm_MapUUID r = fst k \<and> mpm_Username r = snd k) (t_map_permissions (st_db s))" if "k \<noteq> (i, u)" for k
    using ps that by (cases k) (auto intro!: filter_update_other simp: set_user_grant_def)
  from coherent_grant [OF c this] show "caches_coherent s'" by (simp add: s' s1)
qed

lemma DeleteMapPermission_keeps: "keeps_caches (DeleteMapPermission i u)"
proof (rule keeps_cachesI)
  fix s x s' assume c: "caches_coherent s" and "DeleteMapPermission i u s = (Inr x, s')"
  then obtain s1 where e: "exec (delete_map_permission i u) s = (Inr (), s1)"
    and s': "s' = s1\<lparr>mapPermCache := cache_invalidate (mapPermCache s1) (i, u)\<rparr>"
    unfolding DeleteMapPermission_def by (auto simp: modifyE_def elim!: bindE_InrE dest!: mapErrE_InrD)
  let ?ps = "sql_delete (\<lambda>p. mpm_MapUUID p = i \<and> mpm_Username p = u) (t_map_permissions (st_db s))"
  from exec_Inr [OF e] obtain fs where s1: "s1 = s\<lparr>st_db := (st_db s)\<lparr>t_map_permissions := ?ps\<rparr>, faults := fs\<rparr>"
    by (auto simp: delete_map_permission_def)
  have "filter (\<lambda>r. mpm_MapUUID r = fst k \<and> mpm_Username r = snd k) ?ps =
      filter (\<lambda>r. mpm_MapUUID r = fst k \<and> mpm_Username r = snd k) (t_map_permissions (st_db s))" if "k \<noteq> (i, u)" for k
    using that by (cases k) (auto intro!: filter_delete_other)
  from coherent_grant [OF c this] show "caches_coherent s'" by (simp add: s' s1)
qed

lemma coherent_group_grant:
  assumes "caches_coherent s"
  shows "caches_coherent (s\<lparr>st_db := (st_db s)\<lparr>t_group_map_permissions := ps\<rparr>, faults := fs, mapPermCache := cache_clear (mapPermCache s)\<rparr>)"
  using assms unfolding caches_coherent_def by (auto intro: ttl_cache.coherent_clear)

lemma SetGroupMapPermission_keeps: "keeps_caches (SetGroupMapPermission i g mp by)"
proof (rule keeps_cachesI)
  fix s x s' assume c: "caches_coherent s" and "SetGroupMapPermission i g mp by s = (Inr x, s')"
  then obtain t s1 where e: "exec (upsert_group_map_permission i g mp by) s = (Inr t, s1)"
    and s': "s' = s1\<lparr>mapPermCache := cache_clear (mapPermCache s1)\<rparr>"
    unfolding SetGroupMapPermission_def by (elim tryE_cases) (auto simp: raiseE_def okE_def modifyE_def split: if_splits elim!: bindE_InrE)
  from exec_Inr [OF e] obtain fs ps where "s1 = s\<lparr>st_db := (st_db s)\<lparr>t_group_map_permissions := ps\<rparr>, faults := fs\<rparr>"
    by (force simp: upsert_group_map_permission_def split: if_splits)
  then show "caches_coherent s'" using coherent_group_grant [OF c] by (simp add: s')
qed

lemma DeleteGroupMapPermission_keeps: "keeps_caches (DeleteGroupMapPermission i g)"
proof (rule keeps_cachesI)
  fix s x s' assume c: "caches_coherent s" and "DeleteGroupMapPermission i g s = (Inr x, s')"
  then obtain s1 where e: "exec (delete_group_map_permission i g) s = (Inr (), s1)"
    and s': "s' = s1\<lparr>mapPermCache := cache_clear (mapPermCache s1)\<rparr>"
    unfolding DeleteGroupMapPermission_def by (auto simp: modifyE_def elim!: bindE_InrE dest!: mapErrE_InrD)
  from exec_Inr [OF e] obtain fs ps where "s1 = s\<lparr>st_db := (st_db s)\<lparr>t_group_map_permissions := ps\<rparr>, faults := fs\<rparr>"
    by (auto simp: delete_group_map_permission_def)
  then show "caches_coherent s'" using coherent_group_grant [OF c] by (simp add: s')
qed


text \<open>A transaction whose effect is known, then the entries of the map are dropped.\<close>

lemma coherent_with_new_version:
  assumes c: "caches_coherent s"
  shows "caches_coherent (snd (forget_map i (s\<lparr>st_db := with_new_version i v u now (st_db s), faults := fs\<rparr>)))"
proof -
  let ?ms = "sql_update (\<lambda>m. m_UUID m = i) (\<lambda>m. m\<lparr>m_CurrentVersion := v, m_UpdatedBy := u, m_UpdatedAt := now\<rparr>) (t_maps (st_db s))"
  have "caches_coherent (s\<lparr>st_db := (st_db s)\<lparr>t_maps := ?ms\<rparr>, mapCache := cache_invalidate (mapCache s) i,
      currentVersionCache := cache_invalidate (currentVersionCache s) i\<rparr>)"
    by (rule coherent_maps [OF c update_map_other]) simp_all
  then show ?thesis by (simp add: forget_map_run with_new_version_def caches_coherent_def)
qed

lemma IncrementMapVersion_keeps: "keeps_caches (IncrementMapVersion i u)"
proof (rule keeps_cachesI)
  fix s m s' assume c: "caches_coherent s" and "IncrementMapVersion i u s = (Inr m, s')"
  then obtain s1 where tx: "transaction (increment_tx i u) s = (Inr m, s1)" and f: "forget_map i s1 = (Inr (), s')"
    unfolding IncrementMapVersion_def by (auto elim!: bindE_InrE simp: okE_def)
  obtain s0 f0 where run: "increment_tx i u s = (Inr m, s0)" and s1: "s1 = s0\<lparr>faults := f0\<rparr>" using transaction_Inr [OF tx] by blast
  obtain n fs where "s0 = s\<lparr>st_db := with_new_version i (Itoa (n + 1)) u (clock s) (st_db s), faults := fs\<rparr>"
    using increment_tx_Inr [OF run] by blast
  then have s1: "s1 = s\<lparr>st_db := with_new_version i (Itoa (n + 1)) u (clock s) (st_db s), faults := f0\<rparr>" using s1 by simp
  have "caches_coherent (snd (forget_map i s1))" unfolding s1 by (rule coherent_with_new_version [OF c])
  then show "caches_coherent s'" by (simp add: f)
qed

lemma UpsertSyncedMap_keeps: "keeps_caches (UpsertSyncedMap i name vis anon r actor)"
proof (rule keeps_cachesI)
  fix s m s' assume c: "caches_coherent s" and "UpsertSyncedMap i name vis anon r actor s = (Inr m, s')"
  then obtain s1 s2 where e: "exec (upsert_synced_map i name vis anon r actor) s = (Inr (), s1)"
    and f: "forget_map i s1 = (Inr (), s2)" and l: "loadMapWithOwner i s2 = (Inr m, s')"
    unfolding UpsertSyncedMap_def by (auto elim!: bindE_InrE dest!: mapErrE_InrD)
  obtain fs ms where s1: "s1 = s\<lparr>st_db := (st_db s)\<lparr>t_maps := ms\<rparr>, faults := fs\<rparr>"
    and ms: "ms = sql_update (\<lambda>m. m_UUID m = i) (\<lambda>m. m\<lparr>m_Name := name, m_VisibleToAll := vis, m_AnonymousAllowed := anon,
        m_SyncRemoteID := Some r, m_UpdatedBy := actor, m_UpdatedAt := clock s\<rparr>) (t_maps (st_db s)) \<or>
      (\<exists>x. m_UUID x = i \<and> ms = t_maps (st_db s) @ [x])"
    using exec_Inr [OF e] by (force simp: upsert_synced_map_def split: if_splits option.splits)
  have "filter (\<lambda>m. m_UUID m = k) ms = filter (\<lambda>m. m_UUID m = k) (t_maps (st_db s))" if "k \<noteq> i" for k
    using ms that by (auto intro!: update_map_other)
  from coherent_maps [OF c this] have "caches_coherent (snd (forget_map i s1))"
    by (simp add: forget_map_run s1 caches_coherent_def)
  then have "caches_coherent s2" by (simp add: f)
  then show "caches_coherent s'" by (rule reads_keeps [OF loadMapWithOwner_reads _ l])
qed

text \<open>Aliases.\<close>

lemma alias_cong:
  "filter (\<lambda>a. a_MapUUID a = fst k \<and> a_Alias a = snd k) as = filter (\<lambda>a. a_MapUUID a = fst k \<and> a_Alias a = snd k) (t_map_version_aliases d)
   \<Longrightarrow> alias_in (d\<lparr>t_map_version_aliases := as\<rparr>) k = alias_in d k"
  using take_cong [of "\<lambda>a. a_MapUUID a = fst k \<and> a_Alias a = snd k" as "t_map_version_aliases d"] by (simp add: alias_in_def)

lemma coherent_alias:
  assumes c: "caches_coherent s"
    and other: "\<And>k. k \<noteq> (i, al) \<Longrightarrow> filter (\<lambda>a. a_MapUUID a = fst k \<and> a_Alias a = snd k) as =
      filter (\<lambda>a. a_MapUUID a = fst k \<and> a_Alias a = snd k) (t_map_version_aliases (st_db s))"
  shows "caches_coherent (s\<lparr>st_db := (st_db s)\<lparr>t_map_version_aliases := as\<rparr>, faults := fs, mapAliasCache := cache_invalidate (mapAliasCache s) (i, al)\<rparr>)"
  using c other unfolding caches_coherent_def by (auto intro!: ttl_cache.coherent_invalidate alias_cong)

lemma SetMapVersionAlias_keeps: "keeps_caches (SetMapVersionAlias i al v actor)"
proof (rule keeps_cachesI)
  fix s x s' assume c: "caches_coherent s" and "SetMapVersionAlias i al v actor s = (Inr x, s')"
  then obtain t s1 where e: "exec (upsert_alias i al v actor) s = (Inr t, s1)"
    and s': "s' = s1\<lparr>mapAliasCache := cache_invalidate (mapAliasCache s1) (i, al)\<rparr>"
    unfolding SetMapVersionAlias_def by (elim tryE_cases) (auto simp: raiseE_def okE_def modifyE_def split: if_splits elim!: bindE_InrE)
  from exec_Inr [OF e] obtain fs as where s1: "s1 = s\<lparr>st_db := (st_db s)\<lparr>t_map_version_aliases := as\<rparr>, faults := fs\<rparr>" and
    as: "as = sql_update (\<lambda>a. a_MapUUID a = i \<and> a_Alias a = al) (\<lambda>a. a\<lparr>a_Version := v, a_UpdatedBy := actor, a_UpdatedAt := clock s\<rparr>)
        (t_map_version_aliases (st_db s)) \<or>
      (\<exists>r. a_MapUUID r = i \<and> a_Alias r = al \<and> as = t_map_version_aliases (st_db s) @ [r])"
    by (force simp: upsert_alias_def split: if_splits option.splits)
  have "filter (\<lambda>a. a_MapUUID a = fst k \<and> a_Alias a = snd k) as =
      filter (\<lambda>a. a_MapUUID a = fst k \<and> a_Alias a = snd k) (t_map_version_aliases (st_db s))" if "k \<noteq> (i, al)" for k
    using as that by (cases k) (auto intro!: filter_update_other)
  from coherent_alias [OF c this] show "caches_coherent s'" by (simp add: s' s1)
qed

lemma DeleteMapVersionAlias_keeps: "keeps_caches (DeleteMapVersionAlias i al)"
proof (rule keeps_cachesI)
  fix s x s' assume c: "caches_coherent s" and "DeleteMapVersionAlias i al s = (Inr x, s')"
  then obtain s1 where e: "exec (delete_alias i al) s = (Inr (), s1)"
    and s': "s' = s1\<lparr>mapAliasCache := cache_invalidate (mapAliasCache s1) (i, al)\<rparr>"
    unfolding DeleteMapVersionAlias_def by (auto simp: modifyE_def elim!: bindE_InrE dest!: mapErrE_InrD)
  let ?as = "sql_delete (\<lambda>a. a_MapUUID a = i \<and> a_Alias a = al) (t_map_version_aliases (st_db s))"
  from exec_Inr [OF e] obtain fs where s1: "s1 = s\<lparr>st_db := (st_db s)\<lparr>t_map_version_aliases := ?as\<rparr>, faults := fs\<rparr>"
    by (auto simp: delete_alias_def)
  have "filter (\<lambda>a. a_MapUUID a = fst k \<and> a_Alias a = snd k) ?as =
      filter (\<lambda>a. a_MapUUID a = fst k \<and> a_Alias a = snd k) (t_map_version_aliases (st_db s))" if "k \<noteq> (i, al)" for k
    using that by (cases k) (auto intro!: filter_delete_other)
  from coherent_alias [OF c this] show "caches_coherent s'" by (simp add: s' s1)
qed


text \<open>The scope of a key.\<close>

lemma scope_cong:
  "filter (\<lambda>c. sc_APIKeyID c = fst k \<and> sc_MapUUID c = snd k) cs = filter (\<lambda>c. sc_APIKeyID c = fst k \<and> sc_MapUUID c = snd k) (t_api_key_scopes d)
   \<Longrightarrow> scope_in (d\<lparr>t_api_key_scopes := cs\<rparr>) k = scope_in d k"
  using take_cong [of "\<lambda>c. sc_APIKeyID c = fst k \<and> sc_MapUUID c = snd k" cs "t_api_key_scopes d"] by (simp add: scope_in_def)

lemma key_cong:
  "filter (\<lambda>r. k_ID r = i \<and> k_RevokedAt r = None) ks = filter (\<lambda>r. k_ID r = i \<and> k_RevokedAt r = None) (t_api_keys d)
   \<Longrightarrow> key_in (d\<lparr>t_api_keys := ks\<rparr>) i = key_in d i"
  using take_cong [of "\<lambda>r. k_ID r = i \<and> k_RevokedAt r = None" ks "t_api_keys d"] by (simp add: key_in_def select_live_key_def)

lemma coherent_scope:
  assumes c: "caches_coherent s"
    and other: "\<And>j. j \<noteq> (k, i) \<Longrightarrow> filter (\<lambda>c. sc_APIKeyID c = fst j \<and> sc_MapUUID c = snd j) cs =
      filter (\<lambda>c. sc_APIKeyID c = fst j \<and> sc_MapUUID c = snd j) (t_api_key_scopes (st_db s))"
  shows "caches_coherent (s\<lparr>st_db := (st_db s)\<lparr>t_api_key_scopes := cs\<rparr>, faults := fs,
    apiKeyScopeCache := cache_invalidate (apiKeyScopeCache s) (k, i)\<rparr>)"
  using c other unfolding caches_coherent_def by (auto intro!: ttl_cache.coherent_invalidate scope_cong)

lemma coherent_keys:
  assumes c: "caches_coherent s"
    and other: "\<And>j. j \<noteq> k \<Longrightarrow> filter (\<lambda>r. k_ID r = j \<and> k_RevokedAt r = None) ks =
      filter (\<lambda>r. k_ID r = j \<and> k_RevokedAt r = None) (t_api_keys (st_db s))"
  shows "caches_coherent (s\<lparr>st_db := (st_db s)\<lparr>t_api_keys := ks\<rparr>, apiKeyCache := cache_invalidate (apiKeyCache s) k\<rparr>)"
  using c other unfolding caches_coherent_def by (auto intro!: ttl_cache.coherent_invalidate key_cong)

lemma SetAPIKeyScope_Inr:
  assumes "SetAPIKeyScope u k i vs s = (Inr x, s')"
  shows "\<exists>n s1 t s2 fs. exec (update_api_keys (live_key_of k u) (\<lambda>_ k. k\<lparr>k_Scoped := True\<rparr>)) s = (Inr n, s1) \<and> n \<noteq> 0 \<and>
     exec (upsert_scope k i vs) s1 = (Inr t, s2) \<and>
     s' = s2\<lparr>faults := fs, apiKeyCache := cache_invalidate (apiKeyCache s2) k, apiKeyScopeCache := cache_invalidate (apiKeyScopeCache s2) (k, i)\<rparr>"
proof -
  obtain t s3 where tx: "transaction (bindE (exec (update_api_keys (live_key_of k u) (\<lambda>_ k. k\<lparr>k_Scoped := True\<rparr>))) (\<lambda>n.
      if n = 0 then raiseE ErrAPIKeyNotFound else exec (upsert_scope k i vs))) s = (Inr t, s3)"
    and s': "s' = s3\<lparr>apiKeyCache := cache_invalidate (apiKeyCache s3) k, apiKeyScopeCache := cache_invalidate (apiKeyScopeCache s3) (k, i)\<rparr>"
    using assms unfolding SetAPIKeyScope_def
    by (elim tryE_cases) (auto simp: raiseE_def okE_def modifyE_def split: if_splits elim!: bindE_InrE)
  from transaction_Inr [OF tx] obtain s2 f3 where run: "bindE (exec (update_api_keys (live_key_of k u) (\<lambda>_ k. k\<lparr>k_Scoped := True\<rparr>))) (\<lambda>n.
      if n = 0 then raiseE ErrAPIKeyNotFound else exec (upsert_scope k i vs)) s = (Inr t, s2)" and s3: "s3 = s2\<lparr>faults := f3\<rparr>" by blast
  from run obtain n s1 where "exec (update_api_keys (live_key_of k u) (\<lambda>_ k. k\<lparr>k_Scoped := True\<rparr>)) s = (Inr n, s1)" "n \<noteq> 0"
    "exec (upsert_scope k i vs) s1 = (Inr t, s2)" by (rule bindE_InrE) (auto simp: raiseE_def split: if_splits)
  with s' s3 show ?thesis by (intro exI conjI) simp_all
qed

lemma SetAPIKeyScope_keeps: "keeps_caches (SetAPIKeyScope u k i vs)"
proof (rule keeps_cachesI)
  fix s x s' assume c: "caches_coherent s" and "SetAPIKeyScope u k i vs s = (Inr x, s')"
  from SetAPIKeyScope_Inr [OF this(2)] obtain n s1 t s2 f3 where
    e1: "exec (update_api_keys (live_key_of k u) (\<lambda>_ k. k\<lparr>k_Scoped := True\<rparr>)) s = (Inr n, s1)" and e2: "exec (upsert_scope k i vs) s1 = (Inr t, s2)"
    and s': "s' = s2\<lparr>faults := f3, apiKeyCache := cache_invalidate (apiKeyCache s2) k, apiKeyScopeCache := cache_invalidate (apiKeyScopeCache s2) (k, i)\<rparr>"
    by blast
  let ?ks = "sql_update (live_key_of k u) (\<lambda>k. k\<lparr>k_Scoped := True\<rparr>) (t_api_keys (st_db s))"
  obtain f1 where s1: "s1 = s\<lparr>st_db := (st_db s)\<lparr>t_api_keys := ?ks\<rparr>, faults := f1\<rparr>"
    using exec_Inr [OF e1] by (auto simp: update_api_keys_def)
  obtain f2 cs where s2: "s2 = s1\<lparr>st_db := (st_db s1)\<lparr>t_api_key_scopes := cs\<rparr>, faults := f2\<rparr>"
    and cs: "cs = sql_update (\<lambda>c. sc_APIKeyID c = k \<and> sc_MapUUID c = i) (set_scope vs (clock s1)) (t_api_key_scopes (st_db s1)) \<or>
      (\<exists>r. sc_APIKeyID r = k \<and> sc_MapUUID r = i \<and> cs = t_api_key_scopes (st_db s1) @ [r])"
    using exec_Inr [OF e2] by (force simp: upsert_scope_def split: if_splits)
  have "filter (\<lambda>r. k_ID r = j \<and> k_RevokedAt r = None) ?ks = filter (\<lambda>r. k_ID r = j \<and> k_RevokedAt r = None) (t_api_keys (st_db s))"
    if "j \<noteq> k" for j by (rule filter_update_other) (use that in \<open>auto simp: live_key_of_def\<close>)
  from coherent_keys [OF c this] have c1: "caches_coherent (s1\<lparr>apiKeyCache := cache_invalidate (apiKeyCache s1) k\<rparr>)" by (simp add: s1 caches_coherent_def)
  have "filter (\<lambda>c. sc_APIKeyID c = fst j \<and> sc_MapUUID c = snd j) cs =
      filter (\<lambda>c. sc_APIKeyID c = fst j \<and> sc_MapUUID c = snd j) (t_api_key_scopes (st_db s1))" if "j \<noteq> (k, i)" for j
    using cs that by (cases j) (auto intro!: filter_update_other simp: set_scope_def)
  then show "caches_coherent s'" using coherent_scope [OF c1, of k i cs f3] by (simp add: s' s2 caches_coherent_def)
qed

lemma DeleteAPIKeyScope_keeps: "keeps_caches (DeleteAPIKeyScope u k i)"
proof (rule keeps_cachesI)
  fix s x s' assume c: "caches_coherent s" and "DeleteAPIKeyScope u k i s = (Inr x, s')"
  then obtain n s1 where e: "exec (delete_scope u k i) s = (Inr n, s1)"
    and s': "s' = s1\<lparr>apiKeyScopeCache := cache_invalidate (apiKeyScopeCache s1) (k, i)\<rparr>"
    unfolding DeleteAPIKeyScope_def by (auto simp: modifyE_def raiseE_def split: if_splits elim!: bindE_InrE dest!: mapErrE_InrD)
  let ?cs = "sql_delete (\<lambda>c. sc_APIKeyID c = k \<and> sc_MapUUID c = i \<and> sql_exists (live_key_of k u) (t_api_keys (st_db s))) (t_api_key_scopes (st_db s))"
  from exec_Inr [OF e] obtain fs where s1: "s1 = s\<lparr>st_db := (st_db s)\<lparr>t_api_key_scopes := ?cs\<rparr>, faults := fs\<rparr>"
    by (auto simp: delete_scope_def Let_def)
  have "filter (\<lambda>c. sc_APIKeyID c = fst j \<and> sc_MapUUID c = snd j) ?cs =
      filter (\<lambda>c. sc_APIKeyID c = fst j \<and> sc_MapUUID c = snd j) (t_api_key_scopes (st_db s))" if "j \<noteq> (k, i)" for j
    using that by (cases j) (auto intro!: filter_delete_other)
  from coherent_scope [OF c this] show "caches_coherent s'" by (simp add: s' s1)
qed

text \<open>Accounts and groups.\<close>

lemma usernames_update:
  "(\<And>x. u_ID (f x) = u_ID x \<and> u_Username (f x) = u_Username x) \<Longrightarrow>
     map_option u_Username (sql_take (\<lambda>u. u_ID u = i) (sql_update p f t)) = map_option u_Username (sql_take (\<lambda>u. u_ID u = i) t)"
  by (induction t) (auto simp: sql_take_def sql_update_def)

lemma with_owner_alt:
  "with_owner d m = map_option (\<lambda>n. m\<lparr>m_Owner := n\<rparr>) (map_option u_Username (sql_take (\<lambda>u. u_ID u = m_OwnerID m) (t_users d)))"
  by (simp add: with_owner_def option.map_comp comp_def)

lemma find_map_users:
  assumes "\<And>x. u_ID (f x) = u_ID x" "\<And>x. u_Username (f x) = u_Username x"
  shows "find_map (d\<lparr>t_users := sql_update p f (t_users d)\<rparr>) = find_map d"
proof -
  have "with_owner (d\<lparr>t_users := sql_update p f (t_users d)\<rparr>) m = with_owner d m" for m
    by (simp add: with_owner_alt usernames_update assms)
  then show ?thesis by (simp add: fun_eq_iff find_map_def cong: Option.bind_cong)
qed

lemma permissions_users:
  assumes "\<And>x. u_Username (f x) = u_Username x" and "v \<noteq> u"
  shows "permissions_in (d\<lparr>t_users := sql_update (\<lambda>x. u_Username x = u) f (t_users d)\<rparr>) v = permissions_in d v"
proof -
  have "filter (\<lambda>x. u_Username x = v) (sql_update (\<lambda>x. u_Username x = u) f (t_users d)) = filter (\<lambda>x. u_Username x = v) (t_users d)"
    using assms by (intro filter_update_other) auto
  then show ?thesis by (simp add: permissions_in_def select_permissions_def permission_rows_def groups_of_def)
qed

lemma UpdateUser_keeps: "keeps_caches (UpdateUser hash u perms pw)"
proof (rule keeps_cachesI)
  fix s x s' assume c: "caches_coherent s" and run: "UpdateUser hash u perms pw s = (Inr x, s')"
  let ?f = "\<lambda>nh u. let u' = set_perms perms u in case nh of None \<Rightarrow> u' | Some h \<Rightarrow> u'\<lparr>u_PasswordHash := h\<rparr>"
  obtain nh s0 where h: "(if pw \<noteq> [] then bindE (hashPassword hash pw) (\<lambda>h. okE (Some h)) else okE None) s = (Inr nh, s0)"
    and run0: "bindE (mapErrE (Wrap ''update user'') (exec (update_user u (?f nh)))) (\<lambda>n. if n = 0 then raiseE ErrUserNotFound else
      bindE (mapErrE (Wrap ''update user'') (query (select_user u))) (\<lambda>x.
      bindE (modifyE (\<lambda>s. s\<lparr>permsCache := cache_invalidate (permsCache s) u\<rparr>)) (\<lambda>_. okE x))) s0 = (Inr x, s')"
    by (rule bindE_InrE [OF run [unfolded UpdateUser_def]])
  have s0: "s0 = s" using h by (auto simp: hashPassword_def pureE_def okE_def raiseE_def split: if_splits sum.splits elim!: bindE_InrE)
  obtain n s1 s2 where e: "exec (update_user u (?f nh)) s = (Inr n, s1)" and q: "query (select_user u) s1 = (Inr x, s2)"
    and s': "s' = s2\<lparr>permsCache := cache_invalidate (permsCache s2) u\<rparr>"
    using run0 unfolding s0 by (auto simp del: Let_def simp: modifyE_def raiseE_def okE_def split: if_splits elim!: bindE_InrE dest!: mapErrE_InrD)
  have f: "u_ID (?f nh x) = u_ID x" "u_Username (?f nh x) = u_Username x" for x by (auto simp: Let_def set_perms_def split: option.splits)
  obtain fs where s1: "s1 = s\<lparr>st_db := (st_db s)\<lparr>t_users := sql_update (\<lambda>x. u_Username x = u) (?f nh) (t_users (st_db s))\<rparr>, faults := fs\<rparr>"
    using exec_Inr [OF e] by (auto simp: update_user_def)
  obtain f2 where s2: "s2 = s1\<lparr>faults := f2\<rparr>" using query_Inr [OF q] by blast
  show "caches_coherent s'" using c find_map_users [of "?f nh", OF f] permissions_users [of "?f nh", OF f(2)]
    unfolding s' s2 s1 caches_coherent_def by (auto intro!: ttl_cache.coherent_invalidate)
qed

lemma coherent_groups:
  assumes "caches_coherent s"
  shows "caches_coherent (s\<lparr>st_db := (st_db s)\<lparr>t_groups := gs, t_group_members := ms, t_group_map_permissions := ps\<rparr>, faults := fs,
    permsCache := cache_clear (permsCache s), mapPermCache := cache_clear (mapPermCache s)\<rparr>)"
  using assms unfolding caches_coherent_def by (auto intro: ttl_cache.coherent_clear)

lemma forget_permissions_run:
  "forget_permissions s = (Inr (), s\<lparr>permsCache := cache_clear (permsCache s), mapPermCache := cache_clear (mapPermCache s)\<rparr>)"
  by (simp add: forget_permissions_def bindE_def tryE_def modifyE_def)

lemma update_group_Inr:
  "update_group i name perms dn claim actor now d = Inr (n, d') \<Longrightarrow> \<exists>gs. d' = d\<lparr>t_groups := gs\<rparr>"
  by (auto simp: update_group_def split: if_splits option.splits intro: exI [of _ "t_groups d"])

lemma delete_group_Inr:
  "delete_group i now d = Inr (n, d') \<Longrightarrow> \<exists>gs ms ps. d' = d\<lparr>t_groups := gs, t_group_members := ms, t_group_map_permissions := ps\<rparr>"
proof -
  have "d = d\<lparr>t_groups := t_groups d, t_group_members := t_group_members d, t_group_map_permissions := t_group_map_permissions d\<rparr>" by simp
  moreover assume "delete_group i now d = Inr (n, d')"
  ultimately show ?thesis unfolding delete_group_def by (simp only: sum.inject prod.inject split: if_splits) blast+
qed

lemma UpdateGroup_keeps: "keeps_caches (UpdateGroup i name perms dn claim actor)"
proof (rule keeps_cachesI)
  fix s x s' assume c: "caches_coherent s" and "UpdateGroup i name perms dn claim actor s = (Inr x, s')"
  then obtain n s1 s2 where e: "exec (update_group i name perms dn claim actor) s = (Inr n, s1)" and q: "query (select_group i) s1 = (Inr x, s2)"
    and s': "s' = snd (forget_permissions s2)"
    unfolding UpdateGroup_def
    by (elim tryE_cases) (auto simp: raiseE_def okE_def split: if_splits elim!: bindE_InrE dest!: mapErrE_InrD)
  obtain f1 gs where s1: "s1 = s\<lparr>st_db := (st_db s)\<lparr>t_groups := gs\<rparr>, faults := f1\<rparr>"
    using exec_Inr [OF e] by (auto dest: update_group_Inr)
  obtain f2 where s2: "s2 = s1\<lparr>faults := f2\<rparr>" using query_Inr [OF q] by blast
  show "caches_coherent s'"
    using coherent_groups [OF c, where gs = gs and ms = "t_group_members (st_db s)" and ps = "t_group_map_permissions (st_db s)" and fs = f2] by (simp add: s' s2 s1 forget_permissions_run)
qed

lemma DeleteGroup_keeps: "keeps_caches (DeleteGroup i)"
proof (rule keeps_cachesI)
  fix s x s' assume c: "caches_coherent s" and "DeleteGroup i s = (Inr x, s')"
  then obtain n s1 where e: "exec (delete_group i) s = (Inr n, s1)" and s': "s' = snd (forget_permissions s1)"
    unfolding DeleteGroup_def by (auto simp: raiseE_def split: if_splits elim!: bindE_InrE dest!: mapErrE_InrD)
  obtain f1 gs ms ps where s1: "s1 = s\<lparr>st_db := (st_db s)\<lparr>t_groups := gs, t_group_members := ms, t_group_map_permissions := ps\<rparr>, faults := f1\<rparr>"
    using exec_Inr [OF e] by (blast dest: delete_group_Inr)
  show "caches_coherent s'" using coherent_groups [OF c] by (simp add: s' s1 forget_permissions_run)
qed


section \<open>What a write leaves in the database\<close>

lemma take_update_hit:
  "sql_exists p t \<Longrightarrow> (\<And>r. p r \<Longrightarrow> p (f r)) \<Longrightarrow> \<exists>r. p r \<and> sql_take p (sql_update p f t) = Some (f r)"
  by (induction t) (auto simp: sql_exists_def sql_take_def sql_update_def)

lemma take_snoc: "\<forall>r\<in>set t. \<not> p r \<Longrightarrow> sql_take p (t @ [r]) = (if p r then Some r else None)"
  by (induction t) (auto simp: sql_take_def)

lemma UpdateMap_view:
  assumes "UpdateMap i name cur vis anon actor s = (Inr m, s')"
  shows "find_map (st_db s') i = Some m \<and> m_Name m = name \<and> m_CurrentVersion m = cur \<and>
    m_VisibleToAll m = vis \<and> m_AnonymousAllowed m = anon"
proof -
  let ?f = "\<lambda>now m. m\<lparr>m_Name := name, m_CurrentVersion := cur, m_VisibleToAll := vis, m_AnonymousAllowed := anon,
      m_UpdatedBy := actor, m_UpdatedAt := now\<rparr>"
  obtain n s1 s2 where e: "exec (update_map i ?f) s = (Inr n, s1)" and n: "n \<noteq> 0"
    and f: "forget_map i s1 = (Inr (), s2)" and l: "loadMapWithOwner i s2 = (Inr m, s')"
    using assms unfolding UpdateMap_def by (auto elim!: bindE_InrE dest!: mapErrE_InrD simp: raiseE_def split: if_splits)
  let ?ms = "sql_update (\<lambda>m. m_UUID m = i) (?f (clock s)) (t_maps (st_db s))"
  have db: "st_db s2 = (st_db s)\<lparr>t_maps := ?ms\<rparr>" and hit: "sql_exists (\<lambda>m. m_UUID m = i) (t_maps (st_db s))"
    using exec_Inr [OF e] n f by (auto simp: update_map_def forget_map_run sql_exists_iff)
  from loadMapWithOwner_Inr [OF l] have m: "find_map (st_db s2) i = Some m" and same: "st_db s' = st_db s2" by auto
  from take_update_hit [OF hit, of "?f (clock s)"] obtain r where "sql_take (\<lambda>m. m_UUID m = i) ?ms = Some (?f (clock s) r)" by auto
  with m db same show ?thesis by (auto simp: find_map_def with_owner_def)
qed

lemma SetMapVersionAlias_view:
  assumes "SetMapVersionAlias i al v actor s = (Inr x, s')" shows "alias_in (st_db s') (i, al) = Some v"
proof -
  obtain t s1 where e: "exec (upsert_alias i al v actor) s = (Inr t, s1)" and db: "st_db s' = st_db s1"
    using assms unfolding SetMapVersionAlias_def
    by (elim tryE_cases) (auto simp: raiseE_def okE_def modifyE_def split: if_splits elim!: bindE_InrE)
  let ?p = "\<lambda>a. a_MapUUID a = i \<and> a_Alias a = al"
  let ?as = "t_map_version_aliases (st_db s)"
  show ?thesis
  proof (cases "sql_take ?p ?as")
    case None
    then have "sql_take ?p (?as @ [r]) = (if ?p r then Some r else None)" for r
      using take_snoc [of ?as ?p] by (simp add: sql_take_None)
    with exec_Inr [OF e] None show ?thesis by (auto simp: db upsert_alias_def alias_in_def split: if_splits)
  next
    case (Some a)
    then have "sql_exists ?p ?as" by (auto simp: sql_exists_iff dest: sql_take_Some)
    from take_update_hit [OF this, of "\<lambda>a. a\<lparr>a_Version := v, a_UpdatedBy := actor, a_UpdatedAt := clock s\<rparr>"] exec_Inr [OF e] Some
    show ?thesis by (auto simp: db upsert_alias_def alias_in_def split: if_splits)
  qed
qed

lemma DeleteMapVersionAlias_view:
  assumes "DeleteMapVersionAlias i al s = (Inr x, s')" shows "alias_in (st_db s') (i, al) = None"
proof -
  obtain s1 where e: "exec (delete_alias i al) s = (Inr (), s1)" and db: "st_db s' = st_db s1"
    using assms unfolding DeleteMapVersionAlias_def by (auto simp: modifyE_def elim!: bindE_InrE dest!: mapErrE_InrD)
  from exec_Inr [OF e] show ?thesis by (auto simp: db delete_alias_def alias_in_def sql_take_None sql_delete_def)
qed

lemma live_key_scoped:
  assumes wf: "distinct (map k_ID ks)" and hit: "r \<in> set ks" "live_key_of k u r"
  shows "\<exists>x. sql_take (\<lambda>r. k_ID r = k \<and> k_RevokedAt r = None) (sql_update (live_key_of k u) (\<lambda>k. k\<lparr>k_Scoped := True\<rparr>) ks) = Some x \<and> k_Scoped x"
  using assms by (induction ks) (auto simp: sql_take_def sql_update_def live_key_of_def image_iff)

lemma SetAPIKeyScope_view:
  assumes wf: "store_wf s" and run: "SetAPIKeyScope u k i vs s = (Inr x, s')"
  shows "get_scope k i (st_db s') = Inr (True, \<lparr>se_inScope = True, se_versions = (case vs of None \<Rightarrow> [] | Some vs \<Rightarrow> vs)\<rparr>)"
proof -
  obtain n s1 t s2 where e1: "exec (update_api_keys (live_key_of k u) (\<lambda>_ k. k\<lparr>k_Scoped := True\<rparr>)) s = (Inr n, s1)" "n \<noteq> 0"
    and e2: "exec (upsert_scope k i vs) s1 = (Inr t, s2)" and db: "st_db s' = st_db s2"
    using SetAPIKeyScope_Inr [OF run] by auto
  have keys: "t_api_keys (st_db s2) = sql_update (live_key_of k u) (\<lambda>k. k\<lparr>k_Scoped := True\<rparr>) (t_api_keys (st_db s))"
    and "\<exists>r\<in>set (t_api_keys (st_db s)). live_key_of k u r"
    using exec_Inr [OF e1(1)] exec_Inr [OF e2] e1(2) by (auto simp: update_api_keys_def upsert_scope_def split: if_splits)
  then obtain r where "r \<in> set (t_api_keys (st_db s))" "live_key_of k u r" by blast
  moreover have "distinct (map k_ID (t_api_keys (st_db s)))" using wf by (simp add: wf_simps)
  ultimately obtain y where "sql_take (\<lambda>r. k_ID r = k \<and> k_RevokedAt r = None) (t_api_keys (st_db s2)) = Some y" "k_Scoped y"
    using live_key_scoped unfolding keys by blast
  then have flag: "scoped_flag k (st_db s') = Inr True" by (simp add: scoped_flag_def key_in_def select_live_key_def db)
  let ?p = "\<lambda>c. sc_APIKeyID c = k \<and> sc_MapUUID c = i"
  let ?cs = "t_api_key_scopes (st_db s1)"
  have "scope_in (st_db s2) (k, i) = \<lparr>se_inScope = True, se_versions = (case vs of None \<Rightarrow> [] | Some vs \<Rightarrow> vs)\<rparr>"
  proof (cases "sql_exists ?p ?cs")
    case True
    from take_update_hit [OF this, of "set_scope vs (clock s1)"] exec_Inr [OF e2] True
    show ?thesis by (auto simp: upsert_scope_def scope_in_def set_scope_def)
  next
    case False
    then have "\<forall>c\<in>set ?cs. \<not> ?p c" unfolding sql_exists_iff by blast
    note snoc = take_snoc [OF this]
    have "st_db s2 = (st_db s1)\<lparr>t_api_key_scopes := ?cs @
        [\<lparr>sc_APIKeyID = k, sc_MapUUID = i, sc_Versions = vs, sc_GrantedAt = clock s1\<rparr>]\<rparr>"
      using exec_Inr [OF e2] False by (auto simp: upsert_scope_def split: if_splits)
    then show ?thesis by (simp add: scope_in_def snoc)
  qed
  with flag show ?thesis by (simp add: get_scope_def db)
qed

section \<open>The properties\<close>

text \<open>
  C22. The cached lookups refine the database: while the caches agree with it, each of them answers what the database
  says (\<open>get_permissions\<close> and so on are functions of the tables alone), whether or not an entry answers from the cache and
  whichever statements fail, changes nothing but the caches and leaves them in agreement.
\<close>

theorem lookups_refine_database:
  "reads (GetPermissions u) (get_permissions u) \<and> reads (GetMap i) (get_map i) \<and>
   reads (GetCurrentVersion i) (get_current i) \<and> reads (GetMapPermission i u) (\<lambda>d. Inr (grants_in d (i, u))) \<and>
   reads (GetMapVersionAlias i al) (get_alias i al) \<and> reads (apiKeyScopedFlag k) (scoped_flag k) \<and>
   reads (resolveAPIKeyMapScope k i) (get_scope k i)"
  by (intro conjI reads_rules)


text \<open>
  C24. A caller reads its own writes: over coherent caches, the lookup after an update of a map returns the updated row,
  the one after an alias is set returns its version and the one after it is removed none, and a key whose scope was set
  may read exactly the versions of the map it was given, all of them if the list is empty or missing.
\<close>

theorem read_your_writes:
  assumes c: "caches_coherent s" and wf: "store_wf s"
  shows "(\<forall>m s1 m' s2. UpdateMap i name cur vis anon actor s = (Inr m, s1) \<and> GetMap i s1 = (Inr m', s2) \<longrightarrow>
        m' = m \<and> m_Name m = name \<and> m_CurrentVersion m = cur \<and> m_VisibleToAll m = vis \<and> m_AnonymousAllowed m = anon) \<and>
     (\<forall>x s1 w s2. SetMapVersionAlias i al v actor s = (Inr x, s1) \<and> GetMapVersionAlias i al s1 = (Inr w, s2) \<longrightarrow> w = v) \<and>
     (\<forall>x s1 r s2. DeleteMapVersionAlias i al s = (Inr x, s1) \<and> GetMapVersionAlias i al s1 = (r, s2) \<longrightarrow> isl r) \<and>
     (\<forall>x s1 b s2. SetAPIKeyScope u k i vs s = (Inr x, s1) \<and> APIKeyCanAccessMapVersion k i w s1 = (Inr b, s2) \<longrightarrow>
        b = (case vs of None \<Rightarrow> True | Some vs \<Rightarrow> vs = [] \<or> w \<in> set vs))"
proof (intro conjI allI impI; elim conjE)
  fix m s1 m' s2 assume w: "UpdateMap i name cur vis anon actor s = (Inr m, s1)" and r: "GetMap i s1 = (Inr m', s2)"
  have "caches_coherent s1" using UpdateMap_keeps c w unfolding keeps_caches_def by blast
  from readsD [OF GetMap_reads this r] UpdateMap_view [OF w]
  show "m' = m" "m_Name m = name" "m_CurrentVersion m = cur" "m_VisibleToAll m = vis" "m_AnonymousAllowed m = anon"
    by (auto simp: reads_step_def get_map_def)
next
  fix x s1 w s2 assume w: "SetMapVersionAlias i al v actor s = (Inr x, s1)" and r: "GetMapVersionAlias i al s1 = (Inr w, s2)"
  have "caches_coherent s1" using SetMapVersionAlias_keeps c w unfolding keeps_caches_def by blast
  from readsD [OF GetMapVersionAlias_reads this r] SetMapVersionAlias_view [OF w] show "w = v"
    by (simp add: reads_step_def get_alias_def)
next
  fix x s1 r s2 assume w: "DeleteMapVersionAlias i al s = (Inr x, s1)" and r: "GetMapVersionAlias i al s1 = (r, s2)"
  have "caches_coherent s1" using DeleteMapVersionAlias_keeps c w unfolding keeps_caches_def by blast
  from readsD [OF GetMapVersionAlias_reads this r] DeleteMapVersionAlias_view [OF w] show "isl r"
    by (auto simp: reads_step_def get_alias_def)
next
  fix x s1 b s2 assume w: "SetAPIKeyScope u k i vs s = (Inr x, s1)" and r: "APIKeyCanAccessMapVersion k i w s1 = (Inr b, s2)"
  have c1: "caches_coherent s1" using SetAPIKeyScope_keeps c w unfolding keeps_caches_def by blast
  obtain p s3 where q: "resolveAPIKeyMapScope k i s1 = (Inr p, s3)"
    and b: "b = (fst p \<longrightarrow> se_inScope (snd p) \<and> (se_versions (snd p) = [] \<or> w \<in> set (se_versions (snd p))))"
    using r unfolding APIKeyCanAccessMapVersion_def by (auto simp: okE_def split: if_splits prod.splits elim!: bindE_InrE)
  from readsD [OF resolveAPIKeyMapScope_reads c1 q] SetAPIKeyScope_view [OF wf w]
  show "b = (case vs of None \<Rightarrow> True | Some vs \<Rightarrow> vs = [] \<or> w \<in> set vs)" by (auto simp: reads_step_def b split: option.splits)
qed


lemma ex_scope_set:
  "(case SetAPIKeyScope ''bob'' 30 10 (Some [''2'']) ex_store of (Inl e, s) \<Rightarrow> False
    | (Inr x, s) \<Rightarrow> fst (APIKeyCanAccessMapVersion 30 10 ''1'' s) = Inr False \<and>
       fst (APIKeyCanAccessMapVersion 30 10 ''2'' s) = Inr True)"
  by code_simp

theorem read_your_writes_witness:
  "\<exists>x s1 b s2. SetAPIKeyScope ''bob'' 30 10 (Some [''2'']) ex_store = (Inr x, s1) \<and>
     APIKeyCanAccessMapVersion 30 10 ''1'' s1 = (Inr b, s2) \<and> \<not> b"
proof -
  obtain x s1 where w: "SetAPIKeyScope ''bob'' 30 10 (Some [''2'']) ex_store = (Inr x, s1)"
    and "fst (APIKeyCanAccessMapVersion 30 10 ''1'' s1) = Inr False"
    using ex_scope_set by (auto split: prod.splits sum.splits)
  then obtain s2 where r: "APIKeyCanAccessMapVersion 30 10 ''1'' s1 = (Inr False, s2)" by (metis prod.collapse)
  have "store_wf ex_store" by (simp add: ex_db_wf)
  from read_your_writes [OF caches_coherent_ex this, of 10 "[]" "[]" False False "[]" "[]" "[]" "''bob''" 30 "Some [''2'']" "''1''"]
  have "\<not> False" using w r by auto
  with w r show ?thesis by blast
qed

end
