(* ===== verification/ArchiveFacts.thy ===== *)
theory ArchiveFacts
  imports Examples
begin

text \<open>
  What the archive code does to the disk: extraction stays in its staging directory, the file server reads below
  its directory only, and the tile index lists the tiles that are there.
\<close>

section \<open>Extraction with clean-up\<close>

text \<open>
  As \<open>confined\<close>, but the tree below \<open>base\<close> may also be removed again.
\<close>

definition stays_below :: "fpath \<Rightarrow> disk \<Rightarrow> disk \<Rightarrow> bool" where
  "stays_below base d d' \<longleftrightarrow> (\<forall>p. map_of d' p \<noteq> map_of d p \<longrightarrow>
     (\<exists>segs. tile_path segs \<and> p = base @ segs) \<or> prefix p base \<and> map_of d' p = Some FDir \<or>
     prefix base p \<and> map_of d' p = None)"

lemma below_refl [simp]: "stays_below base d d"
  by (simp add: stays_below_def)

lemma below_trans: "stays_below base d d' \<Longrightarrow> stays_below base d' d'' \<Longrightarrow> stays_below base d d''"
  unfolding stays_below_def by metis

lemma confined_below: "confined base d d' \<Longrightarrow> stays_below base d d'"
  unfolding confined_def stays_below_def by blast

abbreviation kept_below :: "fpath \<Rightarrow> disk \<Rightarrow> 'w world_scheme \<Rightarrow> bool" where
  "kept_below base d0 w \<equiv> stays_below base d0 (disk w)"

text \<open>An operation that keeps every starting disk confined keeps stays_below.\<close>

lemma preserves_below:
  fixes m :: "'w world_scheme \<Rightarrow> 'r \<times> 'w world_scheme"
  assumes "\<And>d. preserves (kept_confined base d) m"
  shows "preserves (kept_below base d0) m"
proof (rule preservesI)
  fix w :: "'w world_scheme" assume w: "kept_below base d0 w"
  have "kept_confined base (disk w) (snd (m w))"
    using assms [of "disk w"] by (simp add: preserves_def)
  with w show "kept_below base d0 (snd (m w))" by (blast intro: below_trans confined_below)
qed

lemma below_fs_op:
  assumes "\<And>d x d'. f d = Inr (x, d') \<Longrightarrow> stays_below base d d'"
  shows "preserves (kept_below base d0) (fs_op f)"
  using assms below_trans by (fastforce simp: preserves_def fs_op_def split: sum.split)

lemma below_MkdirAll:
  assumes "path_of t = q" and "prefix q base"
  shows "preserves (kept_below base d0) (MkdirAll t)"
  unfolding MkdirAll_def
proof (rule below_fs_op)
  fix d x d' assume m: "fs_mkdirall (path_of t) d = Inr (x, d')"
  have "confined q d d'" using confined_mkdirall [of q "[]"] m assms(1) by simp
  show "stays_below base d d'"
    unfolding stays_below_def
  proof (intro allI impI)
    fix p assume "map_of d' p \<noteq> map_of d p"
    then have "p \<in> set (proper_prefixes q @ [q]) \<and> map_of d' p = Some FDir"
      using m map_of_mkdirs [of "proper_prefixes q @ [q]" d p] assms(1)
      by (auto simp: fs_mkdirall_def split: if_splits)
    moreover have "prefix p q" if "p \<in> set (proper_prefixes q @ [q])"
      using that by (auto simp: proper_prefixes_def take_is_prefix)
    ultimately show "(\<exists>segs. tile_path segs \<and> p = base @ segs) \<or> prefix p base \<and> map_of d' p = Some FDir \<or>
      prefix base p \<and> map_of d' p = None" using assms(2) by (meson prefix_order.trans)
  qed
qed

lemma below_Mkdir: "path_of t = base \<Longrightarrow> preserves (kept_below base d0) (Mkdir t)"
  unfolding Mkdir_def
  by (rule below_fs_op) (auto simp: fs_mkdir_def stays_below_def split: if_splits)

lemma map_of_fs_remove: "map_of (fs_remove base d) p = (if prefix base p then None else map_of d p)"
  unfolding fs_remove_def by (induction d) auto

lemma below_RemoveAll: "path_of t = base \<Longrightarrow> preserves (kept_below base d0) (RemoveAll t)"
  unfolding RemoveAll_def
  by (rule below_fs_op) (auto simp: fs_removeall_def stays_below_def map_of_fs_remove split: if_splits)

lemma below_query: "preserves (kept_below base d0) (fs_query f)"
  unfolding fs_query_def by (rule below_fs_op) (auto split: sum.splits)

text \<open>
  The two readers of archives share one contract: they keep to the directory they are given. \<open>ExtractArchive\<close>
  relies on nothing else of them.
\<close>

locale confined_extractor =
  fixes unpack :: "string \<Rightarrow> string \<Rightarrow> ('w, unit) fsa"
  assumes stays: "path_of dest \<notin> {[], [''/'']} \<Longrightarrow> preserves (kept_confined (path_of dest) d0) (unpack tmp dest)"
begin

lemma staged:
  assumes "path_of staging = base" and "base \<notin> {[], [''/'']}"
  shows "preserves (kept_below base d0)
    (tryE (unpack tmp staging) (\<lambda>e. bindE (ignoreE (RemoveAll staging)) (\<lambda>_. raiseE (h e))) (\<lambda>_. okE staging))"
proof -
  have x: "preserves (kept_below base d0) (unpack tmp staging)"
    by (rule preserves_below) (use stays [of staging] assms in simp)
  show ?thesis by (intro pres x below_RemoveAll assms(1))
qed

end

interpretation zip: confined_extractor "extractZip lib"
  by unfold_locales (rule confined_extractZip)

interpretation tar: confined_extractor "\<lambda>tmp dest. extractTar lib tmp dest gz"
  by unfold_locales (rule confined_extractTar)

lemma path_of_staging:
  assumes "plain_name sfx" and "dir \<noteq> []"
  shows "path_of (dir @ CHR ''/'' # sfx) = path_of dir @ [sfx]"
  using path_of_append [of dir "[sfx]"] assms by simp

lemma ExtractArchive_below:
  assumes "plain_name (''.upload-'' @ rnd)" and "dir \<noteq> []" and "path_of dir \<noteq> []"
  shows "preserves (kept_below (path_of dir @ [''.upload-'' @ rnd]) d0) (ExtractArchive lib rnd tmp dir)"
proof -
  let ?s = "dir @ CHR ''/'' # ''.upload-'' @ rnd" and ?b = "path_of dir @ [''.upload-'' @ rnd]"
  have s: "path_of ?s = ?b" using path_of_staging [OF assms(1,2)] by simp
  have b: "?b \<notin> {[], [''/'']}" using assms(3) by (cases "path_of dir") auto
  have q: "preserves (kept_below ?b d0) (sniffArchiveFormat tmp)"
    unfolding sniffArchiveFormat_def os_ReadFile_def by (intro pres below_query)
  have x: "preserves (kept_below ?b d0)
      (tryE (case fmt of
             archiveZip \<Rightarrow> extractZip lib tmp ?s
           | archiveTarGz \<Rightarrow> extractTar lib tmp ?s True
           | archiveTar \<Rightarrow> extractTar lib tmp ?s False
           | archiveUnknown \<Rightarrow> raiseE (OpaqueErr ''unsupported archive format''))
       (\<lambda>e. bindE (ignoreE (RemoveAll ?s)) (\<lambda>_. raiseE (Wrap ''extract'' ErrInvalidArchive))) (\<lambda>_. okE ?s))" for fmt
    by (cases fmt) (simp_all add: zip.staged [OF s b] tar.staged [OF s b] below_RemoveAll [OF s] pres
        del: append_Cons)
  show ?thesis
    unfolding ExtractArchive_def Let_def
    by (intro preserves_bindE preserves_mapErrE preserves_if preserves_raiseE q x below_MkdirAll [OF refl]
        below_Mkdir [OF s] prefixI [OF refl])
qed

section \<open>Paths of URLs\<close>

lemma clean_parts_rooted: "w \<in> set (clean_parts (CHR ''/'' # s)) \<Longrightarrow> plain_name w"
  using clean_stack_parts [of "CHR ''/'' # s"] by (auto simp: clean_stack_def plain_name_def HasPrefix_def)

lemma path_of_dot: "a \<noteq> [] \<Longrightarrow> path_of (a @ ''/.'') = path_of a"
  by (simp add: path_of_def clean_parts_def Split_append clean_step_def HasPrefix_append_slash)

lemma join_with_nonempty: "ws \<noteq> [] \<Longrightarrow> hd ws \<noteq> [] \<Longrightarrow> join_with sep ws \<noteq> []"
  using join_first [of ws sep] by auto

lemma path_of_Dir_path:
  assumes "dir \<noteq> []"
  shows "path_of (Dir_path dir name) = path_of dir @ clean_parts (CHR ''/'' # name)"
proof (cases "clean_parts (CHR ''/'' # name) = []")
  case True
  then have "Dir_path dir name = Clean (dir @ ''/.'')"
    using assms by (simp add: Dir_path_def Let_def Join2_def) (simp add: Clean_def HasPrefix_def)
  with True path_of_dot [OF assms] show ?thesis by simp
next
  case False
  let ?ps = "clean_parts (CHR ''/'' # name)"
  have p: "\<forall>w\<in>set ?ps. plain_name w" using clean_parts_rooted by blast
  then have "hd ?ps \<noteq> []" using False by (simp add: plain_name_def)
  with False p assms show ?thesis
    by (simp add: Dir_path_def Clean_def HasPrefix_def Let_def join_with_nonempty path_of_Join2)
qed

lemma fs_query_Inr:
  "fs_query f w = (Inr x, w') \<Longrightarrow> f (disk w) = Inr x \<and> disk w' = disk w"
  by (auto simp: fs_query_def fs_op_def split: if_splits sum.splits)

lemma fs_query_disk: "fs_query f w = (x, w') \<Longrightarrow> disk w' = disk w"
  by (auto simp: fs_query_def fs_op_def split: if_splits sum.splits)

lemma fs_readfile_Inr: "fs_readfile p d = Inr c \<Longrightarrow> map_of d p = Some (FFile c)"
  by (auto simp: fs_readfile_def fs_stat_def split: sum.splits fnode.splits if_splits option.splits)

lemma fs_readdir_Inr: "fs_readdir p d = Inr es \<Longrightarrow> fs_stat p d = Inr FDir \<and> es = children p d"
  by (auto simp: fs_readdir_def split: sum.splits fnode.splits)

section \<open>Properties\<close>

text \<open>A hostile upload: only one of its entries names a tile.\<close>

definition ex_entry :: "string \<Rightarrow> zipEntry" where
  "ex_entry name = \<lparr>ze_Name = name, ze_Symlink = False, ze_IsDir = False, ze_Open = Inr (''tile'', None)\<rparr>"

definition ex_arch :: archlib where
  "ex_arch = \<lparr>zip_OpenReader = (\<lambda>_. Inr [ex_entry ''../../server.key'', ex_entry ''/etc/passwd'', ex_entry ''0/0/0.png'',
       (ex_entry ''0/1'')\<lparr>ze_Symlink := True\<rparr>, ex_entry ''index.json'']),
     tar_Reader = (\<lambda>_. ([], None)), gzip_Reader = (\<lambda>_. Inl ErrInvalidArchive)\<rparr>"

definition ex_upload :: msys where
  "ex_upload = ex_msys\<lparr>disk := ([''up''], FFile zipMagic) # disk ex_msys\<rparr>"

lemma ex_upload_extracted:
  "map_of (disk (snd (ExtractArchive ex_arch ''7'' ''up'' ''data/11'' ex_upload)))
     [''data'', ''11'', ''.upload-7'', ''0'', ''0'', ''0.png''] = Some (FFile ''tile'')"
  by code_simp

text \<open>
  C15. Unpacking an upload cannot write outside its staging directory: whatever the archive holds (absolute names,
  \<open>..\<close>, symbolic links, odd file types) and whichever calls fail, every file or directory that differs afterwards
  is a numeric path ending in a directory or a \<open>.png\<close> below the staging directory, was removed with the staging
  directory, or is a directory made on the way to it.
\<close>

theorem ExtractArchive_confined:
  assumes "plain_name (''.upload-'' @ rnd)" and "dir \<noteq> []" and "path_of dir \<noteq> []"
    and "ExtractArchive lib rnd tmp dir w = (x, w')"
  shows "stays_below (path_of dir @ [''.upload-'' @ rnd]) (disk w) (disk w')"
  using preservesD [OF ExtractArchive_below [OF assms(1-3)] below_refl assms(4)] .

theorem ExtractArchive_confined_witness:
  "stays_below [''data'', ''11'', ''.upload-7''] (disk ex_upload)
     (disk (snd (ExtractArchive ex_arch ''7'' ''up'' ''data/11'' ex_upload))) \<and>
   map_of (disk (snd (ExtractArchive ex_arch ''7'' ''up'' ''data/11'' ex_upload)))
     [''data'', ''11'', ''.upload-7'', ''0'', ''0'', ''0.png''] = Some (FFile ''tile'')"
proof -
  have p: "path_of ''data/11'' = [''data'', ''11'']" "plain_name (''.upload-'' @ ''7'')" by code_simp+
  show ?thesis
    using ExtractArchive_confined [OF p(2) _ _ surjective_pairing [of "ExtractArchive ex_arch ''7'' ''up'' ''data/11'' ex_upload"]]
      ex_upload_extracted by (simp add: p(1))
qed

section \<open>The tiles of a directory\<close>

text \<open>A disk as the calls of \<open>os\<close> leave it: one entry per path, each in a directory and with an ordinary name.\<close>

definition disk_ok :: "disk \<Rightarrow> bool" where
  "disk_ok d \<longleftrightarrow> distinct (map fst d) \<and>
     (\<forall>p n. (p, n) \<in> set d \<longrightarrow> p \<noteq> [] \<and> plain_name (last p) \<and> fs_dir d (butlast p))"

lemma children_iff:
  assumes "disk_ok d"
  shows "(name, n) \<in> set (children p d) \<longleftrightarrow> map_of d (p @ [name]) = Some n"
proof -
  have "(name, n) \<in> set (children p d) \<longleftrightarrow> (p @ [name], n) \<in> set d"
    by (force simp: children_def snoc_eq_iff_butlast)
  also have "\<dots> \<longleftrightarrow> map_of d (p @ [name]) = Some n"
    using assms by (simp add: disk_ok_def)
  finally show ?thesis .
qed

lemma Atoi_plain: "Atoi s = Some n \<Longrightarrow> plain_name s"
proof -
  assume a: "Atoi s = Some n"
  obtain ds where ds: "all_digits ds" "s = ds \<or> s = CHR ''-'' # ds \<or> s = CHR ''+'' # ds"
    using a by (cases s) (auto simp: Atoi_def Let_def split: if_splits)
  from ds(1) have "plain_name ds" by (rule all_digits_plain)
  moreover have "ds \<noteq> ''.''" "CHR ''.'' \<notin> set ds"
    using ds(1) by (auto simp: all_digits_def list_all_iff is_digit_def)
  ultimately show ?thesis using ds(2) by (auto simp: plain_name_def)
qed

definition tiles_in :: "disk \<Rightarrow> fpath \<Rightarrow> tileCoord set" where
  "tiles_in d base = {(z, x, y). \<exists>zN xN yN.
     Atoi zN = Some z \<and> map_of d (base @ [zN]) = Some FDir \<and>
     Atoi xN = Some x \<and> map_of d (base @ [zN, xN]) = Some FDir \<and>
     numericPNG yN \<and> Atoi (TrimSuffix yN ''.png'') = Some y \<and> map_of d (base @ [zN, xN, yN]) \<noteq> None}"

lemma foldE_collect:
  assumes "foldE f xs b s = (Inr r, s')" and "P s"
    and "\<And>x b s b' s'. x \<in> set xs \<Longrightarrow> P s \<Longrightarrow> f x b s = (Inr b', s') \<Longrightarrow> P s' \<and> set b' = set b \<union> g x"
  shows "P s' \<and> set r = set b \<union> (\<Union>x\<in>set xs. g x)"
  using assms
proof (induction xs arbitrary: b s)
  case Nil
  then show ?case by (simp add: okE_def)
next
  case (Cons x xs)
  from Cons.prems(1) obtain b1 s1 where "f x b s = (Inr b1, s1)" "foldE f xs b1 s1 = (Inr r, s')"
    by (auto elim: bindE_InrE)
  with Cons.prems(2,3) Cons.IH [of b1 s1] show ?case by (metis (no_types, lifting) Un_assoc UN_insert list.simps(15) list.set_intros)
qed

lemma ReadDir_Inr:
  assumes "mapErrE h (ReadDir p) w = (Inr es, w')" and "disk_ok (disk w)"
  shows "disk w' = disk w" and "(name, n) \<in> set es \<longleftrightarrow> map_of (disk w) (path_of p @ [name]) = Some n"
proof -
  have "disk w' = disk w \<and> es = children (path_of p) (disk w)"
    using mapErrE_InrD [OF assms(1)] unfolding ReadDir_def by (auto dest!: fs_query_Inr fs_readdir_Inr)
  then show "disk w' = disk w" "(name, n) \<in> set es \<longleftrightarrow> map_of (disk w) (path_of p @ [name]) = Some n"
    using children_iff [OF assms(2)] by auto
qed

lemma set_y_tiles:
  "set (y_tiles z x es) = {(z, x, y) |y yN n. (yN, n) \<in> set es \<and> numericPNG yN \<and> Atoi (TrimSuffix yN ''.png'') = Some y}"
  unfolding y_tiles_def by (force simp: List.map_filter_def split: option.splits if_splits)

lemma scanZoomTiles_Inr:
  assumes "scanZoomTiles dest zN z w = (Inr ts, w')" and ok: "disk_ok (disk w)" and "dest \<noteq> []"
    and "Atoi zN = Some z"
  shows "disk w' = disk w \<and> set ts = {(z, x, y) |x y xN yN. Atoi xN = Some x \<and>
     map_of (disk w) (path_of dest @ [zN, xN]) = Some FDir \<and> numericPNG yN \<and>
     Atoi (TrimSuffix yN ''.png'') = Some y \<and> map_of (disk w) (path_of dest @ [zN, xN, yN]) \<noteq> None}"
proof -
  let ?zd = "Join2 dest zN"
  have zd: "path_of ?zd = path_of dest @ [zN]" "?zd \<noteq> []"
    using path_of_Join2_name [OF assms(3) Atoi_plain [OF assms(4)]] assms(3) by simp_all
  obtain es w1 where es: "mapErrE (Wrap ''read zoom dir'') (ReadDir ?zd) w = (Inr es, w1)"
    and f: "foldE (\<lambda>(xName, n) tiles. if n \<noteq> FDir then okE tiles
         else case Atoi xName of None \<Rightarrow> okE tiles
         | Some x \<Rightarrow> bindE (mapErrE (Wrap ''read x dir'') (ReadDir (Join2 ?zd xName))) (\<lambda>yEntries.
               okE (tiles @ y_tiles z x yEntries))) es [] w1 = (Inr ts, w')"
    using assms(1) unfolding scanZoomTiles_def by (auto elim: bindE_InrE)
  note e = ReadDir_Inr [OF es ok]
  define g where "g = (\<lambda>(xN, n). {(z, x, y) |x y yN. n = FDir \<and> Atoi xN = Some x \<and> numericPNG yN \<and>
     Atoi (TrimSuffix yN ''.png'') = Some y \<and> map_of (disk w) (path_of dest @ [zN, xN, yN]) \<noteq> None})"
  have "disk w' = disk w \<and> set ts = set [] \<union> (\<Union>x\<in>set es. g x)"
  proof (rule foldE_collect [OF f])
    show "disk w1 = disk w" by (rule e(1))
    fix x b s b' s'
    assume d: "disk s = disk w" and run: "(case x of (xName, n) \<Rightarrow> \<lambda>tiles. if n \<noteq> FDir then okE tiles
         else case Atoi xName of None \<Rightarrow> okE tiles
         | Some x \<Rightarrow> bindE (mapErrE (Wrap ''read x dir'') (ReadDir (Join2 ?zd xName))) (\<lambda>yEntries.
               okE (tiles @ y_tiles z x yEntries))) b s = (Inr b', s')"
    obtain xN n where x: "x = (xN, n)" by (cases x)
    show "disk s' = disk w \<and> set b' = set b \<union> g x"
    proof (cases "n = FDir \<and> Atoi xN \<noteq> None")
      case False
      with run d show ?thesis unfolding x g_def by (auto simp: okE_def split: if_splits)
    next
      case True
      then obtain xi where xi: "Atoi xN = Some xi" by auto
      with True run obtain ys where ys: "mapErrE (Wrap ''read x dir'') (ReadDir (Join2 ?zd xN)) s = (Inr ys, s')"
        and b': "b' = b @ y_tiles z xi ys"
        unfolding x by (auto simp: okE_def elim!: bindE_InrE)
      have p: "path_of (Join2 ?zd xN) = path_of dest @ [zN, xN]"
        using path_of_Join2_name [OF zd(2) Atoi_plain [OF xi]] zd(1) by simp
      note y = ReadDir_Inr [OF ys, unfolded d p, OF ok]
      have "set (y_tiles z xi ys) = g x"
        unfolding x g_def set_y_tiles y(2) using True xi by auto
      with b' y(1) show ?thesis by simp
    qed
  qed
  moreover have "(\<Union>x\<in>set es. g x) = {t. \<exists>xN n. map_of (disk w) (path_of dest @ [zN, xN]) = Some n \<and> t \<in> g (xN, n)}"
    using e(2) zd(1) by auto
  ultimately show ?thesis unfolding g_def by (simp add: set_eq_iff) blast
qed

lemma scanTileCoords_Inr:
  assumes "scanTileCoords dest w = (Inr ts, w')" and ok: "disk_ok (disk w)" and "dest \<noteq> []"
  shows "disk w' = disk w \<and> set ts = tiles_in (disk w) (path_of dest)"
proof -
  obtain es w1 where es: "mapErrE (Wrap ''read version dir'') (ReadDir dest) w = (Inr es, w1)"
    and f: "foldE (\<lambda>(zName, n) tiles. if n \<noteq> FDir then okE tiles
         else case Atoi zName of None \<Rightarrow> okE tiles
         | Some z \<Rightarrow> bindE (scanZoomTiles dest zName z) (\<lambda>zTiles. okE (tiles @ zTiles))) es [] w1 = (Inr ts, w')"
    using assms(1) unfolding scanTileCoords_def by (auto elim: bindE_InrE)
  note e = ReadDir_Inr [OF es ok]
  define g where "g = (\<lambda>(zN, n). {(z, x, y). n = FDir \<and> Atoi zN = Some z \<and> (\<exists>xN yN. Atoi xN = Some x \<and>
     map_of (disk w) (path_of dest @ [zN, xN]) = Some FDir \<and> numericPNG yN \<and>
     Atoi (TrimSuffix yN ''.png'') = Some y \<and> map_of (disk w) (path_of dest @ [zN, xN, yN]) \<noteq> None)})"
  have "disk w' = disk w \<and> set ts = set [] \<union> (\<Union>x\<in>set es. g x)"
  proof (rule foldE_collect [OF f])
    show "disk w1 = disk w" by (rule e(1))
    fix x b s b' s'
    assume d: "disk s = disk w" and run: "(case x of (zName, n) \<Rightarrow> \<lambda>tiles. if n \<noteq> FDir then okE tiles
         else case Atoi zName of None \<Rightarrow> okE tiles
         | Some z \<Rightarrow> bindE (scanZoomTiles dest zName z) (\<lambda>zTiles. okE (tiles @ zTiles))) b s = (Inr b', s')"
    obtain zN n where x: "x = (zN, n)" by (cases x)
    show "disk s' = disk w \<and> set b' = set b \<union> g x"
    proof (cases "n = FDir \<and> Atoi zN \<noteq> None")
      case False
      with run d show ?thesis unfolding x g_def by (auto simp: okE_def split: if_splits)
    next
      case True
      then obtain z where z: "Atoi zN = Some z" by auto
      with True run obtain zs where zs: "scanZoomTiles dest zN z s = (Inr zs, s')" and b': "b' = b @ zs"
        unfolding x by (auto simp: okE_def elim!: bindE_InrE)
      from scanZoomTiles_Inr [OF zs _ assms(3) z] ok d have "disk s' = disk w" "set zs = g x"
        unfolding x g_def using True z by (auto, blast)
      with b' show ?thesis by simp
    qed
  qed
  moreover have "(\<Union>x\<in>set es. g x) = {t. \<exists>zN n. map_of (disk w) (path_of dest @ [zN]) = Some n \<and> t \<in> g (zN, n)}"
    using e(2) by auto
  ultimately show ?thesis unfolding g_def tiles_in_def by (simp add: set_eq_iff) blast
qed

lemma map_of_filter_other: "q \<noteq> p \<Longrightarrow> map_of (filter (\<lambda>(q, n). q \<noteq> p) d) q = map_of d q"
  by (induction d) auto

lemma WriteFile_Inr:
  assumes "WriteFile p c w = (Inr u, w')"
  shows "map_of (disk w') = (map_of (disk w))(path_of p \<mapsto> FFile c)"
  using assms by (auto simp: WriteFile_def fs_op_def fs_write_def fun_eq_iff map_of_filter_other
      split: if_splits sum.splits)

lemma plain_index: "plain_name ''index.json''"
  by (simp add: plain_name_def)

lemma path_of_index: "dest \<noteq> [] \<Longrightarrow> path_of (index_path dest) = path_of dest @ [''index.json'']"
  by (simp add: index_path_def path_of_Join2_name plain_index)


section \<open>Backfilling\<close>

text \<open>The difference a run of the backfill may make: new index files of numeric version directories.\<close>

definition adds_indexes :: "fpath \<Rightarrow> disk \<Rightarrow> disk \<Rightarrow> bool" where
  "adds_indexes base d d' \<longleftrightarrow> (\<forall>p. map_of d' p \<noteq> map_of d p \<longrightarrow>
     map_of d p = None \<and> (\<exists>over v. all_digits v \<and> p = base @ [over, v, ''index.json'']))"

lemma adds_indexes_refl [simp]: "adds_indexes base d d"
  by (simp add: adds_indexes_def)

lemma adds_indexes_trans: "adds_indexes base d d' \<Longrightarrow> adds_indexes base d' d'' \<Longrightarrow> adds_indexes base d d''"
  unfolding adds_indexes_def by metis

lemma adds_indexes_keeps: "adds_indexes base d d' \<Longrightarrow> map_of d p = Some n \<Longrightarrow> map_of d' p = Some n"
  unfolding adds_indexes_def by (metis option.distinct(1))

text \<open>A loop whose steps only move along a preorder reaches the goal of every step.\<close>

lemma forE_reaches:
  assumes "forE xs f s = (r, s')" and "\<And>s. R s s" and "\<And>a b c. R a b \<Longrightarrow> R b c \<Longrightarrow> R a c"
    and "\<And>x s r s'. x \<in> set xs \<Longrightarrow> f x s = (r, s') \<Longrightarrow> R s s' \<and> (r = Inr () \<longrightarrow> Q x s')"
    and "\<And>x s s'. R s s' \<Longrightarrow> Q x s \<Longrightarrow> Q x s'"
  shows "R s s' \<and> (r = Inr () \<longrightarrow> (\<forall>x\<in>set xs. Q x s'))"
  using assms(1,4)
proof (induction xs arbitrary: s)
  case Nil
  then show ?case by (simp add: okE_def assms(2))
next
  case (Cons x xs)
  obtain y s1 where y: "f x s = (y, s1)" by (meson surj_pair)
  then have first: "R s s1" "y = Inr () \<longrightarrow> Q x s1" using Cons.prems(2) by auto
  show ?case
  proof (cases y)
    case (Inl e)
    with Cons.prems(1) y first show ?thesis by (auto simp: bindE_Inl)
  next
    case (Inr u)
    with Cons.prems(1) y have "forE xs f s1 = (r, s')" by (simp add: bindE_Inr)
    from Cons.IH [OF this] Cons.prems(2) have rest: "R s1 s'" "r = Inr () \<longrightarrow> (\<forall>x\<in>set xs. Q x s')" by auto
    with first Inr assms(3,5) show ?thesis by (metis list.set_cases old.unit.exhaust set_ConsD)
  qed
qed

lemma all_then_first_error_reaches:
  assumes "all_then_first_error (map f xs) err s = (r, s')" and "\<And>s. R s s"
    and "\<And>a b c. R a b \<Longrightarrow> R b c \<Longrightarrow> R a c"
    and "\<And>x s r s'. x \<in> set xs \<Longrightarrow> R s0 s \<Longrightarrow> f x s = (r, s') \<Longrightarrow> R s s' \<and> (r = Inr () \<longrightarrow> Q x s')"
    and "\<And>x s s'. R s s' \<Longrightarrow> Q x s \<Longrightarrow> Q x s'" and "R s0 s"
  shows "R s s' \<and> (r = Inr () \<longrightarrow> err = None \<and> (\<forall>x\<in>set xs. Q x s'))"
  using assms(1,4,6)
proof (induction xs arbitrary: s err)
  case Nil
  then show ?case by (auto simp: okE_def raiseE_def assms(2) split: option.splits)
next
  case (Cons x xs)
  obtain y s1 where y: "f x s = (y, s1)" by (meson surj_pair)
  then have first: "R s s1" "y = Inr () \<longrightarrow> Q x s1" using Cons.prems(2,3) by auto
  define err' where "err' = (case y of Inl e \<Rightarrow> if err = None then Some e else err | Inr _ \<Rightarrow> err)"
  have "all_then_first_error (map f xs) err' s1 = (r, s')"
    using Cons.prems(1) y by (auto simp: tryE_def err'_def split: sum.splits)
  moreover have "R s0 s1" using Cons.prems(3) first(1) by (rule assms(3))
  ultimately have rest: "R s1 s'" "r = Inr () \<longrightarrow> err' = None \<and> (\<forall>x\<in>set xs. Q x s')" using Cons.IH [of err' s1] Cons.prems(2) by auto
  moreover have "err' = None \<Longrightarrow> err = None \<and> y = Inr ()"
    by (auto simp: err'_def split: sum.splits if_splits)
  ultimately show ?case using first assms(3,5) by (metis set_ConsD)
qed

lemma scanTileCoords_disk: "preserves (\<lambda>w. disk w = d) (scanTileCoords dest)"
proof -
  have q: "preserves (\<lambda>w. disk w = d) (ReadDir p)" for p
    unfolding ReadDir_def by (simp add: preserves_def fs_query_disk [OF surjective_pairing])
  show ?thesis unfolding scanTileCoords_def scanZoomTiles_def
    by (auto split: prod.split option.split intro!: pres q)
qed

lemma WriteTileIndex_disk:
  assumes "WriteTileIndex dest w = (r, w')" and "dest \<noteq> []"
  shows "disk w' = disk w \<and> isl r \<or>
    (\<exists>c. map_of (disk w') = (map_of (disk w))(path_of dest @ [''index.json''] \<mapsto> FFile c))"
proof -
  obtain x w1 where x: "scanTileCoords dest w = (x, w1)" by (meson surj_pair)
  have w1: "disk w1 = disk w" by (rule preservesD [OF scanTileCoords_disk refl x])
  show ?thesis
  proof (cases x)
    case (Inl e)
    with assms(1) x w1 show ?thesis by (auto simp: WriteTileIndex_def bindE_Inl)
  next
    case (Inr ts)
    obtain y w2 where y: "WriteFile (index_path dest) (index_json (sort ts)) w1 = (y, w2)" by (meson surj_pair)
    have run: "mapErrE (Wrap ''write tile index'') (WriteFile (index_path dest) (index_json (sort ts))) w1 = (r, w')"
      using assms(1) x Inr by (simp add: WriteTileIndex_def bindE_Inr)
    show ?thesis
    proof (cases y)
      case (Inl e)
      then have "disk w2 = disk w1" using y by (auto simp: WriteFile_def fs_op_def split: if_splits sum.splits)
      with run y Inl w1 show ?thesis by (auto simp: mapErrE_def tryE_def raiseE_def)
    next
      case (Inr u)
      with WriteFile_Inr [of "index_path dest" _ w1 u w2] y w1 path_of_index [OF assms(2)]
      have "map_of (disk w2) = (map_of (disk w))(path_of dest @ [''index.json''] \<mapsto> FFile (index_json (sort ts)))" by simp
      with run y Inr show ?thesis by (auto simp: mapErrE_def tryE_def okE_def)
    qed
  qed
qed

lemma fs_stat_Inr: "fs_stat p d = Inr n \<Longrightarrow> p \<noteq> [] \<Longrightarrow> p \<noteq> [''/''] \<Longrightarrow> map_of d p \<noteq> None"
  by (auto simp: fs_stat_def fs_dir_def split: if_splits option.splits)

lemma fs_stat_missing: "fs_stat p d = Inl e \<Longrightarrow> errors_Is e ErrNotExist \<Longrightarrow> map_of d p = None"
  by (auto simp: fs_stat_def split: if_splits option.splits)

lemma Stat_cases:
  assumes "Stat t w = (r, w')" and "path_of t = p" and "p \<noteq> []" and "p \<noteq> [''/'']"
  shows "disk w' = disk w" "\<not> isl r \<Longrightarrow> map_of (disk w) p \<noteq> None"
    "r = Inl e \<Longrightarrow> errors_Is e ErrNotExist \<Longrightarrow> map_of (disk w) p = None"
proof -
  show "disk w' = disk w" using assms(1) unfolding Stat_def by (rule fs_query_disk)
  show "\<not> isl r \<Longrightarrow> map_of (disk w) p \<noteq> None"
    using assms fs_stat_Inr [of p] unfolding Stat_def by (cases r) (auto dest!: fs_query_Inr)
  show "r = Inl e \<Longrightarrow> errors_Is e ErrNotExist \<Longrightarrow> map_of (disk w) p = None"
    using assms(1,2) fs_stat_missing [of p "disk w"] unfolding Stat_def fs_query_def fs_op_def
    by (auto split: if_splits sum.splits)
qed

lemma ensureVersion_adds:
  assumes "ensureVersionTileIndex od (v, n) w = (r, w')" and od: "path_of od = base @ [over]" "od \<noteq> []"
  shows "adds_indexes base (disk w) (disk w') \<and>
    (r = Inr () \<longrightarrow> n = FDir \<and> all_digits v \<longrightarrow> map_of (disk w') (base @ [over, v, ''index.json'']) \<noteq> None)"
proof (cases "n = FDir \<and> all_digits v")
  case False
  with assms(1) show ?thesis by (auto simp: ensureVersionTileIndex_def okE_def split: if_splits)
next
  case True
  let ?vd = "Join2 od v" and ?ip = "base @ [over, v, ''index.json'']"
  have vd: "path_of ?vd = base @ [over, v]" "?vd \<noteq> []"
    using path_of_Join2_name [OF od(2) all_digits_plain] True od by simp_all
  have ip: "path_of (index_path ?vd) = ?ip" using path_of_index [OF vd(2)] vd(1) by simp
  have run: "tryE (Stat (index_path ?vd))
          (\<lambda>e. if \<not> errors_Is e ErrNotExist then raiseE (Wrap ''stat index.json'' e)
               else mapErrE (Wrap ''write tile index'') (WriteTileIndex ?vd)) (\<lambda>_. okE ()) w = (r, w')"
    using assms(1) True by (simp add: ensureVersionTileIndex_def Let_def)
  show ?thesis
  proof (cases rule: tryE_cases [OF run])
    case (1 e s1)
    note st = Stat_cases [OF 1(1) ip]
    show ?thesis
    proof (cases "errors_Is e ErrNotExist")
      case False
      with 1(2) st(1) show ?thesis by (auto simp: raiseE_def)
    next
      case missing: True
      with 1(2) obtain y w2 where y: "WriteTileIndex ?vd s1 = (y, w2)" "w' = w2" "r = Inr () \<longrightarrow> y = Inr ()"
        by (auto simp: mapErrE_def tryE_def raiseE_def okE_def split: prod.splits sum.splits)
      from WriteTileIndex_disk [OF y(1) vd(2)] st missing y True vd(1)
      show ?thesis by (auto simp: adds_indexes_def split: if_splits)
    qed
  next
    case (2 x s1)
    with Stat_cases [OF 2(1) ip] show ?thesis by (auto simp: okE_def)
  qed
qed

abbreviation index_there :: "fpath \<Rightarrow> string \<Rightarrow> string \<times> fnode \<Rightarrow> disk \<Rightarrow> bool" where
  "index_there base over ver d \<equiv>
     snd ver = FDir \<and> all_digits (fst ver) \<longrightarrow> map_of d (base @ [over, fst ver, ''index.json'']) \<noteq> None"

lemma index_there_mono: "adds_indexes base d d' \<Longrightarrow> index_there base over ver d \<Longrightarrow> index_there base over ver d'"
  by (auto dest: adds_indexes_keeps)

lemma ReadDir_children:
  assumes "mapErrE h (ReadDir t) w = (r, w1)" and "path_of t = p"
  shows "disk w1 = disk w" and "r = Inr es \<Longrightarrow> map_of (disk w) (p @ [name]) = Some n \<Longrightarrow> (name, n) \<in> set es"
proof -
  obtain r' where r': "ReadDir t w = (r', w1)" "r = Inr es \<Longrightarrow> r' = Inr es"
    using assms(1) by (auto simp: mapErrE_def tryE_def raiseE_def okE_def split: prod.splits sum.splits)
  show "disk w1 = disk w" using r'(1) unfolding ReadDir_def by (rule fs_query_disk)
  show "(name, n) \<in> set es" if "r = Inr es" "map_of (disk w) (p @ [name]) = Some n"
  proof -
    have "es = children p (disk w)"
      using r' that(1) assms(2) unfolding ReadDir_def by (auto dest!: fs_query_Inr fs_readdir_Inr)
    with map_of_SomeD [OF that(2)] show ?thesis by (force simp: children_def)
  qed
qed

lemma ensureOverlay_adds:
  assumes "ensureOverlayTileIndexes dataRoot over w = (r, w')" and "dataRoot \<noteq> []" and "plain_name over"
  shows "adds_indexes (path_of dataRoot) (disk w) (disk w') \<and>
    (r = Inr () \<longrightarrow> (\<forall>v. map_of (disk w) (path_of dataRoot @ [over, v]) = Some FDir \<longrightarrow>
       index_there (path_of dataRoot) over (v, FDir) (disk w')))"
proof -
  let ?od = "Join2 dataRoot over" and ?b = "path_of dataRoot"
  have od: "path_of ?od = ?b @ [over]" "?od \<noteq> []"
    using path_of_Join2_name [OF assms(2,3)] assms(2) by simp_all
  obtain y w1 where y: "mapErrE (Wrap ''read overlay dir'') (ReadDir ?od) w = (y, w1)" by (meson surj_pair)
  note es = ReadDir_children [OF y od(1)]
  show ?thesis
  proof (cases y)
    case (Inl e)
    with assms(1) y es(1) show ?thesis by (auto simp: ensureOverlayTileIndexes_def bindE_Inl)
  next
    case (Inr vs)
    with assms(1) y have run: "forE vs (ensureVersionTileIndex ?od) w1 = (r, w')"
      by (simp add: ensureOverlayTileIndexes_def bindE_Inr)
    have "adds_indexes ?b (disk w1) (disk w') \<and> (r = Inr () \<longrightarrow> (\<forall>x\<in>set vs. index_there ?b over x (disk w')))"
    proof (rule forE_reaches [OF run])
      show "adds_indexes ?b (disk s) (disk s') \<and> (r = Inr () \<longrightarrow> index_there ?b over x (disk s'))"
        if "ensureVersionTileIndex ?od x s = (r, s')" for x s r s'
        using ensureVersion_adds [of ?od "fst x" "snd x" s r s' ?b over] that od by simp
    qed (auto intro: adds_indexes_trans dest: adds_indexes_keeps)
    then have a: "adds_indexes ?b (disk w) (disk w')"
      and b: "r = Inr () \<Longrightarrow> x \<in> set vs \<Longrightarrow> index_there ?b over x (disk w')" for x
      using es(1) by simp_all
    show ?thesis
    proof (intro conjI a impI allI)
      fix v assume "r = Inr ()" and "map_of (disk w) (?b @ [over, v]) = Some FDir"
        and "snd (v, FDir) = FDir \<and> all_digits (fst (v, FDir))"
      then show "map_of (disk w') (?b @ [over, fst (v, FDir), ''index.json'']) \<noteq> None"
        using b [of "(v, FDir)"] es(2) [OF Inr, of v FDir] by simp
    qed
  qed
qed

text \<open>What an answer of the file server may show: a file or a directory of the disk at or below a path.\<close>

definition shows_below :: "fpath \<Rightarrow> disk \<Rightarrow> response \<Rightarrow> bool" where
  "shows_below base d resp \<longleftrightarrow>
     (\<forall>f c. payload resp = FileOf f c \<longrightarrow>
        (\<exists>rest. path_of f = base @ rest \<and> list_all plain_name rest \<and> map_of d (base @ rest) = Some (FFile c))) \<and>
     (\<forall>names. payload resp = Listing names \<longrightarrow>
        (\<exists>rest. list_all plain_name rest \<and> fs_stat (base @ rest) d = Inr FDir \<and>
           names = map (\<lambda>(name, n). if n = FDir then name @ ''/'' else name) (children (base @ rest) d)))"

lemma shows_below_other: "payload resp = NoBody \<Longrightarrow> shows_below base d resp"
  by (simp add: shows_below_def)

lemma localRedirect_shows: "localRedirect l w = (Inr resp, w') \<Longrightarrow> w' = w \<and> shows_below base d resp"
  by (auto simp: localRedirect_def okE_def intro!: shows_below_other)

lemma serve_file_shows:
  assumes "bindE (mapErrE h (os_ReadFile f)) (\<lambda>c. okE \<lparr>status = 200, payload = FileOf f c, headers = []\<rparr>) w = (Inr resp, w')"
    and "path_of f = base @ rest" and "list_all plain_name rest"
  shows "disk w' = disk w \<and> shows_below base (disk w) resp"
proof -
  obtain c where "os_ReadFile f w = (Inr c, w')" "resp = \<lparr>status = 200, payload = FileOf f c, headers = []\<rparr>"
    using assms(1) by (auto simp: mapErrE_def tryE_def okE_def raiseE_def elim!: bindE_InrE split: prod.splits sum.splits)
  with assms(2,3) show ?thesis
    unfolding os_ReadFile_def by (auto simp: shows_below_def dest!: fs_query_Inr fs_readfile_Inr)
qed

lemma serve_dir_shows:
  assumes "serve_dir f w = (Inr resp, w')" and f: "path_of f = base @ rest" "list_all plain_name rest" "f \<noteq> []"
  shows "disk w' = disk w \<and> shows_below base (disk w) resp"
proof -
  have index: "path_of (Join2 f ''index.html'') = base @ rest @ [''index.html'']" "plain_name ''index.html''"
    using path_of_Join2_name [of f "''index.html''"] f by (simp_all add: plain_name_def)
  obtain x w1 where r: "os_ReadFile (Join2 f ''index.html'') w = (x, w1)" by (meson surj_pair)
  then have w1: "disk w1 = disk w" unfolding os_ReadFile_def by (rule fs_query_disk)
  show ?thesis
  proof (cases x)
    case (Inr c)
    then have "map_of (disk w) (base @ rest @ [''index.html'']) = Some (FFile c)"
      using r index unfolding os_ReadFile_def by (auto dest!: fs_query_Inr fs_readfile_Inr)
    moreover have "resp = \<lparr>status = 200, payload = FileOf (Join2 f ''index.html'') c, headers = []\<rparr>" "w' = w1"
      using assms(1) r Inr by (simp_all add: serve_dir_def tryE_def okE_def)
    ultimately show ?thesis using w1 index f(2) unfolding shows_below_def
      by (auto intro!: exI [of _ "rest @ [''index.html'']"])
  next
    case (Inl e)
    then obtain es w2 where es: "ReadDir f w1 = (Inr es, w2)"
      and resp: "resp = \<lparr>status = 200,
         payload = Listing (map (\<lambda>(name, n). if n = FDir then name @ ''/'' else name) es), headers = []\<rparr>" "w' = w2"
      using assms(1) r
      by (auto simp: serve_dir_def tryE_def mapErrE_def okE_def raiseE_def elim!: bindE_InrE
          split: prod.splits sum.splits)
    then have "fs_stat (base @ rest) (disk w) = Inr FDir" "es = children (base @ rest) (disk w)" "disk w2 = disk w1"
      using f(1) w1 unfolding ReadDir_def by (auto dest!: fs_query_Inr fs_readdir_Inr)
    with resp w1 f(2) show ?thesis by (auto simp: shows_below_def)
  qed
qed

lemma WriteTileIndex_run:
  assumes "WriteTileIndex dest w = (Inr u, w')" and "disk_ok (disk w)" and "dest \<noteq> []"
  shows "\<exists>ts. sorted ts \<and> set ts = tiles_in (disk w) (path_of dest) \<and>
     map_of (disk w') = (map_of (disk w))(path_of dest @ [''index.json''] \<mapsto> FFile (index_json ts))"
proof -
  obtain ts w1 where ts: "scanTileCoords dest w = (Inr ts, w1)"
    and wr: "mapErrE (Wrap ''write tile index'') (WriteFile (index_path dest) (index_json (sort ts))) w1 = (Inr u, w')"
    using assms(1) unfolding WriteTileIndex_def by (auto elim: bindE_InrE)
  from scanTileCoords_Inr [OF ts assms(2,3)] WriteFile_Inr [OF mapErrE_InrD [OF wr]] path_of_index [OF assms(3)]
  have "sorted (sort ts)" "set (sort ts) = tiles_in (disk w) (path_of dest)"
    "map_of (disk w') = (map_of (disk w))(path_of dest @ [''index.json''] \<mapsto> FFile (index_json (sort ts)))" by simp_all
  then show ?thesis by blast
qed

text \<open>
  C28. The tile index is complete and sound: when \<open>WriteTileIndex\<close> succeeds on a version's directory, \<open>index.json\<close>
  lists exactly the tiles \<open>z/x/y.png\<close> that lie in it, ordered by zoom, column and row, and no other file changed.
\<close>

theorem WriteTileIndex_lists_tiles:
  assumes "WriteTileIndex dest w = (Inr u, w')" and "disk_ok (disk w)" and "dest \<noteq> []"
  shows "\<exists>ts. sorted ts \<and> set ts = tiles_in (disk w) (path_of dest) \<and>
     map_of (disk w') = (map_of (disk w))(path_of dest @ [''index.json''] \<mapsto> FFile (index_json ts))"
  by (rule WriteTileIndex_run [OF assms])

lemma ex_disk_ok: "disk_ok (disk ex_msys)"
  by (simp add: disk_ok_def ex_msys_def fs_dir_def plain_name_def)

lemma ex_index_written: "isl (fst (WriteTileIndex ''data/11/1'' ex_msys)) = False"
  by code_simp

theorem WriteTileIndex_lists_tiles_witness:
  "\<exists>ts. set ts = tiles_in (disk ex_msys) (path_of ''data/11/1'') \<and>
     map_of (disk (snd (WriteTileIndex ''data/11/1'' ex_msys))) (path_of ''data/11/1'' @ [''index.json'']) =
       Some (FFile (index_json ts))"
proof -
  have "WriteTileIndex ''data/11/1'' ex_msys = (Inr (), snd (WriteTileIndex ''data/11/1'' ex_msys))"
    using ex_index_written by (cases "WriteTileIndex ''data/11/1'' ex_msys"; cases "fst (WriteTileIndex ''data/11/1'' ex_msys)") auto
  from WriteTileIndex_lists_tiles [OF this ex_disk_ok] show ?thesis by auto
qed

text \<open>The data root cannot be read, and then it is not there or the call failed; or its overlays are gone through.\<close>

lemma data_root_missing:
  assumes "ReadDir dataRoot w = (Inl e, w1)" and "disk_ok (disk w)" and "errors_Is e ErrNotExist"
  shows "map_of (disk w) (path_of dataRoot @ [over]) \<noteq> Some FDir"
proof
  assume "map_of (disk w) (path_of dataRoot @ [over]) = Some FDir"
  then have "fs_dir (disk w) (path_of dataRoot)" using assms(2) by (force simp: disk_ok_def dest: map_of_SomeD)
  moreover have "fs_readdir (path_of dataRoot) (disk w) = Inl e \<or> e = OpaqueErr ''input/output error''"
    using assms(1) unfolding ReadDir_def fs_query_def fs_op_def by (auto split: if_splits sum.splits)
  ultimately show False
    using assms(3) by (auto simp: fs_readdir_def fs_stat_def split: if_splits sum.splits fnode.splits)
qed

lemma overlays_indexed:
  assumes run: "all_then_first_error (map (\<lambda>(name, n). ensureOverlayTileIndexes dataRoot name)
      (filter (\<lambda>(name, n). n = FDir) (children (path_of dataRoot) (disk w)))) None w = (r, w')"
    and ok: "disk_ok (disk w)" and root: "dataRoot \<noteq> []"
  shows "adds_indexes (path_of dataRoot) (disk w) (disk w') \<and>
    (r = Inr () \<longrightarrow> (\<forall>over v. map_of (disk w) (path_of dataRoot @ [over]) = Some FDir \<longrightarrow>
       map_of (disk w) (path_of dataRoot @ [over, v]) = Some FDir \<longrightarrow> index_there (path_of dataRoot) over (v, FDir) (disk w')))"
proof -
  let ?b = "path_of dataRoot" and ?d = "disk w"
  let ?os = "filter (\<lambda>(name, n). n = FDir) (children ?b ?d)"
  have mem: "(name, FDir) \<in> set ?os \<longleftrightarrow> map_of ?d (?b @ [name]) = Some FDir" for name
    using children_iff [OF ok] by auto
  have plain: "plain_name (fst x)" if os: "x \<in> set ?os" for x
  proof -
    obtain name n where "x = (name, n)" by (cases x)
    with os have x: "x = (name, FDir)" by simp
    with os mem have "(?b @ [name], FDir) \<in> set ?d" by (blast dest: map_of_SomeD)
    with ok have "plain_name (last (?b @ [name]))" unfolding disk_ok_def by blast
    then show ?thesis by (simp add: x)
  qed
  have "adds_indexes ?b ?d (disk w') \<and> (r = Inr () \<longrightarrow> None = (None :: gerror option) \<and>
     (\<forall>x\<in>set ?os. \<forall>v. map_of ?d (?b @ [fst x, v]) = Some FDir \<longrightarrow> index_there ?b (fst x) (v, FDir) (disk w')))"
  proof (rule all_then_first_error_reaches [OF run, where ?s0.0 = w and R = "\<lambda>s s'. adds_indexes ?b (disk s) (disk s')"])
    fix x s r s'
    assume x: "x \<in> set ?os" and s: "adds_indexes ?b ?d (disk s)" and "(case x of (name, n) \<Rightarrow> ensureOverlayTileIndexes dataRoot name) s = (r, s')"
    then have "ensureOverlayTileIndexes dataRoot (fst x) s = (r, s')" by (simp add: case_prod_unfold)
    from ensureOverlay_adds [OF this root plain [OF x]] adds_indexes_keeps [OF s]
    show "adds_indexes ?b (disk s) (disk s') \<and> (r = Inr () \<longrightarrow>
       (\<forall>v. map_of ?d (?b @ [fst x, v]) = Some FDir \<longrightarrow> index_there ?b (fst x) (v, FDir) (disk s')))" by blast
  qed (auto intro: adds_indexes_trans, blast dest: adds_indexes_keeps)
  with mem show ?thesis by auto
qed

text \<open>
  C29. The backfill at start-up: when \<open>EnsureTileIndexes\<close> succeeds, every numeric version directory of every map has
  an \<open>index.json\<close>; and, whether it succeeds or not, all it does to the disk is to add such files, so a second run
  after a successful one changes nothing.
\<close>

theorem EnsureTileIndexes_completes:
  assumes "EnsureTileIndexes dataRoot w = (r, w')" and "disk_ok (disk w)" and "dataRoot \<noteq> []"
  shows "adds_indexes (path_of dataRoot) (disk w) (disk w') \<and>
    (r = Inr () \<longrightarrow> (\<forall>over v. map_of (disk w) (path_of dataRoot @ [over]) = Some FDir \<longrightarrow>
       map_of (disk w) (path_of dataRoot @ [over, v]) = Some FDir \<longrightarrow> all_digits v \<longrightarrow>
       map_of (disk w') (path_of dataRoot @ [over, v, ''index.json'']) \<noteq> None))"
proof -
  have run: "tryE (ReadDir dataRoot)
       (\<lambda>e. if errors_Is e ErrNotExist then okE () else raiseE (Wrap ''read data root'' e))
       (\<lambda>overlays. all_then_first_error
          (map (\<lambda>(name, n). ensureOverlayTileIndexes dataRoot name) (filter (\<lambda>(name, n). n = FDir) overlays)) None) w = (r, w')"
    using assms(1) by (simp add: EnsureTileIndexes_def)
  show ?thesis
  proof (cases rule: tryE_cases [OF run])
    case (1 e w1)
    then have "disk w1 = disk w" unfolding ReadDir_def by (auto dest: fs_query_disk)
    with 1 data_root_missing [OF 1(1) assms(2)] show ?thesis by (auto simp: okE_def raiseE_def split: if_splits)
  next
    case (2 os w1)
    have d: "disk w1 = disk w" "os = children (path_of dataRoot) (disk w)"
      using 2(1) unfolding ReadDir_def by (auto dest!: fs_query_Inr fs_readdir_Inr)
    from overlays_indexed [OF 2(2) [unfolded d(2), folded d(1)]] assms(2,3) d(1) show ?thesis by auto
  qed
qed

lemma ex_backfilled:
  "fst (EnsureTileIndexes ''data'' ex_msys) = Inr ()"
  by code_simp

theorem EnsureTileIndexes_completes_witness:
  "map_of (disk (snd (EnsureTileIndexes ''data'' ex_msys))) [''data'', ''11'', ''1'', ''index.json''] \<noteq> None"
proof -
  have run: "EnsureTileIndexes ''data'' ex_msys = (Inr (), snd (EnsureTileIndexes ''data'' ex_msys))"
    using ex_backfilled by (metis prod.collapse)
  have p: "path_of ''data'' = [''data'']" "all_digits ''1''" by code_simp+
  show ?thesis
    using EnsureTileIndexes_completes [OF run ex_disk_ok] p by (simp add: ex_msys_def)
qed

text \<open>
  The file server behind the tile routes reads below its directory only: whatever the URL path holds, a file it
  answers with is a regular file of the disk, with its contents, whose path is that of the directory followed by
  ordinary names; a listing is one of such a directory; and nothing on the disk changes.
\<close>

lemma FileServer_below:
  assumes "dir \<noteq> []" and "FileServer dir urlPath w = (Inr resp, w')"
  shows "disk w' = disk w \<and> shows_below (path_of dir) (disk w) resp"
proof -
  let ?u = "if HasPrefix urlPath ''/'' then urlPath else CHR ''/'' # urlPath"
  let ?f = "Dir_path dir (Clean ?u)"
  have f: "path_of ?f = path_of dir @ clean_parts (CHR ''/'' # Clean ?u)" by (rule path_of_Dir_path [OF assms(1)])
  have p: "list_all plain_name (clean_parts (CHR ''/'' # Clean ?u))"
    using clean_parts_rooted by (auto simp: list_all_iff)
  have ne: "?f \<noteq> []" using assms(1) by (simp add: Dir_path_def Let_def)
  note run = assms(2) [unfolded FileServer_def Let_def]
  show ?thesis
  proof (cases "HasSuffix ?u ''/index.html'' \<or> CHR 0x00 \<in> set ?u")
    case True
    with run show ?thesis
      using localRedirect_shows [of "''./''" w resp w']
      by (auto simp: fail_def raiseE_def split: if_splits)
  next
    case False
    with run obtain n w1 where n: "mapErrE open_error (Stat ?f) w = (Inr n, w1)"
      and k: "(case n of
             FDir \<Rightarrow> if \<not> HasSuffix ?u ''/'' then localRedirect (path_Base ?u @ ''/'') else serve_dir ?f
           | FFile _ \<Rightarrow>
               if HasSuffix ?u ''/'' then
                 (if path_Base ?u = ''/'' then fail 500 ''http: attempting to traverse a non-directory''
                  else localRedirect (''../'' @ path_Base ?u))
               else bindE (mapErrE open_error (os_ReadFile ?f)) (\<lambda>c.
                 okE \<lparr>status = 200, payload = FileOf ?f c, headers = []\<rparr>)) w1 = (Inr resp, w')"
      by (auto simp only: if_False simp_thms de_Morgan_disj elim!: bindE_InrE)
    have w1: "disk w1 = disk w"
      using n unfolding Stat_def
      by (auto simp: mapErrE_def tryE_def okE_def raiseE_def split: prod.splits sum.splits dest!: fs_query_disk)
    show ?thesis
    proof (cases n)
      case FDir
      with k w1 show ?thesis
        using localRedirect_shows [of "path_Base ?u @ ''/''" w1 resp w'] serve_dir_shows [of ?f w1 resp w', OF _ f p ne]
        by (auto simp only: fnode.case split: if_splits)
    next
      case (FFile c)
      with k w1 show ?thesis
        using localRedirect_shows [of "''../'' @ path_Base ?u" w1 resp w'] serve_file_shows [of open_error ?f w1 resp w', OF _ f p]
        by (auto simp only: fnode.case fail_def raiseE_def prod.inject sum.distinct split: if_splits)
    qed
  qed
qed

end
