(* ===== verification/TileFacts.thy ===== *)
theory TileFacts
  imports AccessFacts ArchiveFacts
begin

text \<open>
  What the tile routes serve: the guards of AccessFacts and the file server of ArchiveFacts together.
\<close>

lemma MapVersionDir_not_empty: "dataRoot \<noteq> [] \<Longrightarrow> MapVersionDir env dataRoot i v \<noteq> []"
  by (simp add: MapVersionDir_def MapDir_def Join2_def Clean_nonempty)

lemma shows_below_headers [simp]: "shows_below base d (add_headers hs resp) = shows_below base d resp"
  by (simp add: shows_below_def add_headers_def)

text \<open>
  C27. Only a version's own files are served: a request for a file of a map version that is answered with a file or a listing
  gets a file, or the names, from below the directory of a version its segment names, reached through ordinary names
  only, whatever the path in the request holds; and serving changes nothing on the disk.
\<close>

theorem ServeMapVersionFileHandler_contained:
  assumes "db_wf (st_db s)" and "caches_coherent s" and "dataRoot \<noteq> []"
    and "serve (ServeMapVersionFileHandler env dataRoot dis subnets r) s = (resp, s')" and "status resp < 400"
  shows "\<exists>i v. uuid_Parse env (PathValue r ''id'') = Some i \<and> names_version (st_db s) i (PathValue r ''version'') v \<and>
     shows_below (path_of (MapVersionDir env dataRoot i v)) (disk s) resp \<and> disk s' = disk s"
proof -
  obtain i v p s1 resp1 where *: "uuid_Parse env (PathValue r ''id'') = Some i"
    "names_version (st_db s) i (PathValue r ''version'') v" "disk s1 = disk s"
    "resp = add_headers cacheControl resp1"
    and run: "FileServer (MapVersionDir env dataRoot i v) p s1 = (Inr resp1, s')"
    using serve_file_run [OF assms(1,2,4,5)] by blast
  from FileServer_below [OF MapVersionDir_not_empty run, OF assms(3)] *(3,4)
  have "shows_below (path_of (MapVersionDir env dataRoot i v)) (disk s) resp \<and> disk s' = disk s" by simp
  with *(1,2) show ?thesis by blast
qed

definition tile_request :: request where
  "tile_request = (ex_request [] None)\<lparr>
     PathValue := (\<lambda>n. if n = ''id'' then ''11'' else if n = ''version'' then ''current'' else []),
     URLPath := ''/maps/11/version/current/0/0/0.png''\<rparr>"

text \<open>A tile of a map open to anyone is answered by the file server alone, at the directory its segment resolves to.\<close>

lemma ServeFile_anonymous:
  assumes "uuid_Parse env (PathValue r ''id'') = Some i" and "fst (GetMap i s) = Inr m" and "anonymous_allowed dis sn r m"
    and "fst (resolveVersionSegment r i (PathValue r ''version'') (snd (GetMap i s))) = Inr v"
    and "StripPrefix (''/maps/'' @ PathValue r ''id'' @ ''/version/'' @ PathValue r ''version'' @ ''/'') r = Some p"
  shows "ServeMapVersionFileHandler env dr dis sn r s = with_cache_control (FileServer (MapVersionDir env dr i v) p)
    (snd (resolveVersionSegment r i (PathValue r ''version'') (snd (GetMap i s))))"
  using assms by (cases "GetMap i s"; cases "resolveVersionSegment r i (PathValue r ''version'') (snd (GetMap i s))")
    (simp add: ServeMapVersionFileHandler_def PathUUID_def attempt_def mapErrE_def bindE_def tryE_def okE_def
      del: append_Cons append.simps)

lemma tile_served:
  "fst (serve (ServeMapVersionFileHandler ex_env ''data'' False [] tile_request) ex_msys) =
     \<lparr>status = 200, payload = FileOf ''data/11/1/0/0/0.png'' ''tile'', headers = cacheControl\<rparr>"
proof -
  have u: "uuid_Parse ex_env (PathValue tile_request ''id'') = Some 11" by code_simp
  have m: "fst (GetMap 11 ex_msys) = Inr ((ex_map 11 ''city'' ''1'' True 3 7)\<lparr>m_Owner := ''carol''\<rparr>)" by code_simp
  have a: "anonymous_allowed False [] tile_request ((ex_map 11 ''city'' ''1'' True 3 7)\<lparr>m_Owner := ''carol''\<rparr>)" by code_simp
  have v: "fst (resolveVersionSegment tile_request 11 (PathValue tile_request ''version'') (snd (GetMap 11 ex_msys))) =
      Inr ''1''" by code_simp
  have p: "StripPrefix (''/maps/'' @ PathValue tile_request ''id'' @ ''/version/'' @ PathValue tile_request ''version'' @ ''/'')
      tile_request = Some ''0/0/0.png''" by code_simp
  show ?thesis unfolding serve_def ServeFile_anonymous [OF u m a v p] by code_simp
qed

theorem ServeMapVersionFileHandler_contained_witness:
  "\<exists>v. names_version ex_db 11 ''current'' v \<and>
     shows_below (path_of (MapVersionDir ex_env ''data'' 11 v)) (disk ex_msys)
       \<lparr>status = 200, payload = FileOf ''data/11/1/0/0/0.png'' ''tile'', headers = cacheControl\<rparr>"
proof -
  let ?run = "serve (ServeMapVersionFileHandler ex_env ''data'' False [] tile_request) ex_msys"
  have run: "?run = (\<lparr>status = 200, payload = FileOf ''data/11/1/0/0/0.png'' ''tile'', headers = cacheControl\<rparr>, snd ?run)"
    using tile_served by (metis prod.collapse)
  have d: "db_wf (st_db ex_msys)" "st_db ex_msys = ex_db" by (simp_all add: ex_msys_def ex_db_wf)
  have r: "PathValue tile_request ''id'' = ''11''" "PathValue tile_request ''version'' = ''current''"
    by (simp_all add: tile_request_def)
  have i: "uuid_Parse ex_env ''11'' = Some 11" by code_simp
  from ServeMapVersionFileHandler_contained [OF d(1) caches_coherent_ex_msys _ run] show ?thesis
    unfolding r i d(2) by auto
qed

section \<open>The current version is not a version\<close>

text \<open>
  \<open>PUT /maps/{id}\<close> stores whatever \<open>currentVersion\<close> the body holds, and the \<open>current\<close> segment resolves to it unchecked. So
  the directory of the previous property need not be one of the map's: an editor of any map can make it the
  directory of the server's keys, and then read the private key, here without even a token.
\<close>

definition ex_keys :: msys where
  "ex_keys = ex_msys\<lparr>
     st_db := ex_db\<lparr>t_maps := [ex_map 11 ''city'' ''../../keys'' True 3 7]\<rparr>,
     disk := ([''keys''], FDir) # ([''keys'', ''server.key''], FFile ''PRIVATE KEY'') # disk ex_msys\<rparr>"

definition escaping_update :: "mapRequest" where
  "escaping_update = \<lparr>mr_Name = ''harbour'', mr_CurrentVersion = ''../../keys'', mr_VisibleToAll = True, mr_AnonymousAllowed = True\<rparr>"

definition key_request :: request where
  "key_request = (ex_request [] None)\<lparr>
     PathValue := (\<lambda>n. if n = ''id'' then ''11'' else if n = ''version'' then ''current'' else []),
     URLPath := ''/maps/11/version/current/server.key''\<rparr>"

lemma any_current_version_stored:
  "map m_CurrentVersion (filter (\<lambda>m. m_UUID m = 11) (t_maps (st_db (snd
     (UpdateMapHandler ex_env ((ex_request ''carol'' None)\<lparr>PathValue := (\<lambda>_. ''11'')\<rparr>) (Some escaping_update) ex_store))))) =
   [''../../keys'']"
  by code_simp

lemma current_version_escapes:
  "payload (fst (serve (ServeMapVersionFileHandler ex_env ''data'' False [] key_request) ex_keys)) =
     FileOf ''keys/server.key'' ''PRIVATE KEY''"
proof -
  let ?m = "(ex_map 11 ''city'' ''../../keys'' True 3 7)\<lparr>m_Owner := ''carol''\<rparr>"
  have u: "uuid_Parse ex_env (PathValue key_request ''id'') = Some 11" by code_simp
  have m: "fst (GetMap 11 ex_keys) = Inr ?m" by code_simp
  have a: "anonymous_allowed False [] key_request ?m" by code_simp
  have v: "fst (resolveVersionSegment key_request 11 (PathValue key_request ''version'') (snd (GetMap 11 ex_keys))) =
      Inr ''../../keys''" by code_simp
  have p: "StripPrefix (''/maps/'' @ PathValue key_request ''id'' @ ''/version/'' @ PathValue key_request ''version'' @ ''/'')
      key_request = Some ''server.key''" by code_simp
  show ?thesis unfolding serve_def ServeFile_anonymous [OF u m a v p] by code_simp
qed

end
