(* ===== verification/UploadFacts.thy ===== *)
theory UploadFacts
  imports TileFacts StoreFacts
begin

text \<open>
  What an upload does to the disk and to the store: a disk keeps its shape under every call, versions that are there stay
  as they are, and a version that is published has its tiles and their index in its directory.
\<close>

section \<open>The shape of a disk\<close>

text \<open>A path every element of which, but for the root, is an ordinary name.\<close>

definition plain_path :: "fpath \<Rightarrow> bool" where
  "plain_path p \<longleftrightarrow> (\<forall>k\<le>length p. take k p = [] \<or> take k p = [''/''] \<or> plain_name (last (take k p)))"

lemma plain_path_take: "plain_path p \<Longrightarrow> plain_path (take k p)"
  unfolding plain_path_def by (metis min.bounded_iff length_take take_take min.commute min_def)

lemma plain_path_append: "plain_path p \<Longrightarrow> \<forall>w\<in>set ws. plain_name w \<Longrightarrow> plain_path (p @ ws)"
proof (induction ws rule: rev_induct)
  case (snoc w ws)
  then have p: "plain_path (p @ ws)" by simp
  show ?case unfolding plain_path_def
  proof (intro allI impI)
    fix k assume "k \<le> length (p @ ws @ [w])"
    then consider "k \<le> length (p @ ws)" | "take k (p @ ws @ [w]) = p @ ws @ [w]" by fastforce
    then show "take k (p @ ws @ [w]) = [] \<or> take k (p @ ws @ [w]) = [''/''] \<or> plain_name (last (take k (p @ ws @ [w])))"
    proof cases
      case 1
      then have "take k (p @ ws @ [w]) = take k (p @ ws)" by simp
      with p 1 show ?thesis unfolding plain_path_def by metis
    next
      case 2
      with snoc.prems(2) show ?thesis by simp
    qed
  qed
qed simp

lemma plain_path_last: "plain_path p \<Longrightarrow> p \<noteq> [] \<Longrightarrow> p \<noteq> [''/''] \<Longrightarrow> plain_name (last p)"
  unfolding plain_path_def by (metis order_refl take_all)

lemma disk_okD:
  assumes "disk_ok d" "map_of d p = Some n"
  shows "p \<noteq> []" "plain_name (last p)" "fs_dir d (butlast p)"
  using assms map_of_SomeD unfolding disk_ok_def by metis+

text \<open>Every directory above an entry is there.\<close>

lemma disk_ok_above:
  assumes "disk_ok d" "map_of d (q @ ws) = Some n" "ws \<noteq> []"
  shows "fs_dir d q"
  using assms(2,3)
proof (induction ws arbitrary: n rule: rev_induct)
  case (snoc w ws)
  have "fs_dir d (q @ ws)" using disk_okD(3) [OF assms(1) snoc.prems(1)] by (simp add: butlast_append)
  then show ?case
  proof (cases "ws = []")
    case False
    show ?thesis
    proof (cases "q @ ws = [''/'']")
      case True
      then have "q = []" using False by (cases q) auto
      then show ?thesis by (simp add: fs_dir_def)
    next
      case other: False
      with \<open>fs_dir d (q @ ws)\<close> False have "map_of d (q @ ws) = Some FDir" by (simp add: fs_dir_def)
      from snoc.IH [OF this False] show ?thesis .
    qed
  qed simp
qed simp

lemma fs_dir_Cons: "map_of d p = None \<Longrightarrow> fs_dir d q \<Longrightarrow> fs_dir ((p, n) # d) q"
  by (auto simp: fs_dir_def)

lemma disk_ok_Cons:
  assumes "disk_ok d" "map_of d p = None" "p \<noteq> []" "plain_name (last p)" "fs_dir d (butlast p)"
  shows "disk_ok ((p, n) # d)"
  using assms fs_dir_Cons [OF assms(2)] unfolding disk_ok_def by (auto simp: map_of_eq_None_iff)

lemma disk_ok_mkdirs:
  assumes "disk_ok d" "plain_path p" "\<not> blocked d p" "k \<le> length p"
  shows "disk_ok (fold mkdir1 (map (\<lambda>n. take n p) [0..<k]) d) \<and>
    (\<forall>j<k. fs_dir (fold mkdir1 (map (\<lambda>n. take n p) [0..<k]) d) (take j p)) \<and>
    (\<forall>q. is_file (map_of (fold mkdir1 (map (\<lambda>n. take n p) [0..<k]) d) q) = is_file (map_of d q))"
  using assms(4)
proof (induction k)
  case (Suc k)
  let ?d = "fold mkdir1 (map (\<lambda>n. take n p) [0..<k]) d"
  have IH: "disk_ok ?d" "\<forall>j<k. fs_dir ?d (take j p)" "\<And>q. is_file (map_of ?d q) = is_file (map_of d q)" using Suc by simp_all
  have step: "fold mkdir1 (map (\<lambda>n. take n p) [0..<Suc k]) d = mkdir1 (take k p) ?d" by simp
  show ?case
  proof (cases "fs_dir ?d (take k p)")
    case True
    with IH show ?thesis unfolding step by (auto simp: mkdir1_def less_Suc_eq)
  next
    case False
    have "\<not> is_file (map_of d (take k p))" using assms(3) Suc.prems by (auto simp: blocked_def proper_prefixes_def list_ex_iff)
    then have none: "map_of ?d (take k p) = None" using False IH(3) [of "take k p"]
      by (auto simp: fs_dir_def is_file_def split: option.splits fnode.splits)
    have ne: "take k p \<noteq> []" "take k p \<noteq> [''/'']" using False by (auto simp: fs_dir_def)
    then obtain j where j: "k = Suc j" by (cases k) auto
    then have "fs_dir ?d (butlast (take k p))" using IH(2) Suc.prems by (simp add: butlast_take)
    then have "disk_ok ((take k p, FDir) # ?d)"
      using disk_ok_Cons [OF IH(1) none ne(1) plain_path_last [OF plain_path_take [OF assms(2)] ne]] by blast
    moreover have "is_file (map_of ((take k p, FDir) # ?d) q) = is_file (map_of d q)" for q
      using none IH(3) [of q] by (auto simp: is_file_def)
    moreover have "\<forall>j<Suc k. fs_dir ((take k p, FDir) # ?d) (take j p)"
      using IH(2) fs_dir_Cons [OF none] by (auto simp: less_Suc_eq) (simp add: fs_dir_def)
    ultimately show ?thesis unfolding step using False by (simp add: mkdir1_def)
  qed
qed (use assms(1) in simp)

lemma disk_ok_mkdirall:
  assumes "disk_ok d" "plain_path p" "fs_mkdirall p d = Inr (x, d')"
  shows "disk_ok d' \<and> fs_dir d' p"
proof -
  have nb: "\<not> blocked d p" "\<not> is_file (map_of d p)" and d': "d' = mkdir1 p (fold mkdir1 (proper_prefixes p) d)"
    using assms(3) by (auto simp: fs_mkdirall_def split: if_splits)
  let ?d = "fold mkdir1 (proper_prefixes p) d"
  have *: "disk_ok ?d" "\<forall>j<length p. fs_dir ?d (take j p)" "\<And>q. is_file (map_of ?d q) = is_file (map_of d q)"
    using disk_ok_mkdirs [OF assms(1,2) nb(1), of "length p"] by (simp_all add: proper_prefixes_def)
  show ?thesis
  proof (cases "fs_dir ?d p")
    case False
    have none: "map_of ?d p = None" using False nb(2) *(3) [of p] by (auto simp: fs_dir_def is_file_def split: option.splits fnode.splits)
    have ne: "p \<noteq> []" "p \<noteq> [''/'']" using False by (auto simp: fs_dir_def)
    then have "fs_dir ?d (butlast p)" using *(2) by (simp add: butlast_conv_take)
    with disk_ok_Cons [OF *(1) none ne(1) plain_path_last [OF assms(2) ne]] show ?thesis
      using False by (simp add: d' mkdir1_def fs_dir_def)
  qed (use * in \<open>simp add: d' mkdir1_def\<close>)
qed

lemma disk_ok_mkdir: "disk_ok d \<Longrightarrow> plain_path p \<Longrightarrow> fs_mkdir p d = Inr (x, d') \<Longrightarrow> disk_ok d'"
  using disk_ok_Cons [of d p FDir] plain_path_last [of p] by (auto simp: fs_mkdir_def fs_dir_def split: if_splits)

lemma disk_ok_filter:
  assumes "disk_ok d" and "\<And>q. map_of d q \<noteq> None \<Longrightarrow> keep q \<Longrightarrow> map_of d (butlast q) \<noteq> None \<Longrightarrow> keep (butlast q)"
  shows "disk_ok (filter (\<lambda>(q, n). keep q) d)"
proof -
  let ?d = "filter (\<lambda>(q, n). keep q) d"
  have look: "map_of ?d q = (if keep q then map_of d q else None)" for q
    by (induction d) auto
  have "fs_dir ?d (butlast q)" if "(q, n) \<in> set ?d" for q n
  proof -
    from that have q: "map_of d q \<noteq> None" "keep q" by (auto simp: map_of_eq_None_iff image_iff) force
    have "fs_dir d (butlast q)" using that assms(1) by (auto simp: disk_ok_def)
    then show ?thesis using assms(2) [OF q] look [of "butlast q"] by (auto simp: fs_dir_def)
  qed
  moreover have "distinct (map fst ?d)" using assms(1) by (simp add: disk_ok_def distinct_map_filter)
  ultimately show ?thesis using assms(1) unfolding disk_ok_def by auto
qed

lemma disk_ok_remove: "disk_ok d \<Longrightarrow> disk_ok (fs_remove base d)"
  unfolding fs_remove_def by (rule disk_ok_filter) (auto dest: prefix_order.trans [OF _ prefixeq_butlast])

lemma disk_ok_unlink:
  assumes "disk_ok d" "fs_unlink p d = Inr (x, d')" shows "disk_ok d'"
proof -
  have d': "d' = filter (\<lambda>(q, n). q \<noteq> p) d" and none: "\<forall>(q, n)\<in>set d. \<not> strict_prefix p q"
    using assms(2) by (auto simp: fs_unlink_def list_ex_iff split: if_splits)
  have "butlast q \<noteq> p" if "map_of d q \<noteq> None" for q
  proof
    assume b: "butlast q = p"
    have "q \<noteq> []" using that disk_okD(1) [OF assms(1)] by blast
    then have "strict_prefix p q" using b by (metis append_butlast_last_id strict_prefix_def prefixeq_butlast append_self_conv list.distinct(1))
    with none that show False by (auto dest: map_of_SomeD)
  qed
  then show ?thesis unfolding d' by (intro disk_ok_filter [OF assms(1)]) auto
qed

lemma disk_ok_write:
  assumes "disk_ok d" "plain_path p" "fs_write p c d = Inr (x, d')" shows "disk_ok d'"
proof -
  have nd: "\<not> fs_dir d p" "fs_dir d (butlast p)" and d': "d' = (p, FFile c) # filter (\<lambda>(q, n). q \<noteq> p) d"
    using assms(3) by (auto simp: fs_write_def split: if_splits)
  have ne: "p \<noteq> []" "p \<noteq> [''/'']" using nd(1) by (auto simp: fs_dir_def)
  have "butlast q \<noteq> p" if "map_of d q \<noteq> None" for q
    using that nd(1) disk_okD(3) [OF assms(1)] by auto
  then have ok: "disk_ok (filter (\<lambda>(q, n). q \<noteq> p) d)" by (intro disk_ok_filter [OF assms(1)]) auto
  have "butlast p \<noteq> p" using ne(1) by (metis append_butlast_last_id append_self_conv list.distinct(1))
  then have "fs_dir (filter (\<lambda>(q, n). q \<noteq> p) d) (butlast p)" using nd(2) by (auto simp: fs_dir_def map_of_filter_other)
  from disk_ok_Cons [OF ok _ ne(1) plain_path_last [OF assms(2) ne] this] show ?thesis
    unfolding d' by (simp add: map_of_eq_None_iff image_iff split_beta)
qed

text \<open>So the calls keep it, and the readers of archives.\<close>

lemma disk_ok_fs_op:
  "(\<And>d x d'. disk_ok d \<Longrightarrow> f d = Inr (x, d') \<Longrightarrow> disk_ok d') \<Longrightarrow> preserves (\<lambda>w. disk_ok (disk w)) (fs_op f)"
  by (auto simp: preserves_def fs_op_def split: sum.split)

lemma disk_ok_query [pres]: "preserves (\<lambda>w. disk_ok (disk w)) (fs_query f)"
  unfolding fs_query_def by (rule disk_ok_fs_op) (auto split: sum.splits)

lemma disk_ok_calls [pres]:
  "preserves (\<lambda>w. disk_ok (disk w)) (Stat p)" "preserves (\<lambda>w. disk_ok (disk w)) (ReadDir p)"
  "preserves (\<lambda>w. disk_ok (disk w)) (os_ReadFile p)" "preserves (\<lambda>w. disk_ok (disk w)) (RemoveAll p)"
  "preserves (\<lambda>w. disk_ok (disk w)) (Remove p)"
  unfolding Stat_def ReadDir_def os_ReadFile_def RemoveAll_def Remove_def
  by (intro disk_ok_query disk_ok_fs_op; auto simp: fs_removeall_def disk_ok_remove disk_ok_unlink)+

lemma disk_ok_plain_calls:
  assumes "plain_path (path_of p)"
  shows "preserves (\<lambda>w. disk_ok (disk w)) (MkdirAll p)" "preserves (\<lambda>w. disk_ok (disk w)) (Mkdir p)"
    "preserves (\<lambda>w. disk_ok (disk w)) (WriteFile p c)"
  unfolding MkdirAll_def Mkdir_def WriteFile_def using disk_ok_mkdirall [OF _ assms]
  by (auto intro!: disk_ok_fs_op intro: disk_ok_mkdir [OF _ assms] disk_ok_write [OF _ assms])

abbreviation shaped :: "string \<Rightarrow> 'w world_scheme \<Rightarrow> bool" where
  "shaped dest w \<equiv> plain_path (path_of dest) \<longrightarrow> disk_ok (disk w)"

lemma preserves_imp: "(b \<Longrightarrow> preserves P m) \<Longrightarrow> preserves (\<lambda>w. b \<longrightarrow> P w) m"
  by (cases b) (simp_all add: preserves_def)

interpretation shaped: kept_at_targets "shaped dest" dest for dest
proof unfold_locales
  fix t segs c assume t: "path_of t = path_of dest @ segs"
  have plain: "plain_path (path_of t)" if "plain_path (path_of dest)" "segs = [] \<or> tile_path segs"
    unfolding t using that tile_path_plain by (auto intro!: plain_path_append)
  show "tile_path segs \<Longrightarrow> preserves (shaped dest) (WriteFile t c)" using plain by (intro preserves_imp disk_ok_plain_calls) simp
  show "segs = [] \<or> tile_path segs \<Longrightarrow> preserves (shaped dest) (MkdirAll t)" using plain by (intro preserves_imp disk_ok_plain_calls) simp
qed (intro preserves_imp disk_ok_calls)

lemma disk_ok_extract:
  assumes "path_of dest \<notin> {[], [''/'']}" "plain_path (path_of dest)"
  shows "preserves (\<lambda>w. disk_ok (disk w)) (extractZip lib p dest)" "preserves (\<lambda>w. disk_ok (disk w)) (extractTar lib p dest g)"
  using shaped.kept_by_extractZip [OF assms(1)] shaped.kept_by_extractTar [OF assms(1)] assms(2) by simp_all

section \<open>Renaming\<close>

definition moved :: "fpath \<Rightarrow> fpath \<Rightarrow> fpath \<times> fnode \<Rightarrow> fpath \<times> fnode" where
  "moved a b = (\<lambda>(q, n). (if prefix a q then b @ drop (length a) q else q, n))"

lemma map_of_rename:
  assumes "\<forall>(q, n)\<in>set d. \<not> prefix b q" and "\<not> prefix a b" and "\<not> prefix b a"
  shows "map_of (map (moved a b) d) p =
    (if prefix a p then None else if prefix b p then map_of d (a @ drop (length b) p) else map_of d p)"
  using assms(1)
proof (induction d)
  case (Cons e d)
  obtain q n where e: "e = (q, n)" by (cases e)
  have IH: "map_of (map (moved a b) d) p =
    (if prefix a p then None else if prefix b p then map_of d (a @ drop (length b) p) else map_of d p)" using Cons by simp
  have q: "\<not> prefix b q" using Cons.prems e by simp
  show ?case
  proof (cases "prefix a q")
    case True
    then obtain r where r: "q = a @ r" by (auto simp: prefix_def)
    have "moved a b e = (b @ r, n)" by (simp add: e r moved_def)
    moreover have "\<not> prefix a (b @ r)" using assms(2,3) by (metis prefix_same_cases prefix_def)
    then have "b @ r = p \<longleftrightarrow> \<not> prefix a p \<and> prefix b p \<and> a @ drop (length b) p = q" by (auto simp: prefix_def r)
    moreover have "q = p \<Longrightarrow> prefix a p" using r by auto
    ultimately show ?thesis using IH by (auto simp: e)
  next
    case False
    then have "moved a b e = (q, n)" "q \<noteq> a @ drop (length b) p" "q = p \<Longrightarrow> \<not> prefix a p" by (auto simp: moved_def e)
    then show ?thesis using IH q by (auto simp: e)
  qed
qed simp

lemma fs_rename_dir:
  assumes ok: "disk_ok d" and run: "fs_rename a b d = Inr (x, d')" and a: "map_of d a = Some FDir" and "a \<noteq> [''/'']"
    and "\<not> prefix b a"
  shows "map_of d b = None \<and> (\<forall>p. map_of d' p =
    (if prefix a p then None else if prefix b p then map_of d (a @ drop (length b) p) else map_of d p))"
proof -
  have "fs_stat a d = Inr FDir" using run a by (auto simp: fs_rename_def fs_stat_def fs_dir_def split: if_splits)
  then have nd: "\<not> fs_dir d b" "\<not> prefix a b" "map_of d b = None"
    and d': "d' = map (moved a b) (filter (\<lambda>(q, n). q \<noteq> b) d)"
    using run by (auto simp: fs_rename_def moved_def split: if_splits)
  have none: "\<not> prefix b q" if "(q, n) \<in> set d" for q n
  proof
    assume "prefix b q"
    then obtain r where q: "q = b @ r" by (auto simp: prefix_def)
    have m: "map_of d q = Some n" using that ok by (simp add: disk_ok_def)
    with nd(3) q have "r \<noteq> []" by auto
    from disk_ok_above [OF ok m [unfolded q] this] nd(1) show False by simp
  qed
  then have same: "filter (\<lambda>(q, n). q \<noteq> b) d = d" by (auto simp: filter_id_conv)
  have "\<forall>(q, n)\<in>set d. \<not> prefix b q" using none by blast
  note look = map_of_rename [OF this nd(2) assms(5)]
  show ?thesis unfolding d' same by (intro conjI allI nd(3) look)
qed

section \<open>What is there stays there\<close>

text \<open>Nothing that was there has changed, but for the temporary file and what lies below the staging directory.\<close>

definition kept_but :: "fpath \<Rightarrow> fpath \<Rightarrow> disk \<Rightarrow> disk \<Rightarrow> bool" where
  "kept_but tmp stg d d' \<longleftrightarrow> (\<forall>p n. map_of d p = Some n \<longrightarrow> p \<noteq> tmp \<longrightarrow> \<not> prefix stg p \<longrightarrow> map_of d' p = Some n)"

lemma kept_but_refl [simp]: "kept_but tmp stg d d"
  by (simp add: kept_but_def)

lemma kept_but_trans: "kept_but tmp stg d d' \<Longrightarrow> kept_but tmp stg d' d'' \<Longrightarrow> kept_but tmp stg d d''"
  by (simp add: kept_but_def)

lemma kept_but_fs_op:
  "(\<And>d x d'. f d = Inr (x, d') \<Longrightarrow> kept_but tmp stg d d') \<Longrightarrow> preserves (\<lambda>w. kept_but tmp stg d0 (disk w)) (fs_op f)"
  using kept_but_trans by (fastforce simp: preserves_def fs_op_def split: sum.split)

lemma kept_but_query [pres]: "preserves (\<lambda>w. kept_but tmp stg d0 (disk w)) (fs_query f)"
  unfolding fs_query_def by (rule kept_but_fs_op) (auto split: sum.splits)

lemma kept_but_mkdirall: "fs_mkdirall p d = Inr (x, d') \<Longrightarrow> kept_but tmp stg d d'"
proof -
  assume "fs_mkdirall p d = Inr (x, d')"
  then have nf: "\<forall>q\<in>set (proper_prefixes p @ [p]). \<not> is_file (map_of d q)" and d': "d' = fold mkdir1 (proper_prefixes p @ [p]) d"
    by (auto simp: fs_mkdirall_def blocked_def list_ex_iff split: if_splits)
  have "map_of d' q = Some n" if "map_of d q = Some n" for q n
  proof (rule ccontr)
    assume "map_of d' q \<noteq> Some n"
    then have q: "q \<in> set (proper_prefixes p @ [p])" "map_of d' q = Some FDir" 
      using map_of_mkdirs [of "proper_prefixes p @ [p]" d q] that unfolding d' by simp_all
    with nf that have "n = FDir" by (cases n) (auto simp: is_file_def)
    with q(2) \<open>map_of d' q \<noteq> Some n\<close> show False by simp
  qed
  then show ?thesis by (simp add: kept_but_def)
qed

lemma kept_but_calls:
  "preserves (\<lambda>w. kept_but tmp stg d0 (disk w)) (MkdirAll t)" "preserves (\<lambda>w. kept_but tmp stg d0 (disk w)) (Mkdir t)"
  "path_of t = tmp \<or> prefix stg (path_of t) \<Longrightarrow> preserves (\<lambda>w. kept_but tmp stg d0 (disk w)) (WriteFile t c)"
  "path_of t = tmp \<Longrightarrow> preserves (\<lambda>w. kept_but tmp stg d0 (disk w)) (Remove t)"
  "path_of t = stg \<Longrightarrow> preserves (\<lambda>w. kept_but tmp stg d0 (disk w)) (RemoveAll t)"
proof -
  show "preserves (\<lambda>w. kept_but tmp stg d0 (disk w)) (MkdirAll t)"
    unfolding MkdirAll_def by (rule kept_but_fs_op) (rule kept_but_mkdirall)
  show "preserves (\<lambda>w. kept_but tmp stg d0 (disk w)) (Mkdir t)"
    unfolding Mkdir_def by (rule kept_but_fs_op) (auto simp: fs_mkdir_def kept_but_def split: if_splits)
  show "path_of t = tmp \<or> prefix stg (path_of t) \<Longrightarrow> preserves (\<lambda>w. kept_but tmp stg d0 (disk w)) (WriteFile t c)"
    unfolding WriteFile_def by (rule kept_but_fs_op) (auto simp: fs_write_def kept_but_def map_of_filter_other split: if_splits)
  show "path_of t = tmp \<Longrightarrow> preserves (\<lambda>w. kept_but tmp stg d0 (disk w)) (Remove t)"
    unfolding Remove_def by (rule kept_but_fs_op) (auto simp: fs_unlink_def kept_but_def map_of_filter_other split: if_splits)
  show "path_of t = stg \<Longrightarrow> preserves (\<lambda>w. kept_but tmp stg d0 (disk w)) (RemoveAll t)"
    unfolding RemoveAll_def by (rule kept_but_fs_op) (auto simp: fs_removeall_def map_of_fs_remove kept_but_def)
qed

interpretation kept: kept_at_targets "\<lambda>w. kept_but tmp (path_of dest) d0 (disk w)" dest for dest tmp d0
  by unfold_locales (auto simp: os_ReadFile_def kept_but_query intro: kept_but_calls)

lemma kept_but_none: "kept_but tmp stg d d' \<Longrightarrow> map_of d' p = None \<Longrightarrow> p \<noteq> tmp \<Longrightarrow> \<not> prefix stg p \<Longrightarrow> map_of d p = None"
  unfolding kept_but_def by (cases "map_of d p") auto

text \<open>Renaming the staging directory to a path that is free.\<close>

lemma kept_but_rename:
  assumes "disk_ok d" "fs_rename stg b d = Inr (x, d')" "map_of d stg = Some FDir" "stg \<noteq> [''/'']" "\<not> prefix b stg"
    and "b \<noteq> []" "b \<noteq> [''/'']"
  shows "kept_but tmp stg d d'"
  unfolding kept_but_def
proof (intro allI impI)
  fix p n assume p: "map_of d p = Some n" and np: "\<not> prefix stg p"
  note look = fs_rename_dir [OF assms(1-5)]
  have "\<not> prefix b p"
  proof
    assume "prefix b p"
    then obtain ws where ws: "p = b @ ws" by (auto simp: prefix_def)
    with p look have "ws \<noteq> []" by auto
    from disk_ok_above [OF assms(1) p [unfolded ws] this] look assms(6,7) show False by (simp add: fs_dir_def)
  qed
  with look p np show "map_of d' p = Some n" by simp
qed

section \<open>The parts of an upload\<close>

lemma store_keeps_disk [pres]: "preserves (\<lambda>w. P (disk w)) (exec f)" "preserves (\<lambda>w. P (disk w)) (query g)"
  using preserves_imp by (auto simp: preserves_def query_def exec_def split: sum.split prod.split)

lemma guards_upload:
  "preserves (\<lambda>w. P (disk w)) (PathUUID env r name label)"
  "preserves (\<lambda>w. P (disk w)) (requireMapPermission r i ga ma)"
  "preserves (\<lambda>w. P (disk w)) (RecordAudit r a b c e)"
  unfolding requireMapPermission_def GetPermissionsOrFail_def ownerOrMapAllowed_def isMapOwner_def forbid_unless_def guard_defs
    RecordAudit_def RecordAuditLog_def PathUUID_def
  by (intro pres; simp split: option.split add: pres)+

lemma quiet_guards:
  "quiet (PathUUID env r name label)" "quiet (requireMapPermission r i ga ma)"
  unfolding requireMapPermission_def GetPermissionsOrFail_def ownerOrMapAllowed_def isMapOwner_def forbid_unless_def guard_defs
    PathUUID_def fail_def
  by (auto intro!: quiet_rules split: option.split)

lemma quiet_fs_op [quiet_rules]: "quiet (fs_op f)" "quiet (fs_query g)"
proof -
  show q: "quiet (fs_op f)" for f by (auto simp: quiet_def preserves_def fs_op_def split: sum.split prod.split)
  show "quiet (fs_query g)" unfolding fs_query_def by (rule q)
qed

lemma Itoa_name: "plain_name (Itoa n)" "Itoa n \<noteq> CHR ''.'' # cs"
proof -
  have d: "all_digits (nat_digits k)" for k by (rule all_digits_nat_digits)
  have "nat_digits k \<noteq> CHR ''.'' # cs" for k using d [of k] by (auto simp: all_digits_def list_all_iff is_digit_def)
  moreover have "plain_name (CHR ''-'' # nat_digits k)" for k
    using all_digits_plain [OF d, of k] by (auto simp: plain_name_def)
  ultimately show "plain_name (Itoa n)" "Itoa n \<noteq> CHR ''.'' # cs"
    using all_digits_plain [OF d] by (auto simp: Itoa_def)
qed

lemma mapErrE_result: "mapErrE h m w = (x, w') \<Longrightarrow> \<exists>y. m w = (y, w') \<and> isl x = isl y"
  by (cases "m w"; cases "fst (m w)") (auto simp: mapErrE_def tryE_def raiseE_def okE_def)

text \<open>What \<open>IncrementMapVersion\<close> does to the store, and that it leaves the disk alone.\<close>

lemma IncrementMapVersion_run:
  assumes "IncrementMapVersion i u s = (Inr m, s')"
  shows "\<exists>n. m_CurrentVersion m = Itoa n \<and> Itoa n \<notin> mv_Version ` set (versions_of (st_db s) i) \<and>
    (\<exists>x\<in>set (t_maps (st_db s)). m_UUID x = i) \<and> st_db s' = with_new_version i (Itoa n) u (clock s) (st_db s)"
proof -
  obtain s1 where tx: "transaction (increment_tx i u) s = (Inr m, s1)" and db: "st_db s' = st_db s1"
    using assms unfolding IncrementMapVersion_def forget_map_def by (auto elim!: bindE_InrE simp: modifyE_def okE_def)
  obtain s0 f0 where "increment_tx i u s = (Inr m, s0)" and "s1 = s0\<lparr>faults := f0\<rparr>" using transaction_Inr [OF tx] by blast
  with increment_tx_Inr [of i u s m s0] db show ?thesis by auto
qed

lemma preserves_transaction_disk: "preserves (\<lambda>w. P (disk w)) m \<Longrightarrow> preserves (\<lambda>w. P (disk w)) (transaction m)"
  by (fastforce simp: preserves_def transaction_def split: prod.split sum.split)

lemma increment_keeps_disk: "preserves (\<lambda>w. P (disk w)) (IncrementMapVersion i u)"
  unfolding IncrementMapVersion_def increment_tx_def loadMapWithOwner_def forget_map_def Let_def
  by (intro pres preserves_transaction_disk; simp)

text \<open>Extraction: the staging directory is there afterwards, on a disk that has kept its shape.\<close>

lemma ExtractArchive_shape:
  assumes "plain_name (''.upload-'' @ rnd)" and "dir \<noteq> []" and "path_of dir \<notin> {[], [''/'']}" and "plain_path (path_of dir)"
  shows "preserves (\<lambda>w. disk_ok (disk w)) (ExtractArchive lib rnd tmp dir)"
    and "preserves (\<lambda>w. kept_but T (path_of dir @ [''.upload-'' @ rnd]) d0 (disk w)) (ExtractArchive lib rnd tmp dir)"
proof -
  let ?s = "dir @ CHR ''/'' # ''.upload-'' @ rnd" and ?b = "path_of dir @ [''.upload-'' @ rnd]"
  have s: "path_of ?s = ?b" using path_of_staging [OF assms(1,2)] by simp
  have b: "path_of ?s \<notin> {[], [''/'']}" using s assms(3) by (cases "path_of dir") auto
  have plain: "plain_path (path_of ?s)" unfolding s using assms(1) by (intro plain_path_append assms(4)) simp
  show "preserves (\<lambda>w. disk_ok (disk w)) (ExtractArchive lib rnd tmp dir)"
    unfolding ExtractArchive_def Let_def sniffArchiveFormat_def
    by (intro preserves_bindE preserves_mapErrE preserves_if pres disk_ok_plain_calls assms(4) plain)
       (auto split: archiveFormat.split intro!: pres disk_ok_extract [OF b plain] simp del: append_Cons)
  show "preserves (\<lambda>w. kept_but T ?b d0 (disk w)) (ExtractArchive lib rnd tmp dir)"
    unfolding ExtractArchive_def Let_def sniffArchiveFormat_def os_ReadFile_def s [symmetric]
    by (intro preserves_bindE preserves_mapErrE preserves_if pres kept_but_calls)
       (auto split: archiveFormat.split intro!: pres kept_but_calls kept.kept_by_extractZip [OF b] kept.kept_by_extractTar [OF b]
         simp del: append_Cons)
qed

lemma Mkdir_Inr: "Mkdir t w = (Inr x, w') \<Longrightarrow> map_of (disk w') (path_of t) = Some FDir"
  by (auto simp: Mkdir_def fs_op_def fs_mkdir_def split: if_splits sum.splits)

text \<open>The parts of an extraction that succeeds.\<close>

abbreviation (input) unpack :: "archiveFormat \<Rightarrow> archlib \<Rightarrow> string \<Rightarrow> string \<Rightarrow> ('w, unit) fsa" where
  "unpack fmt lib tmp dst \<equiv>
     (case fmt of archiveZip \<Rightarrow> extractZip lib tmp dst | archiveTarGz \<Rightarrow> extractTar lib tmp dst True
      | archiveTar \<Rightarrow> extractTar lib tmp dst False | archiveUnknown \<Rightarrow> raiseE (OpaqueErr ''unsupported archive format''))"

lemma ExtractArchive_InrE:
  assumes "ExtractArchive lib rnd tmp dir w = (Inr s, w')"
  obtains fmt w0 u1 w1 u2 w2 u3 where "sniffArchiveFormat tmp w = (Inr fmt, w0)" "MkdirAll dir w0 = (Inr u1, w1)"
    "Mkdir s w1 = (Inr u2, w2)" "unpack fmt lib tmp s w2 = (Inr u3, w')" "s = dir @ CHR ''/'' # ''.upload-'' @ rnd"
proof -
  let ?s = "dir @ CHR ''/'' # ''.upload-'' @ rnd"
  obtain fmt w0 u1 w1 u2 w2 where p: "sniffArchiveFormat tmp w = (Inr fmt, w0)" "MkdirAll dir w0 = (Inr u1, w1)"
    "Mkdir ?s w1 = (Inr u2, w2)"
    and un: "tryE (unpack fmt lib tmp ?s) (\<lambda>e. bindE (ignoreE (RemoveAll ?s)) (\<lambda>_. raiseE (Wrap ''extract'' ErrInvalidArchive)))
       (\<lambda>_. okE ?s) w2 = (Inr s, w')"
    using assms unfolding ExtractArchive_def Let_def
    by (auto simp: raiseE_def split: if_splits elim!: bindE_InrE dest!: mapErrE_InrD simp del: append_Cons)
  from un obtain u where u: "unpack fmt lib tmp ?s w2 = (Inr u, w')" and "s = ?s"
    by (elim tryE_cases) (auto simp: raiseE_def okE_def simp del: append_Cons elim!: bindE_InrE)
  show thesis using p u unfolding \<open>s = ?s\<close> [symmetric] by (rule that) (rule \<open>s = ?s\<close>)
qed

lemma ExtractArchive_staged:
  assumes "plain_name (''.upload-'' @ rnd)" and "dir \<noteq> []" and "path_of dir \<notin> {[], [''/'']}"
    and run: "ExtractArchive lib rnd tmp dir w = (Inr s, w')"
  shows "s = dir @ CHR ''/'' # ''.upload-'' @ rnd \<and> map_of (disk w') (path_of s) = Some FDir"
proof -
  obtain fmt w0 u1 w1 u2 w2 u3 where mk: "Mkdir s w1 = (Inr u2, w2)" and un: "unpack fmt lib tmp s w2 = (Inr u3, w')"
    and s: "s = dir @ CHR ''/'' # ''.upload-'' @ rnd" by (rule ExtractArchive_InrE [OF run])
  have "path_of s = path_of dir @ [''.upload-'' @ rnd]" unfolding s by (rule path_of_staging [OF assms(1,2)])
  then have b: "path_of s \<notin> {[], [''/'']}" using assms(3) by (cases "path_of dir") auto
  have "preserves (kept_confined (path_of s) (disk w2)) (unpack fmt lib tmp s)"
    by (auto split: archiveFormat.split intro!: pres confined_extractZip [OF b] confined_extractTar [OF b])
  from preservesD [OF this confined_refl un]
  have "map_of (disk w') (path_of s) = map_of (disk w2) (path_of s) \<or> map_of (disk w') (path_of s) = Some FDir"
    unfolding confined_def by (auto simp: tile_path_def)
  with Mkdir_Inr [OF mk] s show ?thesis by auto
qed

section \<open>Publishing\<close>

text \<open>A published version: its directory is there, with the index of the tiles in it.\<close>

definition published :: "fpath \<Rightarrow> string \<Rightarrow> disk \<Rightarrow> bool" where
  "published base v d \<longleftrightarrow> map_of d (base @ [v]) = Some FDir \<and>
     (\<exists>ts. sorted ts \<and> set ts = tiles_in d (base @ [v]) \<and> map_of d (base @ [v, ''index.json'']) = Some (FFile (index_json ts)))"

lemma tiles_in_cong: "(\<And>r. map_of d' (b' @ r) = map_of d (b @ r)) \<Longrightarrow> tiles_in d' b' = tiles_in d b"
  by (simp add: tiles_in_def)

lemma published_cong:
  assumes "published base v d" and "\<And>r. map_of d' (base @ v # r) = map_of d (base @ v # r)"
  shows "published base v d'"
  using assms(1) tiles_in_cong [of d' "base @ [v]" d "base @ [v]"] assms(2) by (simp add: published_def)

lemma index_name: "Atoi ''index.json'' = None" by code_simp

lemma tiles_in_index:
  assumes "map_of d' = (map_of d)(b @ [''index.json''] \<mapsto> n)" shows "tiles_in d' b = tiles_in d b"
proof -
  have "(Atoi z = Some k \<and> map_of d' (b @ [z]) = Some FDir) = (Atoi z = Some k \<and> map_of d (b @ [z]) = Some FDir)" for z k
    using index_name assms by (cases "z = ''index.json''") simp_all
  moreover have "map_of d' (b @ [z, x]) = map_of d (b @ [z, x])" "map_of d' (b @ [z, x, y]) = map_of d (b @ [z, x, y])" for x y z
    by (simp_all add: assms)
  ultimately show ?thesis unfolding tiles_in_def by (simp only: conj_assoc [symmetric])
qed

lemma WriteTileIndex_Inr:
  assumes "WriteTileIndex dest w = (Inr u, w')" and "disk_ok (disk w)" and "dest \<noteq> []"
  shows "\<exists>ts. sorted ts \<and> set ts = tiles_in (disk w') (path_of dest) \<and>
     map_of (disk w') = (map_of (disk w))(path_of dest @ [''index.json''] \<mapsto> FFile (index_json ts))"
  using WriteTileIndex_run [OF assms] tiles_in_index by metis

text \<open>The rename that publishes.\<close>

lemma Rename_publishes:
  assumes run: "Rename s (Join2 dir v) w = (Inr x, w')" and ok: "disk_ok (disk w)" and s: "path_of s = path_of dir @ [sfx]"
    and dir: "dir \<noteq> []" "path_of dir \<noteq> []" and v: "plain_name v" "v \<noteq> sfx" and a: "map_of (disk w) (path_of s) = Some FDir"
    and ix: "sorted ts" "set ts = tiles_in (disk w) (path_of s)" "map_of (disk w) (path_of s @ [''index.json'']) = Some (FFile (index_json ts))"
  shows "published (path_of dir) v (disk w') \<and> map_of (disk w) (path_of dir @ [v]) = None \<and>
    kept_but T (path_of s) (disk w) (disk w') \<and> (\<forall>r. map_of (disk w') (path_of s @ r) = None)"
proof -
  let ?b = "path_of dir @ [v]"
  have b: "path_of (Join2 dir v) = ?b" using path_of_Join2_name [OF dir(1) v(1)] .
  have r: "fs_rename (path_of s) ?b (disk w) = Inr (x, disk w')"
    using run b by (auto simp: Rename_def fs_op_def split: if_splits sum.splits)
  have ne: "path_of s \<noteq> [''/'']" "\<not> prefix ?b (path_of s)" "?b \<noteq> [''/'']" using s v(2) dir(2) by auto
  note look = fs_rename_dir [OF ok r a ne(1,2)]
  have below: "map_of (disk w') (?b @ rest) = map_of (disk w) (path_of s @ rest)" for rest
  proof -
    have "\<not> prefix (path_of s) (?b @ rest)" using s v(2) by simp
    with look show ?thesis by simp
  qed
  have "published (path_of dir) v (disk w')"
    using below [of "[]"] below [of "[''index.json'']"] a ix tiles_in_cong [OF below] by (auto simp: published_def)
  then show ?thesis using look kept_but_rename [OF ok r a ne(1,2) _ ne(3)] by simp
qed

text \<open>A new version of a map: it was not one of its versions, and is one now, the current one.\<close>

definition new_current :: "uuid \<Rightarrow> string \<Rightarrow> db \<Rightarrow> db \<Rightarrow> bool" where
  "new_current i v d d' \<longleftrightarrow> v \<notin> mv_Version ` set (versions_of d i) \<and>
     v \<in> mv_Version ` set (versions_of d' i) \<and> current_in d' i = Some v"

lemma IncrementMapVersion_current:
  assumes "IncrementMapVersion i u s = (Inr m, s')"
  shows "\<exists>n. m_CurrentVersion m = Itoa n \<and> new_current i (Itoa n) (st_db s) (st_db s')"
proof -
  obtain n where n: "m_CurrentVersion m = Itoa n" "Itoa n \<notin> mv_Version ` set (versions_of (st_db s) i)"
    and there: "\<exists>x\<in>set (t_maps (st_db s)). m_UUID x = i" and db: "st_db s' = with_new_version i (Itoa n) u (clock s) (st_db s)"
    using IncrementMapVersion_run [OF assms] by blast
  have "Itoa n \<in> mv_Version ` set (versions_of (st_db s') i)" by (simp add: db with_new_version_def versions_of_def)
  with n db current_in_new_version [OF there] show ?thesis by (auto simp: new_current_def)
qed

lemma audit_keeps_version: "preserves (\<lambda>w. new_current i v d (st_db w)) (RecordAudit r a b c e)"
proof -
  have "preserves (\<lambda>w. new_current i v d (st_db w)) (exec (insert_audit u a b c e))" for u
    by (auto simp: preserves_def exec_def insert_audit_def new_current_def versions_of_def current_in_def)
  then show ?thesis unfolding RecordAudit_def RecordAuditLog_def by (intro pres)
qed

lemma RecordAudit_Inl: "RecordAudit r a b c e w = (Inl x, w') \<Longrightarrow> False"
  unfolding RecordAudit_def by (elim tryE_cases) (auto simp: okE_def)

lemma bindE_cases:
  assumes "bindE m k s = (x, s')"
  obtains (Error) e where "m s = (Inl e, s')" and "x = Inl e" | (Result) y s1 where "m s = (Inr y, s1)" and "k y s1 = (x, s')"
  using assms by (auto simp: bindE_def tryE_def raiseE_def split: prod.splits sum.splits)

lemma scan_keeps [pres]: "preserves (\<lambda>w. P (disk w)) (scanTileCoords d)"
proof -
  have q: "preserves (\<lambda>w. P (disk w)) (ReadDir p)" for p
    unfolding ReadDir_def by (simp add: preserves_def fs_query_disk [OF surjective_pairing])
  show ?thesis unfolding scanTileCoords_def scanZoomTiles_def
    by (auto split: prod.split option.split intro!: pres q)
qed

lemma quiet_index: "quiet (WriteTileIndex s)"
proof -
  have q: "preserves (\<lambda>w. st_db w = d) (fs_op f)" "preserves (\<lambda>w. st_db w = d) (fs_query g)" for d f g
    using quiet_fs_op unfolding quiet_def by blast+
  show ?thesis unfolding quiet_def WriteTileIndex_def scanTileCoords_def scanZoomTiles_def ReadDir_def WriteFile_def
    by (auto split: prod.split option.split intro!: pres q)
qed

lemma index_written:
  assumes s: "s \<noteq> []" "plain_path (path_of s)"
  shows "preserves (\<lambda>w. disk_ok (disk w)) (WriteTileIndex s)" and "preserves (\<lambda>w. kept_but T (path_of s) d0 (disk w)) (WriteTileIndex s)"
proof -
  have "plain_path (path_of (index_path s))" using s plain_index by (simp add: path_of_index plain_path_append)
  then show "preserves (\<lambda>w. disk_ok (disk w)) (WriteTileIndex s)"
    unfolding WriteTileIndex_def by (intro pres disk_ok_plain_calls)
  show "preserves (\<lambda>w. kept_but T (path_of s) d0 (disk w)) (WriteTileIndex s)"
    unfolding WriteTileIndex_def by (intro pres kept_but_calls) (simp add: path_of_index s)
qed

text \<open>What an upload that succeeds has stored: its version is published, and nothing is left of the staging directory.\<close>

definition stored :: "uuid \<Rightarrow> fpath \<Rightarrow> fpath \<Rightarrow> 'w world_scheme \<Rightarrow> 'w world_scheme \<Rightarrow> response \<Rightarrow> bool" where
  "stored i base stg w w' resp \<longleftrightarrow> (\<exists>m. resp = \<lparr>status = 201, payload = JMap m, headers = []\<rparr> \<and>
     plain_name (m_CurrentVersion m) \<and> new_current i (m_CurrentVersion m) (st_db w) (st_db w') \<and>
     map_of (disk w) (base @ [m_CurrentVersion m]) = None \<and> published base (m_CurrentVersion m) (disk w') \<and>
     (\<forall>r. map_of (disk w') (stg @ r) = None))"

text \<open>What was stored between two states is stored between an earlier and a later one that agree with them.\<close>

lemma stored_later:
  assumes st: "stored i base (base @ [sfx]) w2 w3 resp" and k: "kept_but T (base @ [sfx]) (disk w) (disk w2)" and db: "st_db w2 = st_db w"
    and same: "\<And>z. map_of (disk w') (base @ z) = map_of (disk w3) (base @ z)"
    and later: "\<And>z. base @ z \<noteq> T" "st_db w' = st_db w3"
  shows "stored i base (base @ [sfx]) w w' resp"
proof -
  obtain m where m: "resp = \<lparr>status = 201, payload = JMap m, headers = []\<rparr>" "plain_name (m_CurrentVersion m)"
    "new_current i (m_CurrentVersion m) (st_db w2) (st_db w3)" "map_of (disk w2) (base @ [m_CurrentVersion m]) = None"
    "published base (m_CurrentVersion m) (disk w3)" "\<And>r. map_of (disk w3) ((base @ [sfx]) @ r) = None"
    using st unfolding stored_def by blast
  have "\<not> prefix (base @ [sfx]) (base @ [m_CurrentVersion m])" using m(5) m(6) [of "[]"] by (auto simp: published_def)
  from kept_but_none [OF k m(4) later(1) this] have "map_of (disk w) (base @ [m_CurrentVersion m]) = None" .
  moreover have "published base (m_CurrentVersion m) (disk w')" by (rule published_cong [OF m(5) same])
  moreover have "map_of (disk w') ((base @ [sfx]) @ r) = None" for r using same [of "sfx # r"] m(6) [of r] by simp
  ultimately show ?thesis unfolding stored_def using m(1-3) db later(2) by auto
qed

text \<open>The last steps, from a staging directory with its index.\<close>

lemma publish_run:
  assumes run: "bindE (mapErrE (\<lambda>_. http_Error 500 msg) (Rename s (Join2 dir (m_CurrentVersion m)))) (\<lambda>_.
      bindE (RecordAudit r a b c e) (\<lambda>_. WriteJSON 201 (JMap m))) w = (x, w')"
    and ok: "disk_ok (disk w)" and s: "path_of s = path_of dir @ [CHR ''.'' # sfx]" and dir: "dir \<noteq> []" "path_of dir \<noteq> []"
    and n: "m_CurrentVersion m = Itoa n" and new: "new_current i (Itoa n) (st_db w0) (st_db w)"
    and st: "map_of (disk w) (path_of s) = Some FDir" "sorted ts" "set ts = tiles_in (disk w) (path_of s)"
      "map_of (disk w) (path_of s @ [''index.json'']) = Some (FFile (index_json ts))"
  shows "kept_but T (path_of s) (disk w) (disk w') \<and> (\<forall>resp. x = Inr resp \<longrightarrow>
    stored i (path_of dir) (path_of s) (w0\<lparr>disk := disk w\<rparr>) w' resp)"
proof (cases rule: bindE_cases [OF run])
  case (1 e)
  obtain y where y: "Rename s (Join2 dir (m_CurrentVersion m)) w = (y, w')" "isl y" using mapErrE_result [OF 1(1)] by auto
  then have "disk w' = disk w" by (auto simp: Rename_def fs_op_def split: if_splits sum.splits)
  with 1(2) show ?thesis by simp
next
  case (2 y w3)
  then have ren: "Rename s (Join2 dir (Itoa n)) w = (Inr y, w3)" using n by (auto dest: mapErrE_InrD)
  note pub = Rename_publishes [OF ren ok s dir Itoa_name st]
  have db3: "st_db w3 = st_db w" using ren quietD [OF quiet_fs_op(1)] unfolding Rename_def by blast
  obtain z w4 where au: "RecordAudit r a b c e w3 = (Inr z, w4)" and res: "x = Inr \<lparr>status = 201, payload = JMap m, headers = []\<rparr>" "w' = w4"
    using 2(2) by (cases rule: bindE_cases) (auto simp: WriteJSON_def okE_def dest!: RecordAudit_Inl)
  have "disk w4 = disk w3" by (rule preservesD [OF guards_upload(3) refl au])
  moreover have "new_current i (Itoa n) (st_db w0) (st_db w4)" by (rule preservesD [OF audit_keeps_version _ au]) (simp add: db3 new)
  ultimately show ?thesis using pub Itoa_name(1) res n unfolding stored_def by auto
qed

lemma storeUpload_run:
  assumes run: "storeUpload env r i dir s w = (x, w')" and ok: "disk_ok (disk w)" and s: "path_of s = path_of dir @ [CHR ''.'' # sfx]" "s \<noteq> []"
    and dir: "dir \<noteq> []" "path_of dir \<noteq> []" "\<not> prefix (path_of dir) T" and plain: "plain_path (path_of s)"
    and a: "map_of (disk w) (path_of s) = Some FDir"
  shows "kept_but T (path_of s) (disk w) (disk w') \<and> (\<forall>resp. x = Inr resp \<longrightarrow> stored i (path_of dir) (path_of s) w w' resp)"
proof (cases rule: bindE_cases [OF run [unfolded storeUpload_def]])
  case (1 e)
  obtain y where "WriteTileIndex s w = (y, w')" using mapErrE_result [OF 1(1)] by auto
  from preservesD [OF index_written(2) [OF s(2) plain] kept_but_refl this] 1(2) show ?thesis by simp
next
  case (2 u w1)
  have ix: "WriteTileIndex s w = (Inr u, w1)" by (rule mapErrE_InrD [OF 2(1)])
  have k1: "kept_but T (path_of s) (disk w) (disk w1)" and ok1: "disk_ok (disk w1)"
    using preservesD [OF index_written(2) [OF s(2) plain] kept_but_refl ix] preservesD [OF index_written(1) [OF s(2) plain] ok ix] by auto
  obtain ts where ts: "sorted ts" "set ts = tiles_in (disk w1) (path_of s)"
    and look: "map_of (disk w1) = (map_of (disk w))(path_of s @ [''index.json''] \<mapsto> FFile (index_json ts))"
    using WriteTileIndex_Inr [OF ix ok s(2)] by blast
  have db1: "st_db w1 = st_db w" by (rule quietD [OF quiet_index ix])
  show ?thesis
  proof (cases rule: bindE_cases [OF 2(2)])
    case (1 e)
    obtain y where "IncrementMapVersion i (ctxUsername r) w1 = (y, w')" using mapErrE_result [OF 1(1) [unfolded attempt_def]] by auto
    then have "disk w' = disk w1" by (rule preservesD [OF increment_keeps_disk refl])
    with k1 1(2) show ?thesis by simp
  next
    case (2 m w2)
    then have inc: "IncrementMapVersion i (ctxUsername r) w1 = (Inr m, w2)" unfolding attempt_def by (auto dest: mapErrE_InrD)
    have same: "disk w2 = disk w1" by (rule preservesD [OF increment_keeps_disk refl inc])
    obtain n where n: "m_CurrentVersion m = Itoa n" and new: "new_current i (Itoa n) (st_db w) (st_db w2)"
      using IncrementMapVersion_current [OF inc] db1 by auto
    note pub = publish_run [OF 2(2) ok1 [folded same] s(1) dir(1,2) n new, of ts T]
    have "kept_but T (path_of s) (disk w2) (disk w') \<and> (\<forall>resp. x = Inr resp \<longrightarrow>
        stored i (path_of dir) (path_of s) (w\<lparr>disk := disk w2\<rparr>) w' resp)"
      by (rule pub) (use look a ts same in simp_all)
    then have res: "kept_but T (path_of s) (disk w) (disk w')"
      "\<And>resp. x = Inr resp \<Longrightarrow> stored i (path_of dir) (path_of s) (w\<lparr>disk := disk w2\<rparr>) w' resp"
      using kept_but_trans [OF k1] same by auto
    have away: "path_of dir @ z \<noteq> T" for z using dir(3) by (metis prefixI)
    have "stored i (path_of dir) (path_of s) w w' resp" if "x = Inr resp" for resp
      unfolding s(1) by (rule stored_later [OF res(2) [OF that, unfolded s(1)] _ _ refl away]) (use k1 same s(1) in simp_all)
    with res(1) show ?thesis by blast
  qed
qed

lemma receiveUpload_keeps:
  assumes "plain_path (path_of tmp)"
  shows "preserves (\<lambda>w. disk_ok (disk w)) (receiveUpload tmp body)"
    and "preserves (\<lambda>w. kept_but (path_of tmp) stg d0 (disk w)) (receiveUpload tmp body)"
  unfolding receiveUpload_def ignoreE_def fail_def
  by (auto split: uploadBody.split intro!: pres disk_ok_plain_calls [OF assms] kept_but_calls)

lemma receiveUpload_Inr: "receiveUpload tmp body w = (Inr t, w') \<Longrightarrow> t = tmp \<and> (\<exists>bytes. body = Complete bytes)"
  unfolding receiveUpload_def
  by (auto elim!: bindE_InrE tryE_cases simp: fail_def raiseE_def okE_def split: uploadBody.splits)

lemma quiet_upload: "quiet (receiveUpload tmp body)" "quiet (ExtractArchive lib rnd tmp dir)"
proof -
  have q: "preserves (\<lambda>w. st_db w = d) (fs_op f)" "preserves (\<lambda>w. st_db w = d) (fs_query g)" for d f g
    using quiet_fs_op unfolding quiet_def by blast+
  have x: "preserves (\<lambda>w. st_db w = d) (extractZip lib p dest)" "preserves (\<lambda>w. st_db w = d) (extractTar lib p dest gz)" for d p dest gz
    unfolding extractZip_def extractTar_def extractZipEntry_def extractTarEntry_def extractZipFile_def writeExtractedFile_def Let_def
      os_ReadFile_def MkdirAll_def WriteFile_def
    by (auto split: prod.split sum.split option.split intro!: pres q)
  show "quiet (receiveUpload tmp body)"
    unfolding quiet_def receiveUpload_def ignoreE_def fail_def WriteFile_def Remove_def
    by (auto split: uploadBody.split intro!: pres q)
  show "quiet (ExtractArchive lib rnd tmp dir)"
    unfolding quiet_def ExtractArchive_def Let_def sniffArchiveFormat_def os_ReadFile_def MkdirAll_def Mkdir_def RemoveAll_def ignoreE_def
    by (intro allI preserves_bindE preserves_mapErrE preserves_if pres q) (auto split: archiveFormat.split intro!: pres x q)
qed

lemma finallyE_cases:
  assumes "finallyE m f s = (x, s')" obtains s1 where "m s = (x, s1)" and "s' = snd (f s1)"
  using assms by (auto simp: finallyE_def split: prod.splits)

lemma ignored_disk:
  assumes "\<And>d x d'. f d = Inr (x, d') \<Longrightarrow> P d \<Longrightarrow> P d'" and "P (disk w)"
  shows "P (disk (snd (ignoreE (fs_op f) w)))"
  using assms by (auto simp: ignoreE_def tryE_def okE_def fs_op_def split: sum.split prod.split)

lemma ignored_db: "st_db (snd (ignoreE (fs_op f) w)) = st_db w"
  by (auto simp: ignoreE_def tryE_def okE_def fs_op_def split: sum.split prod.split)

text \<open>The removal of the staging directory and of the temporary file, after all.\<close>

lemma cleanup_staging:
  assumes "path_of s = stg"
  shows "kept_but T stg (disk w) (disk (snd (ignoreE (RemoveAll s) w)))" and "st_db (snd (ignoreE (RemoveAll s) w)) = st_db w"
    and "(\<And>r. map_of (disk w) (stg @ r) = None) \<Longrightarrow> map_of (disk (snd (ignoreE (RemoveAll s) w))) = map_of (disk w)"
proof -
  show "kept_but T stg (disk w) (disk (snd (ignoreE (RemoveAll s) w)))"
    unfolding RemoveAll_def assms
    by (rule ignored_disk [where P = "kept_but T stg (disk w)"]) (auto simp: fs_removeall_def kept_but_def map_of_fs_remove)
  show "st_db (snd (ignoreE (RemoveAll s) w)) = st_db w" unfolding RemoveAll_def by (rule ignored_db)
  assume none: "\<And>r. map_of (disk w) (stg @ r) = None"
  have "map_of (fs_remove stg d) = map_of (disk w)" if "map_of d = map_of (disk w)" for d
    by (rule ext) (auto simp: map_of_fs_remove that none prefix_def)
  then show "map_of (disk (snd (ignoreE (RemoveAll s) w))) = map_of (disk w)"
    unfolding RemoveAll_def assms
    by (intro ignored_disk [where P = "\<lambda>d. map_of d = map_of (disk w)"]) (auto simp: fs_removeall_def)
qed

lemma cleanup_temp:
  shows "kept_but (path_of tmp) stg (disk w) (disk (snd (ignoreE (Remove tmp) w)))" and "st_db (snd (ignoreE (Remove tmp) w)) = st_db w"
    and "p \<noteq> path_of tmp \<Longrightarrow> map_of (disk (snd (ignoreE (Remove tmp) w))) p = map_of (disk w) p"
proof -
  show "kept_but (path_of tmp) stg (disk w) (disk (snd (ignoreE (Remove tmp) w)))"
    unfolding Remove_def
    by (rule ignored_disk [where P = "kept_but (path_of tmp) stg (disk w)"])
       (auto simp: fs_unlink_def kept_but_def map_of_filter_other split: if_splits)
  show "st_db (snd (ignoreE (Remove tmp) w)) = st_db w" unfolding Remove_def by (rule ignored_db)
  assume "p \<noteq> path_of tmp"
  then show "map_of (disk (snd (ignoreE (Remove tmp) w))) p = map_of (disk w) p"
    unfolding Remove_def
    by (intro ignored_disk [where P = "\<lambda>d. map_of d p = map_of (disk w) p"])
       (auto simp: fs_unlink_def map_of_filter_other split: if_splits)
qed

section \<open>An upload\<close>

text \<open>
  The setting: the directory of the map and the temporary file have ordinary names, the file lies elsewhere, and the name that
  \<open>os.MkdirTemp\<close> makes up is one of a directory entry.
\<close>

definition upload_setting :: "webenv \<Rightarrow> string \<Rightarrow> uuid \<Rightarrow> string \<Rightarrow> string \<Rightarrow> bool" where
  "upload_setting env dataRoot i tmp rnd \<longleftrightarrow>
     plain_path (path_of (MapDir env dataRoot i)) \<and> path_of (MapDir env dataRoot i) \<noteq> [] \<and> path_of (MapDir env dataRoot i) \<noteq> [''/''] \<and>
     plain_path (path_of tmp) \<and> \<not> prefix (path_of (MapDir env dataRoot i)) (path_of tmp) \<and> plain_name (''.upload-'' @ rnd)"

abbreviation staging :: "webenv \<Rightarrow> string \<Rightarrow> uuid \<Rightarrow> string \<Rightarrow> fpath" where
  "staging env dataRoot i rnd \<equiv> path_of (MapDir env dataRoot i) @ [''.upload-'' @ rnd]"

text \<open>The part between the two deferred removals.\<close>

definition upload_body :: "webenv \<Rightarrow> archlib \<Rightarrow> string \<Rightarrow> string \<Rightarrow> request \<Rightarrow> uuid \<Rightarrow> string \<Rightarrow> ('w, response) fhnd" where
  "upload_body env lib rnd dir r i tmp =
     bindE (extractUploadedArchive lib rnd tmp dir) (\<lambda>stagingDir.
       finallyE (storeUpload env r i dir stagingDir) ((ignoreE :: _ \<Rightarrow> (_, gerror, unit) action) (RemoveAll stagingDir)))"

lemma path_of_Nil: "path_of [] = []" by code_simp

lemma upload_body_run:
  assumes set: "upload_setting env dataRoot i tmp rnd" and run: "upload_body env lib rnd (MapDir env dataRoot i) r i tmp w = (x, w')"
    and ok: "disk_ok (disk w)"
  shows "kept_but (path_of tmp) (staging env dataRoot i rnd) (disk w) (disk w') \<and>
    (\<forall>resp. x = Inr resp \<longrightarrow> stored i (path_of (MapDir env dataRoot i)) (staging env dataRoot i rnd) w w' resp)"
proof -
  let ?dir = "MapDir env dataRoot i" and ?stg = "staging env dataRoot i rnd" and ?T = "path_of tmp"
  have dir: "path_of ?dir \<notin> {[], [''/'']}" "plain_path (path_of ?dir)" "plain_name (''.upload-'' @ rnd)" "\<not> prefix (path_of ?dir) ?T"
    using set by (auto simp: upload_setting_def)
  then have dn: "?dir \<noteq> []" by (auto simp: path_of_Nil)
  note shape = ExtractArchive_shape [OF dir(3) dn dir(1,2)]
  show ?thesis
  proof (cases rule: bindE_cases [OF run [unfolded upload_body_def]])
    case (1 e)
    obtain y where "ExtractArchive lib rnd tmp ?dir w = (y, w')" using mapErrE_result [OF 1(1) [unfolded extractUploadedArchive_def]] by auto
    from preservesD [OF shape(2) kept_but_refl this] 1(2) show ?thesis by simp
  next
    case (2 s w1)
    then have x: "ExtractArchive lib rnd tmp ?dir w = (Inr s, w1)" unfolding extractUploadedArchive_def by (auto dest: mapErrE_InrD)
    from 2(2) obtain w2 where st: "storeUpload env r i ?dir s w1 = (x, w2)"
      and w': "w' = snd ((ignoreE :: _ \<Rightarrow> (_, gerror, unit) action) (RemoveAll s) w2)" by (rule finallyE_cases)
    from ExtractArchive_staged [OF dir(3) dn dir(1) x] have s: "path_of s = ?stg" "s \<noteq> []" "map_of (disk w1) (path_of s) = Some FDir"
      using path_of_staging [OF dir(3) dn] by auto
    have ok1: "disk_ok (disk w1)" by (rule preservesD [OF shape(1) ok x])
    have k1: "kept_but ?T ?stg (disk w) (disk w1)" by (rule preservesD [OF shape(2) kept_but_refl x])
    have db1: "st_db w1 = st_db w" by (rule quietD [OF quiet_upload(2) x])
    have plain: "plain_path (path_of s)" unfolding s(1) using dir(3) by (intro plain_path_append dir(2)) simp
    have s': "path_of s = path_of ?dir @ [CHR ''.'' # ''upload-'' @ rnd]" using s(1) by simp
    have nonempty: "path_of ?dir \<noteq> []" using dir(1) by simp
    note up = storeUpload_run [OF st ok1 s' s(2) dn nonempty dir(4) plain s(3), unfolded s(1)]
    note clean = cleanup_staging [OF s(1), where w = w2]
    have "kept_but ?T ?stg (disk w) (disk w')" unfolding w'
      by (rule kept_but_trans [OF kept_but_trans [OF k1 conjunct1 [OF up]] clean(1)])
    moreover have "stored i (path_of ?dir) ?stg w w' resp" if "x = Inr resp" for resp
    proof (rule stored_later [OF _ k1 db1])
      show st: "stored i (path_of ?dir) ?stg w1 w2 resp" using up \<open>x = Inr resp\<close> by blast
      then have "map_of (disk w2) (?stg @ z) = None" for z by (auto simp: stored_def)
      then show "map_of (disk w') (path_of ?dir @ z) = map_of (disk w2) (path_of ?dir @ z)" for z unfolding w' by (simp only: clean(3))
      show "path_of ?dir @ z \<noteq> ?T" for z using dir(4) by (metis prefixI)
      show "st_db w' = st_db w2" unfolding w' by (rule clean(2))
    qed
    ultimately show ?thesis by blast
  qed
qed

lemma upload_received_run:
  assumes set: "upload_setting env dataRoot i tmp rnd" and ok: "disk_ok (disk w)"
    and run: "bindE (receiveUpload tmp body) (\<lambda>tmpPath. finallyE (upload_body env lib rnd (MapDir env dataRoot i) r i tmpPath)
      ((ignoreE :: _ \<Rightarrow> (_, gerror, unit) action) (Remove tmpPath))) w = (x, w')"
  shows "kept_but (path_of tmp) (staging env dataRoot i rnd) (disk w) (disk w') \<and> (\<forall>resp. x = Inr resp \<longrightarrow>
    (\<exists>bytes. body = Complete bytes) \<and> stored i (path_of (MapDir env dataRoot i)) (staging env dataRoot i rnd) w w' resp)"
proof -
  let ?T = "path_of tmp" and ?stg = "staging env dataRoot i rnd" and ?base = "path_of (MapDir env dataRoot i)"
  have T: "plain_path ?T" "\<not> prefix ?base ?T" using set by (auto simp: upload_setting_def)
  note receive = receiveUpload_keeps [OF T(1)]
  show ?thesis
  proof (cases rule: bindE_cases [OF run])
    case (1 e)
    have "kept_but ?T ?stg (disk w) (disk w')" by (rule preservesD [OF receive(2) kept_but_refl 1(1)])
    with 1(2) show ?thesis by simp
  next
    case (2 t w2)
    from receiveUpload_Inr [OF 2(1)] have t: "t = tmp" and b: "\<exists>bytes. body = Complete bytes" by auto
    have k2: "kept_but ?T ?stg (disk w) (disk w2)" by (rule preservesD [OF receive(2) kept_but_refl 2(1)])
    have ok2: "disk_ok (disk w2)" by (rule preservesD [OF receive(1) ok 2(1)])
    have db2: "st_db w2 = st_db w" by (rule quietD [OF quiet_upload(1) 2(1)])
    from 2(2) obtain w3 where body: "upload_body env lib rnd (MapDir env dataRoot i) r i tmp w2 = (x, w3)"
      and w': "w' = snd ((ignoreE :: _ \<Rightarrow> (_, gerror, unit) action) (Remove tmp) w3)" unfolding t by (rule finallyE_cases)
    note up = upload_body_run [OF set body ok2]
    note clean = cleanup_temp [where w = w3 and tmp = tmp]
    have "kept_but ?T ?stg (disk w) (disk w')" unfolding w'
      by (rule kept_but_trans [OF kept_but_trans [OF k2 conjunct1 [OF up]] clean(1)])
    moreover have "stored i ?base ?stg w w' resp" if x: "x = Inr resp" for resp
    proof -
      have st: "stored i ?base ?stg w2 w3 resp" using up x by blast
      have away: "?base @ z \<noteq> ?T" for z using T(2) by (metis prefixI)
      then have same: "map_of (disk w') (?base @ z) = map_of (disk w3) (?base @ z)" for z unfolding w' by (intro clean(3))
      have "st_db w' = st_db w3" unfolding w' by (rule clean(2))
      with stored_later [OF st k2 db2 same away] show ?thesis .
    qed
    ultimately show ?thesis using b by blast
  qed
qed

lemma upload_run:
  assumes set: "upload_setting env dataRoot i tmp rnd" and i: "uuid_Parse env (PathValue r ''id'') = Some i" and ok: "disk_ok (disk w)"
    and run: "UploadMapVersionHandler env lib tmp rnd dataRoot body r w = (x, w')"
  shows "kept_but (path_of tmp) (staging env dataRoot i rnd) (disk w) (disk w') \<and> (\<forall>resp. x = Inr resp \<longrightarrow>
    (\<exists>bytes. body = Complete bytes) \<and> stored i (path_of (MapDir env dataRoot i)) (staging env dataRoot i rnd) w w' resp)"
proof -
  have run1: "bindE (requireMapPermission r i p_CanCreate mp_CanEdit) (\<lambda>_. bindE (receiveUpload tmp body) (\<lambda>tmpPath.
      finallyE (upload_body env lib rnd (MapDir env dataRoot i) r i tmpPath)
        ((ignoreE :: _ \<Rightarrow> (_, gerror, unit) action) (Remove tmpPath)))) w = (x, w')"
    using run i unfolding UploadMapVersionHandler_def PathUUID_def upload_body_def by (simp add: bindE_def tryE_def okE_def)
  show ?thesis
  proof (cases rule: bindE_cases [OF run1])
    case (1 e)
    have "disk w' = disk w" by (rule preservesD [OF guards_upload(2) refl 1(1)])
    with 1(2) show ?thesis by simp
  next
    case (2 u w1)
    have d1: "disk w1 = disk w" by (rule preservesD [OF guards_upload(2) refl 2(1)])
    have db1: "st_db w1 = st_db w" by (rule quietD [OF quiet_guards(2) 2(1)])
    from upload_received_run [OF set _ 2(2)] ok show ?thesis by (simp add: d1 db1 stored_def)
  qed
qed

section \<open>The properties\<close>

text \<open>
  C20. What is published stays: an upload, accepted or refused, complete or broken off, and whichever calls fail on the way,
  changes no file and no directory that was there but its own temporary file and staging directory; the files of
  earlier versions in particular stay as they are.
\<close>

theorem uploads_keep_files:
  assumes "upload_setting env dataRoot i tmp rnd" and "uuid_Parse env (PathValue r ''id'') = Some i" and "disk_ok (disk w)"
    and "map_of (disk w) p = Some n" and "p \<noteq> path_of tmp"
    and "\<not> prefix (path_of (MapDir env dataRoot i) @ [''.upload-'' @ rnd]) p"
  shows "map_of (disk (snd (UploadMapVersionHandler env lib tmp rnd dataRoot body r w))) p = Some n"
  using upload_run [OF assms(1-3) surjective_pairing, of lib body] assms(4-6) unfolding kept_but_def by blast

text \<open>
  C18. An upload that succeeds publishes a new version: the body was complete, the answer is 201 with the map, its current
  version was not one of its versions and is recorded now, its directory was not there and is there now with an index
  that lists exactly the tiles in it, and nothing is left of the staging directory.
\<close>

theorem UploadMapVersionHandler_publishes:
  assumes "upload_setting env dataRoot i tmp rnd" and "uuid_Parse env (PathValue r ''id'') = Some i" and "disk_ok (disk w)"
    and "UploadMapVersionHandler env lib tmp rnd dataRoot body r w = (Inr resp, w')"
  shows "(\<exists>bytes. body = Complete bytes) \<and> (\<exists>m ts. resp = \<lparr>status = 201, payload = JMap m, headers = []\<rparr> \<and>
     m_CurrentVersion m \<notin> mv_Version ` set (versions_of (st_db w) i) \<and>
     m_CurrentVersion m \<in> mv_Version ` set (versions_of (st_db w') i) \<and>
     current_in (st_db w') i = Some (m_CurrentVersion m) \<and>
     map_of (disk w) (path_of (MapDir env dataRoot i) @ [m_CurrentVersion m]) = None \<and>
     map_of (disk w') (path_of (MapDir env dataRoot i) @ [m_CurrentVersion m]) = Some FDir \<and>
     sorted ts \<and> set ts = tiles_in (disk w') (path_of (MapDir env dataRoot i) @ [m_CurrentVersion m]) \<and>
     map_of (disk w') (path_of (MapDir env dataRoot i) @ [m_CurrentVersion m, ''index.json'']) = Some (FFile (index_json ts))) \<and>
   (\<forall>p. map_of (disk w') (path_of (MapDir env dataRoot i) @ [''.upload-'' @ rnd] @ p) = None)"
proof -
  from upload_run [OF assms] have b: "\<exists>bytes. body = Complete bytes"
    and st: "stored i (path_of (MapDir env dataRoot i)) (staging env dataRoot i rnd) w w' resp" by blast+
  from st obtain m where "resp = \<lparr>status = 201, payload = JMap m, headers = []\<rparr>"
    "new_current i (m_CurrentVersion m) (st_db w) (st_db w')"
    "map_of (disk w) (path_of (MapDir env dataRoot i) @ [m_CurrentVersion m]) = None"
    "published (path_of (MapDir env dataRoot i)) (m_CurrentVersion m) (disk w')"
    "\<And>z. map_of (disk w') (staging env dataRoot i rnd @ z) = None" unfolding stored_def by blast
  with b show ?thesis unfolding new_current_def published_def by auto
qed

text \<open>An upload of the hostile archive of the extraction example, to a map with one version.\<close>

definition upload_request :: request where
  "upload_request = (ex_request ''alice'' None)\<lparr>Method := ''POST'', PathValue := (\<lambda>_. ''11'')\<rparr>"

abbreviation ex_uploaded :: "(response + response) \<times> msys" where
  "ex_uploaded \<equiv> UploadMapVersionHandler ex_env ex_arch ''up'' ''7'' ''data'' (Complete zipMagic) upload_request ex_msys"

lemma ex_uploaded_ok: "isl (fst ex_uploaded) = False" by code_simp

lemma ex_upload_setting: "upload_setting ex_env ''data'' 11 ''up'' ''7''" "uuid_Parse ex_env (PathValue upload_request ''id'') = Some 11"
proof -
  have p: "path_of (MapDir ex_env ''data'' 11) = [''data'', ''11'']" "path_of ''up'' = [''up'']" "plain_name (''.upload-'' @ ''7'')"
    "plain_name ''data''" "plain_name ''11''" "plain_name ''up''" by code_simp+
  have "plain_path []" by (simp add: plain_path_def)
  then have "plain_path [''data'', ''11'']" "plain_path [''up'']"
    using plain_path_append [of "[]" "[''data'', ''11'']"] plain_path_append [of "[]" "[''up'']"] p(4-6) by simp_all
  then show "upload_setting ex_env ''data'' 11 ''up'' ''7''" by (simp only: upload_setting_def p) simp
  show "uuid_Parse ex_env (PathValue upload_request ''id'') = Some 11" by code_simp
qed

theorem uploads_keep_files_witness:
  "map_of (disk (snd ex_uploaded)) [''data'', ''11'', ''1'', ''0'', ''0'', ''0.png''] = Some (FFile ''tile'')"
proof -
  have p: "path_of (MapDir ex_env ''data'' 11) = [''data'', ''11'']" "path_of ''up'' = [''up'']" by code_simp+
  have f: "map_of (disk ex_msys) [''data'', ''11'', ''1'', ''0'', ''0'', ''0.png''] = Some (FFile ''tile'')" by (simp add: ex_msys_def)
  show ?thesis by (rule uploads_keep_files [OF ex_upload_setting ex_disk_ok f]) (simp_all add: p)
qed

theorem UploadMapVersionHandler_publishes_witness:
  "\<exists>v ts. current_in (st_db (snd ex_uploaded)) 11 = Some v \<and> set ts = tiles_in (disk (snd ex_uploaded)) [''data'', ''11'', v] \<and>
     map_of (disk (snd ex_uploaded)) [''data'', ''11'', v, ''index.json''] = Some (FFile (index_json ts))"
proof -
  obtain resp w' where run: "ex_uploaded = (Inr resp, w')"
    using ex_uploaded_ok by (cases "ex_uploaded"; cases "fst ex_uploaded") auto
  have p: "path_of (MapDir ex_env ''data'' 11) = [''data'', ''11'']" by code_simp
  from UploadMapVersionHandler_publishes [OF ex_upload_setting ex_disk_ok run] run show ?thesis unfolding p by auto
qed

end
