(* ===== verification/MirrorFacts.thy ===== *)
theory MirrorFacts
  imports UploadFacts
begin

text \<open>
  A version on its way from one server to another: the archive that \<open>mapVersionArchive\<close> writes, read back by
  \<open>ExtractArchive\<close>, gives the tiles of the version again, all of them and nothing else.
\<close>

section \<open>Files on a disk\<close>

definition file_at :: "disk \<Rightarrow> fpath \<Rightarrow> string \<Rightarrow> bool" where
  "file_at d p c \<longleftrightarrow> map_of d p = Some (FFile c)"

lemma slash_no_name: "\<not> plain_name ''/''"
  by (simp add: plain_name_def)

lemma disk_ok_roots: "disk_ok d \<Longrightarrow> map_of d [] = None \<and> map_of d [''/''] = None"
  using disk_okD [of d] slash_no_name by (metis last_ConsL not_Some_eq)

lemma fs_dir_no_file: "disk_ok d \<Longrightarrow> fs_dir d p \<Longrightarrow> \<not> is_file (map_of d p)"
  using disk_ok_roots by (auto simp: fs_dir_def is_file_def)

lemma file_not_blocked:
  assumes "disk_ok d" "file_at d p c"
  shows "\<not> blocked d p"
proof -
  have "\<not> is_file (map_of d (take k p))" if "k < length p" for k
  proof (rule fs_dir_no_file [OF assms(1)])
    show "fs_dir d (take k p)"
      using disk_ok_above [OF assms(1), of "take k p" "drop k p"] assms(2) that by (simp add: file_at_def)
  qed
  then show ?thesis by (auto simp: blocked_def proper_prefixes_def list_ex_iff)
qed

lemma fs_readfile_iff:
  assumes "disk_ok d"
  shows "fs_readfile p d = Inr c \<longleftrightarrow> file_at d p c"
proof
  assume f: "file_at d p c"
  then have "\<not> fs_dir d p" using disk_ok_roots [OF assms] by (auto simp: fs_dir_def file_at_def)
  then show "fs_readfile p d = Inr c"
    using f file_not_blocked [OF assms f] by (simp add: fs_readfile_def fs_stat_def file_at_def)
qed (simp add: file_at_def fs_readfile_Inr)

lemma plain_below:
  assumes "disk_ok d" "p \<noteq> []" "map_of d (p @ ws) = Some n"
  shows "\<forall>w\<in>set ws. plain_name w"
  using assms(3)
proof (induction ws arbitrary: n rule: rev_induct)
  case (snoc w ws)
  have w: "plain_name w" using disk_okD(2) [OF assms(1) snoc.prems] by simp
  have dir: "fs_dir d (p @ ws)" using disk_okD(3) [OF assms(1) snoc.prems] by (simp add: butlast_append)
  show ?case
  proof (cases "p @ ws = [''/'']")
    case True
    with assms(2) w show ?thesis by (cases p) auto
  next
    case False
    with dir assms(2) have "map_of d (p @ ws) = Some FDir" by (simp add: fs_dir_def)
    from snoc.IH [OF this] w show ?thesis by auto
  qed
qed simp

section \<open>Names of tiles\<close>

definition tile_file :: "fpath \<Rightarrow> bool" where
  "tile_file rel \<longleftrightarrow> rel \<noteq> [] \<and> list_all all_digits (butlast rel) \<and> numericPNG (last rel)"

abbreviation member_name :: "fpath \<Rightarrow> string" where
  "member_name rel \<equiv> join_with (CHR ''/'') rel"

lemma tile_file_path: "tile_file rel \<Longrightarrow> tile_path rel"
  by (simp add: tile_file_def tile_path_def)

lemma member_name_ends:
  assumes "rel \<noteq> []" "\<forall>w\<in>set rel. plain_name w"
  shows "hd (member_name rel) \<noteq> CHR ''/''" "last (member_name rel) \<noteq> CHR ''/''" "member_name rel \<noteq> []"
proof -
  have ne: "w \<noteq> []" "CHR ''/'' \<notin> set w" if "w \<in> set rel" for w using assms(2) that by (auto simp: plain_name_def)
  obtain w ws where w: "rel = w # ws" using assms(1) by (cases rel) auto
  then have "hd (member_name rel) = hd w" "member_name rel \<noteq> []" using ne [of w] by (cases ws; simp)+
  moreover have "hd w \<in> set w" using ne [of w] w by simp
  ultimately show "hd (member_name rel) \<noteq> CHR ''/''" "member_name rel \<noteq> []" using ne(2) [of w] w by (auto simp del: join_with.simps)
  obtain vs v where v: "rel = vs @ [v]" using assms(1) by (cases rel rule: rev_cases) auto
  then have "last (member_name rel) = last (last rel)"
    using ne [of v] by (cases "vs = []") (simp_all add: join_with_append)
  moreover have "last (last rel) \<in> set (last rel)" "last rel \<in> set rel" using assms(1) ne [of "last rel"] by simp_all
  ultimately show "last (member_name rel) \<noteq> CHR ''/''" using ne [of "last rel"] by metis
qed

lemma member_name_segments:
  assumes "rel \<noteq> []" "\<forall>w\<in>set rel. plain_name w"
  shows "TrimSlash (member_name rel) = member_name rel" "\<not> HasSuffix (member_name rel) ''/''"
    "Split (member_name rel) (CHR ''/'') = rel"
proof -
  note e = member_name_ends [OF assms]
  obtain c s where cs: "member_name rel = c # s" using e(3) by (cases "member_name rel") auto
  obtain c' s' where cs': "rev (member_name rel) = c' # s'" using e(3) by (cases "rev (member_name rel)") auto
  then have c': "c' = last (member_name rel)" by (metis e(3) hd_rev list.sel(1))
  have "dropWhile (\<lambda>c. c = CHR ''/'') (member_name rel) = member_name rel" using e(1) cs by simp
  moreover have "dropWhile (\<lambda>c. c = CHR ''/'') (rev (member_name rel)) = rev (member_name rel)"
    unfolding cs' using e(2) c' by simp
  ultimately show "TrimSlash (member_name rel) = member_name rel" by (simp add: TrimSlash_def trim_both_def)
  show "\<not> HasSuffix (member_name rel) ''/''" using e(2) by (auto simp: HasSuffix_iff)
  show "Split (member_name rel) (CHR ''/'') = rel"
    using assms by (intro Split_join) (auto simp: plain_name_def)
qed

lemma validate_member:
  assumes "\<forall>w\<in>set rel. plain_name w"
  shows "validateExtractedEntryName (member_name rel) = tile_file rel"
proof (cases "rel = []")
  case True
  then show ?thesis by (simp add: validateExtractedEntryName_def tile_file_def TrimSlash_def trim_both_def)
next
  case False
  with assms have "hd rel \<noteq> []" by (auto simp: plain_name_def)
  with False member_name_segments [OF False assms] show ?thesis
    by (simp add: validateExtractedEntryName_def tile_file_def)
qed

text \<open>A name with two dots in a row is passed over; the path of a tile has one dot.\<close>

lemma dots_join: "filter (\<lambda>c. c = CHR ''.'') (member_name ws) = concat (map (filter (\<lambda>c. c = CHR ''.'')) ws)"
  by (induction "CHR ''/''" ws rule: join_with.induct) auto

lemma no_dots: "all_digits w \<Longrightarrow> filter (\<lambda>c. c = CHR ''.'') w = []"
  by (auto simp: all_digits_def list_all_iff is_digit_def filter_empty_conv)

lemma tile_no_dotdot: "tile_file rel \<Longrightarrow> \<not> Contains (member_name rel) ''..''"
proof
  assume t: "tile_file rel" and "Contains (member_name rel) ''..''"
  then obtain a b where ab: "member_name rel = a @ ''..'' @ b" by (auto simp: Contains_iff)
  obtain ds where ds: "all_digits ds" "last rel = ds @ ''.png''"
    using t by (auto simp: tile_file_def numericPNG_def HasSuffix_iff TrimSuffix_def)
  have "rel = butlast rel @ [last rel]" using t by (simp add: tile_file_def)
  then have "filter (\<lambda>c. c = CHR ''.'') (member_name rel) =
      concat (map (filter (\<lambda>c. c = CHR ''.'')) (butlast rel @ [last rel]))" by (metis dots_join)
  also have "\<dots> = ''.''"
    using t ds no_dots by (auto simp: tile_file_def list_all_iff concat_eq_Nil_conv)
  finally show False by (simp add: ab)
qed

text \<open>What the name of a member resolves to.\<close>

lemma Clean_idem: "Clean (Clean s) = Clean s"
proof -
  have "HasPrefix (Clean s) ''/'' = HasPrefix s ''/'' \<and> clean_parts (Clean s) = clean_parts s"
    using path_of_Clean [of s] clean_parts_nonslash [of "''/''" s] clean_parts_nonslash [of "''/''" "Clean s"]
    by (auto simp: path_of_def split: if_splits) (metis list.set_intros(1))+
  then have "Clean (Clean s) = (if HasPrefix s ''/'' then CHR ''/'' # join_with (CHR ''/'') (clean_parts s)
      else if clean_parts s = [] then ''.'' else join_with (CHR ''/'') (clean_parts s))" by (simp only: Clean_def [of "Clean s"])
  then show ?thesis by (simp only: Clean_def [of s])
qed

lemma resolve_member:
  assumes "\<forall>w\<in>set rel. plain_name w" "clean_parts (Clean dest) \<noteq> []"
  shows "resolveExtractTarget (Clean dest) (member_name rel) =
    (if tile_file rel then Some (Join2 (Clean dest) (member_name rel)) else None)"
proof (cases "tile_file rel")
  case True
  then have ne: "rel \<noteq> []" by (simp add: tile_file_def)
  have "Join2 (Clean dest) (member_name rel) = Clean dest @ CHR ''/'' # member_name rel"
    using assms ne Clean_append_plain [of "Clean dest" rel] by (simp add: Join2_def Clean_idem)
  then show ?thesis
    using True validate_member [OF assms(1)] member_name_segments [OF ne assms(1)]
    by (simp add: resolveExtractTarget_def Let_def HasPrefix_iff)
qed (simp add: resolveExtractTarget_def validate_member [OF assms(1)])

section \<open>Writing the archive\<close>

definition zip_member :: "string \<times> string \<Rightarrow> zipEntry" where
  "zip_member m = \<lparr>ze_Name = fst m, ze_Symlink = False, ze_IsDir = False, ze_Open = Inr (snd m, None)\<rparr>"

definition members :: "disk \<Rightarrow> fpath \<Rightarrow> fpath list \<Rightarrow> (string \<times> string) list" where
  "members d base rels = map (\<lambda>rel. (member_name rel, case map_of d (base @ rel) of Some (FFile c) \<Rightarrow> c | _ \<Rightarrow> [])) rels"

lemma walk_files_iff:
  assumes "disk_ok d"
  shows "rel \<in> set (walk_files p d) \<longleftrightarrow> (\<exists>c. file_at d (p @ rel) c)"
proof -
  have "rel \<in> set (walk_files p d) \<longleftrightarrow> (\<exists>n. (p @ rel, n) \<in> set d \<and> n \<noteq> FDir)"
    by (force simp: walk_files_def prefix_def)
  also have "\<dots> \<longleftrightarrow> (\<exists>n. map_of d (p @ rel) = Some n \<and> n \<noteq> FDir)"
    using assms by (simp add: disk_ok_def)
  also have "\<dots> \<longleftrightarrow> (\<exists>c. file_at d (p @ rel) c)"
    by (auto simp: file_at_def) (metis fnode.exhaust)
  finally show ?thesis .
qed

lemma fs_query_no_fault: "faults w = [] \<Longrightarrow> fs_query f w = (f (disk w), w)"
  by (simp add: fs_query_def split: sum.split)

lemma zip_walk_run:
  assumes "faults w = []" "disk_ok (disk w)" "\<forall>rel\<in>set rels. \<exists>c. file_at (disk w) (base @ rel) c"
  shows "zip_walk base rels zw w = (Inr (zw @ members (disk w) base rels), w)"
  using assms(3)
proof (induction rels arbitrary: zw)
  case (Cons rel rels)
  then obtain c where c: "file_at (disk w) (base @ rel) c" by auto
  then have "fs_readfile (base @ rel) (disk w) = Inr c" by (simp only: fs_readfile_iff [OF assms(2)])
  then have "fs_query (fs_readfile (base @ rel)) w = (Inr c, w)" by (simp only: fs_query_no_fault [OF assms(1)])
  then have "zip_walk base (rel # rels) zw w = zip_walk base rels (zw @ [(member_name rel, c)]) w"
    by (simp add: tryE_def)
  with Cons c show ?case by (simp add: members_def file_at_def)
qed (simp add: members_def okE_def)

lemma archive_members:
  assumes ok: "disk_ok (disk w)" and nf: "faults w = []" and root: "dataRoot \<noteq> []"
    and run: "mapVersionArchiveHandler env dataRoot i v w = (Inr resp, w')"
  shows "\<exists>rels. payload resp = ZipOf (members (disk w) (path_of (MapVersionDir env dataRoot i v)) rels) \<and>
    (\<forall>rel. rel \<in> set rels \<longleftrightarrow> (\<exists>c. file_at (disk w) (path_of (MapVersionDir env dataRoot i v) @ rel) c)) \<and>
    (\<forall>rel\<in>set rels. \<forall>x\<in>set rel. plain_name x)"
proof -
  let ?p = "path_of (MapVersionDir env dataRoot i v)"
  have v: "all_digits v" using run by (auto simp: mapVersionArchiveHandler_def fail_def raiseE_def split: if_splits)
  then have ne: "?p \<noteq> []" using root by (simp add: MapVersionDir_def MapDir_def path_of_Join2_name all_digits_plain)
  have iff: "rel \<in> set (walk_files ?p (disk w)) \<longleftrightarrow> (\<exists>c. file_at (disk w) (?p @ rel) c)" for rel
    by (rule walk_files_iff [OF ok])
  have z: "zip_walk ?p (walk_files ?p (disk w)) [] w = (Inr ([] @ members (disk w) ?p (walk_files ?p (disk w))), w)"
    using iff by (intro zip_walk_run [OF nf ok]) blast
  have "payload resp = ZipOf (members (disk w) ?p (walk_files ?p (disk w)))"
    using run v z by (auto simp: mapVersionArchiveHandler_def Let_def Stat_def fs_query_no_fault [OF nf] bindE_def tryE_def
        mapErrE_def raiseE_def okE_def split: sum.splits)
  moreover have "\<forall>x\<in>set rel. plain_name x" if "rel \<in> set (walk_files ?p (disk w))" for rel
    using that iff plain_below [OF ok ne] by (auto simp: file_at_def)
  ultimately show ?thesis using iff by blast
qed

section \<open>Reading it back\<close>

text \<open>Making directories changes no file.\<close>

definition same_files :: "disk \<Rightarrow> disk \<Rightarrow> bool" where
  "same_files d d' \<longleftrightarrow> (\<forall>p c. file_at d' p c = file_at d p c)"

lemma same_files_refl [simp]: "same_files d d"
  by (simp add: same_files_def)

lemma same_files_mkdirall: "fs_mkdirall q d = Inr (x, d') \<Longrightarrow> same_files d d'"
proof -
  assume m: "fs_mkdirall q d = Inr (x, d')"
  then have d': "d' = fold mkdir1 (proper_prefixes q @ [q]) d" by (auto simp: fs_mkdirall_def split: if_splits)
  have "file_at d' p c = file_at d p c" for p c
  proof
    assume "file_at d' p c"
    then show "file_at d p c" using map_of_mkdirs [of "proper_prefixes q @ [q]" d p] unfolding d' file_at_def by fastforce
  next
    assume "file_at d p c"
    then show "file_at d' p c"
      using kept_but_mkdirall [OF m, of "p @ [[]]" "p @ [[]]"] by (simp add: kept_but_def file_at_def)
  qed
  then show ?thesis by (simp add: same_files_def)
qed

lemma MkdirAll_files: "MkdirAll t w = (Inr u, w') \<Longrightarrow> same_files (disk w) (disk w')"
  by (auto simp: MkdirAll_def fs_op_def split: if_splits sum.splits intro: same_files_mkdirall)

lemma extract_member:
  assumes run: "extractZipEntry (Clean dest) (zip_member (member_name rel, c)) w = (Inr u, w')"
    and plain: "\<forall>x\<in>set rel. plain_name x" and dest: "path_of dest \<notin> {[], [''/'']}"
  shows "file_at (disk w') p x \<longleftrightarrow> (if tile_file rel \<and> p = path_of dest @ rel then x = c else file_at (disk w) p x)"
proof -
  have parts: "clean_parts (Clean dest) \<noteq> []"
    using dest path_of_Clean [of dest] by (auto simp: path_of_def split: if_splits)
  note r = resolve_member [OF plain parts]
  show ?thesis
  proof (cases "tile_file rel")
    case True
    let ?t = "Join2 (Clean dest) (member_name rel)"
    have t: "path_of ?t = path_of dest @ rel" using True plain by (simp add: path_of_Join2 tile_file_def)
    obtain u1 w1 where mk: "MkdirAll (Dir ?t) w = (Inr u1, w1)" and wr: "WriteFile ?t c w1 = (Inr u, w')"
      using run tile_no_dotdot [OF True] r True
      by (auto simp: extractZipEntry_def extractZipFile_def writeExtractedFile_def zip_member_def okE_def
          elim!: bindE_InrE dest!: mapErrE_InrD)
    from WriteFile_Inr [OF wr] MkdirAll_files [OF mk] True t show ?thesis by (auto simp: same_files_def file_at_def)
  next
    case False
    then have "w' = w" using run r by (auto simp: extractZipEntry_def zip_member_def okE_def split: if_splits)
    with False show ?thesis by simp
  qed
qed

lemma extract_members:
  assumes "forE (map (\<lambda>rel. zip_member (member_name rel, cs rel)) rels) (extractZipEntry (Clean dest)) w = (Inr u, w')"
    and "\<forall>rel\<in>set rels. \<forall>x\<in>set rel. plain_name x" and dest: "path_of dest \<notin> {[], [''/'']}"
  shows "file_at (disk w') (path_of dest @ t) c \<longleftrightarrow>
    (if t \<in> set rels \<and> tile_file t then c = cs t else file_at (disk w) (path_of dest @ t) c)"
  using assms(1,2)
proof (induction rels arbitrary: w)
  case (Cons rel rels)
  then obtain u1 w1 where e: "extractZipEntry (Clean dest) (zip_member (member_name rel, cs rel)) w = (Inr u1, w1)"
    and f: "forE (map (\<lambda>rel. zip_member (member_name rel, cs rel)) rels) (extractZipEntry (Clean dest)) w1 = (Inr u, w')"
    by (auto elim!: bindE_InrE)
  have "\<forall>x\<in>set rel. plain_name x" using Cons.prems(2) by simp
  from extract_member [OF e this dest, of "path_of dest @ t" c] Cons.IH [OF f] Cons.prems(2) show ?case by auto
qed (simp add: okE_def)

lemma ReadFile_same: "os_ReadFile p w = (Inr x, w') \<Longrightarrow> file_at (disk w) (path_of p) x \<and> disk w' = disk w"
  by (auto simp: os_ReadFile_def file_at_def dest!: fs_query_Inr fs_readfile_Inr)

lemma Mkdir_new: "Mkdir t w = (Inr x, w') \<Longrightarrow> map_of (disk w) (path_of t) = None \<and> same_files (disk w) (disk w')"
  by (auto simp: Mkdir_def fs_op_def fs_mkdir_def same_files_def file_at_def split: if_splits sum.splits)

lemma MkdirAll_keeps: "MkdirAll t w = (Inr x, w') \<Longrightarrow> map_of (disk w') p = None \<Longrightarrow> map_of (disk w) p = None"
proof -
  assume "MkdirAll t w = (Inr x, w')" and none: "map_of (disk w') p = None"
  then have "fs_mkdirall (path_of t) (disk w) = Inr ((), disk w')"
    by (auto simp: MkdirAll_def fs_op_def split: if_splits sum.splits)
  from kept_but_mkdirall [OF this, of "p @ [[]]" "p @ [[]]"] none show ?thesis
    by (cases "map_of (disk w) p") (auto simp: kept_but_def)
qed

lemma ExtractArchive_zip:
  assumes run: "ExtractArchive lib rnd tmp dir w = (Inr s, w')" and content: "file_at (disk w) (path_of tmp) content"
    and sniff: "sniff_header (take 262 content) = archiveZip" and es: "zip_OpenReader lib content = Inr es"
  shows "\<exists>w3. s = dir @ CHR ''/'' # ''.upload-'' @ rnd \<and> map_of (disk w) (path_of s) = None \<and>
    same_files (disk w) (disk w3) \<and> forE es (extractZipEntry (Clean s)) w3 = (Inr (), w')"
proof -
  obtain fmt w0 u1 w1 u2 w2 u3 where sn: "sniffArchiveFormat tmp w = (Inr fmt, w0)" and all: "MkdirAll dir w0 = (Inr u1, w1)"
    and mk: "Mkdir s w1 = (Inr u2, w2)" and un: "unpack fmt lib tmp s w2 = (Inr u3, w')" and s: "s = dir @ CHR ''/'' # ''.upload-'' @ rnd"
    by (rule ExtractArchive_InrE [OF run])
  from sn obtain b0 where b0: "os_ReadFile tmp w = (Inr b0, w0)" "fmt = sniff_header (take 262 b0)"
    unfolding sniffArchiveFormat_def by (auto simp: okE_def elim!: bindE_InrE dest!: mapErrE_InrD)
  from ReadFile_same [OF b0(1)] content have d: "b0 = content" "disk w0 = disk w" by (auto simp: file_at_def)
  then have fmt: "fmt = archiveZip" using b0(2) sniff by simp
  have new: "map_of (disk w) (path_of s) = None" using MkdirAll_keeps [OF all] Mkdir_new [OF mk] d(2) by auto
  have same: "same_files (disk w) (disk w2)" using MkdirAll_files [OF all] Mkdir_new [OF mk] d(2) by (simp add: same_files_def)
  from un obtain b1 w3 where b1: "os_ReadFile tmp w2 = (Inr b1, w3)"
    and f: "(case zip_OpenReader lib b1 of Inl e \<Rightarrow> raiseE (Wrap ''open zip'' e) | Inr files \<Rightarrow> forE files (extractZipEntry (Clean s))) w3 = (Inr u3, w')"
    unfolding extractZip_def fmt archiveFormat.case by (auto elim!: bindE_InrE dest!: mapErrE_InrD)
  from ReadFile_same [OF b1] same content have "b1 = content" "disk w3 = disk w2" by (auto simp: file_at_def same_files_def)
  then have "forE es (extractZipEntry (Clean s)) w3 = (Inr (), w')" "same_files (disk w) (disk w3)" using f es same by simp_all
  with s new show ?thesis by blast
qed

section \<open>Reading it back succeeds\<close>

text \<open>A staging directory while it is filled: below it are directories with numeric paths, and tiles.\<close>

definition filling :: "fpath \<Rightarrow> disk \<Rightarrow> bool" where
  "filling base d \<longleftrightarrow> disk_ok d \<and> plain_path base \<and> base \<notin> {[], [''/'']} \<and> map_of d base = Some FDir \<and>
     (\<forall>q n. q \<noteq> [] \<longrightarrow> map_of d (base @ q) = Some n \<longrightarrow> (if n = FDir then list_all all_digits q else tile_file q))"

lemma digits_no_png: "all_digits w \<Longrightarrow> \<not> numericPNG w"
  using no_dots [of w] by (auto simp: numericPNG_def HasSuffix_iff)

lemma filling_below:
  assumes "filling base d" and "map_of d (base @ q) = Some n" and "q \<noteq> []"
  shows "is_file (Some n) \<longleftrightarrow> tile_file q" and "n = FDir \<Longrightarrow> list_all all_digits q"
proof -
  have *: "if n = FDir then list_all all_digits q else tile_file q" using assms unfolding filling_def by blast
  have "\<not> (list_all all_digits q \<and> tile_file q)"
    using assms(3) digits_no_png [of "last q"] by (auto simp: tile_file_def list_all_iff)
  with * show "is_file (Some n) \<longleftrightarrow> tile_file q" by (cases n) (auto simp: is_file_def split: if_splits)
  show "n = FDir \<Longrightarrow> list_all all_digits q" using * by simp
qed

lemma filling_not_file:
  assumes "filling base d" and "list_all all_digits q"
  shows "\<not> is_file (map_of d (base @ q))"
proof (cases "q = []")
  case True
  with assms(1) show ?thesis by (simp add: filling_def is_file_def)
next
  case False
  then have "\<not> tile_file q" using assms(2) digits_no_png [of "last q"] by (auto simp: tile_file_def list_all_iff)
  then show ?thesis using filling_below(1) [OF assms(1) _ False] by (cases "map_of d (base @ q)") (auto simp: is_file_def)
qed

lemma filling_not_blocked:
  assumes f: "filling base d" and "list_all all_digits (butlast q)"
  shows "\<not> blocked d (base @ q)"
proof -
  have "\<not> is_file (map_of d (take k (base @ q)))" if k: "k < length (base @ q)" for k
  proof (cases "k < length base")
    case True
    then have "map_of d (take k base @ drop k base) = Some FDir" "drop k base \<noteq> []" using f by (simp_all add: filling_def)
    then have "fs_dir d (take k base)"
      using disk_ok_above [of d "take k base" "drop k base" FDir] f by (simp add: filling_def)
    with True f show ?thesis by (simp add: filling_def fs_dir_no_file)
  next
    case False
    let ?j = "k - length base"
    have "take ?j q = take ?j (butlast q)" using False k by (simp add: take_butlast)
    then have "list_all all_digits (take ?j q)" using assms(2) by (auto simp: list_all_iff dest: in_set_takeD)
    from filling_not_file [OF f this] False show ?thesis by simp
  qed
  then show ?thesis by (auto simp: blocked_def proper_prefixes_def list_ex_iff)
qed

lemma MkdirAll_filling:
  assumes nf: "faults w = []" and f: "filling base (disk w)" and t: "path_of t = base @ q" and q: "list_all all_digits q"
  obtains w1 where "MkdirAll t w = (Inr (), w1)" "faults w1 = []" "filling base (disk w1)" "fs_dir (disk w1) (base @ q)"
proof -
  let ?d = "disk w" and ?ps = "proper_prefixes (base @ q) @ [base @ q]"
  let ?d' = "fold mkdir1 ?ps ?d"
  have "list_all all_digits (butlast q)" using q by (auto simp: list_all_iff dest: in_set_butlastD)
  then have mk: "fs_mkdirall (base @ q) ?d = Inr ((), ?d')"
    using filling_not_blocked [OF f] filling_not_file [OF f q] by (simp add: fs_mkdirall_def)
  have plain: "plain_path (base @ q)"
    using f q by (intro plain_path_append) (auto simp: filling_def list_all_iff all_digits_plain)
  have ok: "disk_ok ?d' \<and> fs_dir ?d' (base @ q)" using disk_ok_mkdirall [OF _ plain mk] f by (simp add: filling_def)
  have kept: "map_of ?d' base = Some FDir"
    using kept_but_mkdirall [OF mk, of "base @ [[]]" "base @ [[]]"] f by (simp add: kept_but_def filling_def)
  have "if n = FDir then list_all all_digits q' else tile_file q'" if "map_of ?d' (base @ q') = Some n" "q' \<noteq> []" for q' n
  proof (cases "map_of ?d' (base @ q') = map_of ?d (base @ q')")
    case True
    with that f show ?thesis unfolding filling_def by metis
  next
    case False
    from map_of_mkdirs [OF this] that have n: "n = FDir" and "base @ q' \<in> set ?ps" by auto
    then obtain k where "base @ q' = take k (base @ q)" by (auto simp: proper_prefixes_def intro: that [of "length (base @ q)"])
    then have "q' = take (k - length base) q" using that(2) by (auto simp: take_append append_eq_append_conv_if split: if_splits)
    with q n show ?thesis by (auto simp: list_all_iff dest: in_set_takeD)
  qed
  then have "filling base ?d'" using ok kept f unfolding filling_def by blast
  moreover have "MkdirAll t w = (Inr (), w\<lparr>disk := ?d'\<rparr>)" using nf mk by (simp add: MkdirAll_def t)
  ultimately show thesis using ok nf by (intro that [of "w\<lparr>disk := ?d'\<rparr>"]) simp_all
qed

lemma WriteFile_filling:
  assumes nf: "faults w = []" and f: "filling base (disk w)" and t: "path_of t = base @ q" and q: "tile_file q"
    and dir: "fs_dir (disk w) (base @ butlast q)"
  obtains w1 where "WriteFile t c w = (Inr (), w1)" "faults w1 = []" "filling base (disk w1)"
proof -
  let ?d = "disk w"
  define d' where "d' = (base @ q, FFile c) # filter (\<lambda>(r, n). r \<noteq> base @ q) ?d"
  have ne: "q \<noteq> []" "list_all all_digits (butlast q)" using q by (simp_all add: tile_file_def)
  have "map_of ?d (base @ q) \<noteq> Some FDir" using filling_below(1) [OF f _ ne(1)] q by (auto simp: is_file_def)
  then have "\<not> fs_dir ?d (base @ q)" using ne(1) f by (cases base) (auto simp: fs_dir_def filling_def)
  then have wr: "fs_write (base @ q) c ?d = Inr ((), d')"
    using filling_not_blocked [OF f ne(2)] dir ne(1) by (simp add: fs_write_def butlast_append d'_def)
  have "plain_path (base @ q)"
    using f tile_path_plain [OF tile_file_path [OF q]] by (intro plain_path_append) (auto simp: filling_def)
  then have "disk_ok d'" using disk_ok_write [OF _ _ wr] f by (simp add: filling_def)
  moreover have "map_of d' r = (if r = base @ q then Some (FFile c) else map_of ?d r)" for r by (simp add: map_of_filter_other d'_def)
  ultimately have "filling base d'" using f q ne(1) unfolding filling_def by auto
  moreover have "WriteFile t c w = (Inr (), w\<lparr>disk := d'\<rparr>)" using nf wr by (simp add: WriteFile_def t)
  ultimately show thesis using nf by (intro that [of "w\<lparr>disk := d'\<rparr>"]) simp_all
qed

lemma extract_member_succeeds:
  assumes nf: "faults w = []" and f: "filling (path_of dest) (disk w)" and plain: "\<forall>x\<in>set rel. plain_name x"
  obtains w1 where "extractZipEntry (Clean dest) (zip_member (member_name rel, c)) w = (Inr (), w1)" "faults w1 = []"
    "filling (path_of dest) (disk w1)"
proof -
  have parts: "clean_parts (Clean dest) \<noteq> []"
    using f path_of_Clean [of dest] by (auto simp: path_of_def filling_def split: if_splits)
  note r = resolve_member [OF plain parts]
  show thesis
  proof (cases "tile_file rel")
    case False
    then have "extractZipEntry (Clean dest) (zip_member (member_name rel, c)) w = (Inr (), w)"
      using r by (simp add: extractZipEntry_def zip_member_def okE_def)
    then show thesis using nf f by (rule that)
  next
    case True
    let ?t = "Join2 (Clean dest) (member_name rel)"
    have ne: "rel \<noteq> []" "list_all all_digits (butlast rel)" using True by (simp_all add: tile_file_def)
    have t: "path_of ?t = path_of dest @ rel" "path_of (Dir ?t) = path_of dest @ butlast rel"
      using ne plain parts by (simp_all add: path_of_Join2 path_of_Dir)
    obtain w1 where mk: "MkdirAll (Dir ?t) w = (Inr (), w1)" and w1: "faults w1 = []" "filling (path_of dest) (disk w1)"
      "fs_dir (disk w1) (path_of dest @ butlast rel)" by (rule MkdirAll_filling [OF nf f t(2) ne(2)])
    obtain w2 where wr: "WriteFile ?t c w1 = (Inr (), w2)" and w2: "faults w2 = []" "filling (path_of dest) (disk w2)"
      by (rule WriteFile_filling [OF w1(1,2) t(1) True w1(3)])
    have "extractZipEntry (Clean dest) (zip_member (member_name rel, c)) w = (Inr (), w2)"
      using mk wr r True tile_no_dotdot [OF True]
      by (simp add: extractZipEntry_def extractZipFile_def writeExtractedFile_def zip_member_def bindE_def tryE_def mapErrE_def okE_def)
    then show thesis using w2 by (rule that)
  qed
qed

lemma extract_members_succeed:
  assumes "faults w = []" and "filling (path_of dest) (disk w)" and "\<forall>rel\<in>set rels. \<forall>x\<in>set rel. plain_name x"
  shows "\<exists>w'. forE (map (\<lambda>rel. zip_member (member_name rel, cs rel)) rels) (extractZipEntry (Clean dest)) w = (Inr (), w')"
  using assms
proof (induction rels arbitrary: w)
  case (Cons rel rels)
  obtain w1 where e: "extractZipEntry (Clean dest) (zip_member (member_name rel, cs rel)) w = (Inr (), w1)"
    and w1: "faults w1 = []" "filling (path_of dest) (disk w1)"
    using Cons.prems by (auto intro: extract_member_succeeds [of w dest rel "cs rel"])
  obtain w' where "forE (map (\<lambda>rel. zip_member (member_name rel, cs rel)) rels) (extractZipEntry (Clean dest)) w1 = (Inr (), w')"
    using Cons.IH [OF w1] Cons.prems(3) by auto
  with e show ?case by (simp add: bindE_def tryE_def)
qed (simp add: okE_def)

lemma blocked_same_files: "same_files d d' \<Longrightarrow> blocked d' p = blocked d p"
proof -
  assume "same_files d d'"
  moreover have "is_file (map_of e q) \<longleftrightarrow> (\<exists>c. file_at e q c)" for e q
    by (auto simp: is_file_def file_at_def split: option.split fnode.split)
  ultimately show ?thesis by (simp add: blocked_def same_files_def)
qed

lemma blocked_append: "\<not> blocked d (p @ [x]) \<Longrightarrow> \<not> blocked d p \<and> \<not> is_file (map_of d p)"
  by (auto simp: blocked_def proper_prefixes_def list_ex_iff)

text \<open>The staging directory can be made, and is then empty.\<close>

lemma staging_made:
  assumes nf: "faults w = []" and ok: "disk_ok (disk w)" and dir: "path_of dir \<notin> {[], [''/'']}" "plain_path (path_of dir)"
    and s: "path_of s = path_of dir @ [x]" "plain_name x"
    and free: "\<not> blocked (disk w) (path_of s)" "map_of (disk w) (path_of s) = None"
  obtains w1 w2 where "MkdirAll dir w = (Inr (), w1)" "Mkdir s w1 = (Inr (), w2)" "faults w2 = []"
    "filling (path_of s) (disk w2)" "same_files (disk w) (disk w2)"
proof -
  let ?D = "path_of dir" and ?S = "path_of s"
  have "fs_mkdirall ?D (disk w) = Inr ((), fold mkdir1 (proper_prefixes ?D @ [?D]) (disk w))"
    using blocked_append [OF free(1) [unfolded s(1)]] by (simp add: fs_mkdirall_def)
  then obtain d1 where d1: "fs_mkdirall ?D (disk w) = Inr ((), d1)" "d1 = fold mkdir1 (proper_prefixes ?D @ [?D]) (disk w)" by blast
  have ok1: "disk_ok d1" "fs_dir d1 ?D" using disk_ok_mkdirall [OF ok dir(2) d1(1)] by simp_all
  have "?S \<notin> set (proper_prefixes ?D @ [?D])" by (auto simp: s(1) proper_prefixes_def dest!: arg_cong [where f = length])
  then have "map_of d1 ?S = map_of (disk w) ?S"
    unfolding d1(2) using map_of_mkdirs [of "proper_prefixes ?D @ [?D]" "disk w" ?S] by blast
  with free(2) have none: "map_of d1 ?S = None" by simp
  have S: "?S \<notin> {[], [''/'']}" using dir(1) s(1) by (cases ?D) auto
  then have nd: "\<not> fs_dir d1 ?S" using none by (simp add: fs_dir_def)
  have same: "same_files (disk w) d1" by (rule same_files_mkdirall [OF d1(1)])
  have mk: "fs_mkdir ?S d1 = Inr ((), (?S, FDir) # d1)"
    using blocked_same_files [OF same] free(1) ok1(2) nd none by (simp add: fs_mkdir_def s(1))
  have plain: "plain_path ?S" unfolding s(1) using s(2) by (intro plain_path_append dir(2)) simp
  have empty: "map_of d1 (?S @ q) = None" if "q \<noteq> []" for q
    using disk_ok_above [OF ok1(1) _ that, of ?S] nd by (cases "map_of d1 (?S @ q)") auto
  have "filling ?S ((?S, FDir) # d1)"
    using disk_ok_mkdir [OF ok1(1) plain mk] plain S empty by (simp add: filling_def)
  moreover have "same_files (disk w) ((?S, FDir) # d1)" using same none free(2) by (auto simp: same_files_def file_at_def)
  moreover have "MkdirAll dir w = (Inr (), w\<lparr>disk := d1\<rparr>)" using nf d1(1) by (simp add: MkdirAll_def)
  moreover have "Mkdir s (w\<lparr>disk := d1\<rparr>) = (Inr (), w\<lparr>disk := (?S, FDir) # d1\<rparr>)" using nf mk by (simp add: Mkdir_def)
  ultimately show thesis using nf by (intro that [of "w\<lparr>disk := d1\<rparr>" "w\<lparr>disk := (?S, FDir) # d1\<rparr>"]) simp_all
qed

lemma os_ReadFile_run: "faults w = [] \<Longrightarrow> disk_ok (disk w) \<Longrightarrow> file_at (disk w) (path_of p) c \<Longrightarrow> os_ReadFile p w = (Inr c, w)"
  unfolding os_ReadFile_def by (simp only: fs_query_no_fault fs_readfile_iff [symmetric])

lemma ExtractArchive_succeeds:
  assumes nf: "faults w = []" and ok: "disk_ok (disk w)" and content: "file_at (disk w) (path_of tmp) content"
    and sniff: "sniff_header (take 262 content) = archiveZip"
    and es: "zip_OpenReader lib content = Inr (map (\<lambda>rel. zip_member (member_name rel, cs rel)) rels)"
    and plain: "\<forall>rel\<in>set rels. \<forall>x\<in>set rel. plain_name x"
    and dir: "path_of dir \<notin> {[], [''/'']}" "plain_path (path_of dir)" "plain_name (''.upload-'' @ rnd)"
    and free: "\<not> blocked (disk w) (path_of dir @ [''.upload-'' @ rnd])" "map_of (disk w) (path_of dir @ [''.upload-'' @ rnd]) = None"
  shows "\<exists>s w'. ExtractArchive lib rnd tmp dir w = (Inr s, w')"
proof -
  define s where "s = dir @ CHR ''/'' # ''.upload-'' @ rnd"
  have dn: "dir \<noteq> []" using dir(1) by (auto simp: path_of_Nil)
  have s: "path_of s = path_of dir @ [''.upload-'' @ rnd]" unfolding s_def by (rule path_of_staging [OF dir(3) dn])
  obtain w1 w2 where mk: "MkdirAll dir w = (Inr (), w1)" "Mkdir s w1 = (Inr (), w2)" and w2: "faults w2 = []"
    "filling (path_of s) (disk w2)" "same_files (disk w) (disk w2)"
    by (rule staging_made [OF nf ok dir(1,2) s dir(3) free [folded s]])
  have "disk_ok (disk w2)" "file_at (disk w2) (path_of tmp) content" using w2 content by (simp_all add: filling_def same_files_def)
  then have read: "os_ReadFile tmp w = (Inr content, w)" "os_ReadFile tmp w2 = (Inr content, w2)"
    using os_ReadFile_run [OF nf ok content] os_ReadFile_run [OF w2(1)] by simp_all
  obtain w' where all: "forE (map (\<lambda>rel. zip_member (member_name rel, cs rel)) rels) (extractZipEntry (Clean s)) w2 = (Inr (), w')"
    using extract_members_succeed [OF w2(1,2) plain] by blast
  have "sniffArchiveFormat tmp w = (Inr archiveZip, w)"
    using read(1) sniff by (simp add: sniffArchiveFormat_def bindE_def tryE_def mapErrE_def okE_def)
  moreover have "extractZip lib tmp s w2 = (Inr (), w')"
    using read(2) es all by (simp add: extractZip_def bindE_def tryE_def mapErrE_def okE_def)
  ultimately show ?thesis
    using mk unfolding ExtractArchive_def s_def [symmetric] Let_def
    by (simp add: bindE_def tryE_def mapErrE_def okE_def)
qed

text \<open>What an extraction that succeeds leaves below its staging directory.\<close>

lemma extracted_files:
  assumes run: "ExtractArchive lib rnd tmp dir r = (Inr s, r')" and content: "file_at (disk r) (path_of tmp) content"
    and z: "sniff_header (take 262 content) = archiveZip" "zip_OpenReader lib content = Inr (map (\<lambda>rel. zip_member (member_name rel, cs rel)) rels)"
    and plain: "\<forall>rel\<in>set rels. \<forall>x\<in>set rel. plain_name x"
    and ok: "disk_ok (disk r)" and sfx: "plain_name (''.upload-'' @ rnd)" and dir: "path_of dir \<notin> {[], [''/'']}"
  shows "file_at (disk r') (path_of s @ t) c \<longleftrightarrow> t \<in> set rels \<and> tile_file t \<and> c = cs t"
proof -
  have dn: "dir \<noteq> []" using dir by (auto simp: path_of_Nil)
  obtain w3 where s: "s = dir @ CHR ''/'' # ''.upload-'' @ rnd" and new: "map_of (disk r) (path_of s) = None"
    and same: "same_files (disk r) (disk w3)"
    and f: "forE (map (\<lambda>rel. zip_member (member_name rel, cs rel)) rels) (extractZipEntry (Clean s)) w3 = (Inr (), r')"
    using ExtractArchive_zip [OF run content z] by blast
  have "path_of s = path_of dir @ [''.upload-'' @ rnd]" unfolding s by (rule path_of_staging [OF sfx dn])
  then have s': "path_of s \<notin> {[], [''/'']}" using dir by (cases "path_of dir") auto
  have "\<not> file_at (disk r) (path_of s @ t) c"
  proof
    assume a: "file_at (disk r) (path_of s @ t) c"
    then have "t \<noteq> []" using new by (auto simp: file_at_def)
    with a have "fs_dir (disk r) (path_of s)" using disk_ok_above [OF ok] by (simp add: file_at_def)
    then show False using new s' by (simp add: fs_dir_def)
  qed
  then have "\<not> file_at (disk w3) (path_of s @ t) c" using same by (simp add: same_files_def)
  with extract_members [OF f plain s', of t c] show ?thesis by auto
qed

section \<open>The property\<close>

text \<open>The content holds a zip archive whose members are those given, as the reader of the library finds them.\<close>

definition zip_holds :: "archlib \<Rightarrow> string \<Rightarrow> (string \<times> string) list \<Rightarrow> bool" where
  "zip_holds lib content zw \<longleftrightarrow>
     sniff_header (take 262 content) = archiveZip \<and> zip_OpenReader lib content = Inr (map zip_member zw)"

text \<open>
  C19. A version survives its way to another server: when one server has written the archive of a version, and another holds a
  file with this archive and has room for a staging directory, unpacking succeeds, and the files below the staging directory are
  exactly the tiles of the version, each at the same place and with the same contents; the index and whatever else is in the
  version's directory is left out.
\<close>

theorem archive_roundtrip:
  assumes "mapVersionArchiveHandler env dataRoot i v w = (Inr resp, w')" and "payload resp = ZipOf zw"
    and "disk_ok (disk w)" and "faults w = []" and "dataRoot \<noteq> []"
    and "map_of (disk r) (path_of tmp) = Some (FFile content)" and "zip_holds lib content zw"
    and "disk_ok (disk r)" and "faults r = []"
    and "path_of dir \<notin> {[], [''/'']}" and "plain_path (path_of dir)" and "plain_name (''.upload-'' @ rnd)"
    and "\<not> blocked (disk r) (path_of dir @ [''.upload-'' @ rnd])" and "map_of (disk r) (path_of dir @ [''.upload-'' @ rnd]) = None"
  shows "\<exists>s r'. ExtractArchive lib rnd tmp dir r = (Inr s, r') \<and>
    (\<forall>t c. map_of (disk r') (path_of s @ t) = Some (FFile c) \<longleftrightarrow>
       tile_file t \<and> map_of (disk w) (path_of (MapVersionDir env dataRoot i v) @ t) = Some (FFile c))"
proof -
  let ?p = "path_of (MapVersionDir env dataRoot i v)"
  obtain rels where rels: "zw = members (disk w) ?p rels" "\<And>rel. rel \<in> set rels \<longleftrightarrow> (\<exists>c. file_at (disk w) (?p @ rel) c)"
    "\<forall>rel\<in>set rels. \<forall>x\<in>set rel. plain_name x" using archive_members [OF assms(3-5,1)] assms(2) by auto
  define cs where "cs rel = (case map_of (disk w) (?p @ rel) of Some (FFile c) \<Rightarrow> c | _ \<Rightarrow> [])" for rel
  have zip: "map zip_member zw = map (\<lambda>rel. zip_member (member_name rel, cs rel)) rels" by (simp add: rels(1) members_def cs_def)
  have z: "sniff_header (take 262 content) = archiveZip"
    "zip_OpenReader lib content = Inr (map (\<lambda>rel. zip_member (member_name rel, cs rel)) rels)"
    using assms(7) zip by (simp_all add: zip_holds_def)
  note uploaded = assms(6) [folded file_at_def]
  obtain s r' where run: "ExtractArchive lib rnd tmp dir r = (Inr s, r')"
    using ExtractArchive_succeeds [OF assms(9,8) uploaded z rels(3) assms(10-14)] by blast
  have "file_at (disk r') (path_of s @ t) c \<longleftrightarrow> tile_file t \<and> file_at (disk w) (?p @ t) c" for t c
    using extracted_files [OF run uploaded z rels(3) assms(8,12,10), of t c] rels(2) [of t] by (auto simp: file_at_def cs_def)
  with run show ?thesis unfolding file_at_def by blast
qed

text \<open>The version of the example, pulled by a server with an empty data root.\<close>

definition ex_puller_lib :: archlib where
  "ex_puller_lib = ex_arch\<lparr>zip_OpenReader := (\<lambda>_. Inr [zip_member (''0/0/0.png'', ''tile'')])\<rparr>"

definition ex_puller :: msys where
  "ex_puller = ex_msys\<lparr>disk := [([''up''], FFile zipMagic)]\<rparr>"

lemma ex_puller_disk [simp]: "disk ex_puller = [([''up''], FFile zipMagic)]"
  by (simp add: ex_puller_def)

lemma ex_served:
  "map_prod (map_sum id payload) (\<lambda>_. ()) (mapVersionArchiveHandler ex_env ''data'' 11 ''1'' ex_msys) =
     (Inr (ZipOf [(''0/0/0.png'', ''tile'')]), ())"
  by code_simp

theorem archive_roundtrip_witness:
  "\<exists>s r'. ExtractArchive ex_puller_lib ''7'' ''up'' ''data/11'' ex_puller = (Inr s, r') \<and>
     map_of (disk r') (path_of s @ [''0'', ''0'', ''0.png'']) = Some (FFile ''tile'')"
proof -
  obtain resp w' where served: "mapVersionArchiveHandler ex_env ''data'' 11 ''1'' ex_msys = (Inr resp, w')"
    and payload: "payload resp = ZipOf [(''0/0/0.png'', ''tile'')]"
    using ex_served by (cases "mapVersionArchiveHandler ex_env ''data'' 11 ''1'' ex_msys";
        cases "fst (mapVersionArchiveHandler ex_env ''data'' 11 ''1'' ex_msys)") auto
  have p: "path_of ''up'' = [''up'']" "path_of ''data/11'' = [''data'', ''11'']" "path_of (MapVersionDir ex_env ''data'' 11 ''1'') = [''data'', ''11'', ''1'']"
    "plain_name (''.upload-'' @ ''7'')" "plain_name ''up''" "plain_name ''data''" "plain_name ''11''"
    "tile_file [''0'', ''0'', ''0.png'']" "sniff_header (take 262 zipMagic) = archiveZip" by code_simp+
  have ok: "disk_ok (disk ex_puller)" using p(5) by (simp add: disk_ok_def fs_dir_def)
  have "plain_path []" by (simp add: plain_path_def)
  then have pp: "plain_path (path_of ''data/11'')" using plain_path_append [of "[]" "[''data'', ''11'']"] p(2,6,7) by simp
  have holds: "zip_holds ex_puller_lib zipMagic [(''0/0/0.png'', ''tile'')]" using p(9) by (simp add: zip_holds_def ex_puller_lib_def)
  have f: "faults ex_msys = []" "faults ex_puller = []" "map_of (disk ex_msys) [''data'', ''11'', ''1'', ''0'', ''0'', ''0.png''] = Some (FFile ''tile'')"
    by (simp_all add: ex_msys_def ex_puller_def)
  have r: "map_of (disk ex_puller) (path_of ''up'') = Some (FFile zipMagic)" unfolding p by simp
  have dir: "path_of ''data/11'' \<notin> {[], [''/'']}" unfolding p by simp
  have free: "\<not> blocked (disk ex_puller) (path_of ''data/11'' @ [''.upload-'' @ ''7''])"
    "map_of (disk ex_puller) (path_of ''data/11'' @ [''.upload-'' @ ''7'']) = None"
    unfolding p by (simp_all add: blocked_def proper_prefixes_def is_file_def)
  obtain s r' where run: "ExtractArchive ex_puller_lib ''7'' ''up'' ''data/11'' ex_puller = (Inr s, r')"
    and files: "\<And>t c. map_of (disk r') (path_of s @ t) = Some (FFile c) \<longleftrightarrow>
      tile_file t \<and> map_of (disk ex_msys) (path_of (MapVersionDir ex_env ''data'' 11 ''1'') @ t) = Some (FFile c)"
    using archive_roundtrip [OF served payload ex_disk_ok f(1) _ r holds ok f(2) dir pp p(4) free] by blast
  have "map_of (disk r') (path_of s @ [''0'', ''0'', ''0.png'']) = Some (FFile ''tile'')" unfolding files using p(3,8) f(3) by simp
  with run show ?thesis by blast
qed

section \<open>A read that fails while the archive is written\<close>

text \<open>
  The comment on \<open>mapVersionArchiveHandler\<close> expects a failed read to leave a truncated archive, which the puller's reader
  rejects. The deferred \<open>zw.Close\<close> completes the archive: the answer is 200 with a valid archive that lacks the tiles from the
  failed read on.
\<close>

lemma archive_incomplete_after_failed_read:
  "map_prod (map_sum id (\<lambda>r. (status r, payload r))) (\<lambda>_. ())
     (mapVersionArchiveHandler ex_env ''data'' 11 ''1'' (ex_msys\<lparr>faults := [False, False, True]\<rparr>)) =
   (Inr (200, ZipOf [(''0/0/0.png'', [])]), ())"
  by code_simp

end
