(* ===== verification/Divergences.thy ===== *)
theory Divergences
  imports UploadFacts
begin

text \<open>
  Runs of the model, on the example installation, in which the code does not do what a comment or the documentation says it
  does, or what it means to do. Each is computed; \<open>TileFacts\<close>, \<open>StoreFacts\<close> and \<open>MirrorFacts\<close> hold further ones beside the
  properties they limit.
\<close>

text \<open>
  An upload records the new version and makes it the current one before it moves the files into place. When the move
  fails, the client gets 500, and the current version of the map has no directory.
\<close>

lemma failed_rename_publishes_nothing:
  "(let (r, w) = UploadMapVersionHandler ex_env ex_arch ''up'' ''7'' ''data'' (Complete zipMagic) upload_request
                   (ex_msys\<lparr>faults := replicate 20 False @ [True]\<rparr>)
    in (map_sum (\<lambda>r. (status r, payload r)) (\<lambda>_. ()) r, current_in (st_db w) 11, map_of (disk w) [''data'', ''11'', ''2''])) =
   (Inl (500, Message ''failed to store version''), Some ''2'', None)"
  by code_simp

text \<open>
  A tile below \<open>version/current\<close> is served as immutable for a year, though the next upload makes \<open>current\<close> mean another
  version; the same goes for an alias.
\<close>

lemma current_served_as_immutable:
  "PathValue tile_request ''version'' = ''current'' \<and>
   headers (fst (serve (ServeMapVersionFileHandler ex_env ''data'' False [] tile_request) ex_msys)) =
     [(''Cache-Control'', ''public, max-age=31536000, immutable'')]"
  by (simp add: tile_served cacheControl_def) (simp add: tile_request_def)

text \<open>\<open>SeedUser\<close> grants every global permission but one: the seeded user cannot view all maps.\<close>

lemma seeded_user_lacks_view_all:
  "map_sum id p_CanViewAll (fst (GetPermissions ''root'' (snd (SeedUser Inr ''root'' ''pw'' ex_store)))) = Inr False"
  by code_simp

text \<open>
  A key whose scope is cleared and set anew within the life of a cache entry still reaches a version of its old scope:
  \<open>ClearAPIKeyScope\<close> leaves the cached scopes alone.
\<close>

lemma old_scope_survives_rescoping:
  "(let s1 = snd (APIKeyCanAccessMapVersion 30 10 ''1'' ex_store);
        s2 = snd (ClearAPIKeyScope ''bob'' 30 s1);
        s3 = snd (SetAPIKeyScope ''bob'' 30 11 None s2)
    in (map sc_MapUUID (t_api_key_scopes (st_db s3)), fst (APIKeyCanAccessMapVersion 30 10 ''1'' s3))) =
   ([11], Inr True)"
  by code_simp

end
