(* ===== verification/AddressFacts.thy ===== *)
theory AddressFacts
  imports Examples
begin

text \<open>
  The subnets an anonymous client may come from. The masks of \<open>net\<close> work byte by byte; here it is shown what they
  compute: the first bits of two addresses agree.
\<close>

section \<open>Masks\<close>

text \<open>An address as a number, most significant byte first.\<close>

definition ip_val :: "nat list \<Rightarrow> nat" where
  "ip_val bs = foldl (\<lambda>n b. 256 * n + b) 0 bs"

lemma ip_val_snoc [simp]: "ip_val (bs @ [b]) = 256 * ip_val bs + b" "ip_val [] = 0"
  by (simp_all add: ip_val_def)

abbreviation bytes_ok :: "nat list \<Rightarrow> bool" where
  "bytes_ok bs \<equiv> \<forall>b\<in>set bs. b < 256"

lemma and_high_bits:
  assumes "(x::nat) < 256" and "k \<le> 8" shows "and x (256 - 2 ^ k) = 2 ^ k * (x div 2 ^ k)"
proof -
  have "x div 2 ^ k < 2 ^ (8 - k)"
  proof -
    have "(256::nat) = 2 ^ (8 - k) * 2 ^ k" using assms(2) by (simp flip: power_add)
    with assms(1) show ?thesis by (metis less_mult_imp_div_less)
  qed
  then have t: "take_bit (8 - k) (drop_bit k x) = drop_bit k x" by (simp add: take_bit_nat_eq_self drop_bit_eq_div)
  have "(256::nat) - 2 ^ k = push_bit k (mask (8 - k))"
  proof -
    have "(2::nat) ^ k * 2 ^ (8 - k) = 256" using assms(2) by (simp flip: power_add)
    then show ?thesis by (simp add: push_bit_eq_mult mask_eq_exp_minus_1 algebra_simps diff_mult_distrib)
  qed
  moreover have "and x (push_bit k (mask (8 - k))) = push_bit k (take_bit (8 - k) (drop_bit k x))"
    by (rule bit_eqI) (auto simp: bit_simps)
  ultimately show ?thesis using t by (simp add: push_bit_eq_mult drop_bit_eq_div mult.commute)
qed

lemma mask_byte_eq: "mask_byte n i = 256 - 2 ^ (8 - (n - 8 * i))"
  by (auto simp: mask_byte_def)

lemma masked_byte:
  assumes "x < 256" shows "byte_and x (mask_byte n i) = 2 ^ (8 - (n - 8 * i)) * (x div 2 ^ (8 - (n - 8 * i)))"
  unfolding byte_and_def mask_byte_eq using assms by (intro and_high_bits) simp_all

lemma two_digits:
  fixes a :: nat assumes "r < a" "r' < a" shows "a * v + r = a * v' + r' \<longleftrightarrow> v = v' \<and> r = r'"
proof
  assume e: "a * v + r = a * v' + r'"
  have "(a * v + r) div a = v" "(a * v' + r') div a = v'" using assms by (simp_all add: div_mult_self4)
  with e show "v = v' \<and> r = r'" by simp
qed simp

text \<open>Masked addresses agree iff their first bits do.\<close>

lemma masked_iff_prefix:
  assumes "length xs = L" "length ys = L" "bytes_ok xs" "bytes_ok ys"
  shows "map2 byte_and xs (CIDRMask n L) = map2 byte_and ys (CIDRMask n L) \<longleftrightarrow>
    ip_val xs div 2 ^ (8 * L - n) = ip_val ys div 2 ^ (8 * L - n)"
  using assms
proof (induction L arbitrary: xs ys)
  case (Suc L)
  obtain xs' x where xs: "xs = xs' @ [x]" "length xs' = L" using Suc.prems(1) by (cases xs rule: rev_cases) auto
  obtain ys' y where ys: "ys = ys' @ [y]" "length ys' = L" using Suc.prems(2) by (cases ys rule: rev_cases) auto
  have b: "x < 256" "y < 256" "bytes_ok xs'" "bytes_ok ys'" using Suc.prems(3,4) xs ys by auto
  let ?k = "8 - (n - 8 * L)"
  have "CIDRMask n (Suc L) = CIDRMask n L @ [mask_byte n L]" by (simp add: CIDRMask_def)
  moreover have "length (CIDRMask n L) = L" by (simp add: CIDRMask_def)
  ultimately have "map2 byte_and xs (CIDRMask n (Suc L)) = map2 byte_and ys (CIDRMask n (Suc L)) \<longleftrightarrow>
      map2 byte_and xs' (CIDRMask n L) = map2 byte_and ys' (CIDRMask n L) \<and> x div 2 ^ ?k = y div 2 ^ ?k"
    using xs ys b(1,2) by (simp add: masked_byte)
  also have "\<dots> \<longleftrightarrow> ip_val xs' div 2 ^ (8 * L - n) = ip_val ys' div 2 ^ (8 * L - n) \<and> x div 2 ^ ?k = y div 2 ^ ?k"
    using Suc.IH [OF xs(2) ys(2) b(3,4)] by simp
  also have "\<dots> \<longleftrightarrow> ip_val xs div 2 ^ (8 * Suc L - n) = ip_val ys div 2 ^ (8 * Suc L - n)"
  proof (cases "n \<le> 8 * L")
    case True
    then have "8 * Suc L - n = 8 + (8 * L - n)" by simp
    then have e: "(2::nat) ^ (8 * Suc L - n) = 256 * 2 ^ (8 * L - n)" "?k = 8"
      using True by (simp_all only: power_add) simp_all
    have "(256 * v + z) div (256 * 2 ^ (8 * L - n)) = v div 2 ^ (8 * L - n)" if "z < 256" for v z :: nat
      using that by (simp add: div_mult2_eq)
    with e b(1,2) xs ys show ?thesis by simp
  next
    case False
    then have k: "8 * Suc L - n = ?k" "?k \<le> 8" "8 * L - n = 0" by auto
    have p: "(256::nat) = 2 ^ (8 - ?k) * 2 ^ ?k" using k(2) by (simp flip: power_add)
    have d: "(256 * v + z) div 2 ^ ?k = 2 ^ (8 - ?k) * v + z div 2 ^ ?k" for v z :: nat
    proof -
      have "256 * v + z = z + (2 ^ (8 - ?k) * v) * 2 ^ ?k" by (subst p) (simp add: ac_simps)
      then show ?thesis by (simp only: div_mult_self1) simp
    qed
    have lt: "z div 2 ^ ?k < 2 ^ (8 - ?k)" if "z < 256" for z :: nat
      using that p by (metis less_mult_imp_div_less)
    have "2 ^ (8 - ?k) * v + z div 2 ^ ?k = 2 ^ (8 - ?k) * v' + z' div 2 ^ ?k \<longleftrightarrow> v = v' \<and> z div 2 ^ ?k = z' div 2 ^ ?k"
      if "z < 256" "z' < 256" for v v' z z' :: nat
      by (rule two_digits [OF lt [OF that(1)] lt [OF that(2)]])
    with b(1,2) xs ys d k(1,3) show ?thesis by simp
  qed
  finally show ?case .
qed simp

section \<open>Parsed addresses are bytes\<close>

lemma parse_v4_ok: "parse_v4 s = Some bs \<Longrightarrow> length bs = 4 \<and> bytes_ok bs"
proof -
  assume p: "parse_v4 s = Some bs"
  let ?fs = "map v4_field (Split s (CHR ''.''))"
  have l: "length ?fs = 4" and n: "None \<notin> set ?fs" and bs: "bs = map the ?fs"
    using p by (auto simp: parse_v4_def Let_def split: if_splits)
  have "the (v4_field f) < 256" if "f \<in> set (Split s (CHR ''.''))" for f
    using n that by (force simp: v4_field_def split: if_splits)
  with l bs show ?thesis by auto
qed

lemma hex_val_less: "hex_val c = Some n \<Longrightarrow> n < 16"
  by (auto simp: hex_val_def Let_def split: if_splits)

lemma hex_field_less: "\<forall>c\<in>set s. is_hex c \<Longrightarrow> hex_field s < 16 ^ length s"
proof (induction s rule: rev_induct)
  case (snoc c s)
  then obtain n where "hex_val c = Some n" by (auto simp: is_hex_def)
  with snoc hex_val_less [of c n] show ?case by (simp add: hex_field_def)
qed (simp add: hex_field_def)

declare parse_v6_loop.simps [simp del]

lemma hex_group_ok:
  assumes "length (takeWhile is_hex s) \<le> 4" and "bytes_ok acc"
  shows "bytes_ok (acc @ [hex_field (takeWhile is_hex s) div 256, hex_field (takeWhile is_hex s) mod 256])"
proof -
  have "hex_field (takeWhile is_hex s) < 16 ^ length (takeWhile is_hex s)"
    by (rule hex_field_less) (auto dest: set_takeWhileD)
  also have "(16::nat) ^ length (takeWhile is_hex s) \<le> 16 ^ 4" using assms(1) by (intro power_increasing) simp_all
  finally show ?thesis using assms(2) by auto
qed

lemma parse_v6_loop_ok: "parse_v6_loop acc ell s = Some (bs, e) \<Longrightarrow> bytes_ok acc \<Longrightarrow> bytes_ok bs"
proof (induction acc ell s arbitrary: bs e rule: parse_v6_loop.induct)
  case (1 acc ell s)
  define f where "f = takeWhile is_hex s"
  define r where "r = dropWhile is_hex s"
  let ?acc = "acc @ [hex_field f div 256, hex_field f mod 256]"
  note step = 1(3) [unfolded parse_v6_loop.simps [of acc ell s] Let_def, folded f_def r_def]
  note IH = 1(1,2) [folded f_def r_def, OF _ refl refl]
  show ?case
  proof (cases "length acc \<ge> 16")
    case True
    with step 1(4) show ?thesis by (simp split: if_splits)
  next
    case False
    have f: "f \<noteq> []" "length f \<le> 4" using step False by (auto split: if_splits)
    have acc: "bytes_ok ?acc" unfolding f_def by (rule hex_group_ok [OF f(2) [unfolded f_def] 1(4)])
    show ?thesis
    proof (cases "r \<noteq> [] \<and> hd r = CHR ''.''")
      case True
      with step False f obtain v4 where "parse_v4 s = Some v4" "bs = acc @ v4" by (auto split: if_splits option.splits)
      with parse_v4_ok 1(4) show ?thesis by auto
    next
      case nodot: False
      have nf: "\<not> (f = [] \<or> 4 < length f)" using f by simp
      note step2 = step [unfolded if_not_P [OF False] if_not_P [OF nf] if_not_P [OF nodot]]
      show ?thesis
      proof (cases r)
        case Nil
        with step2 have "Some (?acc, ell) = Some (bs, e)" unfolding Nil list.case by blast
        with acc show ?thesis by auto
      next
        case (Cons c r1)
        have st: "(if c \<noteq> CHR '':'' \<or> r1 = [] then None else if hd r1 = CHR '':'' then
           (if ell \<noteq> None then None else if tl r1 = [] then Some (?acc, Some (length ?acc)) else parse_v6_loop ?acc (Some (length ?acc)) (tl r1))
           else parse_v6_loop ?acc ell r1) = Some (bs, e)"
          using step2 unfolding Cons list.case .
        then have c: "\<not> (c \<noteq> CHR '':'' \<or> r1 = [])" by (simp split: if_splits)
        show ?thesis
        proof (cases "hd r1 = CHR '':''")
          case True
          with st c have "ell = None" by (simp split: if_splits)
          show ?thesis
          proof (cases "tl r1 = []")
            case True
            with st c \<open>hd r1 = CHR '':''\<close> \<open>ell = None\<close> acc show ?thesis by auto
          next
            case more: False
            with st c True \<open>ell = None\<close> have "parse_v6_loop ?acc (Some (length ?acc)) (tl r1) = Some (bs, e)" by simp
            from IH(1) [OF False nf nodot refl Cons c True _ more this acc] show ?thesis using \<open>ell = None\<close> by simp
          qed
        next
          case other: False
          with st c have "parse_v6_loop ?acc ell r1 = Some (bs, e)" by simp
          from IH(2) [OF False nf nodot refl Cons c other this acc] show ?thesis .
        qed
      qed
    qed
  qed
qed

lemma parse_v6_ok:
  assumes "parse_v6 s = Some a" shows "length a = 16 \<and> bytes_ok a"
proof -
  obtain ell t where et: "(if HasPrefix s ''::'' then (Some (0::nat), drop 2 s) else (None, s)) = (ell, t)" by (meson surj_pair)
  have p: "(if ell = Some 0 \<and> t = [] then Some (replicate 16 0)
         else case parse_v6_loop [] ell t of None \<Rightarrow> None
         | Some (acc, None) \<Rightarrow> if length acc = 16 then Some acc else None
         | Some (acc, Some e) \<Rightarrow>
             if length acc < 16 then Some (take e acc @ replicate (16 - length acc) 0 @ drop e acc) else None) = Some a"
    using assms unfolding parse_v6_def et Let_def by simp
  show ?thesis
  proof (cases "ell = Some 0 \<and> t = []")
    case False
    with p obtain acc e where l: "parse_v6_loop [] ell t = Some (acc, e)"
      by (auto split: option.splits)
    have b: "bytes_ok acc" by (rule parse_v6_loop_ok [OF l]) simp
    from p False l show ?thesis using b
      by (cases e) (auto split: if_splits dest!: in_set_takeD in_set_dropD)
  qed (use p in auto)
qed

lemma ParseIP_ok:
  assumes "ParseIP s = Some a" shows "length a = 16 \<and> bytes_ok a"
  using assms parse_v6_ok by (auto simp: ParseIP_def v4_prefix_def dest!: parse_v4_ok split: list.splits if_splits)

section \<open>Subnets\<close>

text \<open>The first \<open>n\<close> of \<open>bits\<close> bits agree.\<close>

definition same_prefix :: "nat \<Rightarrow> nat \<Rightarrow> nat list \<Rightarrow> nat list \<Rightarrow> bool" where
  "same_prefix n bits p q \<longleftrightarrow> ip_val p div 2 ^ (bits - n) = ip_val q div 2 ^ (bits - n)"

lemma length_CIDRMask [simp]: "length (CIDRMask n L) = L"
  by (simp add: CIDRMask_def)

lemma mask_idem: "length p = length m \<Longrightarrow> map2 byte_and (map2 byte_and p m) m = map2 byte_and p m"
  by (induction p m rule: list_induct2) (simp_all add: byte_and_def and.assoc)

lemma masked_prefix:
  "length p = L \<Longrightarrow> length q = L \<Longrightarrow> bytes_ok p \<Longrightarrow> bytes_ok q \<Longrightarrow>
     map2 byte_and (map2 byte_and p (CIDRMask n L)) (CIDRMask n L) = map2 byte_and q (CIDRMask n L) \<longleftrightarrow> same_prefix n (8 * L) q p"
  using masked_iff_prefix [of p L q n] by (auto simp: mask_idem same_prefix_def)

lemma To4_16: "length p = 16 \<Longrightarrow> To4 p = Some q \<longleftrightarrow> take 12 p = v4_prefix \<and> q = drop 12 p"
  by (auto simp: To4_def)

text \<open>Masking a sixteen-byte address: what it does to the IPv4 prefix, and to the four bytes after it.\<close>

lemma CIDRMask_split: "CIDRMask n 16 = CIDRMask n 12 @ CIDRMask (n - 96) 4"
proof -
  have "[0..<16] = [0..<12] @ map ((+) 12) [0..<4]" by (simp add: upt_rec)
  moreover have "mask_byte n (12 + i) = mask_byte (n - 96) i" for i by (simp add: mask_byte_eq)
  ultimately show ?thesis by (simp add: CIDRMask_def comp_def)
qed

lemma map2_take_drop: "length p = 16 \<Longrightarrow>
    map2 byte_and p (CIDRMask n 16) = map2 byte_and (take 12 p) (CIDRMask n 12) @ map2 byte_and (drop 12 p) (CIDRMask (n - 96) 4)"
  unfolding CIDRMask_split by (subst append_take_drop_id [of 12 p, symmetric], subst zip_append) simp_all

lemma full_mask: "8 * L \<le> n \<Longrightarrow> length p = L \<Longrightarrow> bytes_ok p \<Longrightarrow> map2 byte_and p (CIDRMask n L) = p"
proof (induction L arbitrary: p)
  case (Suc L)
  obtain p' x where p: "p = p' @ [x]" "length p' = L" using Suc.prems(2) by (cases p rule: rev_cases) auto
  have "CIDRMask n (Suc L) = CIDRMask n L @ [mask_byte n L]" by (simp add: CIDRMask_def)
  with p Suc masked_byte [of x n L] show ?case by simp
qed simp

lemma nth_v4: "v4_prefix ! 11 = 255" by (simp add: v4_prefix_def)

lemma masked_v4_prefix:
  assumes "length p = 16" "bytes_ok p"
  shows "take 12 (map2 byte_and p (CIDRMask n 16)) = v4_prefix \<longleftrightarrow> 96 \<le> n \<and> take 12 p = v4_prefix"
proof (cases "96 \<le> n")
  case True
  have "map2 byte_and (take 12 p) (CIDRMask n 12) = take 12 p"
    using True assms by (intro full_mask) (auto dest: in_set_takeD)
  then show ?thesis using True assms(1) by (simp add: map2_take_drop)
next
  case False
  have b: "p ! 11 < 256" using assms by simp
  have "map2 byte_and p (CIDRMask n 16) ! 11 = byte_and (p ! 11) (mask_byte n 11)"
    using assms(1) by (simp add: CIDRMask_def)
  also have "\<dots> = 2 ^ (8 - (n - 88)) * (p ! 11 div 2 ^ (8 - (n - 88)))" using masked_byte [OF b, of n 11] by simp
  moreover have "n - 88 < 8" using False by simp
  ultimately have "even (map2 byte_and p (CIDRMask n 16) ! 11)" by simp
  then have "take 12 (map2 byte_and p (CIDRMask n 16)) ! 11 \<noteq> 255" by auto
  then have "take 12 (map2 byte_and p (CIDRMask n 16)) \<noteq> v4_prefix" by (metis nth_v4)
  then show ?thesis using False by simp
qed

text \<open>The two notations.\<close>

lemma contains_v4:
  assumes a: "length a4 = 4" "bytes_ok a4" and p: "length p = 16" "bytes_ok p"
  shows "IPNet_Contains \<lparr>net_IP = map2 byte_and a4 (CIDRMask n 4), net_Mask = CIDRMask n 4\<rparr> p \<longleftrightarrow>
    (\<exists>p4. To4 p = Some p4 \<and> same_prefix n 32 p4 a4)"
proof (cases "To4 p")
  case None
  then show ?thesis using a p by (simp add: IPNet_Contains_def net_reduced_def To4_def Let_def)
next
  case (Some p4)
  then have "length p4 = 4" "bytes_ok p4" using p by (auto simp: To4_16 dest: in_set_dropD)
  with Some a masked_prefix [OF a(1) _ a(2), of p4 n] show ?thesis
    by (simp add: IPNet_Contains_def net_reduced_def To4_def Let_def)
qed

lemma contains_v6:
  assumes a: "length a = 16" "bytes_ok a" and p: "length p = 16" "bytes_ok p"
  shows "IPNet_Contains \<lparr>net_IP = map2 byte_and a (CIDRMask n 16), net_Mask = CIDRMask n 16\<rparr> p \<longleftrightarrow>
    same_prefix n 128 p a \<and> (To4 p = None \<or> 96 \<le> n \<and> To4 a \<noteq> None)"
proof -
  let ?m = "CIDRMask n 16" and ?net = "map2 byte_and a (CIDRMask n 16)"
  have len: "length ?net = 16" using a by simp
  have mapped: "To4 ?net \<noteq> None \<longleftrightarrow> 96 \<le> n \<and> To4 a \<noteq> None" using masked_v4_prefix [OF a, of n] a len by (auto simp: To4_def)
  have whole: "map2 byte_and ?net ?m = map2 byte_and p ?m \<longleftrightarrow> same_prefix n 128 p a" using masked_prefix [OF a(1) p(1) a(2) p(2), of n] by simp
  show ?thesis
  proof (cases "To4 ?net")
    case None
    have "length (case To4 p of Some p4 \<Rightarrow> p4 | None \<Rightarrow> p) = 16 \<longleftrightarrow> To4 p = None" using p by (auto simp: To4_16 split: option.split)
    then show ?thesis using None mapped whole len
      by (auto simp: IPNet_Contains_def net_reduced_def Let_def split: option.splits)
  next
    case (Some q)
    then have q: "q = drop 12 ?net" "take 12 ?net = v4_prefix" and n: "96 \<le> n" using To4_16 [OF len] mapped by auto
    have dm: "drop 12 ?m = CIDRMask (n - 96) 4" unfolding CIDRMask_split by simp
    have halves: "map2 byte_and ?net ?m = map2 byte_and p ?m \<longleftrightarrow> take 12 p = v4_prefix \<and>
        map2 byte_and q (CIDRMask (n - 96) 4) = map2 byte_and (drop 12 p) (CIDRMask (n - 96) 4)"
    proof -
      have "map2 byte_and (take 12 ?net) (CIDRMask n 12) = take 12 ?net" "map2 byte_and (take 12 p) (CIDRMask n 12) = take 12 p"
        using n p q(2) by (auto intro!: full_mask simp: v4_prefix_def dest: in_set_takeD)
      moreover have "length v4_prefix = length (take 12 p)" using p(1) by (simp add: v4_prefix_def)
      ultimately show ?thesis unfolding map2_take_drop [OF len] map2_take_drop [OF p(1)] q(1) q(2)
        by (simp only: append_eq_append_conv) auto
    qed
    have "IPNet_Contains \<lparr>net_IP = ?net, net_Mask = ?m\<rparr> p \<longleftrightarrow> take 12 p = v4_prefix \<and>
        map2 byte_and q (CIDRMask (n - 96) 4) = map2 byte_and (drop 12 p) (CIDRMask (n - 96) 4)"
      using Some q(1) len p dm by (auto simp: IPNet_Contains_def net_reduced_def Let_def To4_16 split: option.split)
        (auto simp: To4_def)
    then show ?thesis using halves whole mapped Some by simp
  qed
qed

text \<open>What an entry of the list admits, read off its text.\<close>

definition in_cidr :: "string \<Rightarrow> ip \<Rightarrow> bool" where
  "in_cidr s p \<longleftrightarrow> (\<exists>addr ones a. Cut s (CHR ''/'') = (addr, ones, True) \<and> ParseIP addr = Some a \<and>
    (let n = nat (digits_val ones) in
     case (if CHR '':'' \<in> set addr then None else To4 a) of
       Some a4 \<Rightarrow> (\<exists>p4. To4 p = Some p4 \<and> same_prefix n 32 p4 a4)
     | None \<Rightarrow> same_prefix n 128 p a \<and> (To4 p = None \<or> 96 \<le> n \<and> To4 a \<noteq> None)))"

lemma ParseCIDR_contains:
  assumes net: "ParseCIDR s = Some net" and p: "ParseIP t = Some p"
  shows "IPNet_Contains net p \<longleftrightarrow> in_cidr s p"
proof -
  obtain addr ones a where c: "Cut s (CHR ''/'') = (addr, ones, True)" and a: "ParseIP addr = Some a"
    using net by (auto simp: ParseCIDR_def split: prod.splits if_splits option.splits)
  let ?n = "nat (digits_val ones)"
  have "IPNet_Contains net p \<longleftrightarrow> (case (if CHR '':'' \<in> set addr then None else To4 a) of
       Some a4 \<Rightarrow> (\<exists>p4. To4 p = Some p4 \<and> same_prefix ?n 32 p4 a4)
     | None \<Rightarrow> same_prefix ?n 128 p a \<and> (To4 p = None \<or> 96 \<le> ?n \<and> To4 a \<noteq> None))"
  proof (cases "if CHR '':'' \<in> set addr then None else To4 a")
    case None
    then have "net = \<lparr>net_IP = map2 byte_and a (CIDRMask ?n 16), net_Mask = CIDRMask ?n 16\<rparr>"
      using net by (auto simp: ParseCIDR_def c a Let_def split: if_splits)
    then show ?thesis using contains_v6 ParseIP_ok [OF a] ParseIP_ok [OF p] None by simp
  next
    case (Some a4)
    then have "net = \<lparr>net_IP = map2 byte_and a4 (CIDRMask ?n 4), net_Mask = CIDRMask ?n 4\<rparr>"
      using net by (auto simp: ParseCIDR_def c a Let_def split: if_splits)
    moreover have "length a4 = 4" "bytes_ok a4" using Some ParseIP_ok [OF a] by (auto simp: To4_16 split: if_splits dest: in_set_dropD)
    ultimately show ?thesis using contains_v4 [of a4 p] ParseIP_ok [OF p] Some by simp
  qed
  then show ?thesis using c a by (simp add: in_cidr_def Let_def)
qed

lemma parse_entries_Inr:
  "parse_entries es = Inr nets \<Longrightarrow> ParseIP t = Some p \<Longrightarrow>
     (nets = [] \<longleftrightarrow> (\<forall>e\<in>set es. TrimSpace e = [])) \<and>
     (list_ex (\<lambda>n. IPNet_Contains n p) nets \<longleftrightarrow> (\<exists>e\<in>set es. TrimSpace e \<noteq> [] \<and> in_cidr (TrimSpace e) p))"
  by (induction es arbitrary: nets) (auto simp: Let_def ParseCIDR_contains split: if_splits option.splits sum.splits)

lemma parse_entries_Nil: "parse_entries es = Inr nets \<Longrightarrow> nets = [] \<longleftrightarrow> (\<forall>e\<in>set es. TrimSpace e = [])"
  by (induction es arbitrary: nets) (auto simp: Let_def split: if_splits option.splits sum.splits)

lemma ClientIP_parsed: "ClientIP r = Some p \<Longrightarrow> \<exists>t. ParseIP t = Some p"
  by (auto simp: ClientIP_def Let_def split: option.splits if_splits)

text \<open>
  C34. Anonymous access goes where the configuration says: a map that allows it admits a request without a token exactly if
  it is not disabled and the list of subnets has no entries or the client's address is in one of them, that is, its first
  bits are those written in the entry; an entry in IPv4 notation admits IPv4 addresses only, and an IPv4 address is in
  an entry in IPv6 notation only if that lies in the range of mapped addresses.
\<close>

theorem anonymous_subnets:
  assumes "parseSubnets raw = Inr nets"
  shows "anonymous_allowed disabled nets r m \<longleftrightarrow> m_AnonymousAllowed m \<and> \<not> disabled \<and>
    ((\<forall>e\<in>set (Split raw (CHR '','')). TrimSpace e = []) \<or>
     (\<exists>p. ClientIP r = Some p \<and> (\<exists>e\<in>set (Split raw (CHR '','')). TrimSpace e \<noteq> [] \<and> in_cidr (TrimSpace e) p)))"
proof (cases "ClientIP r")
  case None
  then show ?thesis using parse_entries_Nil [OF assms [unfolded parseSubnets_def]]
    by (simp add: anonymous_allowed_def IPInSubnets_def)
next
  case (Some p)
  then obtain t where "ParseIP t = Some p" using ClientIP_parsed by blast
  from parse_entries_Inr [OF assms [unfolded parseSubnets_def] this] Some show ?thesis
    by (auto simp: anonymous_allowed_def IPInSubnets_def)
qed

definition lan_request :: "string \<Rightarrow> request" where
  "lan_request addr = (ex_request [] None)\<lparr>RemoteAddr := addr\<rparr>"

lemma lan_addresses:
  "ClientIP (lan_request ''10.63.255.255:80'') = Some (v4_prefix @ [10, 63, 255, 255])"
  "ClientIP (lan_request ''10.64.0.0:80'') = Some (v4_prefix @ [10, 64, 0, 0])"
  "ParseIP ''10.32.0.0'' = Some (v4_prefix @ [10, 32, 0, 0])"
  "Cut ''10.32.0.0/11'' (CHR ''/'') = (''10.32.0.0'', ''11'', True)" "TrimSpace ''10.32.0.0/11'' = ''10.32.0.0/11''"
  "Split ''10.32.0.0/11'' (CHR '','') = [''10.32.0.0/11'']" "digits_val ''11'' = 11"
  "map_sum id (map net_Mask) (parseSubnets ''10.32.0.0/11'') = Inr [[255, 224, 0, 0]]"
  by code_simp+

theorem anonymous_subnets_witness:
  "\<exists>nets. parseSubnets ''10.32.0.0/11'' = Inr nets \<and>
     anonymous_allowed False nets (lan_request ''10.63.255.255:80'') (ex_map 11 ''city'' ''1'' True 3 7) \<and>
     \<not> anonymous_allowed False nets (lan_request ''10.64.0.0:80'') (ex_map 11 ''city'' ''1'' True 3 7)"
proof -
  have t: "To4 (v4_prefix @ bs) = Some bs" if "length bs = 4" for bs using that by (simp add: To4_def v4_prefix_def)
  obtain nets where nets: "parseSubnets ''10.32.0.0/11'' = Inr nets"
    using lan_addresses(8) by (cases "parseSubnets ''10.32.0.0/11''") auto
  show ?thesis
    using nets anonymous_subnets [OF nets, of False "lan_request ''10.63.255.255:80''" "ex_map 11 ''city'' ''1'' True 3 7"]
      anonymous_subnets [OF nets, of False "lan_request ''10.64.0.0:80''" "ex_map 11 ''city'' ''1'' True 3 7"]
    by (simp add: lan_addresses in_cidr_def t same_prefix_def ip_val_def ex_map_def)
qed

end
