(* ===== verification/ManagerFacts.thy ===== *)
theory ManagerFacts
  imports Examples
begin

text \<open>
  The invariant of the sync manager: while the process is not shutting down, the goroutines and the worker
  table agree, and no two goroutines sync the same remote, although a cancelled one may still be in the middle
  of a pass. It is kept by every step of the manager, of a worker and of the requests.
\<close>

section \<open>What leaves the manager alone\<close>

lemma log_line_manager [simp]:
  "workers (log_line i m s) = workers s" "routines (log_line i m s) = routines s"
  "nextRoutine (log_line i m s) = nextRoutine s" "ctxDone (log_line i m s) = ctxDone s"
  "phase (log_line i m s) = phase s"
  by (simp_all add: log_line_def logf_def log_record_def modifyE_def)

lemma on_server_manager [simp]:
  "workers (on_server f s) = workers s" "routines (on_server f s) = routines s"
  "nextRoutine (on_server f s) = nextRoutine s" "ctxDone (on_server f s) = ctxDone s"
  "phase (on_server f s) = phase s"
  by (cases s; simp add: on_server_def server.extend_def)+

lemma map_routine_manager [simp]:
  "workers (map_routine n f s) = workers s" "nextRoutine (map_routine n f s) = nextRoutine s"
  "ctxDone (map_routine n f s) = ctxDone s" "phase (map_routine n f s) = phase s"
  by (simp_all add: map_routine_def)


text \<open>The store operations of \<open>reconcile\<close> do not see the manager's fields.\<close>

abbreviation manager_is :: "'w msys_scheme \<Rightarrow> 'w msys_scheme \<Rightarrow> bool" where
  "manager_is t s \<equiv> workers s = workers t \<and> routines s = routines t \<and> nextRoutine s = nextRoutine t \<and>
     ctxDone s = ctxDone t \<and> phase s = phase t"

lemma exec_manager [pres]: "preserves (manager_is t) (exec f)"
  by (auto simp: preserves_def exec_def split: sum.split)

lemma ListSyncRemotes_manager: "preserves (manager_is t) ListSyncRemotes"
  unfolding ListSyncRemotes_def by (intro pres) simp_all

lemma EnsureSyncUser_manager: "preserves (manager_is t) EnsureSyncUser"
  unfolding EnsureSyncUser_def by (intro pres)

lemma reconcile_begin_cases:
  fixes s :: "'w msys_scheme"
  obtains (failed) "manager_is s (snd (reconcile_begin s))"
  | (read) desired s' where "manager_is s s'" and "snd (reconcile_begin s) = stop_workers desired s'"
proof -
  obtain x s1 where l: "ListSyncRemotes s = (x, s1)" by (meson surj_pair)
  then have s1: "manager_is s s1" using preservesD [OF ListSyncRemotes_manager [of s] _ l] by simp
  show thesis
  proof (cases x)
    case (Inl e)
    with l s1 failed show ?thesis by (simp add: reconcile_begin_def bindE_Inl)
  next
    case (Inr remotes)
    obtain y s2 where e: "(if remotes \<noteq> [] then EnsureSyncUser else okE ()) s1 = (y, s2)" by (meson surj_pair)
    have "preserves (manager_is s) (if remotes \<noteq> [] then EnsureSyncUser else okE () :: ('w, unit) mgr)"
      by (intro pres EnsureSyncUser_manager)
    from preservesD [OF this s1 e] have s2: "manager_is s s2" .
    show ?thesis
    proof (cases y)
      case (Inl er)
      with l Inr e s2 failed show ?thesis by (simp add: reconcile_begin_def bindE_Inr bindE_Inl)
    next
      case (Inr u)
      with l \<open>x = Inr remotes\<close> e s2 read [of s2 "filter sr_Enabled remotes"] show ?thesis
        by (simp add: reconcile_begin_def bindE_Inr modifyE_def)
    qed
  qed
qed

section \<open>The invariant\<close>

abbreviation remote_of :: "nat \<times> routine \<Rightarrow> uuid" where
  "remote_of nr \<equiv> sr_ID (r_remote (snd nr))"

text \<open>\<open>leaving\<close> holds the numbers of the goroutines that are cancelled and have not been waited for.\<close>

definition mgr_ok :: "nat set \<Rightarrow> 'w msys_scheme \<Rightarrow> bool" where
  "mgr_ok leaving s \<longleftrightarrow>
     distinct (map fst (workers s)) \<and> distinct (map fst (routines s)) \<and>
     distinct (map remote_of (routines s)) \<and>
     (\<forall>n r. (n, r) \<in> set (routines s) \<longrightarrow> n < nextRoutine s) \<and>
     (\<forall>i n c. (i, n, c) \<in> set (workers s) \<longrightarrow>
        (\<exists>r. (n, r) \<in> set (routines s) \<and> r_remote r = c \<and> sr_ID c = i \<and> \<not> r_cancelled r)) \<and>
     (\<forall>n r. (n, r) \<in> set (routines s) \<longrightarrow> r_cancelled r \<longrightarrow> n \<in> leaving) \<and>
     (\<forall>n r. (n, r) \<in> set (routines s) \<longrightarrow> \<not> r_cancelled r \<longrightarrow>
        (sr_ID (r_remote r), n, r_remote r) \<in> set (workers s))"

definition leaving_of :: "phase \<Rightarrow> nat set" where
  "leaving_of p = (case p of Waiting stopped _ _ \<Rightarrow> set stopped | _ \<Rightarrow> {})"

text \<open>A worker that runs with the configuration of a desired remote.\<close>

definition up_to_date :: "SyncRemote list \<Rightarrow> 'w msys_scheme \<Rightarrow> bool" where
  "up_to_date desired s \<longleftrightarrow>
     (\<forall>i n c. (i, n, c) \<in> set (workers s) \<longrightarrow> (\<exists>r\<in>set desired. sr_ID r = i \<and> \<not> configChanged c r))"

definition restart_ok :: "'w msys_scheme \<Rightarrow> bool" where
  "restart_ok s \<longleftrightarrow>
     (case phase s of
        Waiting _ restart desired \<Rightarrow>
          distinct (map sr_ID restart) \<and> sr_ID ` set restart \<inter> fst ` set (workers s) = {} \<and>
          set restart \<subseteq> set desired \<and> up_to_date desired s
      | _ \<Rightarrow> True)"

definition mgr_inv :: "'w msys_scheme \<Rightarrow> bool" where
  "mgr_inv s \<longleftrightarrow> ctxDone s \<or> mgr_ok (leaving_of (phase s)) s \<and> restart_ok s"

lemma mgr_ok_same:
  "mgr_ok L s \<Longrightarrow> workers s' = workers s \<Longrightarrow> routines s' = routines s \<Longrightarrow> nextRoutine s' = nextRoutine s \<Longrightarrow> mgr_ok L s'"
  by (simp add: mgr_ok_def)

lemma mgr_inv_change:
  assumes "mgr_inv s" and "\<And>L. mgr_ok L s \<Longrightarrow> mgr_ok L s'"
    and same: "ctxDone s' = ctxDone s" "phase s' = phase s" "workers s' = workers s"
  shows "mgr_inv s'"
proof -
  have "restart_ok s' = restart_ok s" by (cases "phase s") (simp_all add: restart_ok_def up_to_date_def same)
  with assms show ?thesis by (auto simp: mgr_inv_def)
qed

lemma mgr_inv_same: "mgr_inv s \<Longrightarrow> same_manager s s' \<Longrightarrow> mgr_inv s'"
  by (erule mgr_inv_change) (auto simp: same_manager_def intro: mgr_ok_same)

lemma cancelled_update_id [simp]: "r\<lparr>r_cancelled := True\<rparr> = r \<longleftrightarrow> r_cancelled r"
  by (cases r) simp

lemma in_relabel:
  "(k, x) \<in> set (map (\<lambda>(k, r). (k, if P k then f r else r)) rs) \<longleftrightarrow>
     (\<exists>y. (k, y) \<in> set rs \<and> x = (if P k then f y else y))"
  by (force simp: image_iff)

text \<open>A flag of a goroutine other than its cancellation plays no part.\<close>

lemma mgr_ok_map_routine:
  assumes ok: "mgr_ok L s" and f: "\<And>r. r_remote (f r) = r_remote r" "\<And>r. r_cancelled (f r) = r_cancelled r"
  shows "mgr_ok L (map_routine n f s)"
proof -
  let ?g = "\<lambda>(k, r). (k, if k = n then f r else r)"
  have g: "map fst (map ?g rs) = map fst rs" "map remote_of (map ?g rs) = map remote_of rs" for rs
    by (auto simp: f)
  have m: "(k, r) \<in> set (map ?g rs) \<longleftrightarrow> (\<exists>r'. (k, r') \<in> set rs \<and> r = (if k = n then f r' else r'))" for k r rs
    by (rule in_relabel)
  let ?t = "map_routine n f s"
  have r: "routines ?t = map ?g (routines s)" by (simp add: map_routine_def)
  show ?thesis
    unfolding mgr_ok_def r g m map_routine_manager
  proof (intro conjI allI impI)
    fix i k c assume "(i, k, c) \<in> set (workers s)"
    then obtain r where "(k, r) \<in> set (routines s)" "r_remote r = c" "sr_ID c = i" "\<not> r_cancelled r"
      using ok unfolding mgr_ok_def by blast
    then show "\<exists>r. (\<exists>r'. (k, r') \<in> set (routines s) \<and> r = (if k = n then f r' else r')) \<and>
        r_remote r = c \<and> sr_ID c = i \<and> \<not> r_cancelled r"
      using f by metis
  qed (use ok f in \<open>auto simp: mgr_ok_def split: if_splits\<close>)
qed

lemma mgr_inv_map_routine:
  assumes "mgr_inv s" and "\<And>r. r_remote (f r) = r_remote r" "\<And>r. r_cancelled (f r) = r_cancelled r"
  shows "mgr_inv (map_routine n f s)"
  by (rule mgr_inv_change [OF assms(1) mgr_ok_map_routine]) (simp_all add: assms)

lemma mgr_ok_routineD:
  assumes "mgr_ok L s" and "(n, r) \<in> set (routines s)"
  shows "map_of (routines s) n = Some r"
  using assms by (simp add: mgr_ok_def)

lemma mgr_ok_workerD:
  assumes "mgr_ok L s" and "(i, n, c) \<in> set (workers s)"
  shows "\<exists>r. (n, r) \<in> set (routines s) \<and> map_of (routines s) n = Some r \<and> r_remote r = c \<and> sr_ID c = i \<and>
           \<not> r_cancelled r"
proof -
  obtain r where r: "(n, r) \<in> set (routines s)" "r_remote r = c" "sr_ID c = i" "\<not> r_cancelled r"
    using assms unfolding mgr_ok_def by blast
  with mgr_ok_routineD [OF assms(1) r(1)] show ?thesis by blast
qed

section \<open>The critical sections\<close>

lemma fold_cancel_manager [simp]:
  "workers (fold cancel ns s) = workers s" "nextRoutine (fold cancel ns s) = nextRoutine s"
  "ctxDone (fold cancel ns s) = ctxDone s" "phase (fold cancel ns s) = phase s"
  by (induction ns arbitrary: s) (simp_all add: cancel_def)

lemma routines_fold_cancel:
  "routines (fold cancel ns s) =
     map (\<lambda>(k, r). (k, if k \<in> set ns then r\<lparr>r_cancelled := True\<rparr> else r)) (routines s)"
  by (induction ns arbitrary: s) (auto simp: cancel_def map_routine_def)

lemma judge_log_manager [simp]:
  "workers (fold (judge_log d) ws s) = workers s" "routines (fold (judge_log d) ws s) = routines s"
  "nextRoutine (fold (judge_log d) ws s) = nextRoutine s" "ctxDone (fold (judge_log d) ws s) = ctxDone s"
  "phase (fold (judge_log d) ws s) = phase s"
  by (induction ws arbitrary: s) (simp_all add: judge_log_def split: verdict.split)

lemma find_remote_ID: "find_remote i rs = Some r \<Longrightarrow> sr_ID r = i \<and> r \<in> set rs"
  by (auto simp: find_remote_def find_Some_iff)

lemma set_restarts:
  "r \<in> set (restarts desired ws) \<longleftrightarrow> (\<exists>w \<in> set ws. judge desired w = RestartAs r)"
  by (auto simp: restarts_def List.map_filter_def split: verdict.splits intro!: rev_image_eqI)

lemma judge_RestartAs: "judge desired w = RestartAs r \<Longrightarrow> sr_ID r = fst w \<and> r \<in> set desired"
  by (auto simp: judge_def split: option.splits if_splits dest: find_remote_ID)

lemma judge_Keep:
  "judge desired (i, n, c) = Keep \<Longrightarrow> \<exists>r\<in>set desired. sr_ID r = i \<and> \<not> configChanged c r"
  by (auto simp: judge_def split: option.splits if_splits dest: find_remote_ID)

lemma restarts_Cons:
  "restarts desired (w # ws) = (case judge desired w of RestartAs r \<Rightarrow> r # restarts desired ws | _ \<Rightarrow> restarts desired ws)"
  by (simp add: restarts_def List.map_filter_simps split: verdict.split)

lemma distinct_restarts: "distinct (map fst ws) \<Longrightarrow> distinct (map sr_ID (restarts desired ws))"
proof (induction ws)
  case Nil then show ?case by (simp add: restarts_def List.map_filter_simps)
next
  case (Cons w ws)
  have "sr_ID r \<in> fst ` set ws" if "r \<in> set (restarts desired ws)" for r
    using that by (auto simp: set_restarts dest!: judge_RestartAs)
  with Cons show ?case
    by (auto simp: restarts_Cons split: verdict.split dest: judge_RestartAs)
qed

abbreviation stopped_by :: "SyncRemote list \<Rightarrow> 'w msys_scheme \<Rightarrow> nat list" where
  "stopped_by desired s \<equiv> map (\<lambda>w. fst (snd w)) (filter (\<lambda>w. judge desired w \<noteq> Keep) (workers s))"

lemma stop_workers_simps:
  "workers (stop_workers desired s) = filter (\<lambda>w. judge desired w = Keep) (workers s)"
  "phase (stop_workers desired s) = Waiting (stopped_by desired s) (restarts desired (workers s)) desired"
  "nextRoutine (stop_workers desired s) = nextRoutine s" "ctxDone (stop_workers desired s) = ctxDone s"
  "routines (stop_workers desired s) =
     map (\<lambda>(k, r). (k, if k \<in> set (stopped_by desired s) then r\<lparr>r_cancelled := True\<rparr> else r)) (routines s)"
  by (simp_all add: stop_workers_def Let_def routines_fold_cancel)

lemma stop_workers_ok:
  assumes ok: "mgr_ok {} s"
  shows "mgr_ok (set (stopped_by desired s)) (stop_workers desired s)"
proof -
  let ?keep = "\<lambda>w. judge desired w = Keep"
  let ?stopped = "stopped_by desired s" and ?t = "stop_workers desired s"
  note t = stop_workers_simps [of desired s]
  have keys: "map fst (routines ?t) = map fst (routines s)" "map remote_of (routines ?t) = map remote_of (routines s)"
    by (auto simp: t(5))
  have in_r: "(k, x) \<in> set (routines ?t) \<longleftrightarrow>
      (\<exists>y. (k, y) \<in> set (routines s) \<and> x = (if k \<in> set ?stopped then y\<lparr>r_cancelled := True\<rparr> else y))" for k x
    unfolding t(5) by (rule in_relabel)
  have uniq: "i1 = i2 \<and> c1 = c2" if a: "(i1, n, c1) \<in> set (workers s)" and b: "(i2, n, c2) \<in> set (workers s)" for i1 i2 n c1 c2
    using mgr_ok_workerD [OF ok a] mgr_ok_workerD [OF ok b] by auto
  show ?thesis
    unfolding mgr_ok_def
  proof (intro conjI allI impI)
    fix i n c assume "(i, n, c) \<in> set (workers ?t)"
    then have m: "(i, n, c) \<in> set (workers s)" "?keep (i, n, c)" by (auto simp: t(1))
    then have "n \<notin> set ?stopped" using uniq by fastforce
    with mgr_ok_workerD [OF ok m(1)] show "\<exists>r. (n, r) \<in> set (routines ?t) \<and> r_remote r = c \<and> sr_ID c = i \<and> \<not> r_cancelled r"
      by (auto simp: in_r)
  next
    fix n r assume "(n, r) \<in> set (routines ?t)" "r_cancelled r"
    then show "n \<in> set ?stopped" using ok unfolding in_r mgr_ok_def by (auto split: if_splits)
  next
    fix n r assume a: "(n, r) \<in> set (routines ?t)" "\<not> r_cancelled r"
    then have ns: "n \<notin> set ?stopped" and m: "(n, r) \<in> set (routines s)" unfolding in_r by (auto split: if_splits)
    have x: "(sr_ID (r_remote r), n, r_remote r) \<in> set (workers s)" using m a ok unfolding mgr_ok_def by blast
    with ns have "?keep (sr_ID (r_remote r), n, r_remote r)" by force
    with x show "(sr_ID (r_remote r), n, r_remote r) \<in> set (workers ?t)" by (simp add: t(1))
  next
    fix n' r assume "(n', r) \<in> set (routines ?t)"
    then show "n' < nextRoutine ?t" using ok unfolding t(3) in_r mgr_ok_def by blast
  qed (use ok keys in \<open>auto simp: t(1) mgr_ok_def distinct_map_filter\<close>)
qed

lemma restarts_not_running:
  assumes ok: "mgr_ok {} s"
  shows "sr_ID ` set (restarts desired (workers s)) \<inter> fst ` set (workers (stop_workers desired s)) = {}"
proof -
  have "i \<notin> fst ` set (workers (stop_workers desired s))" if "r \<in> set (restarts desired (workers s))" "sr_ID r = i" for r i
  proof
    assume "i \<in> fst ` set (workers (stop_workers desired s))"
    then obtain w2 where w2: "w2 \<in> set (workers s)" "judge desired w2 = Keep" "fst w2 = i" by (auto simp: stop_workers_simps)
    from that obtain w1 where w1: "w1 \<in> set (workers s)" "judge desired w1 = RestartAs r" by (auto simp: set_restarts)
    then have "fst w1 = fst w2" using judge_RestartAs [OF w1(2)] w2(3) that(2) by simp
    with w1(1) w2(1) ok have "w1 = w2" unfolding mgr_ok_def by (meson distinct_map inj_onD)
    with w1 w2 show False by simp
  qed
  then show ?thesis by blast
qed

lemma stop_workers_inv:
  assumes ok: "mgr_ok {} s"
  shows "mgr_inv (stop_workers desired s)"
proof -
  have "distinct (map sr_ID (restarts desired (workers s)))" using ok by (simp add: mgr_ok_def distinct_restarts)
  moreover have "set (restarts desired (workers s)) \<subseteq> set desired" by (auto simp: set_restarts dest: judge_RestartAs)
  moreover have "up_to_date desired (stop_workers desired s)"
    unfolding up_to_date_def stop_workers_simps by (auto dest: judge_Keep)
  ultimately show ?thesis
    using stop_workers_ok [OF ok] restarts_not_running [OF ok]
    by (simp add: mgr_inv_def restart_ok_def stop_workers_simps(2) leaving_of_def)
qed


lemma start_worker_ok:
  assumes ok: "mgr_ok {} s" and run: "\<not> ctxDone s" and new: "sr_ID r \<notin> fst ` set (workers s)"
  shows "mgr_ok {} (start_worker r s)"
proof -
  let ?n = "nextRoutine s"
  let ?new = "(?n, \<lparr>r_remote = r, r_trigger = False, r_cancelled = False, r_started = False\<rparr>)"
  have "filter (\<lambda>(i, w). i \<noteq> sr_ID r) (workers s) = workers s"
    using new by (force simp: filter_id_conv)
  then have w: "workers (start_worker r s) = (sr_ID r, ?n, r) # workers s"
    and rs: "routines (start_worker r s) = ?new # routines s"
    and n: "nextRoutine (start_worker r s) = ?n + 1"
    using run by (simp_all add: start_worker_def startWorkerLocked_def)
  have old: "k < ?n \<and> remote_of (k, x) \<noteq> sr_ID r" if "(k, x) \<in> set (routines s)" for k x
  proof -
    have "(sr_ID (r_remote x), k, r_remote x) \<in> set (workers s)" "k < ?n"
      using ok that unfolding mgr_ok_def by blast+
    with new show ?thesis by force
  qed
  then have "?n \<notin> fst ` set (routines s)" "sr_ID r \<notin> remote_of ` set (routines s)" by fastforce+
  with ok new show ?thesis
    unfolding mgr_ok_def w rs n by (auto dest: old) (meson less_SucI old)+
qed

lemma start_worker_manager [simp]:
  "ctxDone (start_worker r s) = ctxDone s" "phase (start_worker r s) = phase s"
  by (simp_all add: start_worker_def startWorkerLocked_def)

lemma start_all_ctxDone [simp]:
  "ctxDone (fold start_worker rs s) = ctxDone s" "ctxDone (fold start_missing rs s) = ctxDone s"
  by (induction rs arbitrary: s) (simp_all add: start_missing_def)

lemma workers_start_worker:
  "set (workers (start_worker r s)) = insert (sr_ID r, nextRoutine s, r) {w \<in> set (workers s). fst w \<noteq> sr_ID r}"
  by (auto simp: start_worker_def startWorkerLocked_def)

lemma start_workers_ok:
  assumes "mgr_ok {} s" and "\<not> ctxDone s" and "distinct (map sr_ID rs)"
    and "sr_ID ` set rs \<inter> fst ` set (workers s) = {}"
  shows "mgr_ok {} (fold start_worker rs s) \<and> \<not> ctxDone (fold start_worker rs s)"
  using assms
proof (induction rs arbitrary: s)
  case (Cons r rs)
  have "sr_ID ` set rs \<inter> fst ` set (workers (start_worker r s)) = {}"
    using Cons.prems by (auto simp: workers_start_worker)
  with Cons start_worker_ok [of s r] show ?case by simp
qed simp

lemma start_missing_all_ok:
  assumes "mgr_ok {} s" and "\<not> ctxDone s"
  shows "mgr_ok {} (fold start_missing rs s) \<and> \<not> ctxDone (fold start_missing rs s)"
  using assms
proof (induction rs arbitrary: s)
  case (Cons r rs)
  have "mgr_ok {} (start_missing r s) \<and> \<not> ctxDone (start_missing r s)"
    using Cons.prems by (simp add: start_missing_def start_worker_ok)
  with Cons.IH show ?case by simp
qed simp

lemma mgr_ok_empty_leaving:
  assumes "mgr_ok L s" and "\<forall>n\<in>L. n \<notin> fst ` set (routines s)"
  shows "mgr_ok {} s"
proof -
  have "\<not> r_cancelled r" if m: "(n, r) \<in> set (routines s)" for n r
  proof
    assume "r_cancelled r"
    with m assms(1) have "n \<in> L" unfolding mgr_ok_def by blast
    moreover have "n \<in> fst ` set (routines s)" using m by force
    ultimately show False using assms(2) by blast
  qed
  with assms(1) show ?thesis unfolding mgr_ok_def by blast
qed

lemma reconcile_end_inv:
  assumes inv: "mgr_inv s" and p: "phase s = Waiting stopped restart desired"
    and gone: "\<forall>n\<in>set stopped. n \<notin> fst ` set (routines s)"
  shows "mgr_inv (reconcile_end restart desired s)"
proof (cases "ctxDone s")
  case True
  then show ?thesis by (simp add: mgr_inv_def reconcile_end_def)
next
  case False
  with inv p have ok: "mgr_ok (set stopped) s" "distinct (map sr_ID restart)"
    "sr_ID ` set restart \<inter> fst ` set (workers s) = {}"
    by (simp_all add: mgr_inv_def restart_ok_def leaving_of_def)
  have "mgr_ok {} (fold start_missing desired (fold start_worker restart s))"
    using start_missing_all_ok start_workers_ok [OF mgr_ok_empty_leaving [OF ok(1) gone] False ok(2,3)] by blast
  then have "mgr_ok {} (reconcile_end restart desired s)"
    unfolding reconcile_end_def by (rule mgr_ok_same) simp_all
  then show ?thesis by (simp add: mgr_inv_def reconcile_end_def restart_ok_def leaving_of_def)
qed

lemma drop_routine_ok:
  assumes ok: "mgr_ok L s" and r: "map_of (routines s) n = Some r" "r_cancelled r"
  shows "mgr_ok L (drop_routine n s)"
proof -
  have rs: "routines (drop_routine n s) = filter (\<lambda>nr. fst nr \<noteq> n) (routines s)"
    by (simp add: drop_routine_def case_prod_unfold)
  have same: "workers (drop_routine n s) = workers s" "nextRoutine (drop_routine n s) = nextRoutine s"
    by (simp_all add: drop_routine_def)
  have "k \<noteq> n" if "(i, k, c) \<in> set (workers s)" for i k c
    using mgr_ok_workerD [OF ok that] r by auto
  with ok show ?thesis
    unfolding mgr_ok_def same rs by (auto simp: distinct_map_filter)
qed


section \<open>Every step keeps it\<close>

lemma mgr_inv_begin:
  assumes "mgr_inv s" and "phase s = Idle"
  shows "mgr_inv (snd (reconcile_begin s))"
proof (cases rule: reconcile_begin_cases [of s])
  case failed
  with assms(1) show ?thesis by (simp add: mgr_inv_same same_manager_def)
next
  case (read desired s')
  show ?thesis
  proof (cases "ctxDone s")
    case True
    with read show ?thesis by (simp add: mgr_inv_def stop_workers_def Let_def)
  next
    case False
    with assms have "mgr_ok {} s" by (simp add: mgr_inv_def leaving_of_def)
    with read(1) have "mgr_ok {} s'" by (simp add: mgr_ok_same [of "{}" s])
    with read(2) show ?thesis by (simp add: stop_workers_inv)
  qed
qed

lemma Trigger_cases:
  obtains "same_manager s (snd (Trigger i s))"
  | n where "same_manager (map_routine n (\<lambda>r. r\<lparr>r_trigger := True\<rparr>) s) (snd (Trigger i s))"
proof -
  have "same_manager s (snd (Trigger i s)) \<or>
      (\<exists>n. same_manager (map_routine n (\<lambda>r. r\<lparr>r_trigger := True\<rparr>) s) (snd (Trigger i s)))"
    by (auto simp: Trigger_def bindE_def tryE_def getE_def modifyE_def raiseE_def same_manager_def logf_def
        log_record_def split: option.split)
  with that show thesis by blast
qed

lemma mgr_inv_trigger: "mgr_inv s \<Longrightarrow> mgr_inv (snd (Trigger i s))"
proof (cases rule: Trigger_cases [of s i])
  case (2 n)
  moreover assume "mgr_inv s"
  then have "mgr_inv (map_routine n (\<lambda>r. r\<lparr>r_trigger := True\<rparr>) s)" by (rule mgr_inv_map_routine) simp_all
  ultimately show ?thesis by (blast intro: mgr_inv_same)
qed (blast intro: mgr_inv_same)

lemma mgr_inv_exit:
  assumes inv: "mgr_inv s" and r: "map_of (routines s) n = Some r" "r_cancelled r"
  shows "mgr_inv (worker_exit n r s)"
proof -
  let ?t = "log_line (sr_ID (r_remote r)) ''worker stopped'' s"
  have t: "mgr_inv ?t" using inv by (rule mgr_inv_same) (simp add: same_manager_def)
  show ?thesis unfolding worker_exit_def
    by (rule mgr_inv_change [OF t drop_routine_ok [where r = r]]) (simp_all add: r drop_routine_def)
qed

lemma mgr_inv_pass:
  assumes "mgr_inv s" and "\<And>r. r_remote (f r) = r_remote r" and "\<And>r. r_cancelled (f r) = r_cancelled r"
  shows "mgr_inv (on_server p (log_line i msg (map_routine n f s)))"
  by (rule mgr_inv_same [OF mgr_inv_map_routine [OF assms, of n]]) (simp add: same_manager_def)

inductive_cases stepE: "step pass s s'"

lemma own_step_inv: "own_step pass s s' \<Longrightarrow> mgr_inv s \<Longrightarrow> mgr_inv s'"
proof (induction rule: own_step.induct)
  case (tick s n r)
  then show ?case
    unfolding worker_tick_def by (auto intro: mgr_inv_same simp: same_manager_def)
qed (auto simp: worker_first_def worker_triggered_def cancel_all_def Stop_def mgr_inv_begin reconcile_end_inv
       mgr_inv_trigger mgr_inv_exit mgr_inv_same intro!: mgr_inv_pass, auto simp: mgr_inv_def)

lemma step_inv: "step pass s s' \<Longrightarrow> mgr_inv s \<Longrightarrow> mgr_inv s'"
  by (erule stepE) (auto intro: own_step_inv mgr_inv_same)

lemma reachable_inv: "reachable pass s \<Longrightarrow> mgr_inv s"
proof (induction rule: reachable.induct)
  case (init s)
  show ?case by (simp add: NewManager_def mgr_inv_def mgr_ok_def restart_ok_def)
qed (rule step_inv)


section \<open>What a reconciliation ends with\<close>

lemma keys_start_worker: "fst ` set (workers (start_worker r s)) = insert (sr_ID r) (fst ` set (workers s))"
  unfolding workers_start_worker by force

lemma keys_start_all:
  "fst ` set (workers (fold start_worker rs s)) = sr_ID ` set rs \<union> fst ` set (workers s)"
  by (induction rs arbitrary: s) (auto simp: keys_start_worker)

lemma keys_start_missing:
  "fst ` set (workers (fold start_missing rs s)) = sr_ID ` set rs \<union> fst ` set (workers s)"
proof (induction rs arbitrary: s)
  case (Cons r rs)
  have "fst ` set (workers (start_missing r s)) = insert (sr_ID r) (fst ` set (workers s))"
    by (auto simp: start_missing_def keys_start_worker insert_absorb)
  with Cons show ?case by simp
qed simp

lemma up_to_date_start_worker: "up_to_date d s \<Longrightarrow> r \<in> set d \<Longrightarrow> up_to_date d (start_worker r s)"
  unfolding up_to_date_def workers_start_worker by (auto simp: configChanged_def)

lemma up_to_date_start:
  assumes "up_to_date d s"
  shows "set rs \<subseteq> set d \<Longrightarrow> up_to_date d (fold start_worker rs s)"
    and "set rs \<subseteq> set d \<Longrightarrow> up_to_date d (fold start_missing rs s)"
  using assms by (induction rs arbitrary: s) (simp_all add: start_missing_def up_to_date_start_worker)

section \<open>Properties\<close>

text \<open>
  C4. While the process is not shutting down, no two goroutines ever sync the same remote, whatever the order of
  ticks, triggers, reconciliations and requests: a restarted remote's old goroutine has returned before the new
  one starts. Every worker in the table has a live goroutine that runs with the worker's configuration.
\<close>

theorem one_goroutine_per_remote:
  assumes "reachable pass s" and "\<not> ctxDone s"
  shows "distinct (map (\<lambda>(n, r). sr_ID (r_remote r)) (routines s)) \<and>
    (\<forall>(i, n, c) \<in> set (workers s).
       \<exists>r. map_of (routines s) n = Some r \<and> r_remote r = c \<and> sr_ID c = i \<and> \<not> r_cancelled r)"
proof -
  have ok: "mgr_ok (leaving_of (phase s)) s"
    using reachable_inv [OF assms(1)] assms(2) by (simp add: mgr_inv_def)
  have "\<forall>(i, n, c) \<in> set (workers s). \<exists>r. map_of (routines s) n = Some r \<and> r_remote r = c \<and> sr_ID c = i \<and> \<not> r_cancelled r"
    using mgr_ok_workerD [OF ok] by blast
  with ok show ?thesis by (simp add: mgr_ok_def case_prod_unfold)
qed

text \<open>A run: the first reconciliation reads the remote, waits for nobody and starts a worker for it.\<close>

definition ex_begun :: msys where
  "ex_begun = snd (reconcile_begin (NewManager ex_msys))"

definition ex_running :: msys where
  "ex_running = reconcile_end [] [ex_remote] ex_begun"

lemma ex_begun_phase: "phase ex_begun = Waiting [] [] [ex_remote]"
  by (simp add: ex_begun_def reconcile_begin_def ListSyncRemotes_def EnsureSyncUser_def NewManager_def ex_msys_def
      bindE_def tryE_def mapErrE_def okE_def raiseE_def modifyE_def stop_workers_def Let_def restarts_def
      insert_user_do_nothing_def user_conflict_def sql_exists_def order_asc_def ex_db_defs SyncUsername_def
      List.map_filter_simps)

lemma ex_begun_reachable: "reachable (\<lambda>_ s. s) ex_begun"
  unfolding ex_begun_def
  by (rule reachable.step [OF reachable.init step.own [OF own_step.reconcile_begin]]) (simp add: NewManager_def)

lemma ex_begun_manager: "workers ex_begun = []" "routines ex_begun = []" "\<not> ctxDone ex_begun"
  by (simp_all add: ex_begun_def reconcile_begin_def ListSyncRemotes_def EnsureSyncUser_def NewManager_def ex_msys_def
      bindE_def tryE_def mapErrE_def okE_def raiseE_def modifyE_def stop_workers_def Let_def
      insert_user_do_nothing_def user_conflict_def sql_exists_def order_asc_def ex_db_defs SyncUsername_def)

lemma ex_running_reachable: "reachable (\<lambda>_ s. s) ex_running"
  unfolding ex_running_def
  by (rule reachable.step [OF ex_begun_reachable step.own [OF own_step.reconcile_end [OF ex_begun_phase]]]) simp

lemma ex_running_manager: "\<not> ctxDone ex_running" "fst ` set (workers ex_running) = {40}"
  by (simp_all add: ex_running_def reconcile_end_def start_missing_def ex_begun_manager keys_start_worker ex_remote_def)

theorem one_goroutine_per_remote_witness:
  "reachable (\<lambda>_ s. s) ex_running \<and> fst ` set (workers ex_running) = {40} \<and>
   distinct (map (\<lambda>(n, r). sr_ID (r_remote r)) (routines ex_running))"
  using one_goroutine_per_remote [OF ex_running_reachable ex_running_manager(1)] ex_running_manager(2)
    ex_running_reachable by simp



end
