(* ===== verification/ManagerProgress.thy ===== *)
theory ManagerProgress
  imports ManagerFacts
begin

text \<open>
  Progress of the sync manager: a reconciliation that waits for the goroutines it has cancelled can always complete, the
  set it waits for never grows, and after the process is told to stop every goroutine can return.
\<close>

section \<open>Cancelled goroutines\<close>

abbreviation live :: "'w msys_scheme \<Rightarrow> nat set" where
  "live s \<equiv> fst ` set (routines s)"

text \<open>Every goroutine waited for is cancelled, and after shutdown every goroutine is.\<close>

definition told :: "'w msys_scheme \<Rightarrow> bool" where
  "told s \<longleftrightarrow> (\<forall>n r. (n, r) \<in> set (routines s) \<longrightarrow> n \<in> leaving_of (phase s) \<or> ctxDone s \<longrightarrow> r_cancelled r)"

lemma told_same: "told s \<Longrightarrow> same_manager s s' \<Longrightarrow> told s'"
  by (simp add: told_def same_manager_def)

lemma told_map_routine:
  assumes "told s" and "\<And>r. r_cancelled r \<Longrightarrow> r_cancelled (f r)"
  shows "told (map_routine n f s)"
proof -
  have "r_cancelled r" if "(k, r) \<in> set (routines (map_routine n f s))" "k \<in> leaving_of (phase s) \<or> ctxDone s" for k r
    using that assms unfolding map_routine_def told_def by (auto split: if_splits)
  then show ?thesis by (simp add: told_def)
qed

lemma told_drop: "told s \<Longrightarrow> told (drop_routine n s)"
  by (auto simp: told_def drop_routine_def)

lemma told_pass: "told s \<Longrightarrow> (\<And>r. r_cancelled r \<Longrightarrow> r_cancelled (f r)) \<Longrightarrow> told (on_server p (log_line i m (map_routine n f s)))"
  by (rule told_same [OF told_map_routine]) (simp_all add: same_manager_def)

lemma told_stop_workers:
  assumes "told s"
  shows "told (stop_workers d s)"
proof -
  let ?stopped = "map (\<lambda>w. fst (snd w)) (filter (\<lambda>w. judge d w \<noteq> Keep) (workers s))"
  have eq: "ctxDone (stop_workers d s) = ctxDone s" "leaving_of (phase (stop_workers d s)) = set ?stopped"
    "routines (stop_workers d s) = map (\<lambda>(k, r). (k, if k \<in> set ?stopped then r\<lparr>r_cancelled := True\<rparr> else r)) (routines s)"
    by (simp_all add: stop_workers_def Let_def routines_fold_cancel leaving_of_def)
  show ?thesis
    unfolding told_def eq in_relabel
  proof (intro allI impI)
    fix n r assume n: "n \<in> set ?stopped \<or> ctxDone s"
      and "\<exists>y. (n, y) \<in> set (routines s) \<and> r = (if n \<in> set ?stopped then y\<lparr>r_cancelled := True\<rparr> else y)"
    then obtain y where y: "(n, y) \<in> set (routines s)" "r = (if n \<in> set ?stopped then y\<lparr>r_cancelled := True\<rparr> else y)" by blast
    show "r_cancelled r"
    proof (cases "n \<in> set ?stopped")
      case False
      with n y(1) assms have "r_cancelled y" unfolding told_def by blast
      then show ?thesis by (simp add: y(2))
    qed (simp add: y(2))
  qed
qed

lemma told_start:
  fixes s :: "'w msys_scheme"
  assumes "ctxDone s \<longrightarrow> list_all (\<lambda>nr. r_cancelled (snd nr)) (routines s)"
  shows "told (reconcile_end rs d s)"
proof -
  let ?I = "\<lambda>s :: 'w msys_scheme. ctxDone s \<longrightarrow> list_all (\<lambda>nr. r_cancelled (snd nr)) (routines s)"
  have one: "?I s \<Longrightarrow> ?I (start_worker r s)" for r and s :: "'w msys_scheme"
    by (simp add: start_worker_def startWorkerLocked_def)
  have all: "?I s \<Longrightarrow> ?I (fold start_worker rs s)" for s
  proof (induction rs arbitrary: s)
    case (Cons r rs)
    show ?case using Cons.IH [OF one [OF Cons.prems, of r]] by simp
  qed simp
  have missing: "?I s \<Longrightarrow> ?I (fold start_missing d s)" for s
  proof (induction d arbitrary: s)
    case (Cons r d)
    have "?I (start_missing r s)" unfolding start_missing_def using one [OF Cons.prems, of r] Cons.prems by (cases "sr_ID r \<in> fst ` set (workers s)") (simp_all only: if_True if_False)
    from Cons.IH [OF this] show ?case by simp
  qed simp
  show ?thesis using missing [OF all [OF assms]]
    by (auto simp: told_def reconcile_end_def leaving_of_def list_all_iff)
qed

lemma told_Trigger: "told s \<Longrightarrow> told (snd (Trigger i s))"
proof (cases rule: Trigger_cases [of s i])
  case (2 n)
  moreover assume "told s"
  then have "told (map_routine n (\<lambda>r. r\<lparr>r_trigger := True\<rparr>) s)" by (rule told_map_routine) simp
  ultimately show ?thesis by (blast intro: told_same)
qed (blast intro: told_same)

lemma own_step_told: "own_step pass s s' \<Longrightarrow> told s \<Longrightarrow> told s'"
proof (induction rule: own_step.induct)
  case (reconcile_begin s)
  show ?case
  proof (cases rule: reconcile_begin_cases [of s])
    case failed
    with reconcile_begin show ?thesis by (simp add: told_same same_manager_def)
  next
    case (read desired s')
    with reconcile_begin have "told s'" by (simp add: told_same [of s] same_manager_def)
    with read(2) show ?thesis by (simp add: told_stop_workers)
  qed
next
  case (reconcile_end s stopped restart desired)
  then show ?case by (intro told_start) (auto simp: told_def list_all_iff)
next
  case (tick s n r)
  then show ?case by (auto simp: worker_tick_def same_manager_def intro: told_same)
next
  case (exit s n r)
  then show ?case unfolding worker_exit_def by (intro told_drop) (auto simp: same_manager_def intro: told_same)
next
  case (main_stops s)
  then show ?case by (auto simp: told_def Stop_def routines_fold_cancel in_relabel split: if_splits)
next
  case (start_returns s)
  then show ?case by (auto simp: told_def Stop_def routines_fold_cancel in_relabel split: if_splits)
qed (auto simp: worker_first_def worker_triggered_def told_Trigger intro!: told_pass,
     auto simp: told_def cancel_all_def)

lemma reachable_told: "reachable pass s \<Longrightarrow> told s"
proof (induction rule: reachable.induct)
  case (step s s')
  from step(2) show ?case using step(3) by (cases rule: step.cases) (auto intro: own_step_told told_same)
qed (simp add: told_def NewManager_def)

section \<open>Letting a goroutine return\<close>

lemma worker_first_manager:
  "phase (worker_first pass n r s) = phase s" "ctxDone (worker_first pass n r s) = ctxDone s"
  "workers (worker_first pass n r s) = workers s" "routines (worker_first pass n r s) = routines (map_routine n (\<lambda>r. r\<lparr>r_started := True\<rparr>) s)"
  by (simp_all add: worker_first_def)

lemma worker_exit_manager:
  "phase (worker_exit n r s) = phase s" "ctxDone (worker_exit n r s) = ctxDone s"
  "workers (worker_exit n r s) = workers s" "routines (worker_exit n r s) = filter (\<lambda>(k, r). k \<noteq> n) (routines s)"
  by (simp_all add: worker_exit_def drop_routine_def)

lemma keys_without: "fst ` {x \<in> A. case x of (k, r) \<Rightarrow> k \<noteq> n} = fst ` A - {n}"
  by force

lemma map_of_relabel:
  "map_of (map (\<lambda>(k, r). (k, if k = n then f r else r)) rs) n = map_option f (map_of rs n)"
  by (induction rs) auto

text \<open>A cancelled goroutine can return, and nothing else of the manager changes.\<close>

lemma routine_returns:
  assumes "map_of (routines s) n = Some r" and "r_cancelled r"
  obtains s' where "(own_step pass)\<^sup>*\<^sup>* s s'" "phase s' = phase s" "ctxDone s' = ctxDone s" "workers s' = workers s"
    "live s' = live s - {n}" "length (routines s') < length (routines s)"
proof -
  note result = that
  have leaves: thesis if r: "map_of (routines t) n = Some r" "r_started r" "r_cancelled r" and t: "(own_step pass)\<^sup>*\<^sup>* s t"
    "phase t = phase s" "ctxDone t = ctxDone s" "workers t = workers s" "map fst (routines t) = map fst (routines s)" for t r
  proof -
    have "own_step pass t (worker_exit n r t)" by (rule own_step.exit [OF r])
    with t(1) have "(own_step pass)\<^sup>*\<^sup>* s (worker_exit n r t)" by (rule rtranclp.rtrancl_into_rtrancl)
    moreover have "live t = live s" using t(5) by (metis list.set_map)
    then have "live (worker_exit n r t) = live s - {n}" by (simp add: worker_exit_manager keys_without)
    moreover have "length (routines (worker_exit n r t)) < length (routines t)"
      using map_of_SomeD [OF r(1)] by (auto simp: worker_exit_manager intro: length_filter_less)
    moreover have "length (routines t) = length (routines s)" using t(5) by (metis length_map)
    ultimately show thesis using t by (intro result [of "worker_exit n r t"]) (simp_all add: worker_exit_manager)
  qed
  show thesis
  proof (cases "r_started r")
    case True
    then show thesis using leaves [OF assms(1) _ assms(2)] by blast
  next
    case False
    let ?t = "worker_first pass n r s"
    have "own_step pass s ?t" by (rule own_step.first [OF assms(1) False])
    moreover have "map_of (routines ?t) n = Some (r\<lparr>r_started := True\<rparr>)"
      by (simp add: worker_first_manager map_routine_def map_of_relabel assms(1))
    moreover have "map fst (routines ?t) = map fst (routines s)"
      by (simp add: worker_first_manager map_routine_def case_prod_unfold comp_def)
    ultimately show thesis
      using assms(2) by (intro leaves [where t = ?t and r = "r\<lparr>r_started := True\<rparr>"])
        (simp_all add: worker_first_manager(1-3) r_into_rtranclp)
  qed
qed

lemma live_routine:
  assumes "n \<in> live s" obtains r where "map_of (routines s) n = Some r"
  using assms by (metis (full_types) map_of_eq_None_iff not_None_eq)

lemma steps_told: "(own_step pass)\<^sup>*\<^sup>* s s' \<Longrightarrow> told s \<Longrightarrow> told s'"
  by (induction rule: rtranclp_induct) (auto intro: own_step_told)

text \<open>All goroutines of a set of cancelled ones return.\<close>

lemma routines_return:
  fixes s :: "'w msys_scheme"
  assumes "told s" and "ctxDone s \<or> N \<subseteq> leaving_of (phase s)"
  shows "\<exists>s'. (own_step pass)\<^sup>*\<^sup>* s s' \<and> phase s' = phase s \<and> ctxDone s' = ctxDone s \<and> workers s' = workers s \<and>
    live s' = live s - N"
  using assms
proof (induction "length (routines s)" arbitrary: s rule: less_induct)
  case less
  show ?case
  proof (cases "live s \<inter> N = {}")
    case True
    then show ?thesis by (intro exI [of _ s]) auto
  next
    case False
    then obtain n where n: "n \<in> live s" "n \<in> N" by blast
    from live_routine [OF n(1)] obtain r where r: "map_of (routines s) n = Some r" .
    with n less.prems have "r_cancelled r" unfolding told_def using map_of_SomeD by fastforce
    from routine_returns [OF r this, of pass] obtain s1 where s1: "(own_step pass)\<^sup>*\<^sup>* s s1" "phase s1 = phase s"
      "ctxDone s1 = ctxDone s" "workers s1 = workers s" "live s1 = live s - {n}" "length (routines s1) < length (routines s)"
      by blast
    have "told s1" using steps_told [OF s1(1) less.prems(1)] .
    from less.hyps [OF s1(6) this] less.prems(2) obtain s2 where "(own_step pass)\<^sup>*\<^sup>* s1 s2" "phase s2 = phase s1"
      "ctxDone s2 = ctxDone s1" "workers s2 = workers s1" "live s2 = live s1 - N"
      unfolding s1(2,3) by blast
    with s1 n show ?thesis by (intro exI [of _ s2]) auto
  qed
qed

section \<open>Properties\<close>

lemma reconcile_can_end:
  fixes s :: "'w msys_scheme"
  assumes "told s" and p: "phase s = Waiting stopped restart desired"
  obtains s' where "(own_step pass)\<^sup>*\<^sup>* s s'" "phase s' = phase s" "ctxDone s' = ctxDone s" "workers s' = workers s"
    "live s' = live s - set stopped" "own_step pass s' (reconcile_end restart desired s')"
proof -
  have "set stopped \<subseteq> leaving_of (phase s)" by (simp add: p leaving_of_def)
  with routines_return [OF assms(1), of "set stopped" pass] obtain s' where s': "(own_step pass)\<^sup>*\<^sup>* s s'"
    "phase s' = phase s" "ctxDone s' = ctxDone s" "workers s' = workers s" "live s' = live s - set stopped" by blast
  moreover have "own_step pass s' (reconcile_end restart desired s')"
    by (rule own_step.reconcile_end) (use s' p in auto)
  ultimately show thesis by (rule that)
qed

lemma start_phase [simp]:
  "phase (fold start_worker rs s) = phase s" "phase (fold start_missing rs s) = phase s"
  by (induction rs arbitrary: s) (simp_all add: start_missing_def)

lemma reconcile_end_manager [simp]:
  "phase (reconcile_end rs d s) = Idle" "ctxDone (reconcile_end rs d s) = ctxDone s"
  by (simp_all add: reconcile_end_def)

lemma Stop_manager [simp]:
  "phase (Stop s) = phase s" "ctxDone (Stop s) = ctxDone s" "workers (Stop s) = []" "live (Stop s) = live s"
  by (simp_all add: Stop_def routines_fold_cancel image_image case_prod_unfold)

text \<open>From a manager that is about to return, every goroutine can return.\<close>

lemma everything_returns:
  fixes s :: "'w msys_scheme"
  assumes "told s" and "ctxDone s" and "phase s = Returned" and "workers s = []"
  shows "\<exists>s'. (own_step pass)\<^sup>*\<^sup>* s s' \<and> phase s' = Returned \<and> workers s' = [] \<and> routines s' = []"
  using routines_return [of s UNIV pass] assms by auto

lemma idle_returns:
  fixes s :: "'w msys_scheme"
  assumes "told s" and "ctxDone s" and "phase s = Idle"
  shows "\<exists>s'. (own_step pass)\<^sup>*\<^sup>* s s' \<and> phase s' = Returned \<and> workers s' = [] \<and> routines s' = []"
proof -
  let ?t = "(Stop s)\<lparr>phase := Returned\<rparr>"
  have step: "own_step pass s ?t" by (rule own_step.start_returns [OF assms(2,3)])
  have "\<exists>s'. (own_step pass)\<^sup>*\<^sup>* ?t s' \<and> phase s' = Returned \<and> workers s' = [] \<and> routines s' = []"
    by (rule everything_returns [OF own_step_told [OF step assms(1)]]) (simp_all add: assms(2))
  with step show ?thesis by (meson converse_rtranclp_into_rtranclp)
qed


text \<open>The two halves of a reconciliation with a goroutine to wait for in between.\<close>

definition ex_disabled :: msys where
  "ex_disabled = snd (reconcile_begin (ex_running\<lparr>st_db := ex_db\<lparr>t_sync_remotes := []\<rparr>\<rparr>))"

lemma ex_disabled_phase: "phase ex_disabled = Waiting [0] [] []" "live ex_disabled = {0}"
proof -
  have "phase ex_disabled = Waiting [0] [] [] \<and> map fst (routines ex_disabled) = [0]" by code_simp
  then show "phase ex_disabled = Waiting [0] [] []" "live ex_disabled = {0}" by (simp_all flip: list.set_map)
qed

lemma ex_disabled_reachable: "reachable (\<lambda>_ s. s) ex_disabled"
proof -
  let ?s = "ex_running\<lparr>st_db := ex_db\<lparr>t_sync_remotes := []\<rparr>\<rparr>"
  have "step (\<lambda>_ s. s) ex_running ?s" by (rule step.others) (simp add: same_manager_def)
  then have r: "reachable (\<lambda>_ s. s) ?s" by (rule reachable.step [OF ex_running_reachable])
  have "phase ?s = Idle" by (simp add: ex_running_def)
  then have "step (\<lambda>_ s. s) ?s ex_disabled" unfolding ex_disabled_def by (intro step.own own_step.reconcile_begin)
  with r show ?thesis by (rule reachable.step)
qed


definition waits_for :: "'w msys_scheme \<Rightarrow> nat set" where
  "waits_for s = leaving_of (phase s) \<inter> live s"

lemma live_map_routine [simp]: "live (map_routine n f s) = live s"
  by (simp add: map_routine_def image_image case_prod_unfold)

lemma own_step_waiting:
  fixes s :: "'w msys_scheme"
  assumes "own_step pass s s'" and "phase s = Waiting stopped restart desired"
  shows "phase s' = Idle \<and> waits_for s = {} \<or> phase s' = phase s \<and> live s' \<subseteq> live s"
  using assms
proof (cases rule: own_step.cases)
  case (reconcile_end stopped' restart' desired')
  then show ?thesis using assms(2) by (auto simp: waits_for_def leaving_of_def)
next
  case (trigger i)
  have "phase s' = phase s \<and> live s' = live s"
  proof (cases rule: Trigger_cases [of s i])
    case 1
    then show ?thesis by (simp add: trigger same_manager_def)
  next
    case (2 n)
    then have "phase s' = phase s" "routines s' = routines (map_routine n (\<lambda>r. r\<lparr>r_trigger := True\<rparr>) s)"
      by (simp_all add: trigger same_manager_def)
    then show ?thesis by (simp only: live_map_routine simp_thms)
  qed
  then show ?thesis by simp
next
  case (shutdown)
  then show ?thesis by (simp add: cancel_all_def image_image case_prod_unfold)
qed (use assms(2) in \<open>auto simp: worker_first_def worker_tick_def worker_triggered_def worker_exit_manager\<close>)





end
