(* ===== verification/ServerFacts.thy ===== *)
theory ServerFacts
  imports TokenFacts
begin

text \<open>
  What the route table and its guards guarantee of every request: administrative endpoints answer only administrators,
  all but the public ones need a token, nothing changes for a request that is refused, and every request keeps the
  invariant of the store.
\<close>

section \<open>Guards\<close>

text \<open>A property of the state that looks neither at the database, the caches, nor the pending faults survives a guard.\<close>

definition outside_store :: "('w store_scheme \<Rightarrow> bool) \<Rightarrow> bool" where
  "outside_store P \<longleftrightarrow> (\<forall>s d kc pc fs. P s \<longrightarrow> P (s\<lparr>st_db := d\<rparr>) \<and> P (s\<lparr>apiKeyCache := kc\<rparr>) \<and>
     P (s\<lparr>permsCache := pc\<rparr>) \<and> P (s\<lparr>faults := fs\<rparr>))"

lemma outside_store_exec: "outside_store P \<Longrightarrow> preserves P (exec f)"
proof (rule preservesI)
  fix s assume P: "outside_store P" "P s"
  then have "P (s\<lparr>faults := fs\<rparr>)" "P (s\<lparr>st_db := d\<rparr>)" for d fs unfolding outside_store_def by blast+
  moreover have "P ((s\<lparr>st_db := d\<rparr>)\<lparr>faults := fs\<rparr>)" for d fs using P unfolding outside_store_def by blast
  ultimately show "P (snd (exec f s))" by (auto simp: exec_def split: sum.split prod.split)
qed

lemma outside_store_query: "outside_store P \<Longrightarrow> preserves P (query f)"
  unfolding query_def by (rule outside_store_exec)

lemma outside_store_guards:
  assumes P: "outside_store P"
  shows "preserves P (ResolveAPIKeySigningKey k)" "preserves P (RequireAdmin r)"
proof -
  show "preserves P (ResolveAPIKeySigningKey k)"
    unfolding ResolveAPIKeySigningKey_def TouchAPIKeyLastUsed_def
    by (intro pres outside_store_exec [OF P] outside_store_query [OF P]) (use P in \<open>simp_all add: outside_store_def\<close>)
  show "preserves P (RequireAdmin r)"
    unfolding RequireAdmin_def RequirePermission_def GetPermissionsOrFail_def GetPermissions_def fail_def
    by (intro pres outside_store_exec [OF P] outside_store_query [OF P]) (use P in \<open>simp_all add: outside_store_def\<close>)
qed

lemma ParseBearerToken_outside:
  fixes lib :: "('k, 'w) jwtlib"
  assumes jwt: "jwt_contract verifies lib" and P: "outside_store P" and "P s"
  shows "P (snd (ParseBearerToken env lib secret r s))"
proof -
  let ?kf = "resolveTokenKey env lib secret"
  have on_store: "preserves P m \<Longrightarrow> preserves (\<lambda>st. P (snd st)) (on_store m)" for m :: "('w, 'a) sto"
    by (auto simp: preserves_def on_store_def split: prod.splits)
  have capture: "preserves (\<lambda>st. P (snd st)) (capture u k)" for u k
    by (simp add: preserves_def capture_def)
  have kf: "P (snd (snd (?kf t (None, s))))" for t
  proof -
    have "preserves (\<lambda>st. P (snd st)) (?kf t)"
      unfolding resolveTokenKey_def
      by (auto split: option.splits kidHeader.splits intro!: pres on_store capture outside_store_guards(1) [OF P])
    then show ?thesis using assms(3) by (simp add: preserves_def)
  qed
  obtain x cap s1 where p: "jwtParse lib (bearer_token r) ?kf (None, s) = (x, (cap, s1))" by (metis surj_pair)
  have "(cap, s1) = (None, s) \<or> (\<exists>t. (cap, s1) = snd (?kf t (None, s)))"
    using jwt p unfolding jwt_contract_def by (cases x) (metis snd_conv)+
  then have "P s1" using kf assms(3) by (metis snd_conv)
  then show ?thesis using p assms(3)
    by (cases x; cases cap) (simp_all add: ParseBearerToken_def Let_def split: prod.splits)
qed

lemma Middleware_run:
  fixes lib :: "('k, 'w) jwtlib"
  assumes jwt: "jwt_contract verifies lib" and coh: "caches_coherent s" and P: "outside_store P" "P s"
    and run: "Middleware env lib secret req next r s = (x, s')"
  obtains (refused) e where "x = Inl e" "status e = 401" "touched (st_db s) (st_db s')" "caches_coherent s'" "P s'"
  | (passed) u i s1 where "touched (st_db s) (st_db s1)" "caches_coherent s1" "clock s1 = clock s" "P s1"
      "vouched verifies lib secret (st_db s) (clock s) (bearer_token r) u i \<or> \<not> req \<and> bearer_token r = [] \<and> u = [] \<and> i = 0"
      "next (r\<lparr>ctxUsername := u, ctxAPIKeyID := (if i \<noteq> 0 then Some i else ctxAPIKeyID r)\<rparr>) s1 = (x, s')"
proof -
  obtain b s1 where b: "ParseBearerToken env lib secret r s = (b, s1)" by (meson surj_pair)
  note r = ParseBearerToken_run [OF jwt coh b]
  have "P s1" using ParseBearerToken_outside [OF jwt P, of env secret r] b by simp
  show thesis
  proof (cases "req \<and> \<not> b_hadToken b \<or> b_hadToken b \<and> \<not> b_valid b")
    case True
    then show thesis
      using run b r(1) \<open>P s1\<close>
      by (intro refused [of "projl x"]) (auto simp: Middleware_def fail_def raiseE_def)
  next
    case False
    have "vouched verifies lib secret (st_db s) (clock s) (bearer_token r) (b_username b) (b_apiKeyID b) \<or>
      \<not> req \<and> bearer_token r = [] \<and> b_username b = [] \<and> b_apiKeyID b = 0"
      using False r(2-4) by blast
    then show thesis
      using False run b r(1) \<open>P s1\<close> by (intro passed) (auto simp: Middleware_def)
  qed
qed

lemma RequireAdmin_run:
  assumes "caches_coherent s" and "RequireAdmin r s = (x, s')"
  shows "caches_coherent s'" "st_db s' = st_db s"
    "case x of Inl e \<Rightarrow> status e \<in> {403, 500}
     | Inr _ \<Rightarrow> (\<exists>p. permissions_in (st_db s) (ctxUsername r) = Some p \<and> p_IsAdmin p)"
proof -
  obtain y s1 where y: "GetPermissions (ctxUsername r) s = (y, s1)" by (meson surj_pair)
  note st = readsD [OF GetPermissions_reads assms(1) y]
  have run: "(x, s') = (case y of Inl e \<Rightarrow> (Inl (http_Error 500 ''failed to check permissions''), s1)
      | Inr p \<Rightarrow> (if p_IsAdmin p then Inr () else Inl (http_Error 403 ''forbidden''), s1))"
    using assms(2) y
    by (cases y) (auto simp: RequireAdmin_def RequirePermission_def GetPermissionsOrFail_def attempt_def mapErrE_def
        bindE_def tryE_def raiseE_def okE_def fail_def)
  show "caches_coherent s'" "st_db s' = st_db s" using st run by (auto simp: reads_step_def split: sum.splits)
  have "\<exists>p. permissions_in (st_db s) (ctxUsername r) = Some p \<and> p_IsAdmin p" if "y = Inr p" "p_IsAdmin p" for p
    using st that by (auto simp: reads_step_def get_permissions_def permissions_in_def split: sum.splits)
  then show "case x of Inl e \<Rightarrow> status e \<in> {403, 500}
     | Inr _ \<Rightarrow> (\<exists>p. permissions_in (st_db s) (ctxUsername r) = Some p \<and> p_IsAdmin p)"
    using run by (cases y) auto
qed

section \<open>The route table\<close>

fun administrative :: "endpoint \<Rightarrow> bool" where
  "administrative (OnMap e) \<longleftrightarrow> e = MapVersionDownload"
| "administrative (OnAccount e) \<longleftrightarrow> e \<notin> {UsersList, GroupsList, GroupGet}"
| "administrative (OnServer e) \<longleftrightarrow> e \<noteq> CurrentPermissions"
| "administrative _ \<longleftrightarrow> False"

fun anonymous_endpoint :: "endpoint \<Rightarrow> bool" where
  "anonymous_endpoint (Open e) \<longleftrightarrow> True"
| "anonymous_endpoint (OnMap e) \<longleftrightarrow> e = ServeFile"
| "anonymous_endpoint _ \<longleftrightarrow> False"

lemma routes_guarded:
  assumes "rt \<in> set (registerRoutes oidc)"
  shows "administrative (rt_endpoint rt) \<Longrightarrow> rt_guard rt = GuardAdmin"
    and "\<not> anonymous_endpoint (rt_endpoint rt) \<Longrightarrow> rt_guard rt = GuardAuth \<or> rt_guard rt = GuardAdmin"
  using assms by (auto simp: registerRoutes_def Handle_def split: if_splits)

lemma best_in: "best xs = Some y \<Longrightarrow> y \<in> set xs"
  by (induction xs) (auto split: option.splits if_splits)

lemma find_route_in: "find_route rts m p = Some (rt, w) \<Longrightarrow> rt \<in> set rts"
  unfolding find_route_def Let_def by (drule best_in) (auto simp: List.map_filter_def split: option.splits)

section \<open>Requests that are refused\<close>

definition unchanged :: "'w msys_scheme \<Rightarrow> 'w msys_scheme \<Rightarrow> bool" where
  "unchanged s s' \<longleftrightarrow> touched (st_db s) (st_db s') \<and> disk s' = disk s \<and> logEntries s' = logEntries s \<and>
     workers s' = workers s \<and> routines s' = routines s"

definition kept_world :: "'w msys_scheme \<Rightarrow> 'w msys_scheme \<Rightarrow> bool" where
  "kept_world s s' \<longleftrightarrow> disk s' = disk s \<and> logEntries s' = logEntries s \<and> workers s' = workers s \<and> routines s' = routines s"

lemma outside_kept_world: "outside_store (kept_world s)"
  by (simp add: outside_store_def kept_world_def)

lemma unchanged_kept: "unchanged s s' \<longleftrightarrow> touched (st_db s) (st_db s') \<and> kept_world s s'"
  by (simp add: unchanged_def kept_world_def)

lemma kept_world_refl [simp]: "kept_world s s"
  by (simp add: kept_world_def)

lemma guardAdmin_run:
  fixes lib :: "('k, 'w msys_ext server_ext world_ext) jwtlib" and s :: "'w msys_scheme"
  assumes "jwt_contract verifies lib" and "caches_coherent s" and "guardAdmin env lib secret h r s = (x, s')"
  obtains e where "x = Inl e" "unchanged s s'" "status e = 401 \<or> status e \<in> {403, 500} \<and>
      (\<exists>u i. vouched verifies lib secret (st_db s) (clock s) (bearer_token r) u i)"
  | u i p where "vouched verifies lib secret (st_db s) (clock s) (bearer_token r) u i"
      "permissions_in (st_db s) u = Some p" "p_IsAdmin p"
proof -
  note run = assms(3) [unfolded guardAdmin_def guardAuth_def]
  show thesis
  proof (rule Middleware_run [OF assms(1,2) outside_kept_world [of s] kept_world_refl run])
    fix e assume "x = Inl e" "status e = 401" "touched (st_db s) (st_db s')" "kept_world s s'"
    then show thesis by (intro that(1)) (auto simp: unchanged_kept)
  next
    fix u i s1
    let ?r = "r\<lparr>ctxUsername := u, ctxAPIKeyID := (if i \<noteq> 0 then Some i else ctxAPIKeyID r)\<rparr>"
    assume s1: "touched (st_db s) (st_db s1)" "caches_coherent s1" "kept_world s s1"
      and v: "vouched verifies lib secret (st_db s) (clock s) (bearer_token r) u i \<or> \<not> True \<and> bearer_token r = [] \<and> u = [] \<and> i = 0"
      and h: "bindE (RequireAdmin ?r) (\<lambda>_. h ?r) s1 = (x, s')"
    obtain y s2 where y: "RequireAdmin ?r s1 = (y, s2)" by (meson surj_pair)
    note ra = RequireAdmin_run [OF s1(2) y]
    have "kept_world s s2"
      using preservesD [OF outside_store_guards(2) [OF outside_kept_world] s1(3) y] .
    show thesis
    proof (cases y)
      case (Inl e)
      then have "x = Inl e" "s' = s2" using h y by (simp_all add: bindE_Inl)
      with Inl ra s1 v \<open>kept_world s s2\<close> show thesis by (intro that(1) [of e]) (auto simp: unchanged_kept)
    next
      case (Inr z)
      then obtain p where "permissions_in (st_db s1) u = Some p" "p_IsAdmin p" using ra(3) by auto
      moreover have "permissions_in (st_db s1) = permissions_in (st_db s)"
        using s1(1) by (auto simp: touched_def)
      ultimately show thesis using v by (intro that(2)) auto
    qed
  qed
qed

lemma guardAuth_run:
  fixes lib :: "('k, 'w msys_ext server_ext world_ext) jwtlib" and s :: "'w msys_scheme"
  assumes "jwt_contract verifies lib" and "caches_coherent s" and "guardAuth env lib secret h r s = (x, s')"
  obtains e where "x = Inl e" "status e = 401" "unchanged s s'"
  | u i where "vouched verifies lib secret (st_db s) (clock s) (bearer_token r) u i"
proof -
  note run = assms(3) [unfolded guardAuth_def]
  show thesis
    by (rule Middleware_run [OF assms(1,2) outside_kept_world [of s] kept_world_refl run])
      (use that in \<open>auto simp: unchanged_kept\<close>)
qed

section \<open>An example server\<close>

definition ex_config :: ApplicationConfig where
  "ex_config = projr (main_config (\<lambda>_. None) (\<lambda>_. None)
     (map_of [(''JWT_SECRET'', ''s3cret''), (''DATA_ROOT'', ''data''), (''KEYS_DIR'', ''keys'')]))"

definition ex_failure :: "gerror + 'a" where
  "ex_failure = Inl (OpaqueErr ''unavailable'')"

definition ex_app :: "(unit, 'w msys_ext server_ext world_ext, unit, unit, unit, unit, unit) app" where
  "ex_app =
     \<lparr>ap_config = ex_config, ap_env = ex_env, ap_jwt = ex_jwt,
      ap_ldaplib = \<lparr>EscapeFilter = (\<lambda>s. s), DialURL = (\<lambda>_ _. ex_failure), StartTLS = (\<lambda>_ _. ex_failure),
        Bind = (\<lambda>_ _ _. ex_failure), Search = (\<lambda>_ _ _. ex_failure), url_Hostname = (\<lambda>_. None),
        ReadFile = (\<lambda>_. ex_failure), CertsFromPEM = (\<lambda>_. None)\<rparr>,
      ap_ldapAuth = None,
      ap_oidclib = \<lparr>Discover = (\<lambda>_. ex_failure), AuthCodeURL = (\<lambda>_ _ _. []), Exchange = (\<lambda>_ _. ex_failure),
        Verify = (\<lambda>_ _. ex_failure), Claims = (\<lambda>_. ex_failure), urlParse = (\<lambda>_. None)\<rparr>,
      ap_oidcAuth = None,
      ap_crypt = \<lparr>c_cmp = (\<lambda>h p. h = ''hash:'' @ p), c_hash = (\<lambda>p. Inr (''hash:'' @ p)), c_H = (\<lambda>t. ''H:'' @ t)\<rparr>,
      ap_pkix = (\<lambda>_. None, \<lambda>_. ex_failure),
      ap_archlib = \<lparr>zip_OpenReader = (\<lambda>_. ex_failure), tar_Reader = (\<lambda>_. ([], None)), gzip_Reader = (\<lambda>_. ex_failure)\<rparr>,
      ap_synclib = \<lparr>HttpDo = (\<lambda>_ _. ex_failure), SignRS256 = (\<lambda>_ _ _. ex_failure), DecodeMaps = (\<lambda>_. ex_failure),
        DecodeVersions = (\<lambda>_. ex_failure), DecodeAliases = (\<lambda>_. ex_failure), DecodeGeoObjects = (\<lambda>_. ex_failure)\<rparr>,
      ap_privateKey = (), ap_errorText = (\<lambda>_. ''error''), ap_commit = ''c0ffee'', ap_version = ''1.0'',
      ap_openapi = ''openapi'', ap_spaFile = (\<lambda>_. None), ap_spaIndex = ''index''\<rparr>"

definition ex_bodies :: bodies where
  "ex_bodies = \<lparr>bd_login = None, bd_refresh = None, bd_map = None, bd_mapPermission = None, bd_owner = None,
     bd_alias = None, bd_geo = None, bd_user = None, bd_group = None, bd_apiKey = None, bd_scope = None,
     bd_remote = None, bd_upload = BrokenOff []\<rparr>"

definition ex_randoms :: randoms where
  "ex_randoms = \<lparr>rn_uuid = 99, rn_login = \<lparr>ld_password = ex_failure, ld_suffix = ex_failure,
     ld_groups = (\<lambda>_. (97, 98, ex_failure)), ld_refresh = ex_failure\<rparr>, rn_state = ex_failure, rn_nonce = ex_failure,
     rn_tmpName = ''tmp'', rn_staging = ''staging'', rn_keyPair = Inl ''no entropy''\<rparr>"

lemma ex_app_simps [simp]:
  "ap_jwt ex_app = ex_jwt" "ap_env ex_app = ex_env" "ap_oidcAuth ex_app = None" "ap_config ex_app = ex_config"
  "ac_JWTSecret ex_config = ''s3cret''"
proof -
  show "ac_JWTSecret ex_config = ''s3cret''" by code_simp
qed (simp_all add: ex_app_def)

section \<open>Who gets an answer\<close>

lemma bearer_token_routed [simp]:
  "bearer_token (r\<lparr>PathValue := f, ctxUsername := u, ctxAPIKeyID := k\<rparr>) = bearer_token r"
  by (simp add: bearer_token_def Let_def)

text \<open>
  C9. An administrative endpoint answers administrators only: when the path of a request leads to one, the request is either
  refused, by a redirect to the clean path or with 401, 403 or 500, and then nothing but last-used times of API keys and the
  caches change in the whole state, or its token is vouched for and belongs to a user whose effective permissions have
  \<open>IsAdmin\<close>.
\<close>

theorem serveHTTP_admin_only:
  assumes "jwt_contract verifies (ap_jwt a)" and "caches_coherent s"
    and "find_route (registerRoutes (ap_oidcAuth a \<noteq> None)) (Method r) path = Some (rt, w)"
    and "administrative (rt_endpoint rt)" and "serveHTTP a bd rn path r s = (x, s')"
  shows "(\<exists>resp. x = Inl resp \<and> status resp \<in> {401, 403, 500} \<or> x = Inr resp \<and> status resp = 301) \<and> unchanged s s' \<or>
     (\<exists>u i p. vouched verifies (ap_jwt a) (ac_JWTSecret (ap_config a)) (st_db s) (clock s) (bearer_token r) u i \<and>
        permissions_in (st_db s) u = Some p \<and> p_IsAdmin p)"
proof (cases "cleanPath path = path")
  case False
  with assms(5) show ?thesis by (auto simp: serveHTTP_def okE_def unchanged_def)
next
  case True
  let ?r = "r\<lparr>PathValue := (\<lambda>n. case map_of w n of None \<Rightarrow> [] | Some v \<Rightarrow> PathUnescape v),
    ctxUsername := [], ctxAPIKeyID := None\<rparr>"
  have "rt_guard rt = GuardAdmin" by (rule routes_guarded(1) [OF find_route_in [OF assms(3)] assms(4)])
  with True assms(3,5) have "guardAdmin (ap_env a) (ap_jwt a) (ac_JWTSecret (ap_config a))
      (run_endpoint a bd rn (rt_endpoint rt)) ?r s = (x, s')"
    by (simp add: serveHTTP_def guarded_def)
  then show ?thesis
    by (rule guardAdmin_run [OF assms(1,2)]) auto
qed


definition ex_get :: "string \<Rightarrow> request" where
  "ex_get token = bearing token (ex_request [] None)"

lemma ex_find_route:
  "find_route (registerRoutes False) ''GET'' ''/audit-logs'' =
     Some (Handle ''GET'' ''/audit-logs'' GuardAdmin (OnServer AuditLogs), [])"
  "find_route (registerRoutes False) ''GET'' ''/users'' =
     Some (Handle ''GET'' ''/users'' GuardAuth (OnAccount UsersList), [])"
  by code_simp+

lemma ex_vouched:
  "vouched ex_verifies ex_jwt ''s3cret'' ex_db now ''k30'' u i \<Longrightarrow> u = ''bob''"
  "\<not> vouched ex_verifies ex_jwt ''s3cret'' ex_db now [] u i"
  by (auto simp: vouched_def ex_verifies_def ex_token_def ex_db_defs)

lemma ex_get_simps [simp]: "Method (ex_get t) = ''GET''" "bearer_token (ex_get ''k30'') = ''k30''" "bearer_token (ex_get []) = []"
  by (simp_all add: ex_get_def bearing_def ex_request_def bearer_token_def HasPrefix_def)

lemma ex_msys_db [simp]: "st_db ex_msys = ex_db" "clock ex_msys = 1000"
  by (simp_all add: ex_msys_def)

theorem serveHTTP_admin_only_witness:
  "\<exists>x s'. serveHTTP ex_app ex_bodies ex_randoms ''/audit-logs'' (ex_get ''k30'') ex_msys = (x, s') \<and> unchanged ex_msys s' \<and>
     (\<exists>resp. x = Inl resp \<and> status resp \<in> {401, 403, 500} \<or> x = Inr resp \<and> status resp = 301)"
proof -
  obtain x s' where run: "serveHTTP ex_app ex_bodies ex_randoms ''/audit-logs'' (ex_get ''k30'') ex_msys = (x, s')"
    by (meson surj_pair)
  have "permissions_in ex_db ''bob'' = Some p \<Longrightarrow> \<not> p_IsAdmin p" for p
    by (auto simp: permissions_in_def select_permissions_def permission_rows_def ex_db_defs groups_of_def bool_or_perms_def
        user_perms_def group_perms_def)
  moreover from serveHTTP_admin_only [OF _ caches_coherent_ex_msys _ _ run, of ex_verifies] ex_find_route(1)
  have "(\<exists>resp. x = Inl resp \<and> status resp \<in> {401, 403, 500} \<or> x = Inr resp \<and> status resp = 301) \<and> unchanged ex_msys s' \<or>
     (\<exists>u i p. vouched ex_verifies (ex_jwt :: (unit, unit msys_ext server_ext world_ext) jwtlib) ''s3cret'' ex_db 1000 ''k30'' u i \<and>
        permissions_in ex_db u = Some p \<and> p_IsAdmin p)"
    by (simp add: Handle_def ex_jwt_contract)
  ultimately show ?thesis using ex_vouched(1) run by blast
qed


section \<open>The whole life of the process\<close>

text \<open>
  C14. Whatever happens, the schema holds: from any database whose constraints are enforced, once the process has started every
  state it reaches by requests, sync passes and steps of the sync manager, with any statements failing and any time passing, has
  unique keys and identities in range, foreign keys that point to rows, and no cache entry that lives longer than its time to live.
\<close>

theorem process_keeps_schema:
  assumes "jwt_contract verifies (ap_jwt a)" and "enforced c d" and "process_reachable a c d s"
  shows "keys_ok (st_db s) \<and> identities_ok (st_db s) \<and> foreignKeys_ok (st_db s) \<and> caches_fresh s"
  using process_wf [OF assms] by (simp add: db_wf_def)

definition ex_hash :: "string \<Rightarrow> gerror + string" where
  "ex_hash p = Inr (''hash:'' @ p)"

text \<open>A first start: no tables, no key files.\<close>

definition ex_blank :: msys where
  "ex_blank = ex_msys\<lparr>st_db := empty_db, disk := [([], FDir)]\<rparr>"

definition ex_run :: "(gerror + unit \<times> unit option \<times> unit ldapAuthenticator option) \<times> msys" where
  "ex_run = run (Inr (''private'', ''public'')) (\<lambda>_. Inr ()) ex_automigrate empty_catalog ex_hash
     (ap_oidclib (ex_app :: (unit, unit msys_ext server_ext world_ext, unit, unit, unit, unit, unit) app))
     (ap_ldaplib (ex_app :: (unit, unit msys_ext server_ext world_ext, unit, unit, unit, unit, unit) app)) ex_config ex_blank"

definition ex_booted :: msys where
  "ex_booted = snd ex_run"

lemma ex_run_ok: "fst ex_run = Inr ((), None, None)"
  by code_simp

lemma ex_starts: "starts (ex_app :: (unit, unit msys_ext server_ext world_ext, unit, unit, unit, unit, unit) app) empty_catalog empty_db ex_booted"
proof -
  let ?a = "ex_app :: (unit, unit msys_ext server_ext world_ext, unit, unit, unit, unit, unit) app"
  have blank: "st_db ex_blank = empty_db" "boundsCache ex_blank = (\<lambda>_. None)" by (simp_all add: ex_blank_def ex_msys_def)
  have "ex_run = (Inr ((), None, None), ex_booted)" by (simp add: prod_eq_iff ex_booted_def ex_run_ok)
  moreover have "c_hash (ap_crypt ?a) = ex_hash" "ap_privateKey ?a = ()" "ap_ldapAuth ?a = None"
    by (simp_all add: ex_app_def ex_hash_def [abs_def])
  ultimately have "run (Inr (''private'', ''public'')) (\<lambda>_. Inr ()) ex_automigrate empty_catalog (c_hash (ap_crypt ?a))
      (ap_oidclib ?a) (ap_ldaplib ?a) (ap_config ?a) ex_blank = (Inr (ap_privateKey ?a, ap_oidcAuth ?a, ap_ldapAuth ?a), ex_booted)"
    by (simp only: ex_run_def ex_app_simps)
  then show ?thesis unfolding starts_def using blank ex_automigrate_contract by blast
qed

theorem process_keeps_schema_witness:
  "\<exists>s. process_reachable (ex_app :: (unit, unit msys_ext server_ext world_ext, unit, unit, unit, unit, unit) app) empty_catalog empty_db s \<and>
     map u_Username (t_users (st_db s)) = [''admin''] \<and> keys_ok (st_db s)"
proof -
  have r: "process_reachable ex_app empty_catalog empty_db ex_booted" by (rule process_reachable.boot [OF ex_starts])
  have admin: "map u_Username (t_users (st_db ex_booted)) = [''admin'']" by code_simp
  have keys: "keys_ok (st_db ex_booted)"
    using process_keeps_schema [OF _ nothing_enforced r, of ex_verifies] by (simp add: ex_jwt_contract)
  show ?thesis by (rule exI [of _ ex_booted]) (intro conjI r admin keys)
qed

lemma fresh_expires: "fresh now ttl x \<Longrightarrow> now + ttl < t \<Longrightarrow> cache_get t x y = None"
  by (cases "cache_get t x y") (force simp: fresh_def ttl_cache.lives_until_def)+

text \<open>
  C26. Bounded staleness: in any state the process reaches, an answer served from a cache later on was entered at most its
  time to live before: 15 seconds for a map, permissions, grants, an alias, a signing key or a key's scope, and half an hour for the
  current version of a map.
\<close>

theorem cached_answers_expire:
  assumes "jwt_contract verifies (ap_jwt a)" and "enforced c d" and "process_reachable a c d s"
  shows "(\<forall>t. clock s + 15 * second < t \<longrightarrow>
       cache_get t (mapCache s) i = None \<and> cache_get t (permsCache s) u = None \<and> cache_get t (mapPermCache s) g = None \<and>
       cache_get t (mapAliasCache s) l = None \<and> cache_get t (apiKeyCache s) k = None \<and> cache_get t (apiKeyScopeCache s) sc = None) \<and>
     (\<forall>t. clock s + 30 * minute < t \<longrightarrow> cache_get t (currentVersionCache s) i = None)"
proof -
  have "caches_fresh s" using process_wf [OF assms] by simp
  then show ?thesis unfolding caches_fresh_def cacheTTL_def mapVersionTTL_def
    by (auto elim!: fresh_expires)
qed

theorem cached_answers_expire_witness:
  "cache_get (clock ex_booted + 16 * second) (permsCache ex_booted) ''admin'' = None"
  using cached_answers_expire [where u = "''admin''" and verifies = ex_verifies,
    OF _ nothing_enforced process_reachable.boot [OF ex_starts]]
  by (simp add: ex_jwt_contract second_def)

end
