(* ===== verification/Spec2Isabelle.thy ===== *)
theory Spec2Isabelle
  imports MembershipFacts CacheFacts UploadFacts MirrorFacts Divergences AddressFacts ManagerProgress ServerFacts
begin

text \<open>
  A model of \<open>tileserve-go\<close>, an HTTP server for versioned map tiles: the store over Postgres, the HTTP handlers, the
  authentication, the tile archives on disk, and the synchronisation with other servers of the same kind; and the
  properties that make these parts correct.

  \<^bold>\<open>How the program is modelled.\<close>
  A Go function that may fail is an action \<open>'s \<Rightarrow> ('e + 'a) \<times> 's\<close> (theory \<open>Prelude\<close>): \<open>Inl\<close> is the error it returns, or in a
  handler the response it has written before an early \<open>return\<close>. The combinators \<open>tryE\<close>, \<open>bindE\<close>, \<open>mapErrE\<close>, \<open>forE\<close>,
  \<open>foldE\<close>, \<open>transaction\<close>, \<open>ignoreE\<close> and \<open>finallyE\<close> are the shapes of Go's error handling, so a definition reads like the
  function it models, every \<open>return\<close> a branch. The state is a record that grows with the layers: \<open>store\<close> (rows, caches,
  clock), \<open>world\<close> (with the files), \<open>server\<close> (with the logs of the sync), \<open>msys\<close> (with the goroutines of the sync manager);
  an operation of one layer is polymorphic in the fields of the layers above. Any statement to the database and any call to the
  file system may fail for reasons outside the model: \<open>faults\<close> is the schedule of these failures, and every property holds for
  every schedule unless it names an assumption about it.

  \<^bold>\<open>The theories.\<close>
  \<^item> \<open>GoStrings\<close>: the functions of \<open>strings\<close>, \<open>strconv\<close>, \<open>regexp\<close> and \<open>path/filepath\<close> the server uses.
  \<^item> \<open>TtlCache\<close>: \<open>internal/store/cache.go\<close>, with the locale \<open>lookup_cache\<close> of the laws its clients rely on, interpreted on it.
  \<^item> \<open>Schema\<close>: errors, rows, tables, keys and constraints of \<open>internal/store\<close>, statements and transactions. \<open>StoreUsers\<close>,
    \<open>StoreMaps\<close>, \<open>StorePerms\<close>, \<open>StoreGroups\<close>, \<open>StoreContent\<close>, \<open>StoreKeys\<close>, \<open>StoreSync\<close>: the operations, one definition for each
    method of \<open>Store\<close>, file by file. \<open>Migration\<close>: \<open>Store.Migrate\<close>, over a catalogue of constraints and indexes.
  \<^item> \<open>HttpUtil\<close> (\<open>internal/httputil\<close>), \<open>Access\<close> (\<open>webserver/authz.go\<close> and the resolution of version segments),
    \<open>MapHandlers\<close>, \<open>AdminHandlers\<close>, \<open>Files\<close> (the other handlers of \<open>internal/webserver\<close>, \<open>internal/serverkey\<close>).
  \<^item> \<open>Tokens\<close> (\<open>auth/jwt\<close>, the middleware), \<open>Login\<close> (passwords, LDAP, refresh tokens), \<open>Oidc\<close> (OpenID Connect).
  \<^item> \<open>Disk\<close> (paths, files and the calls of \<open>os\<close>), \<open>TileArchive\<close> (\<open>internal/tilearchive\<close>: extraction and the tile index).
  \<^item> \<open>Sync\<close> (\<open>internal/sync/sync.go\<close>, \<open>client.go\<close>, \<open>logs.go\<close>: one pass), \<open>Manager\<close> (\<open>manager.go\<close>, \<open>worker.go\<close>: the goroutines as
    a step relation).
  \<^item> \<open>Server\<close> (\<open>cmd/tileserve-go/main.go\<close>, \<open>webserver/spa\<close>): configuration, start-up, guards, the route table and the matching of
    \<open>http.ServeMux\<close>, and the process: requests, manager steps, backfilling, time and failures in any order.

  \<^bold>\<open>What is proved.\<close>
  \<^item> Every operation keeps the constraints of the schema and the freshness of the caches (the \<open>pres\<close> lemmas beside the definitions),
    so every reachable state of the process has them (\<open>ServerFacts\<close>); a migration establishes them (\<open>MigrationFacts\<close>).
  \<^item> \<open>Lookups\<close>: while the caches agree with the rows, a cached lookup is a function of the rows; \<open>CacheFacts\<close>: writes keep them in
    agreement.
  \<^item> \<open>AnswerFacts\<close>: every answer has the status and the schema \<open>openapi.yaml\<close> documents, or is an error with a message.
  \<^item> \<open>AccessFacts\<close>: the guards, the map list and the version resolution decide the policy stated on the rows; \<open>TokenFacts\<close>: who a
    bearer token makes a request; \<open>ServerFacts\<close>: which routes this protects; \<open>LoginFacts\<close> and \<open>MembershipFacts\<close>: when a session is
    issued, and which groups a directory user is in; \<open>AddressFacts\<close>: which clients an anonymous subnet admits.
  \<^item> \<open>StoreFacts\<close>: new versions are new, failed operations change nothing, refresh tokens work once, a revoked key dies with its cache
    entry, array literals and substring patterns mean what they should.
  \<^item> \<open>ArchiveFacts\<close>: extraction is confined to its staging directory (the locales \<open>confined_extractor\<close> and \<open>kept_at_targets\<close>,
    interpreted on the readers of zip and tar archives), the index lists the tiles, backfilling completes; \<open>TileFacts\<close>: only a
    version's files are served; \<open>UploadFacts\<close>: what an upload publishes and what it leaves alone; \<open>MirrorFacts\<close>: a version
    survives its way to another server.
  \<^item> \<open>ManagerFacts\<close>: no remote is synced twice at a time, and after a reconciliation the workers are those of the enabled remotes;
    \<open>ManagerProgress\<close>: a reconciliation and a shutdown can always complete.
  \<^item> \<open>Divergences\<close>, and single lemmas of \<open>TileFacts\<close>, \<open>StoreFacts\<close> and \<open>MirrorFacts\<close>: runs in which the code does something else than
    its comments, its documentation or its purpose say.
  \<^item> \<open>Examples\<close>: a small installation on which the hypotheses of the properties hold.

  \<^bold>\<open>Parameters.\<close>
  Code that is not part of the repository is an argument: the parsers of UUIDs, numbers and timestamps (\<open>webenv\<close>), the JWT package
  (\<open>jwtlib\<close> with \<open>jwt_contract\<close>), bcrypt and the random source (\<open>c_hash\<close> and the fields of \<open>randoms\<close>), LDAP (\<open>ldaplib\<close>), OpenID
  Connect (\<open>oidclib\<close>), the readers of zip, tar and gzip (\<open>archlib\<close>), the remote server (\<open>synclib\<close>), \<open>sort\<close> of the version list, and
  the auto-migration of GORM (\<open>automigrate_contract\<close>). The contracts state the documented behaviour and are the named hypotheses of the
  properties that need them.

  \<^bold>\<open>Bounds.\<close>
  No fuel is used: loops are recursions over lists, or have a measure (the IPv6 parser, decimal digits). Durations and times are
  nanoseconds as unbounded integers; \<open>int\<close> of Go wraps where the code computes with it (\<open>wrap64\<close> in the tile extents), and
  \<open>strconv.Atoi\<close> rejects what 64 bits do not hold. A step of the process is a whole request, a whole sync pass of a remote or one action of
  the manager: requests are taken one after the other, goroutines of different remotes interleave pass by pass.

  \<^bold>\<open>Not modelled.\<close>
  The text of JSON documents (a body is the value that is encoded), the listener with its time-outs and TLS, log output outside the sync
  log, the embedded bundle of the web interface (\<open>src/frontend\<close>, a parameter of \<open>SPAHandler\<close>), the version variables the linker sets,
  and the interleaving of statements of concurrent requests, which Postgres serialises by its transactions. What is left uncovered of the
  Go files are imports, comments and type declarations.
\<close>

end
